(* ===== verification/Prelude.thy ===== *)
theory Prelude
  imports Main "HOL-Library.Sublist" "HOL-Library.List_Lexorder" "HOL-Library.Char_ord"
begin

text \<open>
  Shared vocabulary of the development: the types that stand for Go's identifiers, times and
  errors, the fragment of Go's \<open>strings\<close> package the sources call, keyed tables (rows of a
  database table, looked up and updated by key), and the lemma collections the component
  theories extend.

  Go strings are byte sequences, so they are \<^typ>\<open>string\<close> (a list of 8-bit characters);
  \<open>strings.TrimSpace\<close> strips the ASCII white space of Go's \<open>asciiSpace\<close> table.
  Identifiers (\<open>shared.UUID\<close>) are natural numbers, and 0 is the zero UUID. Instants are
  integers (nanoseconds). A Go function returning \<open>(T, error)\<close> returns a sum, with
  \<open>Inl\<close> for the error.
\<close>

named_theorems go_defs \<open>definitions unfolded in component proofs\<close>
named_theorems go_simps \<open>characteristic equations of the Go string fragment\<close>

type_synonym UUID = nat
type_synonym time = int

abbreviation (input) zero_uuid :: UUID where "zero_uuid \<equiv> 0"

subsection \<open>Results\<close>

fun res_bind :: "'e + 'a \<Rightarrow> ('a \<Rightarrow> 'e + 'b) \<Rightarrow> 'e + 'b" where
  "res_bind (Inl e) f = Inl e"
| "res_bind (Inr a) f = f a"

lemma res_bind_Inr_iff: "res_bind m f = Inr b \<longleftrightarrow> (\<exists>a. m = Inr a \<and> f a = Inr b)"
  by (cases m) auto

fun res_foldM :: "('a \<Rightarrow> 's \<Rightarrow> 'e + 's) \<Rightarrow> 'a list \<Rightarrow> 's \<Rightarrow> 'e + 's" where
  "res_foldM f [] s = Inr s"
| "res_foldM f (x # xs) s = (case f x s of Inl e \<Rightarrow> Inl e | Inr s' \<Rightarrow> res_foldM f xs s')"

lemma res_foldM_invariant:
  assumes "res_foldM f xs s = Inr t" and "P s"
    and "\<And>x s s'. x \<in> set xs \<Longrightarrow> P s \<Longrightarrow> f x s = Inr s' \<Longrightarrow> P s'"
  shows "P t"
  using assms
proof (induction xs arbitrary: s)
  case (Cons x xs)
  then obtain s' where s': "f x s = Inr s'" "res_foldM f xs s' = Inr t"
    by (auto split: sum.splits)
  have "P s'" by (rule Cons.prems(3) [OF _ Cons.prems(2) s'(1)]) simp
  with s'(2) show ?case
    by (rule Cons.IH) (rule Cons.prems(3), auto)
qed simp

subsection \<open>Go's strings package\<close>

definition HasPrefix :: "string \<Rightarrow> string \<Rightarrow> bool" where
  "HasPrefix s p \<longleftrightarrow> take (length p) s = p"

definition HasSuffix :: "string \<Rightarrow> string \<Rightarrow> bool" where
  "HasSuffix s p \<longleftrightarrow> length p \<le> length s \<and> drop (length s - length p) s = p"

definition TrimPrefix :: "string \<Rightarrow> string \<Rightarrow> string" where
  "TrimPrefix s p = (if HasPrefix s p then drop (length p) s else s)"

definition TrimSuffix :: "string \<Rightarrow> string \<Rightarrow> string" where
  "TrimSuffix s p = (if HasSuffix s p then take (length s - length p) s else s)"

fun Contains :: "string \<Rightarrow> string \<Rightarrow> bool" where
  "Contains [] p \<longleftrightarrow> p = []"
| "Contains (c # s) p \<longleftrightarrow> HasPrefix (c # s) p \<or> Contains s p"

fun IndexByte :: "string \<Rightarrow> char \<Rightarrow> int" where
  "IndexByte [] c = -1"
| "IndexByte (x # s) c =
     (if x = c then 0 else (let i = IndexByte s c in if i < 0 then -1 else i + 1))"

text \<open>\<open>strings.Split\<close> at a one-byte separator: the empty string splits into one empty part.\<close>

fun Split :: "string \<Rightarrow> char \<Rightarrow> string list" where
  "Split [] c = [[]]"
| "Split (x # s) c =
     (if x = c then [] # Split s c
      else (case Split s c of [] \<Rightarrow> [[x]] | y # ys \<Rightarrow> (x # y) # ys))"

fun Join :: "string list \<Rightarrow> string \<Rightarrow> string" where
  "Join [] sep = []"
| "Join [x] sep = x"
| "Join (x # y # zs) sep = x @ sep @ Join (y # zs) sep"

definition asciiSpace :: "char \<Rightarrow> bool" where
  "asciiSpace c \<longleftrightarrow> of_char c \<in> {9::nat, 10, 11, 12, 13, 32}"

definition TrimSpace :: "string \<Rightarrow> string" where
  "TrimSpace s = rev (dropWhile asciiSpace (rev (dropWhile asciiSpace s)))"

lemma HasPrefix_iff [go_simps]: "HasPrefix s p \<longleftrightarrow> (\<exists>r. s = p @ r)"
proof
  assume "HasPrefix s p"
  then have "s = p @ drop (length p) s"
    unfolding HasPrefix_def by (metis append_take_drop_id)
  then show "\<exists>r. s = p @ r" by blast
qed (auto simp: HasPrefix_def)

lemma HasSuffix_iff [go_simps]: "HasSuffix s p \<longleftrightarrow> (\<exists>r. s = r @ p)"
proof
  assume h: "HasSuffix s p"
  then have "s = take (length s - length p) s @ p"
    unfolding HasSuffix_def by (metis append_take_drop_id)
  then show "\<exists>r. s = r @ p" by blast
qed (auto simp: HasSuffix_def)

lemma HasPrefix_append [simp]: "HasPrefix (p @ r) p"
  by (simp add: HasPrefix_def)

lemma HasSuffix_append [simp]: "HasSuffix (r @ p) p"
  by (simp add: HasSuffix_def)

lemma TrimSuffix_append [simp]: "TrimSuffix (r @ p) p = r"
  by (simp add: TrimSuffix_def)

lemma TrimPrefix_append [simp]: "TrimPrefix (p @ r) p = r"
  by (simp add: TrimPrefix_def)

lemma TrimSuffix_id: "\<not> HasSuffix s p \<Longrightarrow> TrimSuffix s p = s"
  by (simp add: TrimSuffix_def)

lemma HasSuffix_single: "HasSuffix s [c] \<longleftrightarrow> s \<noteq> [] \<and> last s = c"
  by (cases s rule: rev_cases) (auto simp: HasSuffix_def)

lemma prefix_suffix_middle:
  assumes "length p + length q \<le> length s" and "HasPrefix s p" and "HasSuffix s q"
  shows "s = p @ take (length s - length q - length p) (drop (length p) s) @ q"
proof -
  obtain r where r: "s = p @ r" using assms(2) by (auto simp: HasPrefix_iff)
  obtain r' where r': "s = r' @ q" using assms(3) by (auto simp: HasSuffix_iff)
  from r r' obtain us where "r = us @ q"
    using assms(1) by (auto simp: append_eq_append_conv2)
  with r show ?thesis by simp
qed

lemma Contains_single [go_simps]: "Contains s [c] \<longleftrightarrow> c \<in> set s"
  by (induction s) (auto simp: HasPrefix_def)

lemma IndexByte_neg_iff: "IndexByte s c < 0 \<longleftrightarrow> c \<notin> set s"
  by (induction s) (auto simp: Let_def)

lemma IndexByte_last:
  "IndexByte s c = int (length s) - 1 \<Longrightarrow> c \<in> set s \<Longrightarrow> \<exists>q. s = q @ [c] \<and> c \<notin> set q"
proof (induction s)
  case (Cons x s)
  show ?case
  proof (cases "x = c")
    case True
    with Cons.prems show ?thesis by (intro exI [of _ "[]"]) simp
  next
    case False
    with Cons.prems have "IndexByte s c = int (length s) - 1" "c \<in> set s"
      using IndexByte_neg_iff [of s c] by (auto simp: Let_def split: if_splits)
    with Cons.IH obtain q where "s = q @ [c]" "c \<notin> set q" by blast
    with False show ?thesis by (intro exI [of _ "x # q"]) simp
  qed
qed simp

lemma prefix_before_mark:
  "c \<notin> set q \<Longrightarrow> HasPrefix (p @ c # r) q \<Longrightarrow> HasPrefix p q"
  by (auto simp: HasPrefix_iff append_eq_append_conv2 Cons_eq_append_conv)

lemma Split_ne [simp]: "Split s c \<noteq> []"
  by (induction s) (auto split: list.splits)

lemma Split_no_sep: "p \<in> set (Split s c) \<Longrightarrow> c \<notin> set p"
  by (induction s arbitrary: p) (force split: list.splits if_splits)+

lemma Split_id: "c \<notin> set s \<Longrightarrow> Split s c = [s]"
  by (induction s) auto

lemma Split_append: "c \<notin> set p \<Longrightarrow> Split (p @ c # s) c = p # Split s c"
  by (induction p) auto

lemma Join_Split: "Join (Split s c) [c] = s"
proof (induction s)
  case (Cons x s)
  obtain y ys where sp: "Split s c = y # ys" by (cases "Split s c") auto
  with Cons show ?case by (cases ys) auto
qed simp

lemma Join_Cons_ne: "xs \<noteq> [] \<Longrightarrow> Join (x # xs) sep = x @ sep @ Join xs sep"
  by (cases xs) auto

lemma Split_Join:
  "xs \<noteq> [] \<Longrightarrow> \<forall>p \<in> set xs. c \<notin> set p \<Longrightarrow> Split (Join xs [c]) c = xs"
proof (induction xs)
  case (Cons x xs)
  then show ?case
    by (cases xs) (auto simp: Split_id Split_append)
qed simp

lemma Split_inject: "Split s c = Split t c \<Longrightarrow> s = t"
  by (metis Join_Split)

text \<open>The decimal form \<open>fmt\<close> prints for a natural number.\<close>

fun itoa :: "nat \<Rightarrow> string" where
  "itoa n = (if n < 10 then [char_of (48 + n)] else itoa (n div 10) @ [char_of (48 + n mod 10)])"

declare itoa.simps [simp del]

definition atoi :: "string \<Rightarrow> nat" where
  "atoi s = foldl (\<lambda>a c. 10 * a + (of_char c - 48)) 0 s"

lemma atoi_itoa: "atoi (itoa n) = n"
proof (induction n rule: itoa.induct)
  case (1 n)
  then show ?case by (simp add: itoa.simps [of n] atoi_def)
qed

lemma itoa_inject [simp]: "itoa m = itoa n \<longleftrightarrow> m = n"
  by (metis atoi_itoa)

lemma list_ex_unfold: "list_ex P [] = False" "list_ex P (x # xs) = (P x \<or> list_ex P xs)"
  by simp_all

subsection \<open>First occurrences\<close>

text \<open>The \<open>seen\<close>-map loop that keeps the first occurrence of every element, in order.\<close>

fun dedup_loop :: "'a list \<Rightarrow> 'a list \<Rightarrow> 'a list \<Rightarrow> 'a list" where
  "dedup_loop seen out [] = out"
| "dedup_loop seen out (x # xs) =
     (if x \<in> set seen then dedup_loop seen out xs else dedup_loop (x # seen) (out @ [x]) xs)"

lemma dedup_loop_props:
  "set seen = set out \<Longrightarrow> distinct out \<Longrightarrow>
     set (dedup_loop seen out xs) = set out \<union> set xs \<and> distinct (dedup_loop seen out xs)"
proof (induction xs arbitrary: seen out)
  case (Cons x xs)
  show ?case
  proof (cases "x \<in> set seen")
    case True
    with Cons show ?thesis by auto
  next
    case False
    have "set (x # seen) = set (out @ [x])" "distinct (out @ [x])"
      using False Cons.prems by auto
    from Cons.IH [OF this] False show ?thesis by simp
  qed
qed simp

subsection \<open>Keyed tables\<close>

text \<open>
  A database table is the list of its rows. A row is found by its key; an
  \<open>UPDATE \<dots> WHERE id = ? AND guard\<close> changes every row with that key for which the
  guard holds, and reports how many it changed.
\<close>

definition row_of :: "('r \<Rightarrow> 'k) \<Rightarrow> 'k \<Rightarrow> 'r list \<Rightarrow> 'r option" where
  "row_of key k rows = List.find (\<lambda>r. key r = k) rows"

definition update_where :: "('r \<Rightarrow> bool) \<Rightarrow> ('r \<Rightarrow> 'r) \<Rightarrow> 'r list \<Rightarrow> 'r list" where
  "update_where g f rows = map (\<lambda>r. if g r then f r else r) rows"

definition delete_where :: "('r \<Rightarrow> bool) \<Rightarrow> 'r list \<Rightarrow> 'r list" where
  "delete_where g rows = filter (\<lambda>r. \<not> g r) rows"

definition affected :: "('r \<Rightarrow> bool) \<Rightarrow> 'r list \<Rightarrow> nat" where
  "affected g rows = length (filter g rows)"

definition keyed :: "('r \<Rightarrow> 'k) \<Rightarrow> 'r list \<Rightarrow> bool" where
  "keyed key rows \<longleftrightarrow> distinct (map key rows)"

lemma affected_0_iff: "affected g rows = 0 \<longleftrightarrow> (\<forall>r \<in> set rows. \<not> g r)"
  by (auto simp: affected_def filter_empty_conv)

lemma row_of_Some_iff:
  assumes "keyed key rows"
  shows "row_of key k rows = Some r \<longleftrightarrow> r \<in> set rows \<and> key r = k"
  using assms by (induction rows) (auto simp: row_of_def keyed_def)

lemma row_of_SomeD: "row_of key k rows = Some r \<Longrightarrow> r \<in> set rows \<and> key r = k"
  by (induction rows) (auto simp: row_of_def split: if_splits)

lemma row_of_None_iff: "row_of key k rows = None \<longleftrightarrow> (\<forall>r \<in> set rows. key r \<noteq> k)"
  by (auto simp: row_of_def find_None_iff)

lemma row_of_append:
  "row_of key k (xs @ ys) = (case row_of key k xs of None \<Rightarrow> row_of key k ys | Some r \<Rightarrow> Some r)"
  by (induction xs) (auto simp: row_of_def)

lemma update_where_keys:
  "(\<And>r. key (f r) = key r) \<Longrightarrow> map key (update_where g f rows) = map key rows"
  by (simp add: update_where_def)

lemma update_where_keyed:
  "(\<And>r. key (f r) = key r) \<Longrightarrow> keyed key (update_where g f rows) = keyed key rows"
  by (simp add: keyed_def update_where_keys)

lemma update_where_none: "\<forall>r \<in> set rows. \<not> g r \<Longrightarrow> update_where g f rows = rows"
  by (simp add: update_where_def map_idI)

lemma set_update_where: "set (update_where g f rows) = (\<lambda>r. if g r then f r else r) ` set rows"
  by (simp add: update_where_def)

lemma ball_update_where:
  "(\<forall>r \<in> set (update_where g f rows). P r) \<longleftrightarrow> (\<forall>r \<in> set rows. P (if g r then f r else r))"
  unfolding update_where_def set_map by blast

lemma image_update_where:
  assumes "\<And>r. key (f r) = key r"
  shows "key ` set (update_where g f rows) = key ` set rows"
  using arg_cong [OF update_where_keys [of key f g rows, OF assms], of set] by simp

lemma length_update_where [simp]: "length (update_where g f rows) = length rows"
  by (simp add: update_where_def)

lemma row_of_update_where:
  assumes "\<And>r. key (f r) = key r"
  shows "row_of key k (update_where g f rows) =
           map_option (\<lambda>r. if g r then f r else r) (row_of key k rows)"
  using assms by (induction rows) (auto simp: row_of_def update_where_def)

lemma filter_row_of:
  "keyed key rows \<Longrightarrow> filter (\<lambda>r. key r = k \<and> Q r) rows =
     (case row_of key k rows of None \<Rightarrow> [] | Some r \<Rightarrow> if Q r then [r] else [])"
proof (induction rows)
  case (Cons x rows)
  then have k: "keyed key rows" and x: "key x \<notin> key ` set rows" by (auto simp: keyed_def)
  show ?case
  proof (cases "key x = k")
    case True
    with x have "\<forall>r \<in> set rows. key r \<noteq> k" by (metis imageI)
    then have "filter (\<lambda>r. key r = k \<and> Q r) rows = []" by (simp add: filter_empty_conv)
    with True show ?thesis by (simp add: row_of_def)
  next
    case False
    with Cons.IH [OF k] show ?thesis by (simp add: row_of_def)
  qed
qed (simp add: row_of_def)

lemma delete_where_keyed: "keyed key rows \<Longrightarrow> keyed key (delete_where g rows)"
  unfolding keyed_def delete_where_def by (rule distinct_map_filter)

lemma set_delete_where: "set (delete_where g rows) = {r \<in> set rows. \<not> g r}"
  by (simp add: delete_where_def)

subsection \<open>Signed machine integers\<close>

text \<open>The value an int64 holds after arithmetic that may leave its range.\<close>

definition wrap64 :: "int \<Rightarrow> int" where
  "wrap64 x = (x + 2 ^ 63) mod 2 ^ 64 - 2 ^ 63"

lemma wrap64_id: "- (2 ^ 63) \<le> x \<Longrightarrow> x < 2 ^ 63 \<Longrightarrow> wrap64 x = x"
  by (simp add: wrap64_def)

text \<open>The conversion \<open>int32(x)\<close>.\<close>

definition wrap32 :: "int \<Rightarrow> int" where
  "wrap32 x = (x + 2 ^ 31) mod 2 ^ 32 - 2 ^ 31"

lemma wrap32_id: "- (2 ^ 31) \<le> x \<Longrightarrow> x < 2 ^ 31 \<Longrightarrow> wrap32 x = x"
  by (simp add: wrap32_def)

lemma wrap64_range: "- (2 ^ 63) \<le> wrap64 x" "wrap64 x < 2 ^ 63"
  by (simp_all add: wrap64_def)

end
