(* ===== verification/Cascade_State.thy ===== *)
theory Cascade_State
  imports Prelude
begin

text \<open>
  The node-run state machine of \<open>lib/foundation/cascade/state.go\<close>: the states of a node
  run, the reasons that move it, the transition functions \<open>NextState\<close> (leaf runs) and
  \<open>NextStateParent\<close> (runs that aggregate child runs), and the in-flight/terminal
  classification. The interface \<open>absorbing_machine\<close> collects what its clients rely on: the
  settled states admit no further transition.
\<close>

subsection \<open>States and reasons\<close>

datatype NodeState =
  NodeStatePending | NodeStateStale | NodeStateRunning | NodeStateHeld
| NodeStateParked | NodeStateFresh | NodeStateFailed

text \<open>\<open>TransitionReason\<close> wraps an open string; kinds the package does not declare are
  \<open>ReasonOther\<close>.\<close>

datatype TransitionReason =
  ReasonGateCleared
| ReasonDispatchClaimed
| ReasonPolicyGiveUp
| ReasonPureCascade
| ReasonDispatchImpossible
| ReasonAcquirePass
| ReasonHandlerComplete
| ReasonHandlerHeld
| ReasonFanoutDispatched
| ReasonHandlerPass
| ReasonHandlerPark
| ReasonAutoTerminalCommit
| ReasonAutoTerminalAbandon
| ReasonDeadlineResume
| ReasonCascadeResume
| ReasonChildTransitioned
| ReasonSubGraphInternalCascadeFired
| ReasonInstanceKilled
| ReasonSiblingCancelled
| ReasonOther string

datatype cascade_error =
  ErrIllegalTransition NodeState TransitionReason
| ParentAggregateOK NodeState

definition SettlingSignalInstanceKilled :: string where
  "SettlingSignalInstanceKilled = ''terminal/error/instance_killed''"

definition SettlingSignalSiblingFailed :: string where
  "SettlingSignalSiblingFailed = ''terminal/error/sibling_failed''"

subsection \<open>Transition functions\<close>

definition NextState :: "NodeState \<Rightarrow> TransitionReason \<Rightarrow> cascade_error + NodeState" where
  "NextState current reason =
     (case current of
        NodeStatePending \<Rightarrow>
          (case reason of
             ReasonGateCleared \<Rightarrow> Inr NodeStateStale
           | ReasonInstanceKilled \<Rightarrow> Inr NodeStateFailed
           | ReasonSiblingCancelled \<Rightarrow> Inr NodeStateFailed
           | _ \<Rightarrow> Inl (ErrIllegalTransition current reason))
      | NodeStateStale \<Rightarrow>
          (case reason of
             ReasonDispatchClaimed \<Rightarrow> Inr NodeStateRunning
           | ReasonPureCascade \<Rightarrow> Inr NodeStateFresh
           | ReasonDispatchImpossible \<Rightarrow> Inr NodeStateFailed
           | ReasonAcquirePass \<Rightarrow> Inr NodeStateFresh
           | ReasonPolicyGiveUp \<Rightarrow> Inr NodeStateFailed
           | ReasonInstanceKilled \<Rightarrow> Inr NodeStateFailed
           | ReasonSiblingCancelled \<Rightarrow> Inr NodeStateFailed
           | _ \<Rightarrow> Inl (ErrIllegalTransition current reason))
      | NodeStateRunning \<Rightarrow>
          (case reason of
             ReasonHandlerComplete \<Rightarrow> Inr NodeStateFresh
           | ReasonHandlerHeld \<Rightarrow> Inr NodeStateHeld
           | ReasonFanoutDispatched \<Rightarrow> Inr NodeStateHeld
           | ReasonHandlerPass \<Rightarrow> Inr NodeStateFresh
           | ReasonHandlerPark \<Rightarrow> Inr NodeStateParked
           | ReasonPolicyGiveUp \<Rightarrow> Inr NodeStateFailed
           | ReasonAutoTerminalAbandon \<Rightarrow> Inr NodeStateFailed
           | ReasonInstanceKilled \<Rightarrow> Inr NodeStateFailed
           | ReasonSiblingCancelled \<Rightarrow> Inr NodeStateFailed
           | _ \<Rightarrow> Inl (ErrIllegalTransition current reason))
      | NodeStateHeld \<Rightarrow>
          (case reason of
             ReasonAutoTerminalCommit \<Rightarrow> Inr NodeStateFresh
           | ReasonAutoTerminalAbandon \<Rightarrow> Inr NodeStateFailed
           | ReasonInstanceKilled \<Rightarrow> Inr NodeStateFailed
           | ReasonSiblingCancelled \<Rightarrow> Inr NodeStateFailed
           | _ \<Rightarrow> Inl (ErrIllegalTransition current reason))
      | NodeStateParked \<Rightarrow>
          (case reason of
             ReasonDeadlineResume \<Rightarrow> Inr NodeStateStale
           | ReasonCascadeResume \<Rightarrow> Inr NodeStateStale
           | ReasonInstanceKilled \<Rightarrow> Inr NodeStateFailed
           | ReasonSiblingCancelled \<Rightarrow> Inr NodeStateFailed
           | _ \<Rightarrow> Inl (ErrIllegalTransition current reason))
      | _ \<Rightarrow> Inl (ErrIllegalTransition current reason))"

definition NextStateParent :: "NodeState \<Rightarrow> TransitionReason \<Rightarrow> cascade_error + NodeState" where
  "NextStateParent current reason =
     (case reason of
        ReasonChildTransitioned \<Rightarrow> Inl (ParentAggregateOK current)
      | ReasonSubGraphInternalCascadeFired \<Rightarrow>
          (if current = NodeStateRunning then Inr NodeStateRunning
           else Inl (ErrIllegalTransition current reason))
      | _ \<Rightarrow> NextState current reason)"

fun IsParentAggregateOK :: "cascade_error \<Rightarrow> bool" where
  "IsParentAggregateOK (ParentAggregateOK s) = True"
| "IsParentAggregateOK (ErrIllegalTransition s r) = False"

subsection \<open>Classification\<close>

definition InFlightStates :: "NodeState list" where
  "InFlightStates =
     [NodeStatePending, NodeStateStale, NodeStateRunning, NodeStateHeld, NodeStateParked]"

fun IsInFlight :: "NodeState \<Rightarrow> bool" where
  "IsInFlight NodeStatePending = True"
| "IsInFlight NodeStateStale = True"
| "IsInFlight NodeStateRunning = True"
| "IsInFlight NodeStateHeld = True"
| "IsInFlight NodeStateParked = True"
| "IsInFlight _ = False"

definition IsTerminal :: "NodeState \<Rightarrow> bool" where
  "IsTerminal s \<longleftrightarrow> s = NodeStateFresh \<or> s = NodeStateFailed"

datatype CreationReason =
  CreationReasonCascade | CreationReasonOperatorInvalidate
| CreationReasonRecalculate | CreationReasonMessageDelivery

lemma IsTerminal_iff_not_IsInFlight: "IsTerminal s \<longleftrightarrow> \<not> IsInFlight s"
  by (cases s) (auto simp: IsTerminal_def)

lemma IsInFlight_iff_InFlightStates: "IsInFlight s \<longleftrightarrow> s \<in> set InFlightStates"
  by (cases s) (auto simp: InFlightStates_def)

lemma NextState_terminal: "IsTerminal s \<Longrightarrow> NextState s r = Inl (ErrIllegalTransition s r)"
  by (auto simp: IsTerminal_def NextState_def)

lemma NextState_error: "NextState s r = Inl e \<Longrightarrow> e = ErrIllegalTransition s r"
  by (cases s; cases r) (simp_all add: NextState_def)

subsection \<open>Histories\<close>

text \<open>A history applies a list of reasons in order and stops at the first rejected one, as the
  persistence layer does when it enforces each transition.\<close>

definition history :: "('s \<Rightarrow> 'r \<Rightarrow> 'e + 's) \<Rightarrow> 's \<Rightarrow> 'r list \<Rightarrow> 'e + 's" where
  "history step s rs = res_foldM (\<lambda>r s. step s r) rs s"

lemma history_simps [simp]:
  "history step s [] = Inr s"
  "history step s (r # rs) = (case step s r of Inl e \<Rightarrow> Inl e | Inr s' \<Rightarrow> history step s' rs)"
  by (simp_all add: history_def split: sum.split)

lemma history_append:
  "history step s (rs @ rs') =
     (case history step s rs of Inl e \<Rightarrow> Inl e | Inr s' \<Rightarrow> history step s' rs')"
  by (induction rs arbitrary: s) (auto split: sum.splits)

lemma history_invariant:
  assumes "history step s rs = Inr t" and "P [] s"
    and "\<And>h s r s'. P h s \<Longrightarrow> step s r = Inr s' \<Longrightarrow> P (h @ [r]) s'"
  shows "P rs t"
  using assms(1)
proof (induction rs arbitrary: t rule: rev_induct)
  case Nil
  with assms(2) show ?case by simp
next
  case (snoc r rs)
  then obtain s' where "history step s rs = Inr s'" "step s' r = Inr t"
    by (auto simp: history_append split: sum.splits)
  with snoc.IH assms(3) show ?case by blast
qed

locale absorbing_machine =
  fixes step :: "'s \<Rightarrow> 'r \<Rightarrow> 'e + 's" and settled :: "'s \<Rightarrow> bool"
  assumes settled_rejects: "settled s \<Longrightarrow> \<exists>e. step s r = Inl e"
begin

lemma settled_history_stuck: "settled s \<Longrightarrow> history step s rs = Inr t \<Longrightarrow> rs = [] \<and> t = s"
  using settled_rejects [of s "hd rs"] by (cases rs) auto

lemma settled_is_last:
  assumes "history step s (rs @ rs') = Inr t" and "history step s rs = Inr u" and "settled u"
  shows "rs' = [] \<and> t = u"
  using assms settled_history_stuck by (auto simp: history_append)

end

interpretation leaf_run: absorbing_machine NextState IsTerminal
  by unfold_locales (auto simp: NextState_terminal)

text \<open>
  The number of dispatch claims and of parks in a history. A run is claimed by a supervisor
  once per dispatch, and the only way back from running to the queue is a park followed by a
  resume.
\<close>

definition dispatches :: "TransitionReason list \<Rightarrow> nat" where
  "dispatches rs = length (filter (\<lambda>r. r = ReasonDispatchClaimed) rs)"

definition parks :: "TransitionReason list \<Rightarrow> nat" where
  "parks rs = length (filter (\<lambda>r. r = ReasonHandlerPark) rs)"

definition resumes :: "TransitionReason list \<Rightarrow> nat" where
  "resumes rs = length (filter (\<lambda>r. r \<in> {ReasonDeadlineResume, ReasonCascadeResume}) rs)"

definition dispatch_balance :: "TransitionReason list \<Rightarrow> NodeState \<Rightarrow> bool" where
  "dispatch_balance rs s \<longleftrightarrow>
     (case s of
        NodeStatePending \<Rightarrow> dispatches rs = 0 \<and> parks rs = 0 \<and> resumes rs = 0
      | NodeStateStale \<Rightarrow> dispatches rs = parks rs \<and> resumes rs = parks rs
      | NodeStateParked \<Rightarrow> dispatches rs = parks rs \<and> Suc (resumes rs) = parks rs
      | NodeStateRunning \<Rightarrow> dispatches rs = Suc (parks rs) \<and> resumes rs = parks rs
      | NodeStateHeld \<Rightarrow> dispatches rs = Suc (parks rs) \<and> resumes rs = parks rs
      | _ \<Rightarrow> parks rs \<le> dispatches rs \<and> dispatches rs \<le> Suc (parks rs) \<and>
             resumes rs \<le> parks rs \<and> parks rs \<le> Suc (resumes rs))"

lemma dispatch_balance_step:
  assumes "dispatch_balance h s" and "NextState s r = Inr s'"
  shows "dispatch_balance (h @ [r]) s'"
  using assms
  by (cases s; cases r)
     (auto simp: dispatch_balance_def NextState_def dispatches_def parks_def resumes_def)

subsection \<open>Properties\<close>

text \<open>Settlement is permanent. Once a prefix of a run's history reaches a settled state
  (fresh or failed), no further reason is accepted: a legal history ends there.\<close>

theorem settlement_is_permanent:
  assumes "history NextState s (rs @ rs') = Inr t"
    and "history NextState s rs = Inr u" and "IsTerminal u"
  shows "rs' = [] \<and> t = u"
  using assms by (rule leaf_run.settled_is_last)

theorem settlement_is_permanent_witness:
  "history NextState NodeStatePending
     ([ReasonGateCleared, ReasonDispatchClaimed, ReasonHandlerComplete] @ []) = Inr NodeStateFresh \<and>
   ([] :: TransitionReason list) = [] \<and> NodeStateFresh = NodeStateFresh"
proof -
  let ?rs = "[ReasonGateCleared, ReasonDispatchClaimed, ReasonHandlerComplete]"
  have h: "history NextState NodeStatePending (?rs @ []) = Inr NodeStateFresh"
    by (simp add: NextState_def)
  have h': "history NextState NodeStatePending ?rs = Inr NodeStateFresh"
    by (simp add: NextState_def)
  from settlement_is_permanent [OF h h'] h show ?thesis by (simp add: IsTerminal_def)
qed

text \<open>Dispatch discipline. In every legal history of a run from its creation in pending, the
  dispatch claims, parks and resumes balance: a run is claimed at most once per park, is running
  or held exactly while one claim is outstanding, and waits (stale or parked) only when every
  earlier claim was given back by a park.\<close>

theorem dispatch_claims_balance:
  assumes "history NextState NodeStatePending rs = Inr s"
  shows "dispatch_balance rs s"
proof (rule history_invariant [OF assms])
  show "dispatch_balance [] NodeStatePending"
    by (simp add: dispatch_balance_def dispatches_def parks_def resumes_def)
qed (rule dispatch_balance_step)

theorem dispatch_claims_balance_witness:
  "history NextState NodeStatePending
     [ReasonGateCleared, ReasonDispatchClaimed, ReasonHandlerPark, ReasonCascadeResume,
      ReasonDispatchClaimed] = Inr NodeStateRunning \<and>
   dispatch_balance
     [ReasonGateCleared, ReasonDispatchClaimed, ReasonHandlerPark, ReasonCascadeResume,
      ReasonDispatchClaimed] NodeStateRunning"
proof -
  have h: "history NextState NodeStatePending
     [ReasonGateCleared, ReasonDispatchClaimed, ReasonHandlerPark, ReasonCascadeResume,
      ReasonDispatchClaimed] = Inr NodeStateRunning"
    by (simp add: NextState_def)
  from dispatch_claims_balance [OF h] h show ?thesis by simp
qed

end
