(* ===== verification/Signal_Taxonomy.thy ===== *)
theory Signal_Taxonomy
  imports Prelude
begin

text \<open>
  Signal type-paths: \<open>lib/foundation/signal/types.go\<close> and \<open>taxonomy.go\<close>, and the payload
  schema selection of \<open>payloads.go\<close>. A type-path is a string such as
  \<open>terminal/error/timeout\<close>; the taxonomy lists the paths a node may emit and derives from it
  the paths a subscription may name. Validation errors keep the branch that raised them.
\<close>

type_synonym TypePath = string

subsection \<open>Top-level kinds\<close>

datatype TopLevelKind = KindTerminal | KindTransient | KindAttribute | KindNone

definition TopLevel :: "TypePath \<Rightarrow> TopLevelKind" where
  "TopLevel t =
     (if t = [] then KindNone
      else let i = IndexByte t CHR ''/'';
               s = (if i \<ge> 0 then take (nat i) t else t)
           in if s = ''terminal'' then KindTerminal
              else if s = ''transient'' then KindTransient
              else if s = ''attribute'' then KindAttribute
              else KindNone)"

definition HasPrefixPath :: "TypePath \<Rightarrow> TypePath \<Rightarrow> bool" where
  "HasPrefixPath t p =
     (if HasSuffix p ''*'' then HasPrefix t (TrimSuffix p ''*'') else t = p)"

subsection \<open>The canonical taxonomy\<close>

definition canonicalEmitPatterns :: "string list" where
  "canonicalEmitPatterns =
     [''terminal/success'',
      ''terminal/error/*'',
      ''transient/park'',
      ''transient/retry/*'',
      ''transient/infra/*'',
      ''transient/release_and_requeue/*'',
      ''transient/await_async'',
      ''attribute/*/changed'']"

definition ShouldCascade :: "TypePath \<Rightarrow> bool" where
  "ShouldCascade t = (case TopLevel t of KindTerminal \<Rightarrow> True | KindAttribute \<Rightarrow> True | _ \<Rightarrow> False)"

definition derivedSubscriptionPatterns :: "string list" where
  "derivedSubscriptionPatterns = filter ShouldCascade canonicalEmitPatterns"

definition positionalWildcard :: "string \<Rightarrow> bool" where
  "positionalWildcard s =
     (let idx = IndexByte s CHR ''*''
      in if idx < 0 then False else idx \<noteq> int (length s) - 1)"

definition isExplicitParkSubscription :: "string \<Rightarrow> bool" where
  "isExplicitParkSubscription s \<longleftrightarrow> s = ''transient/park'' \<or> s = ''transient/park/*''"

text \<open>One iteration of the concrete-path loop of \<open>matchesPatterns\<close>: whether pattern \<open>p\<close>
  accepts \<open>s\<close> (a \<open>continue\<close> is \<open>False\<close>).\<close>

definition patternAccepts :: "string \<Rightarrow> string \<Rightarrow> bool" where
  "patternAccepts p s =
     (if p = ''attribute/*/changed'' then
        (let prefix = ''attribute/''; suffix = ''/changed'' in
         if length s < length prefix + length suffix then False
         else if \<not> HasPrefix s prefix \<or> \<not> HasSuffix s suffix then False
         else let middle = take (length s - length suffix - length prefix) (drop (length prefix) s)
              in if middle = [] \<or> Contains middle ''/'' then False else True)
      else if \<not> HasSuffix p ''*'' then s = p
      else let canonPrefix = TrimSuffix p ''*''
           in if \<not> HasPrefix s canonPrefix then False
              else drop (length canonPrefix) s \<noteq> [])"

definition matchesPatterns :: "string list \<Rightarrow> string \<Rightarrow> bool \<Rightarrow> bool" where
  "matchesPatterns patterns s allowTrailingWildcard =
     (if allowTrailingWildcard \<and> HasSuffix s ''*'' then
        (let prefix = TrimSuffix s ''*'' in
         if prefix = [] then False
         else list_ex (\<lambda>p. let canon = TrimSuffix p ''*''
                           in HasPrefix canon prefix \<or> HasPrefix prefix canon) patterns)
      else list_ex (\<lambda>p. patternAccepts p s) patterns)"

subsection \<open>Validation\<close>

datatype taxonomy_error =
  EmptyTypePath
| NotInTaxonomy string
| PositionalWildcard string
| ParkSubscription string

definition ValidateTypePath :: "TypePath \<Rightarrow> taxonomy_error + unit" where
  "ValidateTypePath s =
     (if s = [] then Inl EmptyTypePath
      else if matchesPatterns canonicalEmitPatterns s False then Inr ()
      else Inl (NotInTaxonomy s))"

definition ValidateSubscriptionType :: "TypePath \<Rightarrow> taxonomy_error + unit" where
  "ValidateSubscriptionType s =
     (if s = [] then Inl EmptyTypePath
      else if positionalWildcard s then Inl (PositionalWildcard s)
      else if isExplicitParkSubscription s then Inl (ParkSubscription s)
      else if matchesPatterns derivedSubscriptionPatterns s True then Inr ()
      else Inl (NotInTaxonomy s))"

subsection \<open>Payload schemas\<close>

datatype PayloadSchema =
  TerminalSuccessSignalPayload | TransientParkSignalPayload | TransientAwaitAsyncSignalPayload
| TerminalErrorSignalPayload | TransientRetrySignalPayload | AttributeChangedSignalPayload

definition PayloadSchemaForType :: "TypePath \<Rightarrow> PayloadSchema option" where
  "PayloadSchemaForType s =
     (if s = [] then None
      else let trimmed = TrimSuffix s ''*'' in
        if s = ''terminal/success'' then Some TerminalSuccessSignalPayload
        else if s = ''transient/park'' then Some TransientParkSignalPayload
        else if s = ''transient/await_async'' then Some TransientAwaitAsyncSignalPayload
        else if HasPrefix trimmed ''terminal/error/'' then Some TerminalErrorSignalPayload
        else if HasPrefix trimmed ''transient/retry/'' then Some TransientRetrySignalPayload
        else if HasPrefix trimmed ''attribute/'' \<and> HasSuffix trimmed ''/changed''
             then Some AttributeChangedSignalPayload
        else None)"

subsection \<open>What the taxonomy accepts\<close>

text \<open>The emitted paths, spelled out: what a canonical path looks like.\<close>

definition canonicalPath :: "TypePath \<Rightarrow> bool" where
  "canonicalPath s \<longleftrightarrow>
     s = ''terminal/success'' \<or> (\<exists>c. c \<noteq> [] \<and> s = ''terminal/error/'' @ c) \<or>
     s = ''transient/park'' \<or> (\<exists>c. c \<noteq> [] \<and> s = ''transient/retry/'' @ c) \<or>
     (\<exists>c. c \<noteq> [] \<and> s = ''transient/infra/'' @ c) \<or>
     (\<exists>c. c \<noteq> [] \<and> s = ''transient/release_and_requeue/'' @ c) \<or>
     s = ''transient/await_async'' \<or>
     (\<exists>a. a \<noteq> [] \<and> CHR ''/'' \<notin> set a \<and> s = ''attribute/'' @ a @ ''/changed'')"

lemma patternAccepts_star:
  assumes "p = q @ ''*''" and "p \<noteq> ''attribute/*/changed''"
  shows "patternAccepts p s \<longleftrightarrow> (\<exists>c. c \<noteq> [] \<and> s = q @ c)"
proof -
  have "HasSuffix p ''*''" "TrimSuffix p ''*'' = q"
    using assms(1) by simp_all
  with assms(2) show ?thesis by (auto simp: patternAccepts_def Let_def HasPrefix_iff)
qed

lemma patternAccepts_exact:
  assumes "\<not> HasSuffix p ''*''" and "p \<noteq> ''attribute/*/changed''"
  shows "patternAccepts p s \<longleftrightarrow> s = p"
  using assms by (simp add: patternAccepts_def)

lemma patternAccepts_attribute:
  "patternAccepts ''attribute/*/changed'' s \<longleftrightarrow>
     (\<exists>a. a \<noteq> [] \<and> CHR ''/'' \<notin> set a \<and> s = ''attribute/'' @ a @ ''/changed'')"
proof
  let ?a = "take (length s - length ''/changed'' - length ''attribute/'')
              (drop (length ''attribute/'') s)"
  assume "patternAccepts ''attribute/*/changed'' s"
  then have acc: "length ''attribute/'' + length ''/changed'' \<le> length s"
      "HasPrefix s ''attribute/''" "HasSuffix s ''/changed''"
      and mid: "?a \<noteq> []" "CHR ''/'' \<notin> set ?a"
    unfolding patternAccepts_def Let_def Contains_single by (simp_all only: split: if_splits) auto
  from prefix_suffix_middle [OF acc] mid
  show "\<exists>a. a \<noteq> [] \<and> CHR ''/'' \<notin> set a \<and> s = ''attribute/'' @ a @ ''/changed''" by blast
next
  assume "\<exists>a. a \<noteq> [] \<and> CHR ''/'' \<notin> set a \<and> s = ''attribute/'' @ a @ ''/changed''"
  then obtain a where "a \<noteq> []" "CHR ''/'' \<notin> set a" "s = ''attribute/'' @ a @ ''/changed''" by blast
  then show "patternAccepts ''attribute/*/changed'' s"
    by (simp add: patternAccepts_def Let_def Contains_single HasPrefix_def HasSuffix_def)
qed

lemmas patternAccepts_canonical =
  patternAccepts_exact [of "''terminal/success''"]
  patternAccepts_star [of "''terminal/error/*''" "''terminal/error/''"]
  patternAccepts_exact [of "''transient/park''"]
  patternAccepts_star [of "''transient/retry/*''" "''transient/retry/''"]
  patternAccepts_star [of "''transient/infra/*''" "''transient/infra/''"]
  patternAccepts_star [of "''transient/release_and_requeue/*''" "''transient/release_and_requeue/''"]
  patternAccepts_exact [of "''transient/await_async''"]
  patternAccepts_attribute

lemma matches_emit_iff: "matchesPatterns canonicalEmitPatterns s False \<longleftrightarrow> canonicalPath s"
  by (simp add: matchesPatterns_def canonicalEmitPatterns_def patternAccepts_canonical
        HasSuffix_def canonicalPath_def)

lemma derivedSubscriptionPatterns_eq:
  "derivedSubscriptionPatterns = [''terminal/success'', ''terminal/error/*'', ''attribute/*/changed'']"
  by code_simp

lemma matches_subscription_iff:
  assumes "\<not> HasSuffix s ''*''"
  shows "matchesPatterns derivedSubscriptionPatterns s True \<longleftrightarrow>
     s = ''terminal/success'' \<or> (\<exists>c. c \<noteq> [] \<and> s = ''terminal/error/'' @ c) \<or>
     (\<exists>a. a \<noteq> [] \<and> CHR ''/'' \<notin> set a \<and> s = ''attribute/'' @ a @ ''/changed'')"
proof -
  have "matchesPatterns derivedSubscriptionPatterns s True =
      list_ex (\<lambda>p. patternAccepts p s) derivedSubscriptionPatterns"
    using assms by (simp only: matchesPatterns_def simp_thms if_False)
  then show ?thesis
    by (simp add: derivedSubscriptionPatterns_eq patternAccepts_canonical HasSuffix_def)
qed

lemma ShouldCascade_canonical:
  "ShouldCascade ''terminal/success''" "ShouldCascade (''terminal/error/'' @ c)"
  "ShouldCascade (''attribute/'' @ c)"
  "\<not> ShouldCascade ''transient/park''" "\<not> ShouldCascade ''transient/await_async''"
  "\<not> ShouldCascade (''transient/retry/'' @ c)" "\<not> ShouldCascade (''transient/infra/'' @ c)"
  "\<not> ShouldCascade (''transient/release_and_requeue/'' @ c)"
  by (simp_all add: ShouldCascade_def TopLevel_def Let_def)

lemma split_by_predicate:
  assumes "P t1" "\<And>c. P (t2 @ c)" "\<And>c. P (t3 @ c)" "\<not> P u1" "\<not> P u2"
    "\<And>c. \<not> P (u3 @ c)" "\<And>c. \<not> P (u4 @ c)" "\<And>c. \<not> P (u5 @ c)"
  shows "(s = t1 \<or> (\<exists>c. c \<noteq> [] \<and> s = t2 @ c) \<or> s = u1 \<or> (\<exists>c. c \<noteq> [] \<and> s = u3 @ c) \<or>
      (\<exists>c. c \<noteq> [] \<and> s = u4 @ c) \<or> (\<exists>c. c \<noteq> [] \<and> s = u5 @ c) \<or> s = u2 \<or>
      (\<exists>a. a \<noteq> [] \<and> Q a \<and> s = t3 @ a @ e)) \<and> P s \<longleftrightarrow>
    s = t1 \<or> (\<exists>c. c \<noteq> [] \<and> s = t2 @ c) \<or> (\<exists>a. a \<noteq> [] \<and> Q a \<and> s = t3 @ a @ e)"
  using assms by auto

lemma canonical_cascading_iff:
  "canonicalPath s \<and> ShouldCascade s \<longleftrightarrow>
     s = ''terminal/success'' \<or> (\<exists>c. c \<noteq> [] \<and> s = ''terminal/error/'' @ c) \<or>
     (\<exists>a. a \<noteq> [] \<and> CHR ''/'' \<notin> set a \<and> s = ''attribute/'' @ a @ ''/changed'')"
  unfolding canonicalPath_def by (rule split_by_predicate) (rule ShouldCascade_canonical)+

lemma canonicalPath_ne: "\<not> canonicalPath []"
  by (simp add: canonicalPath_def)

lemma ValidateTypePath_iff: "ValidateTypePath s = Inr () \<longleftrightarrow> canonicalPath s"
  using canonicalPath_ne by (auto simp: ValidateTypePath_def matches_emit_iff)

lemma subscription_concrete_iff:
  assumes "CHR ''*'' \<notin> set s"
  shows "ValidateSubscriptionType s = Inr () \<longleftrightarrow> canonicalPath s \<and> ShouldCascade s"
proof -
  have "\<not> HasSuffix s ''*''" using assms by (auto simp: HasSuffix_iff)
  then have m: "matchesPatterns derivedSubscriptionPatterns s True \<longleftrightarrow> canonicalPath s \<and> ShouldCascade s"
    unfolding canonical_cascading_iff by (rule matches_subscription_iff)
  have w: "\<not> positionalWildcard s"
    using assms by (simp add: positionalWildcard_def Let_def IndexByte_neg_iff)
  have p: "\<not> ShouldCascade s" if "isExplicitParkSubscription s"
    using that assms ShouldCascade_canonical(4) unfolding isExplicitParkSubscription_def
    by (elim disjE) simp_all
  have e: "\<not> canonicalPath s" if "s = []"
    unfolding that by (rule canonicalPath_ne)
  show ?thesis using m w p e
    by (simp add: ValidateSubscriptionType_def)
qed

lemma cascading_payload:
  assumes "canonicalPath s" "ShouldCascade s" "CHR ''*'' \<notin> set s"
  shows "PayloadSchemaForType s \<noteq> None"
proof -
  have t: "TrimSuffix s ''*'' = s"
    using assms(3) by (intro TrimSuffix_id) (auto simp: HasSuffix_iff)
  consider "s = ''terminal/success''" | c where "s = ''terminal/error/'' @ c"
    | a where "s = ''attribute/'' @ a @ ''/changed''"
    using canonical_cascading_iff [THEN iffD1, OF conjI, OF assms(1,2)] by (elim disjE exE conjE)
  then show ?thesis
  proof cases
    case 1
    then show ?thesis by (simp add: PayloadSchemaForType_def)
  next
    case 2
    then have "HasPrefix s ''terminal/error/''" "s \<noteq> []" by (simp_all add: HasPrefix_def)
    then show ?thesis unfolding PayloadSchemaForType_def Let_def t by (simp only: if_True if_False simp_thms split: if_split) simp
  next
    case 3
    then have "HasPrefix s ''attribute/''" "HasSuffix s ''/changed''" "s \<noteq> []"
      by (simp_all add: HasPrefix_def HasSuffix_def)
    then show ?thesis unfolding PayloadSchemaForType_def Let_def t by (simp only: if_True if_False simp_thms split: if_split) simp
  qed
qed

subsection \<open>Wildcard subscriptions\<close>

lemma wildcard_shape:
  assumes "ValidateSubscriptionType s = Inr ()" and "CHR ''*'' \<in> set s"
  obtains q where "s = q @ ''*''" and "CHR ''*'' \<notin> set q" and "q \<noteq> []"
    and "matchesPatterns derivedSubscriptionPatterns (q @ ''*'') True"
proof -
  have m: "matchesPatterns derivedSubscriptionPatterns s True" and "\<not> positionalWildcard s"
    using assms(1) unfolding ValidateSubscriptionType_def by (auto split: if_splits)
  then have "IndexByte s CHR ''*'' = int (length s) - 1"
    using assms(2) IndexByte_neg_iff [of s] by (auto simp: positionalWildcard_def Let_def split: if_splits)
  from IndexByte_last [OF this assms(2)] obtain q where q: "s = q @ ''*''" "CHR ''*'' \<notin> set q"
    by blast
  with m have "q \<noteq> []" by (auto simp: matchesPatterns_def)
  with q m that show thesis by simp
qed

lemma wildcard_matches_iff:
  assumes "CHR ''*'' \<notin> set q" and "q \<noteq> []"
  shows "matchesPatterns derivedSubscriptionPatterns (q @ ''*'') True \<longleftrightarrow>
     HasPrefix ''terminal/success'' q \<or> HasPrefix q ''terminal/success'' \<or>
     HasPrefix ''terminal/error/'' q \<or> HasPrefix q ''terminal/error/'' \<or>
     HasPrefix ''attribute/'' q"
proof -
  have t: "TrimSuffix ''terminal/success'' ''*'' = ''terminal/success''"
    "TrimSuffix ''terminal/error/*'' ''*'' = ''terminal/error/''"
    "TrimSuffix ''attribute/*/changed'' ''*'' = ''attribute/*/changed''"
    by code_simp+
  have "\<not> HasPrefix q ''attribute/*/changed''"
    using assms(1) by (auto simp: HasPrefix_iff)
  moreover have "HasPrefix ''attribute/*/changed'' q \<longleftrightarrow> HasPrefix ''attribute/'' q"
    using prefix_before_mark [of "CHR ''*''" q "''attribute/''" "''/changed''"] assms(1)
    by (auto simp: HasPrefix_def take_Cons' split: if_splits)
  ultimately show ?thesis
    using assms(2) unfolding matchesPatterns_def derivedSubscriptionPatterns_eq
    by (simp only: HasSuffix_append TrimSuffix_append Let_def list_ex_unfold t if_True if_False simp_thms disj_assoc)
qed

lemma HasPrefixPath_star: "HasPrefixPath t (q @ ''*'') \<longleftrightarrow> HasPrefix t q"
  unfolding HasPrefixPath_def by (simp only: HasSuffix_append TrimSuffix_append if_True)

lemma canonical_examples:
  shows "canonicalPath ''terminal/success''"
    and "c \<noteq> [] \<Longrightarrow> canonicalPath (''terminal/error/'' @ c)"
    and "canonicalPath (''attribute/'' @ ''a/changed'')"
proof -
  show "canonicalPath ''terminal/success''"
    unfolding canonicalPath_def by (rule disjI1) (rule refl)
  show "canonicalPath (''terminal/error/'' @ c)" if "c \<noteq> []"
    unfolding canonicalPath_def
    by (rule disjI2, rule disjI1, rule exI [of _ c], rule conjI, rule that, rule refl)
  have "canonicalPath (''attribute/'' @ ''a'' @ ''/changed'')"
    unfolding canonicalPath_def
    by (rule disjI2, rule disjI2, rule disjI2, rule disjI2, rule disjI2, rule disjI2, rule disjI2,
        rule exI [of _ "''a''"]) simp
  then show "canonicalPath (''attribute/'' @ ''a/changed'')" by simp
qed

lemma HasPrefix_trans_append: "HasPrefix p q \<Longrightarrow> HasPrefix (p @ r) q"
  by (auto simp: HasPrefix_iff)

lemma match_intro:
  "canonicalPath t \<Longrightarrow> ShouldCascade t \<Longrightarrow> HasPrefix t q \<Longrightarrow>
   \<exists>t. canonicalPath t \<and> ShouldCascade t \<and> HasPrefix t q"
  by blast

lemma wildcard_has_match:
  assumes "HasPrefix ''terminal/success'' q \<or> HasPrefix ''terminal/error/'' q \<or>
     HasPrefix q ''terminal/error/'' \<or> HasPrefix ''attribute/'' q"
  shows "\<exists>t. canonicalPath t \<and> ShouldCascade t \<and> HasPrefix t q"
  using assms
proof (elim disjE)
  assume "HasPrefix ''terminal/success'' q"
  with canonical_examples(1) ShouldCascade_canonical(1) show ?thesis by (rule match_intro)
next
  assume "HasPrefix ''terminal/error/'' q"
  then show ?thesis
    by (intro match_intro [OF canonical_examples(2) [of "''a''"] ShouldCascade_canonical(2)]
          HasPrefix_trans_append) simp_all
next
  assume "HasPrefix q ''terminal/error/''"
  then obtain r where "q = ''terminal/error/'' @ r" unfolding HasPrefix_iff by (rule exE)
  then show ?thesis
    by (intro match_intro [OF canonical_examples(2) [of "r @ ''a''"] ShouldCascade_canonical(2)])
       (simp_all only: append_assoc [symmetric] HasPrefix_append append_is_Nil_conv list.distinct simp_thms)
next
  assume "HasPrefix ''attribute/'' q"
  then show ?thesis
    by (rule match_intro [OF canonical_examples(3) ShouldCascade_canonical(3) HasPrefix_trans_append])
qed

subsection \<open>Properties\<close>

text \<open>C39: \<open>ValidateTypePath\<close> accepts exactly the canonical paths: the three fixed ones, a non-empty
  tail below one of the four open families, or \<open>attribute/<name>/changed\<close> with one non-empty
  name segment.\<close>

theorem emit_taxonomy_exact: "ValidateTypePath s = Inr () \<longleftrightarrow> canonicalPath s"
  by (rule ValidateTypePath_iff)

text \<open>A subscription without a wildcard is accepted exactly when the path is one a node may
  emit and the cascade walker forwards it, and every accepted one has a payload schema.\<close>

theorem concrete_subscriptions_cascade:
  assumes "CHR ''*'' \<notin> set s"
  shows "(ValidateSubscriptionType s = Inr () \<longleftrightarrow> ValidateTypePath s = Inr () \<and> ShouldCascade s) \<and>
     (ValidateSubscriptionType s = Inr () \<longrightarrow> PayloadSchemaForType s \<noteq> None)"
  using subscription_concrete_iff [OF assms] cascading_payload [OF _ _ assms]
  unfolding ValidateTypePath_iff by blast

theorem concrete_subscriptions_cascade_witness:
  "CHR ''*'' \<notin> set ''attribute/x/changed'' \<and>
   ValidateSubscriptionType ''attribute/x/changed'' = Inr () \<and>
   ValidateTypePath ''attribute/x/changed'' = Inr () \<and>
   PayloadSchemaForType ''attribute/x/changed'' \<noteq> None"
proof -
  have c: "CHR ''*'' \<notin> set ''attribute/x/changed''" by simp
  have v: "ValidateSubscriptionType ''attribute/x/changed'' = Inr ()" by code_simp
  from concrete_subscriptions_cascade [OF c] v c show ?thesis by (simp only: simp_thms)
qed

text \<open>No accepted subscription is dead: some path that a node may emit and the cascade walker
  forwards matches it under \<open>TypePath.HasPrefix\<close>. The one family for which this fails is excluded:
  a wildcard that extends the closed path \<open>terminal/success\<close>.\<close>

theorem accepted_subscription_is_live:
  assumes "ValidateSubscriptionType s = Inr ()"
    and "\<not> (\<exists>r. r \<noteq> [] \<and> s = ''terminal/success'' @ r @ ''*'')"
  shows "\<exists>t. ValidateTypePath t = Inr () \<and> ShouldCascade t \<and> HasPrefixPath t s"
proof (cases "CHR ''*'' \<in> set s")
  case True
  with assms(1) obtain q where q: "s = q @ ''*''" "CHR ''*'' \<notin> set q" "q \<noteq> []"
    and m: "matchesPatterns derivedSubscriptionPatterns (q @ ''*'') True" by (rule wildcard_shape)
  have "HasPrefix ''terminal/success'' q" if h: "HasPrefix q ''terminal/success''"
  proof -
    from h obtain r where r: "q = ''terminal/success'' @ r" unfolding HasPrefix_iff by (rule exE)
    with assms(2) q(1) have "r = []" by (simp only: append_assoc) blast
    with r show ?thesis by (simp only: append_Nil2 HasPrefix_def take_all order_refl)
  qed
  with m have "\<exists>t. canonicalPath t \<and> ShouldCascade t \<and> HasPrefix t q"
    unfolding wildcard_matches_iff [OF q(2,3)] by (intro wildcard_has_match) argo
  then show ?thesis unfolding ValidateTypePath_iff q(1) HasPrefixPath_star .
next
  case False
  then have "\<not> HasSuffix s ''*''" by (auto simp: HasSuffix_iff)
  then have "HasPrefixPath s s" by (simp add: HasPrefixPath_def)
  with subscription_concrete_iff [OF False] assms(1) show ?thesis
    unfolding ValidateTypePath_iff by blast
qed

theorem accepted_subscription_is_live_witness:
  "ValidateSubscriptionType ''terminal/error/*'' = Inr () \<and>
   (\<exists>t. ValidateTypePath t = Inr () \<and> ShouldCascade t \<and> HasPrefixPath t ''terminal/error/*'')"
proof -
  have v: "ValidateSubscriptionType ''terminal/error/*'' = Inr ()" by code_simp
  have "\<not> (\<exists>r. r \<noteq> [] \<and> ''terminal/error/*'' = ''terminal/success'' @ r @ ''*'')" by simp
  with accepted_subscription_is_live [OF v] v show ?thesis by (simp only: simp_thms)
qed

text \<open>The excluded family: \<open>terminal/successes*\<close> passes validation although no path that a node may
  emit matches it.\<close>

lemma dead_subscription_accepted:
  "ValidateSubscriptionType ''terminal/successes*'' = Inr () \<and>
   \<not> (\<exists>t. canonicalPath t \<and> HasPrefixPath t ''terminal/successes*'')"
proof -
  have "HasPrefixPath t ''terminal/successes*'' \<longleftrightarrow> HasPrefix t ''terminal/successes''" for t
    using HasPrefixPath_star [of t "''terminal/successes''"] by simp
  moreover have "ValidateSubscriptionType ''terminal/successes*'' = Inr ()" by code_simp
  ultimately show ?thesis by (auto simp: canonicalPath_def HasPrefix_def)
qed

end
