(* ===== verification/Auth_Grants.thy ===== *)
theory Auth_Grants
  imports Prelude "HOL-Library.AList" "HOL-Library.Multiset"
begin

text \<open>
  Authorisation grants: \<open>lib/foundation/auth/{action,scope,check,grant}.go\<close>. A grant is a list
  of entries; an entry names an action pattern, an optional mode and an optional scope. Go maps
  are association lists with distinct keys. The JSON codec of an entry is modelled on the member
  list of a JSON object in the order in which it is written; the text of a string or of an opaque
  value is left as it is.
\<close>

subsection \<open>Actions\<close>

definition IsWildcardAction :: "string \<Rightarrow> bool" where
  "IsWildcardAction action \<longleftrightarrow> action = ''*'' \<or> HasSuffix action '':*'' \<or> HasPrefix action ''*:''"

definition ActionMatches :: "string \<Rightarrow> string \<Rightarrow> bool" where
  "ActionMatches entryAction requestAction =
     (if entryAction = ''*'' then True
      else if entryAction = requestAction then True
      else if HasSuffix entryAction '':*'' then
        (let prefix = take (length entryAction - 1) entryAction in HasPrefix requestAction prefix)
      else if HasPrefix entryAction ''*:'' then
        (let suffix = drop 1 entryAction in HasSuffix requestAction suffix)
      else False)"

datatype auth_error =
  ActionEmpty
| ActionNoSeparator string
| ActionBadNounWildcard string
| ActionBadVerbWildcard string
| ActionBadWildcardShape string
| GrantEmpty
| GrantEntryError nat auth_error
| InvalidGrantMode string
| InvalidGrantAction
| GrantDecode string

definition ValidateActionString :: "string \<Rightarrow> auth_error + unit" where
  "ValidateActionString entryAction =
     (if entryAction = [] then Inl ActionEmpty
      else if entryAction = ''*'' then Inr ()
      else if \<not> Contains entryAction ''*'' then
        (if \<not> Contains entryAction '':'' then Inl (ActionNoSeparator entryAction) else Inr ())
      else if HasSuffix entryAction '':*'' then
        (let prefix = take (length entryAction - 2) entryAction in
         if prefix = [] \<or> Contains prefix ''*'' \<or> Contains prefix '':''
         then Inl (ActionBadNounWildcard entryAction) else Inr ())
      else if HasPrefix entryAction ''*:'' then
        (let suffix = drop 2 entryAction in
         if suffix = [] \<or> Contains suffix ''*'' \<or> Contains suffix '':''
         then Inl (ActionBadVerbWildcard entryAction) else Inr ())
      else Inl (ActionBadWildcardShape entryAction))"

subsection \<open>Entries and the grant check\<close>

type_synonym Mode = string
type_synonym StringMap = "(string \<times> string) list"

definition ModeExecute :: Mode where "ModeExecute = ''execute''"
definition ModeDryRun :: Mode where "ModeDryRun = ''dry_run''"

datatype json = JNull | JString string | JObject "(string \<times> json) list" | JOther string

record GrantEntry =
  Action :: string
  EntryMode :: Mode
  Scope :: StringMap
  Extras :: "(string \<times> json) list"

type_synonym Grant = "GrantEntry list"

definition ScopeMatches :: "StringMap \<Rightarrow> StringMap \<Rightarrow> bool" where
  "ScopeMatches entryScope target =
     (if length entryScope = 0 then True
      else list_all (\<lambda>(k, want). case map_of target k of None \<Rightarrow> False | Some got \<Rightarrow> got = want) entryScope)"

record CheckResult =
  Allowed :: bool
  ResultMode :: Mode

text \<open>The loop state of \<open>CheckGrant\<close> is \<open>None\<close> while \<open>bestIdx = -1\<close> and \<open>Some bestMode\<close> after; the
  index itself is only compared with \<open>-1\<close>.\<close>

definition checkGrantStep ::
  "string \<Rightarrow> StringMap \<Rightarrow> Mode option \<Rightarrow> GrantEntry \<Rightarrow> Mode option" where
  "checkGrantStep requestAction target best e =
     (if \<not> ActionMatches (Action e) requestAction then best
      else if \<not> ScopeMatches (Scope e) target then best
      else let mode = (if EntryMode e = [] then ModeExecute else EntryMode e) in
        (case best of
           None \<Rightarrow> Some mode
         | Some bestMode \<Rightarrow>
             if bestMode = ModeDryRun \<and> mode = ModeExecute then Some mode else best))"

definition CheckGrant :: "Grant \<Rightarrow> string \<Rightarrow> StringMap \<Rightarrow> CheckResult" where
  "CheckGrant grant requestAction target =
     (case foldl (checkGrantStep requestAction target) None grant of
        None \<Rightarrow> \<lparr>Allowed = False, ResultMode = []\<rparr>
      | Some bestMode \<Rightarrow> \<lparr>Allowed = True, ResultMode = bestMode\<rparr>)"

definition HasAnyGrant :: "Grant \<Rightarrow> string \<Rightarrow> bool" where
  "HasAnyGrant grant requestAction = list_ex (\<lambda>e. ActionMatches (Action e) requestAction) grant"

fun validateEntries :: "nat \<Rightarrow> Grant \<Rightarrow> auth_error + unit" where
  "validateEntries i [] = Inr ()"
| "validateEntries i (e # es) =
     (case ValidateActionString (Action e) of
        Inl err \<Rightarrow> Inl (GrantEntryError i err)
      | Inr _ \<Rightarrow>
          if EntryMode e = [] \<or> EntryMode e = ModeExecute \<or> EntryMode e = ModeDryRun
          then validateEntries (i + 1) es
          else Inl (GrantEntryError i (InvalidGrantMode (EntryMode e))))"

definition ValidateGrant :: "Grant \<Rightarrow> auth_error + unit" where
  "ValidateGrant grant = (if length grant = 0 then Inl GrantEmpty else validateEntries 0 grant)"

subsection \<open>The JSON codec of an entry\<close>

text \<open>\<open>json.Unmarshal\<close> into a string and into a \<open>map[string]string\<close>: \<open>null\<close> leaves the zero value,
  and any other JSON type is an error.\<close>

fun unmarshalString :: "json \<Rightarrow> string option" where
  "unmarshalString (JString s) = Some s"
| "unmarshalString JNull = Some []"
| "unmarshalString _ = None"

definition goMapOf :: "('k \<times> 'v) list \<Rightarrow> ('k \<times> 'v) list" where
  "goMapOf members = foldl (\<lambda>m (k, v). AList.update k v m) [] members"

fun unmarshalMembers :: "(string \<times> json) list \<Rightarrow> StringMap option" where
  "unmarshalMembers [] = Some []"
| "unmarshalMembers ((k, v) # ms) =
     (case unmarshalString v of
        None \<Rightarrow> None
      | Some s \<Rightarrow> (case unmarshalMembers ms of None \<Rightarrow> None | Some r \<Rightarrow> Some ((k, s) # r)))"

fun unmarshalStringMap :: "json \<Rightarrow> StringMap option" where
  "unmarshalStringMap (JObject ms) = map_option goMapOf (unmarshalMembers ms)"
| "unmarshalStringMap JNull = Some []"
| "unmarshalStringMap _ = None"

definition unmarshalMode :: "(string \<times> json) list \<Rightarrow> auth_error + Mode" where
  "unmarshalMode raw =
     (case map_of raw ''mode'' of
        None \<Rightarrow> Inr []
      | Some v \<Rightarrow>
          (case unmarshalString v of
             None \<Rightarrow> Inl (GrantDecode ''mode'')
           | Some modeStr \<Rightarrow>
               if modeStr = [] \<or> modeStr = ModeExecute \<or> modeStr = ModeDryRun then Inr modeStr
               else Inl (InvalidGrantMode modeStr)))"

definition unmarshalScope :: "(string \<times> json) list \<Rightarrow> auth_error + StringMap" where
  "unmarshalScope raw =
     (case map_of raw ''scope'' of
        None \<Rightarrow> Inr []
      | Some v \<Rightarrow>
          (case unmarshalStringMap v of
             None \<Rightarrow> Inl (GrantDecode ''scope'')
           | Some scope \<Rightarrow> Inr scope))"

text \<open>\<open>UnmarshalJSON\<close> starts from a zero entry; deleting a key that is absent is a no-op.\<close>

definition UnmarshalJSON :: "json \<Rightarrow> auth_error + GrantEntry" where
  "UnmarshalJSON data =
     (case (case data of JObject ms \<Rightarrow> Some (goMapOf ms) | JNull \<Rightarrow> Some [] | _ \<Rightarrow> None) of
        None \<Rightarrow> Inl (GrantDecode [])
      | Some raw \<Rightarrow>
          (case (case map_of raw ''action'' of None \<Rightarrow> Some [] | Some v \<Rightarrow> unmarshalString v) of
             None \<Rightarrow> Inl (GrantDecode ''action'')
           | Some actionStr \<Rightarrow>
               if actionStr = [] then Inl InvalidGrantAction
               else res_bind (unmarshalMode raw) (\<lambda>mode.
                 res_bind (unmarshalScope raw) (\<lambda>scope.
                   Inr \<lparr>Action = actionStr, EntryMode = mode, Scope = scope,
                        Extras = AList.delete ''scope'' (AList.delete ''mode'' (AList.delete ''action'' raw))\<rparr>))))"

definition writeSortedStringMap :: "StringMap \<Rightarrow> json" where
  "writeSortedStringMap m = JObject (map (\<lambda>k. (k, JString (the (map_of m k)))) (sort (map fst m)))"

definition MarshalJSON :: "GrantEntry \<Rightarrow> json" where
  "MarshalJSON g = JObject
     ([(''action'', JString (Action g))]
      @ (if EntryMode g \<noteq> [] then [(''mode'', JString (EntryMode g))] else [])
      @ (if length (Scope g) > 0 then [(''scope'', writeSortedStringMap (Scope g))] else [])
      @ map (\<lambda>k. (k, the (map_of (Extras g) k))) (sort (map fst (Extras g))))"

subsection \<open>What a grant allows\<close>

definition grants :: "string \<Rightarrow> StringMap \<Rightarrow> GrantEntry \<Rightarrow> bool" where
  "grants requestAction target e \<longleftrightarrow>
     ActionMatches (Action e) requestAction \<and> ScopeMatches (Scope e) target"

definition grantingModes :: "Grant \<Rightarrow> string \<Rightarrow> StringMap \<Rightarrow> Mode set" where
  "grantingModes grant requestAction target =
     (\<lambda>e. if EntryMode e = [] then ModeExecute else EntryMode e) `
       {e \<in> set grant. grants requestAction target e}"

lemma grantingModes_simps:
  "grantingModes [] r t = {}"
  "grantingModes (e # es) r t =
     (if grants r t e then {if EntryMode e = [] then ModeExecute else EntryMode e} else {})
       \<union> grantingModes es r t"
  by (auto simp: grantingModes_def)

lemma mode_distinct [simp]: "ModeExecute \<noteq> ModeDryRun" "ModeDryRun \<noteq> ModeExecute"
    "ModeExecute \<noteq> []" "ModeDryRun \<noteq> []"
  by (simp_all add: ModeExecute_def ModeDryRun_def)

definition bestOf :: "Mode set \<Rightarrow> Mode option" where
  "bestOf M = (if M = {} then None else if ModeExecute \<in> M then Some ModeExecute else Some ModeDryRun)"

lemma checkGrantStep_bestOf:
  assumes "grants r t e" and "m = (if EntryMode e = [] then ModeExecute else EntryMode e)"
    and "M \<subseteq> {ModeExecute, ModeDryRun}" and "m \<in> {ModeExecute, ModeDryRun}"
  shows "checkGrantStep r t (bestOf M) e = bestOf (insert m M)"
  using assms by (auto simp: checkGrantStep_def grants_def bestOf_def Let_def)

lemma checkGrantStep_skip: "\<not> grants r t e \<Longrightarrow> checkGrantStep r t best e = best"
  by (auto simp: checkGrantStep_def grants_def)

lemma checkGrant_fold:
  assumes "M \<union> grantingModes grant r t \<subseteq> {ModeExecute, ModeDryRun}"
  shows "foldl (checkGrantStep r t) (bestOf M) grant = bestOf (M \<union> grantingModes grant r t)"
  using assms
proof (induction grant arbitrary: M)
  case (Cons e es)
  let ?m = "if EntryMode e = [] then ModeExecute else EntryMode e"
  show ?case
  proof (cases "grants r t e")
    case True
    with Cons.prems have "insert ?m M \<union> grantingModes es r t \<subseteq> {ModeExecute, ModeDryRun}"
      by (simp add: grantingModes_simps)
    with Cons.IH [OF this] checkGrantStep_bestOf [OF True refl, of M] True show ?thesis
      by (simp add: grantingModes_simps)
  next
    case False
    with Cons show ?thesis by (simp add: checkGrantStep_skip grantingModes_simps)
  qed
qed (simp add: grantingModes_simps)

lemma validateEntries_iff:
  "validateEntries i grant = Inr () \<longleftrightarrow>
     (\<forall>e \<in> set grant. ValidateActionString (Action e) = Inr () \<and> EntryMode e \<in> {[], ModeExecute, ModeDryRun})"
  by (induction i grant rule: validateEntries.induct) (auto split: sum.splits)

lemma valid_modes: "ValidateGrant grant = Inr () \<Longrightarrow> grantingModes grant r t \<subseteq> {ModeExecute, ModeDryRun}"
  by (auto simp: ValidateGrant_def validateEntries_iff grantingModes_def split: if_splits)

lemma CheckGrant_bestOf:
  "ValidateGrant grant = Inr () \<Longrightarrow> CheckGrant grant r t =
     (case bestOf (grantingModes grant r t) of
        None \<Rightarrow> \<lparr>Allowed = False, ResultMode = []\<rparr>
      | Some m \<Rightarrow> \<lparr>Allowed = True, ResultMode = m\<rparr>)"
  using checkGrant_fold [of "{}" grant r t] valid_modes [of grant r t]
  by (simp add: CheckGrant_def bestOf_def [of "{}"])

lemma grantingModes_empty_iff: "grantingModes grant r t = {} \<longleftrightarrow> (\<forall>e \<in> set grant. \<not> grants r t e)"
  by (auto simp: grantingModes_def)

lemma grantingModes_execute_iff:
  "ValidateGrant grant = Inr () \<Longrightarrow> ModeExecute \<in> grantingModes grant r t \<longleftrightarrow>
     (\<exists>e \<in> set grant. grants r t e \<and> EntryMode e \<noteq> ModeDryRun)"
  by (force simp: ValidateGrant_def validateEntries_iff grantingModes_def split: if_splits)

lemma ValidateGrant_mset: "mset grant' = mset grant \<Longrightarrow> ValidateGrant grant = Inr () \<Longrightarrow> ValidateGrant grant' = Inr ()"
  using mset_eq_setD [of grant' grant] mset_eq_length [of grant' grant]
  by (auto simp: ValidateGrant_def validateEntries_iff split: if_splits)

text \<open>C40: For a valid grant the check allows a request exactly when some entry matches its action
  and scope, answers \<open>execute\<close> exactly when one of the matching entries is not a dry-run entry and
  \<open>dry_run\<close> when all of them are, and the order of the entries does not matter.\<close>

theorem check_grant_decides:
  assumes "ValidateGrant grant = Inr ()"
  shows "(Allowed (CheckGrant grant r t) \<longleftrightarrow> (\<exists>e \<in> set grant. grants r t e)) \<and>
     (ResultMode (CheckGrant grant r t) = ModeExecute \<longleftrightarrow>
        (\<exists>e \<in> set grant. grants r t e \<and> EntryMode e \<noteq> ModeDryRun)) \<and>
     (ResultMode (CheckGrant grant r t) = ModeDryRun \<longleftrightarrow>
        (\<exists>e \<in> set grant. grants r t e) \<and> (\<forall>e \<in> set grant. grants r t e \<longrightarrow> EntryMode e = ModeDryRun)) \<and>
     (\<forall>grant'. mset grant' = mset grant \<longrightarrow> CheckGrant grant' r t = CheckGrant grant r t)"
proof -
  have "CheckGrant grant' r t = CheckGrant grant r t" if "mset grant' = mset grant" for grant'
    using mset_eq_setD [OF that] CheckGrant_bestOf [OF assms]
      CheckGrant_bestOf [OF ValidateGrant_mset [OF that assms]]
    by (simp add: grantingModes_def)
  then show ?thesis
    using CheckGrant_bestOf [OF assms, of r t] grantingModes_empty_iff [of grant r t]
      grantingModes_execute_iff [OF assms, of r t]
    by (auto simp: bestOf_def not_sym [OF mode_distinct(3)] not_sym [OF mode_distinct(4)])
qed

theorem check_grant_decides_witness:
  "\<exists>grant. ValidateGrant grant = Inr () \<and>
     ResultMode (CheckGrant grant ''node:read'' [(''tenant'', ''a'')]) = ModeExecute"
proof -
  let ?g = "[\<lparr>Action = ''node:*'', EntryMode = ''dry_run'', Scope = [], Extras = []\<rparr>,
             \<lparr>Action = ''*:read'', EntryMode = [], Scope = [(''tenant'', ''a'')], Extras = []\<rparr>]"
  have v: "ValidateGrant ?g = Inr ()" by code_simp
  have "\<exists>e \<in> set ?g. grants ''node:read'' [(''tenant'', ''a'')] e \<and> EntryMode e \<noteq> ModeDryRun"
    by (simp add: grants_def ActionMatches_def ScopeMatches_def HasPrefix_def HasSuffix_def ModeDryRun_def)
  with check_grant_decides [OF v] v show ?thesis by blast
qed

subsection \<open>Validated action patterns\<close>

lemma append_sep_inject:
  "c \<notin> set a \<Longrightarrow> c \<notin> set b \<Longrightarrow> a @ c # x = b @ c # y \<longleftrightarrow> a = b \<and> x = y"
  by (auto simp: append_eq_append_conv2 Cons_eq_append_conv append_eq_Cons_conv)

lemma append_sep_inject_last:
  assumes "c \<notin> set x" and "c \<notin> set y"
  shows "a @ c # x = b @ c # y \<longleftrightarrow> a = b \<and> x = y"
proof -
  have "a @ c # x = b @ c # y \<longleftrightarrow> rev x @ c # rev a = rev y @ c # rev b"
    by (metis append.assoc append_Cons append_Nil rev.simps(2) rev_append rev_swap)
  with append_sep_inject [of c "rev x" "rev y" "rev a" "rev b"] assms show ?thesis by auto
qed

text \<open>The shapes \<open>ValidateActionString\<close> lets through.\<close>

lemma validated_action_cases:
  assumes "ValidateActionString e = Inr ()"
  obtains "e = ''*''"
  | "CHR ''*'' \<notin> set e" and "CHR '':'' \<in> set e"
  | noun where "e = noun @ '':*''" and "noun \<noteq> []" and "CHR ''*'' \<notin> set noun" and "CHR '':'' \<notin> set noun"
  | verb where "e = ''*:'' @ verb" and "verb \<noteq> []" and "CHR ''*'' \<notin> set verb" and "CHR '':'' \<notin> set verb"
  using assms
  by (auto simp: ValidateActionString_def Let_def Contains_single HasSuffix_iff HasPrefix_iff
      split: if_splits)

lemma ActionMatches_noun: "e = noun @ '':*'' \<Longrightarrow> ActionMatches e r \<longleftrightarrow> e = r \<or> HasPrefix r (noun @ '':'')"
  by (auto simp: ActionMatches_def HasSuffix_def Let_def)

lemma ActionMatches_verb:
  assumes "e = ''*:'' @ verb" and "CHR ''*'' \<notin> set verb"
  shows "ActionMatches e r \<longleftrightarrow> e = r \<or> HasSuffix r ('':'' @ verb)"
proof -
  have "last e \<noteq> CHR ''*''" using assms by (cases "verb = []") (auto dest: last_in_set)
  then have "\<not> HasSuffix e '':*''" by (auto simp: HasSuffix_iff)
  moreover have "HasPrefix e ''*:''" "e \<noteq> ''*''" "drop 1 e = '':'' @ verb"
    using assms(1) by (simp_all add: HasPrefix_def)
  ultimately show ?thesis by (simp add: ActionMatches_def Let_def)
qed

lemma ActionMatches_concrete:
  "CHR ''*'' \<notin> set e \<Longrightarrow> ActionMatches e r \<longleftrightarrow> e = r"
  by (auto simp: ActionMatches_def HasSuffix_iff HasPrefix_iff)

text \<open>A validated action pattern matches a request \<open>noun:verb\<close> exactly when it is \<open>*\<close>, the
  request itself, \<open>noun:*\<close> or \<open>*:verb\<close>: a wildcard never reaches into another noun or verb.\<close>

theorem validated_action_matches_exactly:
  assumes "ValidateActionString e = Inr ()" and "CHR '':'' \<notin> set n" and "CHR '':'' \<notin> set v"
  shows "ActionMatches e (n @ '':'' @ v) \<longleftrightarrow>
     e = ''*'' \<or> e = n @ '':'' @ v \<or> e = n @ '':*'' \<or> e = ''*:'' @ v"
  using assms(1)
proof (cases rule: validated_action_cases)
  case 1
  then show ?thesis by (simp add: ActionMatches_def)
next
  case 2
  then show ?thesis by (auto simp: ActionMatches_concrete)
next
  case (3 noun)
  have "HasPrefix (n @ '':'' @ v) (noun @ '':'') \<longleftrightarrow> n = noun"
    using append_sep_inject [of "CHR '':''" n noun v] 3(4) assms(2) by (auto simp: HasPrefix_iff)
  with 3 show ?thesis unfolding ActionMatches_noun [OF 3(1)] by (auto simp: append_eq_Cons_conv Cons_eq_append_conv)
next
  case (4 verb)
  have "HasSuffix (n @ '':'' @ v) ('':'' @ verb) \<longleftrightarrow> v = verb"
    using append_sep_inject_last [of "CHR '':''" v verb n] 4(4) assms(3) by (auto simp: HasSuffix_iff)
  with 4 show ?thesis unfolding ActionMatches_verb [OF 4(1,3)] by (auto simp: append_eq_Cons_conv Cons_eq_append_conv)
qed

theorem validated_action_matches_exactly_witness:
  "ValidateActionString ''node:*'' = Inr () \<and> ActionMatches ''node:*'' ''node:read'' \<and>
   \<not> ActionMatches ''node:*'' ''nodes:read''"
proof -
  have v: "ValidateActionString ''node:*'' = Inr ()" by code_simp
  from validated_action_matches_exactly [OF v, of "''node''" "''read''"]
    validated_action_matches_exactly [OF v, of "''nodes''" "''read''"] v
  show ?thesis by simp
qed

subsection \<open>Round trip of the codec\<close>

lemma update_fresh: "k \<notin> fst ` set m \<Longrightarrow> AList.update k v m = m @ [(k, v)]"
  by (induction m) auto

lemma goMapOf_acc:
  "distinct (map fst (acc @ ms)) \<Longrightarrow> foldl (\<lambda>m (k, v). AList.update k v m) acc ms = acc @ ms"
proof (induction ms arbitrary: acc)
  case (Cons p ms)
  obtain k v where p: "p = (k, v)" by (cases p)
  with Cons.prems have "AList.update k v acc = acc @ [(k, v)]" by (intro update_fresh) auto
  with Cons.IH [of "acc @ [(k, v)]"] Cons.prems p show ?case by auto
qed simp

lemma goMapOf_distinct: "distinct (map fst ms) \<Longrightarrow> goMapOf ms = ms"
  using goMapOf_acc [of "[]" ms] by (simp add: goMapOf_def)

lemma sorted_members:
  assumes "sorted (map fst m)" and "distinct (map fst m)"
  shows "map (\<lambda>k. (k, f (the (map_of m k)))) (sort (map fst m)) = map (\<lambda>(k, v). (k, f v)) m"
  using assms by (auto simp: sort_key_id_if_sorted sorted_sort_id)

lemma unmarshalMembers_strings:
  "unmarshalMembers (map (\<lambda>(k, v). (k, JString v)) m) = Some m"
  by (induction m) auto

lemma unmarshal_sorted_map:
  "sorted (map fst m) \<Longrightarrow> distinct (map fst m) \<Longrightarrow> unmarshalStringMap (writeSortedStringMap m) = Some m"
  using sorted_members [of m JString] unmarshalMembers_strings [of m]
  by (simp add: writeSortedStringMap_def goMapOf_distinct)

text \<open>A Go map has no order; the association list sorted by key is its canonical representative.\<close>

definition canonicalEntry :: "GrantEntry \<Rightarrow> bool" where
  "canonicalEntry g \<longleftrightarrow> Action g \<noteq> [] \<and> EntryMode g \<in> {[], ModeExecute, ModeDryRun} \<and>
     sorted (map fst (Scope g)) \<and> distinct (map fst (Scope g)) \<and>
     sorted (map fst (Extras g)) \<and> distinct (map fst (Extras g)) \<and>
     set (map fst (Extras g)) \<inter> {''action'', ''mode'', ''scope''} = {}"

lemma delete_fresh: "k \<notin> fst ` set m \<Longrightarrow> AList.delete k m = m"
  by (induction m) (auto simp: AList.delete_eq)

lemma MarshalJSON_members:
  assumes "canonicalEntry g"
  defines "ms \<equiv> [(''action'', JString (Action g))]
      @ (if EntryMode g \<noteq> [] then [(''mode'', JString (EntryMode g))] else [])
      @ (if Scope g \<noteq> [] then [(''scope'', writeSortedStringMap (Scope g))] else []) @ Extras g"
  shows "MarshalJSON g = JObject ms" and "distinct (map fst ms)"
    and "map_of ms ''action'' = Some (JString (Action g))"
    and "map_of ms ''mode'' = (if EntryMode g \<noteq> [] then Some (JString (EntryMode g)) else None)"
    and "map_of ms ''scope'' = (if Scope g \<noteq> [] then Some (writeSortedStringMap (Scope g)) else None)"
    and "AList.delete ''scope'' (AList.delete ''mode'' (AList.delete ''action'' ms)) = Extras g"
proof -
  have fresh: "''action'' \<notin> fst ` set (Extras g)" "''mode'' \<notin> fst ` set (Extras g)" "''scope'' \<notin> fst ` set (Extras g)"
    using assms(1) by (auto simp: canonicalEntry_def)
  then have none: "map_of (Extras g) ''mode'' = None" "map_of (Extras g) ''scope'' = None"
    by (auto simp: map_of_eq_None_iff)
  show "MarshalJSON g = JObject ms"
    using sorted_members [of "Extras g" id] assms(1)
    by (simp add: MarshalJSON_def ms_def canonicalEntry_def)
  show "distinct (map fst ms)" using assms(1) fresh by (auto simp: ms_def canonicalEntry_def)
  show "map_of ms ''action'' = Some (JString (Action g))" by (simp add: ms_def)
  show "map_of ms ''mode'' = (if EntryMode g \<noteq> [] then Some (JString (EntryMode g)) else None)"
    "map_of ms ''scope'' = (if Scope g \<noteq> [] then Some (writeSortedStringMap (Scope g)) else None)"
    using none by (simp_all add: ms_def)
  show "AList.delete ''scope'' (AList.delete ''mode'' (AList.delete ''action'' ms)) = Extras g"
    using fresh by (auto simp: ms_def delete_fresh)
qed

lemma UnmarshalJSON_members:
  assumes "distinct (map fst ms)" and "map_of ms ''action'' = Some (JString a)" and "a \<noteq> []"
    and "unmarshalMode ms = Inr md" and "unmarshalScope ms = Inr sc"
    and "AList.delete ''scope'' (AList.delete ''mode'' (AList.delete ''action'' ms)) = ex"
  shows "UnmarshalJSON (JObject ms) = Inr \<lparr>Action = a, EntryMode = md, Scope = sc, Extras = ex\<rparr>"
  using assms by (simp add: UnmarshalJSON_def goMapOf_distinct)

text \<open>The JSON codec of a grant entry is lossless: an entry with a non-empty action and a known
  mode decodes back to itself, scope and unknown members included.\<close>

theorem grant_entry_round_trip:
  assumes "canonicalEntry g"
  shows "UnmarshalJSON (MarshalJSON g) = Inr g"
proof -
  note m = MarshalJSON_members [OF assms]
  have "Action g \<noteq> []" and mode: "EntryMode g \<in> {[], ModeExecute, ModeDryRun}"
    and scope: "unmarshalStringMap (writeSortedStringMap (Scope g)) = Some (Scope g)"
    using assms by (auto simp: canonicalEntry_def intro: unmarshal_sorted_map)
  moreover from mode have "unmarshalMode ms = Inr (EntryMode g)"
    if "map_of ms ''mode'' = (if EntryMode g \<noteq> [] then Some (JString (EntryMode g)) else None)" for ms
    using that by (auto simp: unmarshalMode_def)
  moreover from scope have "unmarshalScope ms = Inr (Scope g)"
    if "map_of ms ''scope'' = (if Scope g \<noteq> [] then Some (writeSortedStringMap (Scope g)) else None)" for ms
    using that by (auto simp: unmarshalScope_def)
  ultimately show ?thesis
    unfolding m(1) by (subst UnmarshalJSON_members [OF m(2,3) _ _ _ m(6)]) (use m(4,5) in auto)
qed

theorem grant_entry_round_trip_witness:
  "\<exists>g. canonicalEntry g \<and> Scope g \<noteq> [] \<and> Extras g \<noteq> [] \<and> UnmarshalJSON (MarshalJSON g) = Inr g"
proof -
  let ?g = "\<lparr>Action = ''node:*'', EntryMode = ''dry_run'', Scope = [(''env'', ''p''), (''tenant'', ''a'')],
             Extras = [(''note'', JOther ''1'')]\<rparr>"
  have "canonicalEntry ?g" by (simp add: canonicalEntry_def ModeDryRun_def less_char_def less_eq_char_def)
  with grant_entry_round_trip [OF this] show ?thesis by (intro exI [of _ ?g]) simp
qed

end
