(* ===== verification/Run_Tree.thy ===== *)
theory Run_Tree
  imports Cascade_State Signal_Taxonomy "HOL-Library.Multiset"
begin

text \<open>
  The run tree: a node run owns run scopes, and the runs inside a scope are the children of the
  run that owns it. The theory models the aggregation policies and the tree operations of
  \<open>lib/runtime/run_tree.go\<close>, the upward propagation of \<open>lib/runtime/state_propagation.go\<close>, and
  the two tables beneath them, \<open>lib/foundation/persistence/sqlite/run_tree.go\<close> and
  \<open>run_scopes.go\<close>, as lists of rows. A row record holds the columns these operations read or
  write. Failures of the database itself abort the transaction and are not modelled.
\<close>

subsection \<open>Aggregation policies\<close>

datatype AggregationKind =
  AggregationKindStrict | AggregationKindThreshold | AggregationKindBestEffort
| AggregationKindFirst | AggregationKindUnset | AggregationKindOther string

record AggregationPolicy =
  Kind :: AggregationKind
  MaxFailures :: int

record ChildState =
  cState :: NodeState
  cSettlingSignalType :: "TypePath option"
  cChanged :: bool

definition IsSettled :: "ChildState \<Rightarrow> bool" where
  "IsSettled c = (case cState c of NodeStateFresh \<Rightarrow> True | NodeStateFailed \<Rightarrow> True | _ \<Rightarrow> False)"

definition IsSuccess :: "ChildState \<Rightarrow> bool" where
  "IsSuccess c =
     (if cState c \<noteq> NodeStateFresh then False
      else case cSettlingSignalType c of
        None \<Rightarrow> True
      | Some sig \<Rightarrow>
          if HasPrefixPath sig ''terminal/success'' \<or> HasPrefixPath sig ''terminal/error'' then True
          else False)"

definition IsFailure :: "ChildState \<Rightarrow> bool" where
  "IsFailure c \<longleftrightarrow> cState c = NodeStateFailed"

datatype AggregateAction =
  AggregateActionNone | AggregateActionCancelSiblings | AggregateActionCancelNonWinners

text \<open>\<open>AggregateResult{IsSettled: false}\<close> leaves the remaining fields zero and no caller reads them,
  so an unsettled result is \<open>None\<close>.\<close>

record AggregateResult =
  ParentState :: NodeState
  ParentSettlingSignalType :: TypePath
  ParentChanged :: bool
  ResultAction :: AggregateAction

definition aggregateChanged :: "ChildState list \<Rightarrow> bool" where
  "aggregateChanged children = list_ex cChanged children"

definition settledSuccess :: "ChildState list \<Rightarrow> AggregateResult" where
  "settledSuccess children =
     \<lparr>ParentState = NodeStateFresh, ParentSettlingSignalType = ''terminal/success'',
      ParentChanged = aggregateChanged children, ResultAction = AggregateActionNone\<rparr>"

text \<open>The loop of \<open>aggregateStrict\<close>; the flag is \<open>anyActive\<close>.\<close>

fun aggregateStrictLoop :: "ChildState list \<Rightarrow> ChildState list \<Rightarrow> bool \<Rightarrow> AggregateResult option" where
  "aggregateStrictLoop children [] anyActive =
     (if anyActive then None else Some (settledSuccess children))"
| "aggregateStrictLoop children (c # cs) anyActive =
     (if IsFailure c then
        Some \<lparr>ParentState = NodeStateFailed,
              ParentSettlingSignalType = ''terminal/error/aggregate/strict_failed'',
              ParentChanged = False, ResultAction = AggregateActionCancelSiblings\<rparr>
      else aggregateStrictLoop children cs (if \<not> IsSettled c then True else anyActive))"

definition aggregateStrict :: "ChildState list \<Rightarrow> AggregateResult option" where
  "aggregateStrict children = aggregateStrictLoop children children False"

definition thresholdStep :: "int \<times> bool \<Rightarrow> ChildState \<Rightarrow> int \<times> bool" where
  "thresholdStep acc c =
     (if IsFailure c then fst acc + 1 else fst acc,
      if \<not> IsSettled c then True else snd acc)"

definition aggregateThreshold :: "ChildState list \<Rightarrow> AggregationPolicy \<Rightarrow> AggregateResult option" where
  "aggregateThreshold children policy =
     (let (failures, anyActive) = foldl thresholdStep (0, False) children;
          mx = (if MaxFailures policy \<le> 0 then 1 else MaxFailures policy) in
      if failures \<ge> mx then
        Some \<lparr>ParentState = NodeStateFailed,
              ParentSettlingSignalType = ''terminal/error/aggregate/threshold_failed'',
              ParentChanged = False, ResultAction = AggregateActionNone\<rparr>
      else if anyActive then None
      else Some (settledSuccess children))"

definition aggregateBestEffort :: "ChildState list \<Rightarrow> AggregateResult option" where
  "aggregateBestEffort children =
     (if list_ex (\<lambda>c. \<not> IsSettled c) children then None else Some (settledSuccess children))"

fun aggregateFirstLoop :: "ChildState list \<Rightarrow> bool \<Rightarrow> AggregateResult option" where
  "aggregateFirstLoop [] allFailed =
     (if allFailed then
        Some \<lparr>ParentState = NodeStateFailed,
              ParentSettlingSignalType = ''terminal/error/aggregate/first_failed'',
              ParentChanged = False, ResultAction = AggregateActionNone\<rparr>
      else None)"
| "aggregateFirstLoop (c # cs) allFailed =
     (if IsSuccess c then
        Some \<lparr>ParentState = NodeStateFresh,
              ParentSettlingSignalType =
                (case cSettlingSignalType c of None \<Rightarrow> ''terminal/success'' | Some sig \<Rightarrow> sig),
              ParentChanged = cChanged c, ResultAction = AggregateActionCancelNonWinners\<rparr>
      else aggregateFirstLoop cs (if \<not> IsFailure c then False else allFailed))"

definition aggregateFirst :: "ChildState list \<Rightarrow> AggregateResult option" where
  "aggregateFirst children = aggregateFirstLoop children True"

definition Aggregate :: "ChildState list \<Rightarrow> AggregationPolicy \<Rightarrow> AggregateResult option" where
  "Aggregate children policy =
     (if length children = 0 then None
      else case Kind policy of
        AggregationKindStrict \<Rightarrow> aggregateStrict children
      | AggregationKindThreshold \<Rightarrow> aggregateThreshold children policy
      | AggregationKindBestEffort \<Rightarrow> aggregateBestEffort children
      | AggregationKindFirst \<Rightarrow> aggregateFirst children
      | _ \<Rightarrow> aggregateStrict children)"

subsection \<open>What the policies decide\<close>

text \<open>The parent state a policy prescribes, said without loops.\<close>

definition policyOutcome :: "AggregationPolicy \<Rightarrow> ChildState list \<Rightarrow> NodeState option" where
  "policyOutcome policy cs =
     (if cs = [] then None
      else case Kind policy of
        AggregationKindThreshold \<Rightarrow>
          if int (length (filter IsFailure cs)) \<ge> max 1 (MaxFailures policy) then Some NodeStateFailed
          else if \<forall>c \<in> set cs. IsSettled c then Some NodeStateFresh else None
      | AggregationKindBestEffort \<Rightarrow>
          if \<forall>c \<in> set cs. IsSettled c then Some NodeStateFresh else None
      | AggregationKindFirst \<Rightarrow>
          if \<exists>c \<in> set cs. IsSuccess c then Some NodeStateFresh
          else if \<forall>c \<in> set cs. IsFailure c then Some NodeStateFailed else None
      | _ \<Rightarrow>
          if \<exists>c \<in> set cs. IsFailure c then Some NodeStateFailed
          else if \<forall>c \<in> set cs. IsSettled c then Some NodeStateFresh else None)"

lemma IsFailure_settled [simp]: "IsFailure c \<Longrightarrow> IsSettled c"
  by (simp add: IsFailure_def IsSettled_def)

lemma IsSuccess_settled [simp]: "IsSuccess c \<Longrightarrow> IsSettled c"
  by (simp add: IsSuccess_def IsSettled_def split: if_splits)

lemma IsSuccess_not_failure [simp]: "IsSuccess c \<Longrightarrow> \<not> IsFailure c"
  by (auto simp: IsSuccess_def IsFailure_def split: if_splits)

lemma aggregateStrictLoop_outcome:
  "map_option ParentState (aggregateStrictLoop children cs a) =
     (if \<exists>c \<in> set cs. IsFailure c then Some NodeStateFailed
      else if a \<or> (\<exists>c \<in> set cs. \<not> IsSettled c) then None else Some NodeStateFresh)"
  by (induction cs arbitrary: a) (auto simp: settledSuccess_def simp del: map_option_eq_Some map_option_is_None)

lemma thresholdStep_fold:
  "foldl thresholdStep (n, a) cs =
     (n + int (length (filter IsFailure cs)), a \<or> (\<exists>c \<in> set cs. \<not> IsSettled c))"
  by (induction cs arbitrary: n a) (auto simp: thresholdStep_def)

lemma aggregateFirstLoop_outcome:
  "map_option ParentState (aggregateFirstLoop cs a) =
     (if \<exists>c \<in> set cs. IsSuccess c then Some NodeStateFresh
      else if a \<and> (\<forall>c \<in> set cs. IsFailure c) then Some NodeStateFailed else None)"
  by (induction cs arbitrary: a) (auto simp del: map_option_eq_Some map_option_is_None)

lemma Aggregate_outcome: "map_option ParentState (Aggregate cs policy) = policyOutcome policy cs"
  by (cases "Kind policy")
     (auto simp: Aggregate_def policyOutcome_def aggregateStrict_def aggregateStrictLoop_outcome
        aggregateThreshold_def thresholdStep_fold aggregateBestEffort_def list_ex_iff
        settledSuccess_def aggregateFirst_def aggregateFirstLoop_outcome Let_def
        simp del: map_option_eq_Some map_option_is_None)

lemma Aggregate_settled_state:
  "Aggregate cs policy = Some r \<Longrightarrow> ParentState r = NodeStateFresh \<or> ParentState r = NodeStateFailed"
  using Aggregate_outcome [of cs policy]
  by (auto simp: policyOutcome_def split: if_splits AggregationKind.splits)

text \<open>A policy looks at the children only through three flags, and not at their order.\<close>

definition flags :: "ChildState \<Rightarrow> bool \<times> bool \<times> bool" where
  "flags c = (IsSettled c, IsFailure c, IsSuccess c)"

lemma policyOutcome_flags:
  assumes "mset (map flags cs) = mset (map flags cs')"
  shows "policyOutcome policy cs = policyOutcome policy cs'"
proof -
  have sets: "flags ` set cs = flags ` set cs'"
    using mset_eq_setD [OF assms] by simp
  have ball: "(\<forall>c \<in> set cs. P (flags c)) \<longleftrightarrow> (\<forall>c \<in> set cs'. P (flags c))" for P
    using sets by (metis (no_types, lifting) image_iff)
  have "length (filter (\<lambda>f. fst (snd f)) (map flags cs)) = length (filter (\<lambda>f. fst (snd f)) (map flags cs'))"
    using assms by (metis mset_filter size_mset)
  then have fail: "length (filter IsFailure cs) = length (filter IsFailure cs')"
    by (simp add: filter_map o_def flags_def)
  have "cs = [] \<longleftrightarrow> cs' = []" using mset_eq_length [OF assms] by auto
  moreover have "(\<forall>c \<in> set cs. IsSettled c) \<longleftrightarrow> (\<forall>c \<in> set cs'. IsSettled c)"
    "(\<forall>c \<in> set cs. IsFailure c) \<longleftrightarrow> (\<forall>c \<in> set cs'. IsFailure c)"
    "(\<forall>c \<in> set cs. \<not> IsFailure c) \<longleftrightarrow> (\<forall>c \<in> set cs'. \<not> IsFailure c)"
    "(\<forall>c \<in> set cs. \<not> IsSuccess c) \<longleftrightarrow> (\<forall>c \<in> set cs'. \<not> IsSuccess c)"
    using ball [of fst] ball [of "\<lambda>f. fst (snd f)"] ball [of "\<lambda>f. \<not> fst (snd f)"]
      ball [of "\<lambda>f. \<not> snd (snd f)"] by (simp_all add: flags_def)
  ultimately show ?thesis
    unfolding policyOutcome_def fail by (cases "Kind policy") auto
qed

lemma success_signal: "IsSuccess \<lparr>cState = NodeStateFresh, cSettlingSignalType = Some ''terminal/success'', cChanged = b\<rparr>"
  by (simp add: IsSuccess_def HasPrefixPath_def HasSuffix_def)

lemma aggregateStrictLoop_signal:
  "aggregateStrictLoop children cs a = Some r \<Longrightarrow> ParentState r = NodeStateFresh \<Longrightarrow>
   ParentSettlingSignalType r = ''terminal/success''"
  by (induction cs arbitrary: a) (auto simp: settledSuccess_def split: if_splits)

lemma winner_signal:
  "IsSuccess c \<Longrightarrow> IsSuccess \<lparr>cState = NodeStateFresh, cSettlingSignalType =
     Some (case cSettlingSignalType c of None \<Rightarrow> ''terminal/success'' | Some sig \<Rightarrow> sig), cChanged = b\<rparr>"
  using success_signal [of b] by (cases "cSettlingSignalType c") (simp_all add: IsSuccess_def split: if_splits)

lemma aggregateFirstLoop_signal:
  "aggregateFirstLoop cs a = Some r \<Longrightarrow> ParentState r = NodeStateFresh \<Longrightarrow>
   IsSuccess \<lparr>cState = NodeStateFresh, cSettlingSignalType = Some (ParentSettlingSignalType r), cChanged = b\<rparr>"
  by (induction cs arbitrary: a) (auto simp: winner_signal split: if_splits)

lemma Aggregate_signal:
  assumes "Aggregate cs policy = Some r" and "ParentState r = NodeStateFresh"
  shows "IsSuccess \<lparr>cState = NodeStateFresh, cSettlingSignalType = Some (ParentSettlingSignalType r), cChanged = b\<rparr>"
proof (cases "Kind policy = AggregationKindFirst")
  case True
  with assms aggregateFirstLoop_signal show ?thesis
    by (auto simp: Aggregate_def aggregateFirst_def split: if_splits)
next
  case False
  with assms have "ParentSettlingSignalType r = ''terminal/success''"
    by (cases "Kind policy")
       (auto simp: Aggregate_def aggregateStrict_def aggregateThreshold_def aggregateBestEffort_def
          settledSuccess_def Let_def dest: aggregateStrictLoop_signal split: if_splits prod.splits)
  with success_signal show ?thesis by simp
qed

text \<open>\<open>evolves cs cs'\<close>: some unsettled children have moved; settled ones are permanent.\<close>

definition evolves :: "ChildState list \<Rightarrow> ChildState list \<Rightarrow> bool" where
  "evolves cs cs' \<longleftrightarrow> list_all2 (\<lambda>c c'. IsSettled c \<longrightarrow> c' = c) cs cs'"

lemma evolves_all_settled: "evolves cs cs' \<Longrightarrow> \<forall>c \<in> set cs. IsSettled c \<Longrightarrow> cs' = cs"
  unfolding evolves_def by (induction rule: list_all2_induct) auto

lemma evolves_member: "evolves cs cs' \<Longrightarrow> c \<in> set cs \<Longrightarrow> IsSettled c \<Longrightarrow> c \<in> set cs'"
  unfolding evolves_def by (induction rule: list_all2_induct) auto

lemma evolves_failures: "evolves cs cs' \<Longrightarrow> length (filter IsFailure cs) \<le> length (filter IsFailure cs')"
  unfolding evolves_def by (induction rule: list_all2_induct) auto

lemma policyOutcome_stable:
  assumes "evolves cs cs'" and "policyOutcome policy cs = Some st"
  shows "policyOutcome policy cs' = Some st"
proof (cases "\<forall>c \<in> set cs. IsSettled c")
  case True
  with evolves_all_settled [OF assms(1)] assms(2) show ?thesis by simp
next
  case False
  have "cs' \<noteq> []" using assms by (auto simp: evolves_def policyOutcome_def)
  moreover have "\<exists>c \<in> set cs'. IsFailure c" if "\<exists>c \<in> set cs. IsFailure c"
    using that evolves_member [OF assms(1)] IsFailure_settled by blast
  moreover have "\<exists>c \<in> set cs'. IsSuccess c" if "\<exists>c \<in> set cs. IsSuccess c"
    using that evolves_member [OF assms(1)] IsSuccess_settled by blast
  moreover have "\<not> (\<forall>c \<in> set cs. IsFailure c)" using False IsFailure_settled by blast
  moreover note evolves_failures [OF assms(1)]
  ultimately show ?thesis
    using assms(2) False unfolding policyOutcome_def
    by (cases "Kind policy") (simp_all split: if_splits)
qed


text \<open>C34: A parent outcome is never revised: once the children determine a parent state, they
  determine the same state after any of the remaining ones settles.\<close>

theorem aggregate_outcome_is_stable:
  assumes "evolves cs cs'" and "Aggregate cs policy = Some r"
  shows "\<exists>r'. Aggregate cs' policy = Some r' \<and> ParentState r' = ParentState r"
proof -
  have "policyOutcome policy cs = Some (ParentState r)"
    using assms(2) Aggregate_outcome [of cs policy] by simp
  from policyOutcome_stable [OF assms(1) this] show ?thesis
    using Aggregate_outcome [of cs' policy] by auto
qed

theorem aggregate_outcome_is_stable_witness:
  "\<exists>r'. Aggregate [\<lparr>cState = NodeStateFailed, cSettlingSignalType = None, cChanged = False\<rparr>,
                  \<lparr>cState = NodeStateFresh, cSettlingSignalType = None, cChanged = True\<rparr>]
          \<lparr>Kind = AggregationKindStrict, MaxFailures = 0\<rparr> = Some r' \<and> ParentState r' = NodeStateFailed"
proof -
  let ?f = "\<lparr>cState = NodeStateFailed, cSettlingSignalType = None, cChanged = False\<rparr>"
  let ?p = "\<lparr>Kind = AggregationKindStrict, MaxFailures = 0\<rparr>"
  have e: "evolves [?f, \<lparr>cState = NodeStateRunning, cSettlingSignalType = None, cChanged = False\<rparr>]
      [?f, \<lparr>cState = NodeStateFresh, cSettlingSignalType = None, cChanged = True\<rparr>]"
    by (simp add: evolves_def IsSettled_def)
  have "Aggregate [?f, \<lparr>cState = NodeStateRunning, cSettlingSignalType = None, cChanged = False\<rparr>] ?p
      = Some \<lparr>ParentState = NodeStateFailed,
              ParentSettlingSignalType = ''terminal/error/aggregate/strict_failed'',
              ParentChanged = False, ResultAction = AggregateActionCancelSiblings\<rparr>"
    by (simp add: Aggregate_def aggregateStrict_def IsFailure_def)
  from aggregate_outcome_is_stable [OF e this] show ?thesis by simp
qed

text \<open>C35: A parent whose children have all settled settles too, whatever its policy; under the
  \<open>first\<close> policy this needs every fresh child to have settled with no signal, with
  \<open>terminal/success\<close> or with the bare path \<open>terminal/error\<close>.\<close>

theorem settled_children_settle_parent:
  assumes "children \<noteq> []" and "\<forall>c \<in> set children. IsSettled c"
    and "Kind policy = AggregationKindFirst \<longrightarrow> (\<forall>c \<in> set children. IsFailure c \<or> IsSuccess c)"
  shows "Aggregate children policy \<noteq> None"
proof -
  have "policyOutcome policy children \<noteq> None"
    using assms by (auto simp: policyOutcome_def split: AggregationKind.splits)
  then show ?thesis using Aggregate_outcome [of children policy] by (cases "Aggregate children policy") auto
qed

theorem settled_children_settle_parent_witness:
  "Aggregate [\<lparr>cState = NodeStateFresh, cSettlingSignalType = None, cChanged = False\<rparr>]
     \<lparr>Kind = AggregationKindFirst, MaxFailures = 0\<rparr> \<noteq> None"
  by (rule settled_children_settle_parent) (simp_all add: IsSettled_def IsSuccess_def)

text \<open>The exception of the \<open>first\<close> policy is reachable: \<open>TypePath.HasPrefix\<close> compares for equality
  when its argument has no trailing \<open>*\<close>, so a fresh child that settled below \<open>terminal/error/\<close>
  counts neither as a success nor as a failure.\<close>

lemma first_policy_undecided:
  "c \<noteq> [] \<Longrightarrow> Aggregate [\<lparr>cState = NodeStateFresh, cSettlingSignalType = Some (''terminal/error/'' @ c), cChanged = b\<rparr>]
     \<lparr>Kind = AggregationKindFirst, MaxFailures = m\<rparr> = None"
  by (simp add: Aggregate_def aggregateFirst_def IsSuccess_def IsFailure_def HasPrefixPath_def HasSuffix_def)

end
