(* ===== verification/Run_Tree_Store.thy ===== *)
theory Run_Tree_Store
  imports Run_Tree
begin

text \<open>
  The run and run-scope tables (\<open>lib/foundation/persistence/sqlite/run_tree.go\<close>, \<open>run_scopes.go\<close>),
  the tree operations of \<open>lib/runtime/run_tree.go\<close> and the upward walk of
  \<open>lib/runtime/state_propagation.go\<close>. New identifiers and the current time are arguments. The
  attribute-bag snapshot that follows an insert belongs to another table; the calls are logged.
\<close>

subsection \<open>Rows\<close>

text \<open>The columns of an asynchronous acknowledgement and of the scratch of an executor.\<close>

record AckColumns =
  async_ack_id :: "string option"
  async_ack_registered_at :: "time option"
  effective_max_quiet :: "int option"
  effective_max_runtime :: "int option"
  async_ack_principal :: "string option"
  async_callback_url :: "string option"

record ScratchColumns =
  scratch_inline :: "string option"
  scratch_handle :: "string option"
  scratch_handle_backend :: "string option"

definition noAck :: AckColumns where
  "noAck = \<lparr>async_ack_id = None, async_ack_registered_at = None, effective_max_quiet = None, effective_max_runtime = None,
     async_ack_principal = None, async_callback_url = None\<rparr>"

definition noScratch :: ScratchColumns where
  "noScratch = \<lparr>scratch_inline = None, scratch_handle = None, scratch_handle_backend = None\<rparr>"

record NodeRunRow =
  NodeRunID :: UUID
  NodeID :: UUID
  FrameID :: UUID
  RunScopeID :: UUID
  State :: NodeState
  SettlingSignalType :: "string option"
  Policy :: AggregationPolicy
  Changed :: bool
  executor_name :: "string option"
  required_claim_producers :: "string list"
  enqueued_at :: time
  sequence :: int
  creation_reason :: CreationReason
  claimed_by :: "string option"
  claimed_at :: "time option"
  active_terminal_at :: "time option"
  progress_at :: "time option"
  parked_at :: "time option"
  resume_at :: "time option"
  retry_counter :: int
  prior_dispatch_id :: "UUID option"
  prior_dispatch_disposition :: "string option"
  scratch :: ScratchColumns
  ack :: AckColumns

record RunScopeRow =
  ScopeID :: UUID
  ParentRunScopeID :: "UUID option"
  ParentNodeRunID :: "UUID option"
  GraphName :: string
  PartitionKey :: string
  InstanceID :: UUID
  CreatedAt :: time
  ClosedAt :: "time option"

record RunStore =
  node_runs :: "NodeRunRow list"
  run_scopes :: "RunScopeRow list"
  bag_snapshots :: "(UUID \<times> UUID \<times> UUID) list"

datatype run_error =
  RunScopeRequired
| RunExists UUID
| ScopeExists UUID
| ScopeParentCheck
| ScopePartitionOpen string
| RunNotFound UUID
| WalkRejected cascade_error

subsection \<open>The run-scope table\<close>

definition scopeGetByID :: "RunStore \<Rightarrow> UUID \<Rightarrow> RunScopeRow option" where
  "scopeGetByID s i = row_of ScopeID i (run_scopes s)"

text \<open>\<open>Create\<close> with the table's primary key, its parent CHECK and the partial unique index on open
  fan-out partitions. A zero creation time stands for the current time.\<close>

definition scopeCreate :: "time \<Rightarrow> RunScopeRow \<Rightarrow> RunStore \<Rightarrow> run_error + RunStore" where
  "scopeCreate now row s =
     (if (ParentRunScopeID row = None) \<noteq> (ParentNodeRunID row = None) then Inl ScopeParentCheck
      else if row_of ScopeID (ScopeID row) (run_scopes s) \<noteq> None then Inl (ScopeExists (ScopeID row))
      else if PartitionKey row \<noteq> [] \<and> ClosedAt row = None \<and> ParentNodeRunID row \<noteq> None \<and>
              list_ex (\<lambda>r. ParentNodeRunID r = ParentNodeRunID row \<and> PartitionKey r = PartitionKey row
                 \<and> ClosedAt r = None) (run_scopes s)
           then Inl (ScopePartitionOpen (PartitionKey row))
      else Inr (s\<lparr>run_scopes := run_scopes s @ [row\<lparr>CreatedAt := if CreatedAt row = 0 then now else CreatedAt row\<rparr>]\<rparr>))"

definition GetFanoutPartition :: "RunStore \<Rightarrow> UUID \<Rightarrow> string \<Rightarrow> RunScopeRow option" where
  "GetFanoutPartition s parent pk =
     List.find (\<lambda>r. ParentNodeRunID r = Some parent \<and> PartitionKey r = pk \<and> ClosedAt r = None) (run_scopes s)"

definition scopeClose :: "time \<Rightarrow> UUID \<Rightarrow> RunStore \<Rightarrow> RunStore" where
  "scopeClose now i s =
     s\<lparr>run_scopes := update_where (\<lambda>r. ScopeID r = i \<and> ClosedAt r = None) (\<lambda>r. r\<lparr>ClosedAt := Some now\<rparr>) (run_scopes s)\<rparr>"

subsection \<open>The run table\<close>

definition nextSequence :: "NodeRunRow list \<Rightarrow> UUID \<Rightarrow> UUID \<Rightarrow> int" where
  "nextSequence runs node scope =
     (case map sequence (filter (\<lambda>r. NodeID r = node \<and> RunScopeID r = scope) runs) of
        [] \<Rightarrow> 0 | x # xs \<Rightarrow> fold max xs x) + 1"

record CreateNodeRunInput =
  inNodeRunID :: UUID
  inNodeID :: UUID
  inFrameID :: UUID
  inRunScopeID :: UUID
  inPolicy :: AggregationPolicy
  inExecutorName :: string
  inRequiredClaimProducers :: "string list"
  inEnqueuedAt :: time

text \<open>The row both INSERT statements write. A zero enqueue time stands for the current time; the
  \<open>changed\<close> column defaults to 0.\<close>

definition newRunRow :: "time \<Rightarrow> CreateNodeRunInput \<Rightarrow> RunStore \<Rightarrow> NodeRunRow" where
  "newRunRow now inp s =
     \<lparr>NodeRunID = inNodeRunID inp, NodeID = inNodeID inp, FrameID = inFrameID inp,
      RunScopeID = inRunScopeID inp, State = NodeStateStale, SettlingSignalType = None,
      Policy = inPolicy inp, Changed = False,
      executor_name = (if inExecutorName inp \<noteq> [] then Some (inExecutorName inp) else None),
      required_claim_producers = inRequiredClaimProducers inp,
      enqueued_at = (if inEnqueuedAt inp = 0 then now else inEnqueuedAt inp),
      sequence = nextSequence (node_runs s) (inNodeID inp) (inRunScopeID inp), creation_reason = CreationReasonCascade, claimed_by = None,
      claimed_at = None, active_terminal_at = None, progress_at = None, parked_at = None, resume_at = None, retry_counter = 0,
      prior_dispatch_id = None, prior_dispatch_disposition = None, scratch = noScratch, ack = noAck\<rparr>"

definition insertRun :: "time \<Rightarrow> CreateNodeRunInput \<Rightarrow> RunStore \<Rightarrow> RunStore" where
  "insertRun now inp s =
     s\<lparr>node_runs := node_runs s @ [newRunRow now inp s],
       bag_snapshots := bag_snapshots s @ [(inNodeRunID inp, inNodeID inp, inRunScopeID inp)]\<rparr>"

text \<open>\<open>ON CONFLICT(id) DO NOTHING\<close>.\<close>

definition storeCreateRootNodeRun :: "time \<Rightarrow> CreateNodeRunInput \<Rightarrow> RunStore \<Rightarrow> run_error + RunStore" where
  "storeCreateRootNodeRun now inp s =
     (if inRunScopeID inp = zero_uuid then Inl RunScopeRequired
      else if row_of NodeRunID (inNodeRunID inp) (node_runs s) \<noteq> None then Inr s
      else Inr (insertRun now inp s))"

text \<open>\<open>INSERT .. SELECT .. WHERE NOT EXISTS (in-flight run) AND EXISTS (open scope)\<close>: no row is written
  when the guard fails; a used primary key is an error.\<close>

definition storeCreateChildNodeRun :: "time \<Rightarrow> CreateNodeRunInput \<Rightarrow> RunStore \<Rightarrow> run_error + RunStore" where
  "storeCreateChildNodeRun now inp s =
     (if inRunScopeID inp = zero_uuid then Inl RunScopeRequired
      else if list_ex (\<lambda>r. NodeID r = inNodeID inp \<and> RunScopeID r = inRunScopeID inp \<and>
                 State r \<in> {NodeStateRunning, NodeStateHeld, NodeStateParked}) (node_runs s)
              \<or> \<not> list_ex (\<lambda>r. ScopeID r = inRunScopeID inp \<and> ClosedAt r = None) (run_scopes s)
           then Inr s
      else if row_of NodeRunID (inNodeRunID inp) (node_runs s) \<noteq> None
           then Inl (RunExists (inNodeRunID inp))
      else Inr (insertRun now inp s))"

definition runGetByID :: "RunStore \<Rightarrow> UUID \<Rightarrow> NodeRunRow option" where
  "runGetByID s i = row_of NodeRunID i (node_runs s)"

definition LockTreeForUpdate :: "RunStore \<Rightarrow> UUID \<Rightarrow> NodeRunRow option" where
  "LockTreeForUpdate s i = runGetByID s i"

text \<open>The join with the scopes of the parent, \<open>ORDER BY partition_key, enqueued_at\<close>.\<close>

definition childJoin :: "RunStore \<Rightarrow> UUID \<Rightarrow> (string \<times> NodeRunRow) list" where
  "childJoin s parent =
     concat (map (\<lambda>r. map (\<lambda>rs. (PartitionKey rs, r))
        (filter (\<lambda>rs. ScopeID rs = RunScopeID r \<and> ParentNodeRunID rs = Some parent) (run_scopes s)))
        (node_runs s))"

definition ListChildren :: "RunStore \<Rightarrow> UUID \<Rightarrow> NodeRunRow list" where
  "ListChildren s parent =
     map snd (sort_key fst (sort_key (\<lambda>p. enqueued_at (snd p)) (childJoin s parent)))"

definition UpdateStateAndOutcome ::
  "UUID \<Rightarrow> NodeState \<Rightarrow> string option \<Rightarrow> bool \<Rightarrow> RunStore \<Rightarrow> run_error + RunStore" where
  "UpdateStateAndOutcome i st sig changed s =
     (let g = (\<lambda>r. NodeRunID r = i);
          f = (case sig of
                 None \<Rightarrow> (\<lambda>r. r\<lparr>State := st, Changed := changed\<rparr>)
               | Some v \<Rightarrow> (\<lambda>r. r\<lparr>State := st, SettlingSignalType := Some v, Changed := changed\<rparr>)) in
      if affected g (node_runs s) = 0 then Inl (RunNotFound i)
      else Inr (s\<lparr>node_runs := update_where g f (node_runs s)\<rparr>))"

definition UpdateAggregationPolicy :: "UUID \<Rightarrow> AggregationPolicy \<Rightarrow> RunStore \<Rightarrow> run_error + RunStore" where
  "UpdateAggregationPolicy i policy s =
     (let g = (\<lambda>r. NodeRunID r = i) in
      if affected g (node_runs s) = 0 then Inl (RunNotFound i)
      else Inr (s\<lparr>node_runs := update_where g (\<lambda>r. r\<lparr>Policy := policy\<rparr>) (node_runs s)\<rparr>))"

subsection \<open>Tree operations of the runtime\<close>

definition defaultPolicy :: "AggregationPolicy \<Rightarrow> AggregationPolicy" where
  "defaultPolicy policy = (if Kind policy = AggregationKindUnset then policy\<lparr>Kind := AggregationKindStrict\<rparr> else policy)"

definition CreateRootNodeRun ::
  "time \<Rightarrow> CreateNodeRunInput \<Rightarrow> RunStore \<Rightarrow> run_error + (UUID \<times> RunStore)" where
  "CreateRootNodeRun now inp s =
     res_bind (storeCreateRootNodeRun now (inp\<lparr>inPolicy := defaultPolicy (inPolicy inp), inEnqueuedAt := now\<rparr>) s)
       (\<lambda>s'. Inr (inNodeRunID inp, s'))"

text \<open>\<open>inFlight\<close> is the answer of the queue's \<open>GetInFlightRunForNode\<close>; without a queue it is \<open>None\<close>.\<close>

definition CreateChildNodeRun ::
  "time \<Rightarrow> UUID option \<Rightarrow> CreateNodeRunInput \<Rightarrow> RunStore \<Rightarrow> run_error + (UUID \<times> RunStore)" where
  "CreateChildNodeRun now inFlight inp s =
     (case inFlight of
        Some existing \<Rightarrow> Inr (existing, s)
      | None \<Rightarrow>
          res_bind (storeCreateChildNodeRun now (inp\<lparr>inPolicy := defaultPolicy (inPolicy inp), inEnqueuedAt := now\<rparr>) s)
            (\<lambda>s'. Inr (inNodeRunID inp, s')))"

text \<open>The breadth-first loop of \<open>GetRunTree\<close>; \<open>None\<close> when the fuel runs out.\<close>

fun runTreeLoop :: "nat \<Rightarrow> RunStore \<Rightarrow> UUID list \<Rightarrow> NodeRunRow list \<Rightarrow> NodeRunRow list option" where
  "runTreeLoop n s [] out = Some out"
| "runTreeLoop 0 s (current # queue) out = None"
| "runTreeLoop (Suc n) s (current # queue) out =
     (let children = ListChildren s current in
      runTreeLoop n s (queue @ map NodeRunID children) (out @ children))"

definition GetRunTree :: "nat \<Rightarrow> RunStore \<Rightarrow> UUID \<Rightarrow> NodeRunRow list option" where
  "GetRunTree n s runID =
     (case runGetByID s runID of
        None \<Rightarrow> Some []
      | Some root \<Rightarrow> runTreeLoop n s [runID] [root])"

definition recordRunTreeChanged ::
  "UUID \<Rightarrow> NodeState \<Rightarrow> string option \<Rightarrow> bool \<Rightarrow> RunStore \<Rightarrow> run_error + RunStore" where
  "recordRunTreeChanged i st sig changed s = UpdateStateAndOutcome i st sig changed s"

definition childStatesForAggregate :: "NodeRunRow list \<Rightarrow> ChildState list" where
  "childStatesForAggregate children =
     map (\<lambda>c. \<lparr>cState = State c, cSettlingSignalType = SettlingSignalType c, cChanged = Changed c\<rparr>) children"

subsection \<open>Upward propagation\<close>

record ParentSettlement =
  psRunID :: UUID
  psNodeID :: UUID
  psRunScope :: UUID
  psFrameID :: UUID
  psState :: NodeState
  psSignal :: TypePath
  psChanged :: bool

record CancelAction =
  caParent :: UUID
  caKind :: AggregateAction
  caChildren :: "NodeRunRow list"

definition isSettled :: "NodeState \<Rightarrow> bool" where
  "isSettled st = IsSettled \<lparr>cState = st, cSettlingSignalType = None, cChanged = False\<rparr>"

type_synonym walk = "RunStore \<times> CancelAction list \<times> ParentSettlement list"

text \<open>The transition check before the update: \<open>ReasonChildTransitioned\<close> answers with the sentinel
  that defers to the aggregate, every other error is fatal.\<close>

definition walkGuard :: "NodeState \<Rightarrow> run_error + unit" where
  "walkGuard st =
     (case NextStateParent st ReasonChildTransitioned of
        Inl e \<Rightarrow> if \<not> IsParentAggregateOK e then Inl (WalkRejected e) else Inr ()
      | Inr _ \<Rightarrow> Inr ())"

text \<open>One iteration of the loop: an error, the final result (\<open>Inr (None, _)\<close>), or the next parent
  (\<open>Inr (Some _, _)\<close>) with the accumulators. On an error the caller aborts the transaction, so the
  accumulators are dropped.\<close>

definition walkSettle :: "UUID \<Rightarrow> NodeRunRow \<Rightarrow> NodeRunRow list \<Rightarrow> AggregateResult \<Rightarrow> walk \<Rightarrow> run_error + (UUID option \<times> walk)" where
  "walkSettle current parent children result w = (case w of (s, actions, settlements) \<Rightarrow>
     (let newSig = ParentSettlingSignalType result;
          newSigArg = (if newSig \<noteq> [] then Some newSig else None) in
      res_bind (walkGuard (State parent)) (\<lambda>_.
      res_bind (UpdateStateAndOutcome current (ParentState result) newSigArg (ParentChanged result) s) (\<lambda>s'.
        let actions' = (if ResultAction result \<noteq> AggregateActionNone
              then actions @ [\<lparr>caParent = current, caKind = ResultAction result, caChildren = children\<rparr>]
              else actions);
            settlements' = (if isSettled (ParentState result)
              then settlements @ [\<lparr>psRunID = current, psNodeID = NodeID parent, psRunScope = RunScopeID parent,
                     psFrameID = FrameID parent, psState = ParentState result,
                     psSignal = newSig, psChanged = ParentChanged result\<rparr>]
              else settlements);
            w' = (s', actions', settlements') in
        if \<not> isSettled (ParentState result) then Inr (None, w')
        else case scopeGetByID s' (RunScopeID parent) of
          None \<Rightarrow> Inr (None, w')
        | Some parentScope \<Rightarrow> Inr (ParentNodeRunID parentScope, w')))))"

definition walkStep :: "UUID \<Rightarrow> walk \<Rightarrow> run_error + (UUID option \<times> walk)" where
  "walkStep current w = (case w of (s, actions, settlements) \<Rightarrow>
     (case LockTreeForUpdate s current of
        None \<Rightarrow> Inl (RunNotFound current)
      | Some parent \<Rightarrow>
          (let children = ListChildren s current in
           case Aggregate (childStatesForAggregate children) (Policy parent) of
             None \<Rightarrow> Inr (None, w)
           | Some result \<Rightarrow>
               (let parentSig = (case SettlingSignalType parent of None \<Rightarrow> [] | Some v \<Rightarrow> v);
                    newSig = ParentSettlingSignalType result in
                if State parent = ParentState result \<and> parentSig = newSig then Inr (None, w)
                else if isSettled (State parent) \<and> State parent = ParentState result then
                  res_bind (UpdateStateAndOutcome current (ParentState result) (Some newSig) (ParentChanged result) s)
                    (\<lambda>s'. Inr (None, (s', actions, settlements)))
                else walkSettle current parent children result w))))"

text \<open>The loop itself; \<open>None\<close> when the fuel runs out.\<close>

fun walkUpwards :: "nat \<Rightarrow> UUID \<Rightarrow> walk \<Rightarrow> (run_error + walk) option" where
  "walkUpwards 0 current w = None"
| "walkUpwards (Suc n) current w =
     (case walkStep current w of
        Inl e \<Rightarrow> Some (Inl e)
      | Inr (None, w') \<Rightarrow> Some (Inr w')
      | Inr (Some parent, w') \<Rightarrow> walkUpwards n parent w')"

definition PropagateFromChildState :: "nat \<Rightarrow> UUID \<Rightarrow> RunStore \<Rightarrow> (run_error + walk) option" where
  "PropagateFromChildState n childRunID s =
     (case runGetByID s childRunID of
        None \<Rightarrow> Some (Inl (RunNotFound childRunID))
      | Some childRow \<Rightarrow>
          (case scopeGetByID s (RunScopeID childRow) of
             None \<Rightarrow> Some (Inr (s, [], []))
           | Some scope \<Rightarrow>
               (case ParentNodeRunID scope of
                  None \<Rightarrow> Some (Inr (s, [], []))
                | Some parent \<Rightarrow> walkUpwards n parent (s, [], []))))"

subsection \<open>Shape of the tree\<close>

definition parentOf :: "RunStore \<Rightarrow> NodeRunRow \<Rightarrow> UUID option" where
  "parentOf s r = (case scopeGetByID s (RunScopeID r) of None \<Rightarrow> None | Some sc \<Rightarrow> ParentNodeRunID sc)"

text \<open>The tables keep their primary keys, parents exist (the foreign key), and a depth function
  witnesses that no run is its own ancestor.\<close>

definition wf_store :: "RunStore \<Rightarrow> bool" where
  "wf_store s \<longleftrightarrow> keyed NodeRunID (node_runs s) \<and> keyed ScopeID (run_scopes s) \<and>
     (\<forall>r \<in> set (node_runs s). \<forall>p. parentOf s r = Some p \<longrightarrow> runGetByID s p \<noteq> None)"

definition ranked :: "(UUID \<Rightarrow> nat) \<Rightarrow> RunStore \<Rightarrow> bool" where
  "ranked d s \<longleftrightarrow> (\<forall>r \<in> set (node_runs s). \<forall>p. parentOf s r = Some p \<longrightarrow> d p < d (NodeRunID r))"

lemma set_childJoin:
  assumes "keyed ScopeID (run_scopes s)" and "(k, c) \<in> set (childJoin s p)"
  shows "c \<in> set (node_runs s) \<and> parentOf s c = Some p"
proof -
  obtain rs where rs: "rs \<in> set (run_scopes s)" "ScopeID rs = RunScopeID c" "ParentNodeRunID rs = Some p"
    and c: "c \<in> set (node_runs s)"
    using assms(2) by (auto simp: childJoin_def)
  then have "row_of ScopeID (RunScopeID c) (run_scopes s) = Some rs"
    using row_of_Some_iff [OF assms(1)] by simp
  with rs c show ?thesis by (simp add: parentOf_def scopeGetByID_def)
qed

lemma childJoin_I:
  assumes "c \<in> set (node_runs s)" and "parentOf s c = Some p"
  shows "\<exists>k. (k, c) \<in> set (childJoin s p)"
proof -
  obtain sc where sc: "scopeGetByID s (RunScopeID c) = Some sc" "ParentNodeRunID sc = Some p"
    using assms(2) by (auto simp: parentOf_def split: option.splits)
  then have "sc \<in> set (run_scopes s)" "ScopeID sc = RunScopeID c"
    by (auto simp: scopeGetByID_def dest: row_of_SomeD)
  with assms(1) sc(2) show ?thesis by (auto simp: childJoin_def)
qed

lemma set_ListChildren:
  assumes "keyed ScopeID (run_scopes s)"
  shows "set (ListChildren s p) = {c \<in> set (node_runs s). parentOf s c = Some p}"
proof -
  have "set (ListChildren s p) = snd ` set (childJoin s p)" by (simp add: ListChildren_def)
  also have "\<dots> = {c \<in> set (node_runs s). parentOf s c = Some p}"
  proof (intro set_eqI iffI)
    fix c assume "c \<in> snd ` set (childJoin s p)"
    then obtain k where "(k, c) \<in> set (childJoin s p)" by auto
    from set_childJoin [OF assms this] show "c \<in> {c \<in> set (node_runs s). parentOf s c = Some p}" by simp
  next
    fix c assume "c \<in> {c \<in> set (node_runs s). parentOf s c = Some p}"
    then obtain k where "(k, c) \<in> set (childJoin s p)" using childJoin_I by blast
    then show "c \<in> snd ` set (childJoin s p)" by force
  qed
  finally show ?thesis .
qed

lemma mset_ListChildren: "mset (ListChildren s p) = mset (map snd (childJoin s p))"
  by (simp add: ListChildren_def)

subsection \<open>The effect of one update\<close>

definition outcomeUpdate :: "NodeState \<Rightarrow> string option \<Rightarrow> bool \<Rightarrow> NodeRunRow \<Rightarrow> NodeRunRow" where
  "outcomeUpdate st sig changed r =
     (case sig of None \<Rightarrow> r\<lparr>State := st, Changed := changed\<rparr>
      | Some v \<Rightarrow> r\<lparr>State := st, SettlingSignalType := Some v, Changed := changed\<rparr>)"

lemma outcomeUpdate_fixed [simp]:
  "NodeRunID (outcomeUpdate st sig ch r) = NodeRunID r" "NodeID (outcomeUpdate st sig ch r) = NodeID r"
  "RunScopeID (outcomeUpdate st sig ch r) = RunScopeID r" "Policy (outcomeUpdate st sig ch r) = Policy r"
  "State (outcomeUpdate st sig ch r) = st"
  "SettlingSignalType (outcomeUpdate st (Some v) ch r) = Some v"
  by (simp_all add: outcomeUpdate_def split: option.split)

definition updated :: "UUID \<Rightarrow> NodeState \<Rightarrow> string option \<Rightarrow> bool \<Rightarrow> RunStore \<Rightarrow> RunStore" where
  "updated i st sig ch s =
     s\<lparr>node_runs := update_where (\<lambda>r. NodeRunID r = i) (outcomeUpdate st sig ch) (node_runs s)\<rparr>"

lemma UpdateStateAndOutcome_eq:
  "UpdateStateAndOutcome i st sig ch s =
     (if runGetByID s i = None then Inl (RunNotFound i) else Inr (updated i st sig ch s))"
proof -
  have "(case sig of None \<Rightarrow> (\<lambda>r. r\<lparr>State := st, Changed := ch\<rparr>)
         | Some v \<Rightarrow> (\<lambda>r. r\<lparr>State := st, SettlingSignalType := Some v, Changed := ch\<rparr>)) = outcomeUpdate st sig ch"
    by (auto simp: outcomeUpdate_def fun_eq_iff split: option.split)
  then show ?thesis
    by (simp add: UpdateStateAndOutcome_def updated_def runGetByID_def row_of_None_iff affected_0_iff Let_def)
qed

lemma updated_scopes [simp]: "run_scopes (updated i st sig ch s) = run_scopes s"
    "scopeGetByID (updated i st sig ch s) = scopeGetByID s"
  by (simp_all add: updated_def scopeGetByID_def fun_eq_iff)

lemma updated_parentOf [simp]: "parentOf (updated i st sig ch s) = parentOf s"
  by (simp add: parentOf_def fun_eq_iff)

lemma parentOf_outcomeUpdate [simp]: "parentOf s (outcomeUpdate st sig ch r) = parentOf s r"
  by (simp add: parentOf_def)

lemma runGetByID_updated:
  "runGetByID (updated i st sig ch s) q =
     map_option (\<lambda>r. if NodeRunID r = i then outcomeUpdate st sig ch r else r) (runGetByID s q)"
  unfolding runGetByID_def updated_def by (simp add: row_of_update_where)

lemma set_updated: "set (node_runs (updated i st sig ch s)) =
    (\<lambda>r. if NodeRunID r = i then outcomeUpdate st sig ch r else r) ` set (node_runs s)"
  by (simp add: updated_def set_update_where)

lemma wf_updated: "wf_store s \<Longrightarrow> wf_store (updated i st sig ch s)"
  by (auto simp: wf_store_def set_updated runGetByID_updated)
     (simp add: updated_def update_where_keyed)

lemma ranked_updated: "ranked d s \<Longrightarrow> ranked d (updated i st sig ch s)"
  by (auto simp: ranked_def set_updated)

lemma childJoin_updated:
  "map snd (childJoin (updated i st sig ch s) p) =
     map (\<lambda>r. if NodeRunID r = i then outcomeUpdate st sig ch r else r) (map snd (childJoin s p))"
  by (simp add: childJoin_def updated_def update_where_def map_concat o_def if_distrib cong: if_cong)

subsection \<open>Consistency of parents with their children\<close>

definition stateOf :: "NodeRunRow \<Rightarrow> ChildState" where
  "stateOf c = \<lparr>cState = State c, cSettlingSignalType = SettlingSignalType c, cChanged = Changed c\<rparr>"

definition childOutcome :: "RunStore \<Rightarrow> NodeRunRow \<Rightarrow> NodeState option" where
  "childOutcome s r = policyOutcome (Policy r) (childStatesForAggregate (ListChildren s (NodeRunID r)))"

text \<open>A parent agrees with its children when it has the state their aggregate prescribes.\<close>

definition agrees :: "RunStore \<Rightarrow> UUID \<Rightarrow> bool" where
  "agrees s q \<longleftrightarrow> (\<forall>r st. runGetByID s q = Some r \<longrightarrow> childOutcome s r = Some st \<longrightarrow> State r = st)"

text \<open>A fresh run with children settled with a signal that counts as a success.\<close>

definition parents_succeed :: "RunStore \<Rightarrow> bool" where
  "parents_succeed s \<longleftrightarrow>
     (\<forall>r \<in> set (node_runs s). ListChildren s (NodeRunID r) \<noteq> [] \<longrightarrow> State r = NodeStateFresh \<longrightarrow> IsSuccess (stateOf r))"

lemma childStatesForAggregate_eq: "childStatesForAggregate cs = map stateOf cs"
  by (simp add: childStatesForAggregate_def stateOf_def)

lemma childOutcome_join:
  "mset (map flags (childStatesForAggregate (ListChildren s p))) = mset (map (flags \<circ> stateOf) (map snd (childJoin s p)))"
  by (simp add: childStatesForAggregate_eq mset_ListChildren multiset.map_comp)

lemma same_row:
  assumes "keyed NodeRunID (node_runs s)" and "runGetByID s i = Some r" and "c \<in> set (node_runs s)" and "NodeRunID c = i"
  shows "c = r"
proof -
  have "runGetByID s i = Some c"
    using row_of_Some_iff [OF assms(1), of i c] assms(3,4) by (simp add: runGetByID_def)
  with assms(2) show ?thesis by simp
qed

lemma row_in: "runGetByID s i = Some r \<Longrightarrow> r \<in> set (node_runs s) \<and> NodeRunID r = i"
  by (auto simp: runGetByID_def dest: row_of_SomeD)

lemma join_rows:
  assumes "wf_store s" and "runGetByID s i = Some r" and "c \<in> set (map snd (childJoin s q))"
  shows "parentOf s c = Some q \<and> (NodeRunID c = i \<longrightarrow> c = r)"
proof -
  obtain k where "(k, c) \<in> set (childJoin s q)" using assms(3) by auto
  then have "c \<in> set (node_runs s)" "parentOf s c = Some q"
    using set_childJoin [of s] assms(1) by (auto simp: wf_store_def)
  then show ?thesis using same_row [of s i r c] assms(1,2) by (auto simp: wf_store_def)
qed

lemma children_untouched:
  assumes "wf_store s" and "runGetByID s i = Some r" and "parentOf s r \<noteq> Some q"
  shows "map snd (childJoin (updated i st sig ch s) q) = map snd (childJoin s q)"
  unfolding childJoin_updated
  by (rule map_idI) (use join_rows [OF assms(1,2)] assms(3) in auto)

lemma children_same_flags:
  assumes "wf_store s" and "runGetByID s i = Some r"
    and "flags (stateOf (outcomeUpdate st sig ch r)) = flags (stateOf r)"
  shows "map (flags \<circ> stateOf) (map snd (childJoin (updated i st sig ch s) q)) =
    map (flags \<circ> stateOf) (map snd (childJoin s q))"
proof -
  have "(flags \<circ> stateOf) (if NodeRunID c = i then outcomeUpdate st sig ch c else c) = (flags \<circ> stateOf) c"
    if "c \<in> set (map snd (childJoin s q))" for c
    using join_rows [OF assms(1,2) that] assms(3) by auto
  then show ?thesis unfolding childJoin_updated map_map by (auto simp: o_def)
qed

lemma childOutcome_cong:
  assumes "map (flags \<circ> stateOf) (map snd (childJoin s (NodeRunID r))) = map (flags \<circ> stateOf) (map snd (childJoin s' (NodeRunID r')))"
    and "Policy r = Policy r'"
  shows "childOutcome s r = childOutcome s' r'"
  unfolding childOutcome_def assms(2)
  by (rule policyOutcome_flags) (simp only: childOutcome_join assms(1))

lemma agrees_updated_other:
  assumes "wf_store s" and "runGetByID s i = Some r" and "agrees s q" and "q \<noteq> i"
    and "parentOf s r \<noteq> Some q \<or> flags (stateOf (outcomeUpdate st sig ch r)) = flags (stateOf r)"
  shows "agrees (updated i st sig ch s) q"
proof -
  have "map (flags \<circ> stateOf) (map snd (childJoin (updated i st sig ch s) q)) = map (flags \<circ> stateOf) (map snd (childJoin s q))"
    using assms(5) children_untouched [OF assms(1,2), of q st sig ch] children_same_flags [OF assms(1,2), of st sig ch q]
    by metis
  then have "childOutcome (updated i st sig ch s) row = childOutcome s row" if "NodeRunID row = q" for row
    by (intro childOutcome_cong) (simp_all add: that)
  with assms(3,4) row_in [of s q] show ?thesis by (auto simp: agrees_def runGetByID_updated)
qed

lemma agrees_updated_self:
  assumes "wf_store s" and "ranked d s" and "runGetByID s i = Some r" and "childOutcome s r = Some st"
  shows "agrees (updated i st sig ch s) i"
proof -
  have r: "r \<in> set (node_runs s)" "NodeRunID r = i" using row_in [OF assms(3)] by auto
  with assms(2) have "parentOf s r \<noteq> Some i" by (auto simp: ranked_def)
  from children_untouched [OF assms(1,3) this]
  have "childOutcome (updated i st sig ch s) (outcomeUpdate st sig ch r) = childOutcome s r"
    by (intro childOutcome_cong) (simp_all add: r(2) del: map_map)
  with assms(3,4) r(2) show ?thesis by (auto simp: agrees_def runGetByID_updated)
qed

subsection \<open>One step of the walk\<close>

lemma ListChildren_Nil_iff: "ListChildren s q = [] \<longleftrightarrow> map snd (childJoin s q) = []"
  using arg_cong [OF mset_ListChildren [of s q], of size] by (simp only: size_mset length_0_conv flip: length_0_conv)

lemma parents_succeed_updated:
  assumes "parents_succeed s"
    and "st = NodeStateFresh \<Longrightarrow> IsSuccess \<lparr>cState = NodeStateFresh, cSettlingSignalType = Some sig, cChanged = ch\<rparr>"
  shows "parents_succeed (updated i st (Some sig) ch s)"
proof -
  have "ListChildren (updated i st (Some sig) ch s) q = [] \<longleftrightarrow> ListChildren s q = []" for q
    unfolding ListChildren_Nil_iff childJoin_updated by simp
  with assms show ?thesis
    by (auto simp: parents_succeed_def set_updated stateOf_def outcomeUpdate_def)
qed

lemma walkGuard_ok [simp]: "walkGuard st = Inr ()"
  by (simp add: walkGuard_def NextStateParent_def)

lemma isSettled_iff: "isSettled st \<longleftrightarrow> st = NodeStateFresh \<or> st = NodeStateFailed"
  by (cases st) (simp_all add: isSettled_def IsSettled_def)

lemma Aggregate_signal_ne:
  assumes "Aggregate cs policy = Some r"
  shows "ParentSettlingSignalType r \<noteq> []"
proof (cases "ParentState r = NodeStateFresh")
  case True
  from Aggregate_signal [OF assms True, of True] show ?thesis
    by (auto simp: IsSuccess_def HasPrefixPath_def HasSuffix_def)
next
  case False
  moreover have "ParentSettlingSignalType r \<noteq> []" if "aggregateStrictLoop children cs' a = Some r" for children cs' a
    using that by (induction cs' arbitrary: a) (auto simp: settledSuccess_def split: if_splits)
  moreover have "ParentSettlingSignalType r \<noteq> []" if "aggregateFirstLoop cs' a = Some r" for cs' a
    using that False by (induction cs' arbitrary: a) (auto split: if_splits)
  ultimately show ?thesis
    using assms by (cases "Kind policy")
      (auto simp: Aggregate_def aggregateStrict_def aggregateThreshold_def aggregateBestEffort_def
        aggregateFirst_def settledSuccess_def Let_def split: if_splits prod.splits)
qed

text \<open>What an iteration does to a run that exists: it stops, it corrects the signal of a parent that
  already has the right state, or it settles the parent and moves on.\<close>

lemma walkStep_cases:
  assumes "runGetByID s i = Some r"
  obtains (stop) "walkStep i (s, a, t) = Inr (None, (s, a, t))" and "agrees s i"
  | (resignal) sig ch where "walkStep i (s, a, t) = Inr (None, (updated i (State r) (Some sig) ch s, a, t))"
      and "childOutcome s r = Some (State r)" and "ListChildren s i \<noteq> []"
      and "State r = NodeStateFresh \<Longrightarrow> IsSuccess \<lparr>cState = NodeStateFresh, cSettlingSignalType = Some sig, cChanged = ch\<rparr>"
  | (settle) st sig ch a' p where "walkStep i (s, a, t) = Inr (parentOf s r, (updated i st (Some sig) ch s, a', t @ [p]))"
      and "childOutcome s r = Some st" and "State r \<noteq> st" and "psRunID p = i" and "psState p = st"
      and "st = NodeStateFresh \<Longrightarrow> IsSuccess \<lparr>cState = NodeStateFresh, cSettlingSignalType = Some sig, cChanged = ch\<rparr>"
proof -
  have i: "NodeRunID r = i" using row_in [OF assms] by simp
  let ?cs = "childStatesForAggregate (ListChildren s i)"
  have out: "childOutcome s r = map_option ParentState (Aggregate ?cs (Policy r))"
    by (simp add: childOutcome_def i Aggregate_outcome)
  show thesis
  proof (cases "Aggregate ?cs (Policy r)")
    case None
    with out i assms have "agrees s i" by (auto simp: agrees_def)
    with None show ?thesis by (intro stop) (simp_all add: walkStep_def LockTreeForUpdate_def assms)
  next
    case (Some res)
    let ?sig = "ParentSettlingSignalType res" and ?st = "ParentState res" and ?ch = "ParentChanged res"
    have suc: "IsSuccess \<lparr>cState = NodeStateFresh, cSettlingSignalType = Some ?sig, cChanged = ?ch\<rparr>" if "?st = NodeStateFresh"
      using Aggregate_signal [OF Some that] .
    have ne: "ListChildren s i \<noteq> []" using Some by (auto simp: Aggregate_def childStatesForAggregate_def)
    have set: "isSettled ?st" using Aggregate_settled_state [OF Some] by (simp add: isSettled_iff)
    show ?thesis
    proof (cases "State r = ?st")
      case True
      with out Some assms have ag: "agrees s i" by (auto simp: agrees_def)
      show ?thesis
      proof (cases "(case SettlingSignalType r of None \<Rightarrow> [] | Some v \<Rightarrow> v) = ?sig")
        case eq: True
        with True Some ag show ?thesis by (intro stop) (simp_all add: walkStep_def LockTreeForUpdate_def assms Let_def)
      next
        case False
        with True Some set have "walkStep i (s, a, t) = Inr (None, (updated i (State r) (Some ?sig) ?ch s, a, t))"
          by (simp add: walkStep_def LockTreeForUpdate_def assms Let_def UpdateStateAndOutcome_eq)
        with True out Some ne suc show ?thesis by (intro resignal [of ?sig ?ch]) simp_all
      qed
    next
      case False
      then have "walkStep i (s, a, t) = walkSettle i r (ListChildren s i) res (s, a, t)"
        by (simp add: walkStep_def LockTreeForUpdate_def assms Let_def Some)
      also have "\<exists>a' p. \<dots> = Inr (parentOf s r, (updated i ?st (Some ?sig) ?ch s, a', t @ [p])) \<and> psRunID p = i \<and> psState p = ?st"
        using set Aggregate_signal_ne [OF Some]
        by (auto simp: walkSettle_def Let_def UpdateStateAndOutcome_eq assms parentOf_def split: option.split)
      finally obtain a' p where "walkStep i (s, a, t) = Inr (parentOf s r, (updated i ?st (Some ?sig) ?ch s, a', t @ [p]))"
        "psRunID p = i" "psState p = ?st" by blast
      with False out Some suc show ?thesis by (intro settle [of ?st ?sig ?ch a' p]) simp_all
    qed
  qed
qed

subsection \<open>The whole walk\<close>

text \<open>What a completed walk from \<open>i\<close> guarantees; \<open>t'\<close> are the settlements it added.\<close>

definition walk_done :: "(UUID \<Rightarrow> nat) \<Rightarrow> UUID \<Rightarrow> RunStore \<Rightarrow> RunStore \<Rightarrow> ParentSettlement list \<Rightarrow> bool" where
  "walk_done d i s s' t' \<longleftrightarrow>
     wf_store s' \<and> run_scopes s' = run_scopes s \<and> (\<forall>q. agrees s' q) \<and>
     (\<forall>q. d i < d q \<longrightarrow> runGetByID s' q = runGetByID s q) \<and>
     (\<forall>p \<in> set t'. \<exists>r. runGetByID s' (psRunID p) = Some r \<and> State r = psState p)"

lemma updated_elsewhere: "q \<noteq> i \<Longrightarrow> runGetByID (updated i st sig ch s) q = runGetByID s q"
  using row_in [of s q] by (cases "runGetByID s q") (auto simp: runGetByID_updated)

lemma resignal_agrees:
  assumes "wf_store s" and "ranked d s" and "parents_succeed s" and "runGetByID s i = Some r"
    and "\<forall>q. q \<noteq> i \<longrightarrow> agrees s q" and "childOutcome s r = Some (State r)" and "ListChildren s i \<noteq> []"
    and "State r = NodeStateFresh \<Longrightarrow> IsSuccess \<lparr>cState = NodeStateFresh, cSettlingSignalType = Some sig, cChanged = ch\<rparr>"
  shows "agrees (updated i (State r) (Some sig) ch s) q"
proof (cases "q = i")
  case True
  with agrees_updated_self [OF assms(1,2,4,6)] show ?thesis by simp
next
  case False
  have "r \<in> set (node_runs s)" "NodeRunID r = i" using row_in [OF assms(4)] by auto
  with assms(3,7,8) have "flags (stateOf (outcomeUpdate (State r) (Some sig) ch r)) = flags (stateOf r)"
    by (cases "State r = NodeStateFresh")
       (auto simp: flags_def stateOf_def parents_succeed_def outcomeUpdate_def IsSettled_def IsFailure_def IsSuccess_def)
  with agrees_updated_other [OF assms(1,4) _ False] assms(5) False show ?thesis by blast
qed

lemma settle_agrees:
  assumes "wf_store s" and "ranked d s" and "runGetByID s i = Some r" and "\<forall>q. q \<noteq> i \<longrightarrow> agrees s q"
    and "childOutcome s r = Some st" and "parentOf s r \<noteq> Some q"
  shows "agrees (updated i st sig ch s) q"
  using assms agrees_updated_self [OF assms(1,2,3,5)] agrees_updated_other [OF assms(1,3), of q] by (cases "q = i") auto

lemma walkUpwards_done:
  assumes "wf_store s" and "ranked d s" and "parents_succeed s" and "d i < n" and "runGetByID s i \<noteq> None"
    and "\<forall>q. q \<noteq> i \<longrightarrow> agrees s q"
  shows "\<exists>s' a' t'. walkUpwards n i (s, a, t) = Some (Inr (s', a', t @ t')) \<and> walk_done d i s s' t'"
  using assms
proof (induction n arbitrary: s i a t)
  case (Suc n)
  obtain r where r: "runGetByID s i = Some r" using Suc.prems(5) by blast
  note rin = row_in [OF r]
  from r show ?case
  proof (cases rule: walkStep_cases [where a = a and t = t])
    case stop
    with Suc.prems(1,6) have "walk_done d i s s []" unfolding walk_done_def by auto
    with stop show ?thesis by (intro exI [of _ s] exI [of _ a] exI [of _ "[]"]) simp
  next
    case (resignal sig ch)
    let ?s = "updated i (State r) (Some sig) ch s"
    have "walk_done d i s ?s []"
      using resignal_agrees [OF Suc.prems(1-3) r Suc.prems(6) resignal(2-4)] wf_updated [OF Suc.prems(1)] updated_elsewhere
      unfolding walk_done_def by (auto intro: updated_elsewhere)
    with resignal(1) show ?thesis by (intro exI [of _ ?s] exI [of _ a] exI [of _ "[]"]) simp
  next
    case (settle st sig ch a1 p)
    let ?s = "updated i st (Some sig) ch s"
    have wf: "wf_store ?s" "ranked d ?s" "parents_succeed ?s"
      using wf_updated [OF Suc.prems(1)] ranked_updated [OF Suc.prems(2)] parents_succeed_updated [OF Suc.prems(3) settle(6)] .
    have ag: "agrees ?s q" if "parentOf s r \<noteq> Some q" for q
      using settle_agrees [OF Suc.prems(1,2) r Suc.prems(6) settle(2) that] .
    have self: "runGetByID ?s i = Some (outcomeUpdate st (Some sig) ch r)" using r rin by (simp add: runGetByID_updated)
    show ?thesis
    proof (cases "parentOf s r")
      case None
      then have "walk_done d i s ?s [p]"
        unfolding walk_done_def using wf(1) ag self settle(4,5) updated_elsewhere by (auto intro: updated_elsewhere)
      with None settle(1) show ?thesis by (intro exI [of _ ?s] exI [of _ a1] exI [of _ "[p]"]) simp
    next
      case (Some j)
      have dj: "d j < d i" using Suc.prems(2) rin Some by (auto simp: ranked_def)
      have ex: "runGetByID ?s j \<noteq> None" using Suc.prems(1) rin Some by (auto simp: wf_store_def runGetByID_updated)
      have up: "runGetByID ?s q = runGetByID s q" if "d i < d q" for q
        using updated_elsewhere [of q i] that by auto
      have dn: "d j < n" using dj Suc.prems(4) by simp
      have agj: "\<forall>q. q \<noteq> j \<longrightarrow> agrees ?s q" using ag Some by simp
      obtain s' a' t' where w: "walkUpwards n j (?s, a1, t @ [p]) = Some (Inr (s', a', (t @ [p]) @ t'))" "walk_done d j ?s s' t'"
        using Suc.IH [OF wf dn ex agj, of a1 "t @ [p]"] by blast
      have "walk_done d i s s' (p # t')"
        using w(2) dj self settle(4,5) up unfolding walk_done_def by auto
      with w(1) settle(1) Some show ?thesis by (intro exI [of _ s'] exI [of _ a'] exI [of _ "p # t'"]) simp
    qed
  qed
qed simp

text \<open>C32: When a child run changes state, propagation terminates without an error and restores
  agreement: afterwards every parent has exactly the state its aggregation policy prescribes for its
  children, every reported settlement is the state of that run, and no run outside the ancestors'
  depths is touched. Fuel above the depth of the child is enough.\<close>

theorem propagation_restores_agreement:
  assumes "wf_store s" and "ranked d s" and "parents_succeed s"
    and "runGetByID s child = Some c" and "d child \<le> n"
    and "\<forall>q. parentOf s c \<noteq> Some q \<longrightarrow> agrees s q"
  shows "\<exists>s' actions settlements. PropagateFromChildState n child s = Some (Inr (s', actions, settlements)) \<and>
     (\<forall>q. agrees s' q) \<and> run_scopes s' = run_scopes s \<and>
     (\<forall>q. d child \<le> d q \<longrightarrow> runGetByID s' q = runGetByID s q) \<and>
     (\<forall>p \<in> set settlements. \<exists>r. runGetByID s' (psRunID p) = Some r \<and> State r = psState p)"
proof (cases "parentOf s c")
  case None
  then have "PropagateFromChildState n child s = Some (Inr (s, [], []))"
    using assms(4) by (auto simp: PropagateFromChildState_def parentOf_def split: option.splits)
  with None assms(6) show ?thesis by auto
next
  case (Some j)
  then have eq: "PropagateFromChildState n child s = walkUpwards n j (s, [], [])"
    using assms(4) by (auto simp: PropagateFromChildState_def parentOf_def split: option.splits)
  have c: "c \<in> set (node_runs s)" "NodeRunID c = child" using row_in [OF assms(4)] by auto
  have dj: "d j < d child" using assms(2) c Some by (auto simp: ranked_def)
  have "runGetByID s j \<noteq> None" using assms(1) c(1) Some by (auto simp: wf_store_def)
  moreover have "d j < n" using dj assms(5) by simp
  moreover have "\<forall>q. q \<noteq> j \<longrightarrow> agrees s q" using assms(6) Some by simp
  ultimately obtain s' a' t' where "walkUpwards n j (s, [], []) = Some (Inr (s', a', [] @ t'))" "walk_done d j s s' t'"
    using walkUpwards_done [OF assms(1-3), of j n "[]" "[]"] by blast
  with eq dj show ?thesis unfolding walk_done_def by (intro exI [of _ s'] exI [of _ a'] exI [of _ t']) auto
qed

definition exampleStore :: RunStore where
  "exampleStore =
     \<lparr>node_runs =
        [\<lparr>NodeRunID = 1, NodeID = 11, FrameID = 5, RunScopeID = 21, State = NodeStateHeld, SettlingSignalType = None,
          Policy = \<lparr>Kind = AggregationKindStrict, MaxFailures = 0\<rparr>, Changed = False, executor_name = None,
          required_claim_producers = [], enqueued_at = 0, sequence = 1, creation_reason = CreationReasonCascade, claimed_by = None,
      claimed_at = None, active_terminal_at = None, progress_at = None, parked_at = None, resume_at = None, retry_counter = 0,
      prior_dispatch_id = None, prior_dispatch_disposition = None, scratch = noScratch, ack = noAck\<rparr>,
         \<lparr>NodeRunID = 2, NodeID = 12, FrameID = 5, RunScopeID = 22, State = NodeStateFailed, SettlingSignalType = None,
          Policy = \<lparr>Kind = AggregationKindStrict, MaxFailures = 0\<rparr>, Changed = False, executor_name = None,
          required_claim_producers = [], enqueued_at = 0, sequence = 1, creation_reason = CreationReasonCascade, claimed_by = None,
      claimed_at = None, active_terminal_at = None, progress_at = None, parked_at = None, resume_at = None, retry_counter = 0,
      prior_dispatch_id = None, prior_dispatch_disposition = None, scratch = noScratch, ack = noAck\<rparr>],
      run_scopes =
        [\<lparr>ScopeID = 21, ParentRunScopeID = None, ParentNodeRunID = None, GraphName = ''g'', PartitionKey = [],
          InstanceID = 9, CreatedAt = 1, ClosedAt = None\<rparr>,
         \<lparr>ScopeID = 22, ParentRunScopeID = Some 21, ParentNodeRunID = Some 1, GraphName = ''g'', PartitionKey = ''k'',
          InstanceID = 9, CreatedAt = 1, ClosedAt = None\<rparr>],
      bag_snapshots = []\<rparr>"

lemmas example_simps = exampleStore_def parentOf_def scopeGetByID_def runGetByID_def row_of_def keyed_def
  ListChildren_def childJoin_def

theorem propagation_restores_agreement_witness:
  "runGetByID exampleStore 2 \<noteq> None \<and>
   (\<exists>s' actions settlements. PropagateFromChildState 1 2 exampleStore = Some (Inr (s', actions, settlements)) \<and>
     (\<forall>q. agrees s' q))"
proof -
  have w: "wf_store exampleStore" "ranked (\<lambda>i. if i = 2 then 1 else 0) exampleStore" "parents_succeed exampleStore"
    by (simp_all add: wf_store_def ranked_def parents_succeed_def example_simps)
  obtain c where c: "runGetByID exampleStore 2 = Some c" "parentOf exampleStore c = Some 1"
    by (simp add: example_simps)
  have "agrees exampleStore q" if "q \<noteq> 1" for q
    using that by (auto simp: agrees_def childOutcome_def childStatesForAggregate_def policyOutcome_def example_simps split: if_splits)
  with propagation_restores_agreement [OF w c(1), of 1] c show ?thesis by auto
qed

subsection \<open>Reading the tree\<close>

inductive descends :: "RunStore \<Rightarrow> UUID \<Rightarrow> NodeRunRow \<Rightarrow> bool" for s root where
  descends_root: "runGetByID s root = Some r \<Longrightarrow> descends s root r"
| descends_child: "descends s root p \<Longrightarrow> c \<in> set (node_runs s) \<Longrightarrow> parentOf s c = Some (NodeRunID p) \<Longrightarrow> descends s root c"

lemma descends_exists: "descends s root r \<Longrightarrow> runGetByID s root \<noteq> None"
  by (induction rule: descends.induct) auto

lemma descends_in: "descends s root r \<Longrightarrow> r \<in> set (node_runs s)"
  by (induction rule: descends.induct) (auto dest: row_in)

lemma descends_deeper: "ranked d s \<Longrightarrow> descends s root r \<Longrightarrow> NodeRunID r = root \<or> d root < d (NodeRunID r)"
  by (rotate_tac, induction rule: descends.induct) (force simp: ranked_def dest: row_in)+

text \<open>The loop invariant: \<open>done\<close> are the rows already expanded, \<open>pending\<close> those still queued; every
  queued or expanded row descends from the root, none twice, and the expanded ones are closed
  under children.\<close>

definition bfs_inv :: "RunStore \<Rightarrow> UUID \<Rightarrow> NodeRunRow list \<Rightarrow> NodeRunRow list \<Rightarrow> bool" where
  "bfs_inv s root xs pending \<longleftrightarrow>
     distinct (xs @ pending) \<and> (\<forall>r \<in> set (xs @ pending). descends s root r) \<and>
     (\<forall>p \<in> set xs. \<forall>c \<in> set (node_runs s). parentOf s c = Some (NodeRunID p) \<longrightarrow> c \<in> set (xs @ pending)) \<and>
     (\<forall>c \<in> set (xs @ pending). NodeRunID c = root \<or> (\<exists>p \<in> set xs. parentOf s c = Some (NodeRunID p)))"

lemma concat_if: "concat (map (\<lambda>r. if P r then [r] else []) xs) = filter P xs"
  by (induction xs) simp_all

lemma childJoin_rows:
  assumes "keyed ScopeID (run_scopes s)"
  shows "map snd (childJoin s p) = filter (\<lambda>r. parentOf s r = Some p) (node_runs s)"
proof -
  have "map snd (map (\<lambda>rs. (PartitionKey rs, r))
      (filter (\<lambda>rs. ScopeID rs = RunScopeID r \<and> ParentNodeRunID rs = Some p) (run_scopes s))) =
    (if parentOf s r = Some p then [r] else [])" for r
    unfolding filter_row_of [OF assms] by (auto simp: parentOf_def scopeGetByID_def split: option.split)
  then have "map snd (childJoin s p) = concat (map (\<lambda>r. if parentOf s r = Some p then [r] else []) (node_runs s))"
    unfolding childJoin_def map_concat map_map o_def by simp
  also have "\<dots> = filter (\<lambda>r. parentOf s r = Some p) (node_runs s)"
    using concat_if [of "\<lambda>r. parentOf s r = Some p"] by simp
  finally show ?thesis .
qed

lemma distinct_ListChildren:
  assumes "wf_store s"
  shows "distinct (ListChildren s p)"
proof -
  have "distinct (node_runs s)" using assms by (auto simp: wf_store_def keyed_def distinct_map)
  then have "distinct (map snd (childJoin s p))" using assms childJoin_rows [of s p] by (simp add: wf_store_def)
  then show ?thesis using mset_eq_imp_distinct_iff [OF mset_ListChildren] by blast
qed

lemma bfs_step:
  assumes "wf_store s" and "ranked d s" and "bfs_inv s root xs (x # pending)"
  shows "bfs_inv s root (xs @ [x]) (pending @ ListChildren s (NodeRunID x))"
proof -
  have kids: "set (ListChildren s (NodeRunID x)) = {c \<in> set (node_runs s). parentOf s c = Some (NodeRunID x)}"
    using set_ListChildren assms(1) by (simp add: wf_store_def)
  have x: "descends s root x" "x \<notin> set xs" using assms(3) by (auto simp: bfs_inv_def)
  have new: "c \<notin> set (xs @ x # pending)" if c: "c \<in> set (ListChildren s (NodeRunID x))" for c
  proof
    assume cin: "c \<in> set (xs @ x # pending)"
    have pc: "parentOf s c = Some (NodeRunID x)" "c \<in> set (node_runs s)" using c kids by auto
    then have "d (NodeRunID x) < d (NodeRunID c)" using assms(2) by (auto simp: ranked_def)
    with descends_deeper [OF assms(2) x(1)] have "NodeRunID c \<noteq> root" by auto
    with cin assms(3) obtain p where p: "p \<in> set xs" "parentOf s c = Some (NodeRunID p)"
      by (auto simp: bfs_inv_def)
    have "p \<in> set (node_runs s)" "x \<in> set (node_runs s)" using p(1) assms(3) by (auto simp: bfs_inv_def intro: descends_in [of s root])
    with p(2) pc(1) assms(1) have "p = x" by (auto simp: wf_store_def keyed_def distinct_map dest: inj_onD)
    with p(1) x(2) show False by simp
  qed
  have "distinct ((xs @ [x]) @ pending @ ListChildren s (NodeRunID x))"
    using assms(3) new distinct_ListChildren [OF assms(1)] by (auto simp: bfs_inv_def)
  moreover have "\<forall>r \<in> set (ListChildren s (NodeRunID x)). descends s root r"
    using kids descends_child [OF x(1)] by auto
  ultimately show ?thesis using assms(3) kids unfolding bfs_inv_def by auto
qed

lemma bfs_bound:
  assumes "wf_store s" and "bfs_inv s root xs pending"
  shows "length xs \<le> length (node_runs s)"
proof -
  have "distinct xs" "set xs \<subseteq> set (node_runs s)" using assms(2) by (auto simp: bfs_inv_def intro: descends_in [of s root])
  then have "length xs \<le> card (set (node_runs s))" by (metis card_mono distinct_card finite_set)
  then show ?thesis using card_length le_trans by blast
qed

lemma runTreeLoop_done:
  assumes "wf_store s" and "ranked d s" and "bfs_inv s root xs pending" and "length (node_runs s) \<le> n + length xs"
  shows "\<exists>out. runTreeLoop n s (map NodeRunID pending) (xs @ pending) = Some out \<and> bfs_inv s root out []"
  using assms(3,4)
proof (induction n arbitrary: xs pending)
  case 0
  show ?case
  proof (cases pending)
    case (Cons x ps)
    from bfs_bound [OF assms(1) bfs_step [OF assms(1,2) "0.prems"(1) [unfolded Cons]]] 0 show ?thesis by simp
  qed (use 0 in simp)
next
  case (Suc n)
  show ?case
  proof (cases pending)
    case (Cons x ps)
    from Suc.IH [OF bfs_step [OF assms(1,2) Suc.prems(1) [unfolded Cons]]] Suc.prems(2) Cons show ?thesis
      by (simp add: Let_def)
  qed (use Suc in simp)
qed

lemma runTreeLoop_keeps: "runTreeLoop n s q acc = Some out \<Longrightarrow> set acc \<subseteq> set out"
  by (induction n s q acc rule: runTreeLoop.induct) (auto simp: Let_def)

lemma bfs_complete:
  assumes "bfs_inv s root out []" and "runGetByID s root = Some r" and "r \<in> set out"
  shows "set out = {c. descends s root c}"
proof
  have "c \<in> set out" if "descends s root c" for c
    using that by (induction rule: descends.induct) (use assms in \<open>auto simp: bfs_inv_def\<close>)
  then show "{c. descends s root c} \<subseteq> set out" by auto
qed (use assms(1) in \<open>auto simp: bfs_inv_def\<close>)

text \<open>C36: \<open>GetRunTree\<close> returns, within as many loop iterations as there are runs, exactly the run and
  its descendants, each once.\<close>

theorem run_tree_is_complete:
  assumes "wf_store s" and "ranked d s" and "length (node_runs s) \<le> n"
  shows "\<exists>out. GetRunTree n s root = Some out \<and> distinct (map NodeRunID out) \<and> set out = {c. descends s root c}"
proof (cases "runGetByID s root")
  case None
  then have "\<not> descends s root c" for c
    using descends_exists [of s root c] by blast
  with None show ?thesis by (auto simp: GetRunTree_def)
next
  case (Some r)
  then have r: "NodeRunID r = root" using row_in by blast
  then have inv: "bfs_inv s root [] [r]" using Some by (auto simp: bfs_inv_def intro: descends_root)
  obtain out where out: "runTreeLoop n s [root] [r] = Some out" "bfs_inv s root out []"
    using runTreeLoop_done [OF assms(1,2) inv] assms(3) r by auto
  have "r \<in> set out"
    using runTreeLoop_keeps [OF out(1)] by simp
  then have "set out = {c. descends s root c}" by (rule bfs_complete [OF out(2) Some])
  moreover have "distinct (map NodeRunID out)"
    using assms(1) out(2) descends_in [of s root]
    by (auto simp: bfs_inv_def wf_store_def keyed_def distinct_map intro: inj_on_subset)
  ultimately show ?thesis using out(1) Some by (auto simp: GetRunTree_def)
qed

theorem run_tree_is_complete_witness:
  "\<exists>out. GetRunTree 2 exampleStore 1 = Some out \<and> set out = {c. descends exampleStore 1 c}"
proof -
  have w: "wf_store exampleStore" "ranked (\<lambda>i. if i = 2 then 1 else 0) exampleStore"
    by (simp_all add: wf_store_def ranked_def example_simps)
  have "length (node_runs exampleStore) \<le> 2" by (simp add: exampleStore_def)
  from run_tree_is_complete [OF w this] show ?thesis by blast
qed

subsection \<open>Creating runs\<close>

definition sequences_ok :: "RunStore \<Rightarrow> bool" where
  "sequences_ok s \<longleftrightarrow> keyed NodeRunID (node_runs s) \<and> keyed (\<lambda>r. (NodeID r, RunScopeID r, sequence r)) (node_runs s)"

lemma fold_max_ge: "x \<le> fold max xs x \<and> (\<forall>y \<in> set xs. y \<le> fold max xs x)" for x :: int
proof (induction xs arbitrary: x)
  case (Cons y ys)
  have "max y x \<le> fold max ys (max y x)" "\<forall>z \<in> set ys. z \<le> fold max ys (max y x)" using Cons.IH by blast+
  then show ?case by auto
qed simp

lemma nextSequence_greater:
  assumes "r \<in> set runs" and "NodeID r = node" and "RunScopeID r = scope"
  shows "sequence r < nextSequence runs node scope"
proof (cases "map sequence (filter (\<lambda>r. NodeID r = node \<and> RunScopeID r = scope) runs)")
  case Nil
  with assms show ?thesis by (auto simp: filter_empty_conv)
next
  case (Cons x xs)
  have "sequence r \<in> set (map sequence (filter (\<lambda>r. NodeID r = node \<and> RunScopeID r = scope) runs))"
    using assms by auto
  with Cons fold_max_ge [where xs = xs and x = x] have "sequence r \<le> fold max xs x" by auto
  with Cons show ?thesis unfolding nextSequence_def by simp
qed

lemma insertRun_sequences:
  assumes "sequences_ok s" and "row_of NodeRunID (inNodeRunID inp) (node_runs s) = None"
  shows "sequences_ok (insertRun now inp s)"
  using assms nextSequence_greater [of _ "node_runs s" "inNodeID inp" "inRunScopeID inp"]
  by (force simp: sequences_ok_def keyed_def insertRun_def newRunRow_def row_of_None_iff)

text \<open>Creating a root or child run keeps run identifiers and the numbering of runs per node and
  scope unique, appends at most one run, numbers it above every run of its node and scope, and
  snapshots the attribute bag exactly for a run that was inserted; a child is never inserted next
  to a running, held or parked run of its node and scope, nor into a closed scope.\<close>

theorem creation_keeps_sequences:
  assumes "sequences_ok s"
    and "storeCreateRootNodeRun now inp s = Inr s' \<or> storeCreateChildNodeRun now inp s = Inr s'"
  shows "sequences_ok s' \<and>
    (s' = s \<or> (\<exists>r. node_runs s' = node_runs s @ [r] \<and> NodeRunID r = inNodeRunID inp \<and> State r = NodeStateStale \<and>
       (\<forall>q \<in> set (node_runs s). NodeID q = NodeID r \<longrightarrow> RunScopeID q = RunScopeID r \<longrightarrow> sequence q < sequence r) \<and>
       bag_snapshots s' = bag_snapshots s @ [(NodeRunID r, NodeID r, RunScopeID r)] \<and> run_scopes s' = run_scopes s)) \<and>
    (storeCreateChildNodeRun now inp s = Inr s' \<longrightarrow> s' \<noteq> s \<longrightarrow>
       (\<forall>q \<in> set (node_runs s). NodeID q = inNodeID inp \<longrightarrow> RunScopeID q = inRunScopeID inp \<longrightarrow>
          State q \<notin> {NodeStateRunning, NodeStateHeld, NodeStateParked}) \<and>
       (\<exists>sc \<in> set (run_scopes s). ScopeID sc = inRunScopeID inp \<and> ClosedAt sc = None))"
proof -
  consider "s' = s" | "s' = insertRun now inp s" "row_of NodeRunID (inNodeRunID inp) (node_runs s) = None"
    using assms(2) by (auto simp: storeCreateRootNodeRun_def storeCreateChildNodeRun_def split: if_splits)
  then have "sequences_ok s' \<and> (s' = s \<or> s' = insertRun now inp s)"
    using assms(1) insertRun_sequences by cases auto
  moreover have "s' \<noteq> s \<Longrightarrow> storeCreateChildNodeRun now inp s = Inr s' \<Longrightarrow>
      (\<forall>q \<in> set (node_runs s). NodeID q = inNodeID inp \<longrightarrow> RunScopeID q = inRunScopeID inp \<longrightarrow>
          State q \<notin> {NodeStateRunning, NodeStateHeld, NodeStateParked}) \<and>
       (\<exists>sc \<in> set (run_scopes s). ScopeID sc = inRunScopeID inp \<and> ClosedAt sc = None)"
    by (auto simp: storeCreateChildNodeRun_def list_ex_iff split: if_splits)
  ultimately show ?thesis
    using nextSequence_greater [of _ "node_runs s"] by (auto simp: insertRun_def newRunRow_def)
qed

definition exampleInput :: CreateNodeRunInput where
  "exampleInput = \<lparr>inNodeRunID = 3, inNodeID = 12, inFrameID = 5, inRunScopeID = 22,
     inPolicy = \<lparr>Kind = AggregationKindUnset, MaxFailures = 0\<rparr>, inExecutorName = [], inRequiredClaimProducers = [], inEnqueuedAt = 7\<rparr>"

theorem creation_keeps_sequences_witness:
  "sequences_ok (insertRun 0 exampleInput exampleStore) \<and> insertRun 0 exampleInput exampleStore \<noteq> exampleStore"
proof -
  have ok: "sequences_ok exampleStore" by (simp add: sequences_ok_def keyed_def exampleStore_def)
  have "storeCreateChildNodeRun 0 exampleInput exampleStore = Inr (insertRun 0 exampleInput exampleStore)"
    by (simp add: storeCreateChildNodeRun_def exampleInput_def exampleStore_def row_of_def)
  with creation_keeps_sequences [OF ok, of 0 exampleInput] show ?thesis by (auto simp: insertRun_def exampleStore_def)
qed

end
