(* ===== verification/Claim_Store.thy ===== *)
theory Claim_Store
  imports Run_Tree
begin

text \<open>
  The claim tables of the SQLite backend: claim handles
  (\<open>lib/foundation/persistence/sqlite/claim_handles.go\<close>), their holders (\<open>claim_holders.go\<close>) and
  the producer-verb outbox (\<open>producer_verb_outbox.go\<close>). A table is a list of rows in insertion
  order; a statement is a guarded update, delete or insert; the CHECK constraints, the primary keys,
  the unique indexes and the foreign keys between these tables are those of the migrations. A raw
  JSON column is its text, except for the aggregation policy, of which the code reads the content.
  The current time is an argument. Statements that fail inside the database engine abort the
  transaction and are not modelled.
\<close>

subsection \<open>Rows\<close>

datatype LockKind = LockKindNamed | LockKindScope
datatype ClaimLifetime = ClaimLifetimeSubgraph | ClaimLifetimeDurable
datatype ClaimHandleState = ClaimHandleStateActive | ClaimHandleStateCommitted | ClaimHandleStateAbandoned
datatype policy_json = PolicyNull | PolicyJSON AggregationPolicy | PolicyMalformed

definition zeroPolicy :: AggregationPolicy where
  "zeroPolicy = \<lparr>Kind = AggregationKindUnset, MaxFailures = 0\<rparr>"

definition MarshalAggregationPolicy :: "AggregationPolicy \<Rightarrow> policy_json" where
  "MarshalAggregationPolicy p = (if p = zeroPolicy then PolicyNull else PolicyJSON p)"

fun UnmarshalAggregationPolicy :: "policy_json \<Rightarrow> unit + AggregationPolicy" where
  "UnmarshalAggregationPolicy PolicyNull = Inr zeroPolicy"
| "UnmarshalAggregationPolicy (PolicyJSON p) = Inr p"
| "UnmarshalAggregationPolicy PolicyMalformed = Inl ()"

record ClaimHandleRow =
  ch_id :: UUID
  lock_kind :: LockKind
  lock_name :: "string option"
  producer_name :: "string option"
  claim_scope_data :: "string option"
  address :: "string option"
  payload :: "string option"
  intent :: "string option"
  realized_write_semantics :: "string option"
  holder_supervisor_id :: "string option"
  holder_node_id :: UUID
  claimed_at :: time
  expires_at :: time
  ch_frame_id :: "UUID option"
  node_run_id :: "UUID option"
  is_held :: bool
  parent_claim_handle_id :: "UUID option"
  lifetime :: ClaimLifetime
  version_id :: "string option"
  producer_candidate_handle :: string
  producer_lease_token :: string
  aggregation_policy :: policy_json
  expected_children_count :: int
  committed_children_count :: int
  abandoned_children_count :: int
  ch_state :: ClaimHandleState
  resolved_at :: "time option"

datatype ClaimHolderState = ClaimHolderStateActive | ClaimHolderStateCompleted | ClaimHolderStateFailed

record ClaimHolderRow =
  holder_id :: UUID
  claim_handle_id :: UUID
  holder_run_id :: UUID
  holder_state :: ClaimHolderState
  completed_at :: "time option"

datatype ProducerVerb = ProducerVerbCommit | ProducerVerbAbandon | ProducerVerbRelease

record ProducerVerbOutboxRow =
  seq :: nat
  ob_claim_handle_id :: UUID
  ob_producer_name :: string
  verb :: ProducerVerb
  ob_claim_scope_data :: string
  ob_address :: string
  ob_lease_token :: string
  ob_supervisor_id :: string
  ob_instance_id :: "UUID option"
  ob_parent_claim_handle_id :: "UUID option"
  attempt_count :: int
  next_attempt_at :: time
  last_error :: string
  ob_enqueued_at :: time

text \<open>\<open>last_seq\<close> is the AUTOINCREMENT counter of the outbox.\<close>

record ClaimStore =
  claim_handles :: "ClaimHandleRow list"
  claim_holders :: "ClaimHolderRow list"
  verb_outbox :: "ProducerVerbOutboxRow list"
  last_seq :: nat

datatype claim_error =
  ErrIllegalClaimHandleTransition
| ErrClaimHolderNotActive
| HandleCheckFailed
| HandleExists UUID
| HandleForeignKey UUID
| EmptyToSupervisorID
| UnknownOutcome string

subsection \<open>Statement forms\<close>

text \<open>The CHECK constraints of \<open>rimsky_claim_handles\<close>.\<close>

definition handle_check :: "ClaimHandleRow \<Rightarrow> bool" where
  "handle_check r \<longleftrightarrow>
     (lock_kind r = LockKindNamed \<and> lock_name r \<noteq> None \<and> producer_name r = None \<and> claim_scope_data r = None \<and>
        intent r = None \<and> realized_write_semantics r = None \<or>
      lock_kind r = LockKindScope \<and> lock_name r = None \<and> producer_name r \<noteq> None \<and> claim_scope_data r \<noteq> None \<and>
        intent r \<in> {Some ''r'', Some ''rw''}) \<and>
     (ch_state r \<noteq> ClaimHandleStateActive \<or> holder_supervisor_id r \<noteq> None) \<and>
     (ch_state r = ClaimHandleStateActive \<or> holder_supervisor_id r = None)"

definition heldBy :: "string \<Rightarrow> ClaimHandleRow \<Rightarrow> bool" where
  "heldBy supv r \<longleftrightarrow> holder_supervisor_id r = Some supv"

text \<open>\<open>UPDATE .. WHERE g\<close> followed by the rows-affected test every guarded method shares.\<close>

definition guarded_update ::
  "(ClaimHandleRow \<Rightarrow> bool) \<Rightarrow> (ClaimHandleRow \<Rightarrow> ClaimHandleRow) \<Rightarrow> ClaimStore \<Rightarrow> claim_error + ClaimStore" where
  "guarded_update g f s =
     (if affected g (claim_handles s) = 0 then Inl ErrIllegalClaimHandleTransition
      else if list_ex (\<lambda>r. g r \<and> \<not> handle_check (f r)) (claim_handles s) then Inl HandleCheckFailed
      else Inr (s\<lparr>claim_handles := update_where g f (claim_handles s)\<rparr>))"

text \<open>\<open>DELETE .. WHERE g\<close>: children of a deleted handle keep a NULL parent (\<open>ON DELETE SET NULL\<close>),
  its holders go with it (\<open>ON DELETE CASCADE\<close>), outbox rows have no foreign key.\<close>

definition delete_handles :: "(ClaimHandleRow \<Rightarrow> bool) \<Rightarrow> ClaimStore \<Rightarrow> ClaimStore" where
  "delete_handles g s =
     (let gone = (\<lambda>i. list_ex (\<lambda>r. g r \<and> ch_id r = i) (claim_handles s)) in
      s\<lparr>claim_handles := map (\<lambda>r. case parent_claim_handle_id r of
            None \<Rightarrow> r | Some p \<Rightarrow> if gone p then r\<lparr>parent_claim_handle_id := None\<rparr> else r)
          (delete_where g (claim_handles s)),
        claim_holders := delete_where (\<lambda>h. gone (claim_handle_id h)) (claim_holders s)\<rparr>)"

definition guarded_delete :: "(ClaimHandleRow \<Rightarrow> bool) \<Rightarrow> ClaimStore \<Rightarrow> claim_error + ClaimStore" where
  "guarded_delete g s =
     (if affected g (claim_handles s) = 0 then Inl ErrIllegalClaimHandleTransition else Inr (delete_handles g s))"

subsection \<open>Claim handles\<close>

record ClaimHandleInsertInput =
  inID :: UUID
  inNodeRunID :: "UUID option"
  inLockKind :: LockKind
  inLockName :: "string option"
  inProducerName :: "string option"
  inClaimScopeData :: "string option"
  inAddress :: "string option"
  inPayload :: "string option"
  inIntent :: "string option"
  inHolderSupervisorID :: string
  inHolderNodeID :: UUID
  inExpiresAt :: time
  inClaimedAtOverride :: time
  inFrameID :: "UUID option"
  inRealizedWriteSemantics :: string
  inIsHeld :: bool
  inParentClaimHandleID :: "UUID option"
  inLifetime :: "ClaimLifetime option"
  inProducerCandidateHandle :: string
  inProducerLeaseToken :: string
  inAggregationPolicy :: policy_json

definition insertedRow :: "time \<Rightarrow> ClaimHandleInsertInput \<Rightarrow> ClaimHandleRow" where
  "insertedRow now i =
     \<lparr>ch_id = inID i, lock_kind = inLockKind i, lock_name = inLockName i, producer_name = inProducerName i,
      claim_scope_data = inClaimScopeData i, address = inAddress i, payload = inPayload i, intent = inIntent i,
      realized_write_semantics = (if inRealizedWriteSemantics i \<noteq> [] then Some (inRealizedWriteSemantics i) else None),
      holder_supervisor_id = Some (inHolderSupervisorID i), holder_node_id = inHolderNodeID i,
      claimed_at = (if inClaimedAtOverride i \<noteq> 0 then inClaimedAtOverride i else now),
      expires_at = inExpiresAt i, ch_frame_id = inFrameID i, node_run_id = inNodeRunID i, is_held = inIsHeld i,
      parent_claim_handle_id = inParentClaimHandleID i,
      lifetime = (case inLifetime i of None \<Rightarrow> ClaimLifetimeSubgraph | Some l \<Rightarrow> l),
      version_id = None, producer_candidate_handle = inProducerCandidateHandle i,
      producer_lease_token = inProducerLeaseToken i, aggregation_policy = inAggregationPolicy i,
      expected_children_count = 0, committed_children_count = 0, abandoned_children_count = 0,
      ch_state = ClaimHandleStateActive, resolved_at = None\<rparr>"

definition handleInsert :: "time \<Rightarrow> ClaimHandleInsertInput \<Rightarrow> ClaimStore \<Rightarrow> claim_error + ClaimStore" where
  "handleInsert now i s =
     (if \<not> handle_check (insertedRow now i) then Inl HandleCheckFailed
      else if row_of ch_id (inID i) (claim_handles s) \<noteq> None then Inl (HandleExists (inID i))
      else case inParentClaimHandleID i of
        Some p \<Rightarrow> if row_of ch_id p (claim_handles s) = None then Inl (HandleForeignKey p)
                  else Inr (s\<lparr>claim_handles := claim_handles s @ [insertedRow now i]\<rparr>)
      | None \<Rightarrow> Inr (s\<lparr>claim_handles := claim_handles s @ [insertedRow now i]\<rparr>))"

definition UpdateRealizedWriteSemantics :: "UUID \<Rightarrow> string \<Rightarrow> string \<Rightarrow> ClaimStore \<Rightarrow> claim_error + ClaimStore" where
  "UpdateRealizedWriteSemantics i supv ws = guarded_update (\<lambda>r. ch_id r = i \<and> heldBy supv r)
     (\<lambda>r. r\<lparr>realized_write_semantics := if ws \<noteq> [] then Some ws else None\<rparr>)"

definition UpdateAddress :: "UUID \<Rightarrow> string \<Rightarrow> string option \<Rightarrow> ClaimStore \<Rightarrow> claim_error + ClaimStore" where
  "UpdateAddress i supv addr = guarded_update (\<lambda>r. ch_id r = i \<and> heldBy supv r) (\<lambda>r. r\<lparr>address := addr\<rparr>)"

definition UpdatePayload :: "UUID \<Rightarrow> string \<Rightarrow> string option \<Rightarrow> ClaimStore \<Rightarrow> claim_error + ClaimStore" where
  "UpdatePayload i supv p = guarded_update (\<lambda>r. ch_id r = i \<and> heldBy supv r) (\<lambda>r. r\<lparr>payload := p\<rparr>)"

definition UpdateClaimScope :: "UUID \<Rightarrow> string \<Rightarrow> string option \<Rightarrow> ClaimStore \<Rightarrow> claim_error + ClaimStore" where
  "UpdateClaimScope i supv sc = guarded_update (\<lambda>r. ch_id r = i \<and> heldBy supv r) (\<lambda>r. r\<lparr>claim_scope_data := sc\<rparr>)"

definition UpdateNodeRunID :: "UUID \<Rightarrow> UUID \<Rightarrow> string \<Rightarrow> ClaimStore \<Rightarrow> claim_error + ClaimStore" where
  "UpdateNodeRunID i run supv =
     guarded_update (\<lambda>r. ch_id r = i \<and> ch_state r = ClaimHandleStateActive \<and> heldBy supv r) (\<lambda>r. r\<lparr>node_run_id := Some run\<rparr>)"

definition ReassignHolderSupervisor :: "UUID \<Rightarrow> string \<Rightarrow> string \<Rightarrow> ClaimStore \<Rightarrow> claim_error + ClaimStore" where
  "ReassignHolderSupervisor i fromSup toSup s =
     (if toSup = [] then Inl EmptyToSupervisorID
      else guarded_update (\<lambda>r. ch_id r = i \<and> ch_state r = ClaimHandleStateActive \<and> heldBy fromSup r)
             (\<lambda>r. r\<lparr>holder_supervisor_id := Some toSup\<rparr>) s)"

definition Promote :: "time \<Rightarrow> UUID \<Rightarrow> string \<Rightarrow> ClaimHandleState \<Rightarrow> ClaimStore \<Rightarrow> claim_error + ClaimStore" where
  "Promote now i supv newState =
     guarded_update (\<lambda>r. ch_id r = i \<and> ch_state r = ClaimHandleStateActive \<and> heldBy supv r)
       (\<lambda>r. r\<lparr>ch_state := newState, holder_supervisor_id := None, resolved_at := Some now\<rparr>)"

definition SetVersionID :: "UUID \<Rightarrow> string \<Rightarrow> string \<Rightarrow> ClaimStore \<Rightarrow> claim_error + ClaimStore" where
  "SetVersionID i supv v =
     guarded_update (\<lambda>r. ch_id r = i \<and> (heldBy supv r \<or> holder_supervisor_id r = None \<and> ch_state r \<noteq> ClaimHandleStateActive))
       (\<lambda>r. r\<lparr>version_id := if v \<noteq> [] then Some v else None\<rparr>)"

definition SetAggregationPolicy :: "UUID \<Rightarrow> string \<Rightarrow> policy_json \<Rightarrow> ClaimStore \<Rightarrow> claim_error + ClaimStore" where
  "SetAggregationPolicy i supv p = guarded_update (\<lambda>r. ch_id r = i \<and> heldBy supv r) (\<lambda>r. r\<lparr>aggregation_policy := p\<rparr>)"

definition BumpExpectedChildrenCount :: "UUID \<Rightarrow> string \<Rightarrow> int \<Rightarrow> ClaimStore \<Rightarrow> claim_error + ClaimStore" where
  "BumpExpectedChildrenCount i supv delta = guarded_update (\<lambda>r. ch_id r = i \<and> heldBy supv r)
     (\<lambda>r. r\<lparr>expected_children_count := expected_children_count r + delta\<rparr>)"

definition BumpChildOutcomeCount :: "UUID \<Rightarrow> string \<Rightarrow> string \<Rightarrow> int \<Rightarrow> ClaimStore \<Rightarrow> claim_error + ClaimStore" where
  "BumpChildOutcomeCount i supv outcome delta s =
     (if outcome = ''commit'' then
        guarded_update (\<lambda>r. ch_id r = i \<and> heldBy supv r)
          (\<lambda>r. r\<lparr>committed_children_count := committed_children_count r + delta\<rparr>) s
      else if outcome = ''abandon'' then
        guarded_update (\<lambda>r. ch_id r = i \<and> heldBy supv r)
          (\<lambda>r. r\<lparr>abandoned_children_count := abandoned_children_count r + delta\<rparr>) s
      else Inl (UnknownOutcome outcome))"

definition RenewExpiryForHolderRun :: "UUID \<Rightarrow> time \<Rightarrow> ClaimStore \<Rightarrow> ClaimStore" where
  "RenewExpiryForHolderRun run newExpiry s =
     s\<lparr>claim_handles := update_where (\<lambda>r. node_run_id r = Some run \<and> ch_state r = ClaimHandleStateActive)
         (\<lambda>r. r\<lparr>expires_at := newExpiry\<rparr>) (claim_handles s)\<rparr>"

definition handleDelete :: "UUID \<Rightarrow> string \<Rightarrow> ClaimStore \<Rightarrow> claim_error + ClaimStore" where
  "handleDelete i supv = guarded_delete (\<lambda>r. ch_id r = i \<and> heldBy supv r)"

text \<open>\<open>busy\<close> says whether a run is parked or held in \<open>rimsky_node_runs\<close>.\<close>

definition expiredHandle :: "time \<Rightarrow> (UUID \<Rightarrow> bool) \<Rightarrow> ClaimHandleRow \<Rightarrow> bool" where
  "expiredHandle now busy r \<longleftrightarrow> ch_state r = ClaimHandleStateActive \<and> expires_at r < now \<and>
     \<not> (case node_run_id r of None \<Rightarrow> False | Some run \<Rightarrow> busy run)"

definition DeleteIfExpired :: "time \<Rightarrow> (UUID \<Rightarrow> bool) \<Rightarrow> UUID \<Rightarrow> string \<Rightarrow> ClaimStore \<Rightarrow> bool \<times> ClaimStore" where
  "DeleteIfExpired now busy i supv s =
     (let g = (\<lambda>r. ch_id r = i \<and> heldBy supv r \<and> expiredHandle now busy r)
      in (affected g (claim_handles s) > 0, delete_handles g s))"

definition resolvedHandle :: "ClaimHandleRow \<Rightarrow> bool" where
  "resolvedHandle r \<longleftrightarrow> ch_state r \<in> {ClaimHandleStateCommitted, ClaimHandleStateAbandoned} \<and> holder_supervisor_id r = None"

definition DeleteResolved :: "UUID \<Rightarrow> ClaimStore \<Rightarrow> claim_error + ClaimStore" where
  "DeleteResolved i = guarded_delete (\<lambda>r. ch_id r = i \<and> resolvedHandle r)"

definition activeHolderOf :: "ClaimStore \<Rightarrow> UUID \<Rightarrow> bool" where
  "activeHolderOf s i = list_ex (\<lambda>h. claim_handle_id h = i \<and> holder_state h = ClaimHolderStateActive) (claim_holders s)"

definition DeleteResolvedIfNoActiveHolders :: "UUID \<Rightarrow> ClaimStore \<Rightarrow> bool \<times> ClaimStore" where
  "DeleteResolvedIfNoActiveHolders i s =
     (let g = (\<lambda>r. ch_id r = i \<and> resolvedHandle r \<and> \<not> activeHolderOf s (ch_id r))
      in (affected g (claim_handles s) > 0, delete_handles g s))"

definition DeleteResolvedOlderThan :: "time \<Rightarrow> ClaimStore \<Rightarrow> nat \<times> ClaimStore" where
  "DeleteResolvedOlderThan cutoff s =
     (let g = (\<lambda>r. ch_state r \<in> {ClaimHandleStateCommitted, ClaimHandleStateAbandoned} \<and>
                  (ch_state r = ClaimHandleStateAbandoned \<or> lifetime r = ClaimLifetimeSubgraph) \<and>
                  (case resolved_at r of None \<Rightarrow> False | Some t \<Rightarrow> t < cutoff) \<and> holder_supervisor_id r = None)
      in (affected g (claim_handles s), delete_handles g s))"

subsection \<open>Queries on claim handles\<close>

definition handleGet :: "ClaimStore \<Rightarrow> UUID \<Rightarrow> ClaimHandleRow option" where
  "handleGet s i = row_of ch_id i (claim_handles s)"

definition LockForUpdate :: "ClaimStore \<Rightarrow> UUID \<Rightarrow> ClaimHandleRow option" where
  "LockForUpdate s i = row_of ch_id i (claim_handles s)"

definition ListByHolderNode :: "ClaimStore \<Rightarrow> UUID \<Rightarrow> ClaimHandleRow list" where
  "ListByHolderNode s n = sort_key claimed_at (filter (\<lambda>r. holder_node_id r = n) (claim_handles s))"

definition ListByNodeRun :: "ClaimStore \<Rightarrow> UUID \<Rightarrow> ClaimHandleRow list" where
  "ListByNodeRun s run = sort_key claimed_at (filter (\<lambda>r. node_run_id r = Some run) (claim_handles s))"

definition GetByFrameAndNode :: "ClaimStore \<Rightarrow> UUID \<Rightarrow> UUID \<Rightarrow> ClaimHandleRow option" where
  "GetByFrameAndNode s n frame =
     List.find (\<lambda>r. holder_node_id r = n \<and> ch_frame_id r = Some frame) (claim_handles s)"

definition ListChildClaimHandles :: "ClaimStore \<Rightarrow> UUID \<Rightarrow> ClaimHandleRow list" where
  "ListChildClaimHandles s p = filter (\<lambda>r. parent_claim_handle_id r = Some p) (claim_handles s)"

definition ListByState :: "ClaimStore \<Rightarrow> ClaimHandleState \<Rightarrow> ClaimHandleRow list" where
  "ListByState s st = sort_key claimed_at (filter (\<lambda>r. ch_state r = st) (claim_handles s))"

text \<open>\<open>nodeInstance\<close> and \<open>nodeType\<close> are the columns of \<open>rimsky_nodes\<close> the joins read.\<close>

definition ListByInstanceAndState ::
  "(UUID \<Rightarrow> UUID option) \<Rightarrow> ClaimStore \<Rightarrow> UUID \<Rightarrow> ClaimHandleState \<Rightarrow> ClaimLifetime \<Rightarrow> ClaimHandleRow list" where
  "ListByInstanceAndState nodeInstance s inst st lt =
     filter (\<lambda>r. nodeInstance (holder_node_id r) = Some inst \<and> ch_state r = st \<and> lifetime r = lt) (claim_handles s)"

definition ListExpired :: "time \<Rightarrow> (UUID \<Rightarrow> bool) \<Rightarrow> ClaimStore \<Rightarrow> ClaimHandleRow list" where
  "ListExpired now busy s = sort_key expires_at (filter (expiredHandle now busy) (claim_handles s))"

definition CountByNamedLock :: "ClaimStore \<Rightarrow> string \<Rightarrow> nat" where
  "CountByNamedLock s name = length (filter (\<lambda>r. lock_kind r = LockKindNamed \<and> lock_name r = Some name \<and>
     ch_state r = ClaimHandleStateActive) (claim_handles s))"

definition ListByProducerClaimScope :: "ClaimStore \<Rightarrow> string \<Rightarrow> ClaimHandleRow list" where
  "ListByProducerClaimScope s name =
     sort_key claimed_at (filter (\<lambda>r. lock_kind r = LockKindScope \<and> producer_name r = Some name \<and>
       (ch_state r = ClaimHandleStateActive \<or> ch_state r = ClaimHandleStateCommitted \<and> lifetime r = ClaimLifetimeDurable))
       (claim_handles s))"

record ClaimHandleListFilter =
  fProducerName :: string
  fHolderNodeID :: "UUID option"
  fHolderSupervisor :: string
  fInstanceID :: "UUID option"
  fNodeType :: string

definition listFilter ::
  "(UUID \<Rightarrow> UUID option) \<Rightarrow> (UUID \<Rightarrow> string option) \<Rightarrow> ClaimHandleListFilter \<Rightarrow> ClaimHandleRow \<Rightarrow> bool" where
  "listFilter nodeInstance nodeType f r \<longleftrightarrow>
     (fProducerName f = [] \<or> producer_name r = Some (fProducerName f)) \<and>
     (fHolderSupervisor f = [] \<or> holder_supervisor_id r = Some (fHolderSupervisor f)) \<and>
     (case fHolderNodeID f of None \<Rightarrow> True | Some n \<Rightarrow> holder_node_id r = n) \<and>
     (case fInstanceID f of None \<Rightarrow> True | Some i \<Rightarrow> nodeInstance (holder_node_id r) = Some i) \<and>
     (fNodeType f = [] \<or> nodeType (holder_node_id r) = Some (fNodeType f))"

definition pageKey :: "ClaimHandleRow \<Rightarrow> time \<times> UUID" where
  "pageKey r = (claimed_at r, ch_id r)"

definition beforeKey :: "time \<times> UUID \<Rightarrow> time \<times> UUID \<Rightarrow> bool" where
  "beforeKey a b \<longleftrightarrow> fst a < fst b \<or> fst a = fst b \<and> snd a < snd b"

definition newestFirst :: "ClaimHandleRow list \<Rightarrow> ClaimHandleRow list" where
  "newestFirst rows = rev (sort_key claimed_at (sort_key ch_id rows))"

text \<open>A page cursor is the key of the last row of the previous page; its text encoding is left out.
  Identifiers are ordered as numbers; the order only breaks ties.\<close>

definition ListForObservability ::
  "(UUID \<Rightarrow> UUID option) \<Rightarrow> (UUID \<Rightarrow> string option) \<Rightarrow> ClaimHandleListFilter \<Rightarrow> int \<Rightarrow> (time \<times> UUID) option \<Rightarrow>
   ClaimStore \<Rightarrow> ClaimHandleRow list \<times> (time \<times> UUID) option" where
  "ListForObservability nodeInstance nodeType f lim cursor s =
     (let limit = (if lim \<le> 0 then 50 else nat lim);
          rows = filter (\<lambda>r. listFilter nodeInstance nodeType f r \<and>
                   (case cursor of None \<Rightarrow> True | Some c \<Rightarrow> beforeKey (pageKey r) c)) (claim_handles s);
          out = take limit (newestFirst rows) in
      (out, if length out = limit \<and> length out > 0 then Some (pageKey (last out)) else None))"

subsection \<open>Claim holders\<close>

record ClaimHolderInsertInput =
  hiID :: UUID
  hiClaimHandleID :: UUID
  hiHolderNodeRunID :: UUID

definition holderInsert :: "ClaimHolderInsertInput \<Rightarrow> ClaimStore \<Rightarrow> claim_error + ClaimStore" where
  "holderInsert i s =
     (if row_of ch_id (hiClaimHandleID i) (claim_handles s) = None then Inl (HandleForeignKey (hiClaimHandleID i))
      else if list_ex (\<lambda>h. claim_handle_id h = hiClaimHandleID i \<and> holder_run_id h = hiHolderNodeRunID i) (claim_holders s)
        then Inr s
      else if row_of holder_id (hiID i) (claim_holders s) \<noteq> None then Inl (HandleExists (hiID i))
      else Inr (s\<lparr>claim_holders := claim_holders s @
        [\<lparr>holder_id = hiID i, claim_handle_id = hiClaimHandleID i, holder_run_id = hiHolderNodeRunID i,
          holder_state = ClaimHolderStateActive, completed_at = None\<rparr>]\<rparr>))"

definition holderGet :: "ClaimStore \<Rightarrow> UUID \<Rightarrow> ClaimHolderRow option" where
  "holderGet s i = row_of holder_id i (claim_holders s)"

definition ListByClaimHandleID :: "ClaimStore \<Rightarrow> UUID \<Rightarrow> ClaimHolderRow list" where
  "ListByClaimHandleID s i = sort_key holder_id (filter (\<lambda>h. claim_handle_id h = i) (claim_holders s))"

definition ListByHolderRun :: "ClaimStore \<Rightarrow> UUID \<Rightarrow> ClaimHolderRow list" where
  "ListByHolderRun s run = sort_key holder_id (filter (\<lambda>h. holder_run_id h = run) (claim_holders s))"

definition completeHolders :: "time \<Rightarrow> (ClaimHolderRow \<Rightarrow> bool) \<Rightarrow> ClaimHolderState \<Rightarrow> ClaimStore \<Rightarrow> ClaimStore" where
  "completeHolders now g st s =
     s\<lparr>claim_holders := update_where g (\<lambda>h. h\<lparr>holder_state := st, completed_at := Some now\<rparr>) (claim_holders s)\<rparr>"

definition holderComplete :: "time \<Rightarrow> UUID \<Rightarrow> ClaimHolderState \<Rightarrow> ClaimStore \<Rightarrow> claim_error + ClaimStore" where
  "holderComplete now i st s =
     (let g = (\<lambda>h. holder_id h = i \<and> holder_state h = ClaimHolderStateActive) in
      if affected g (claim_holders s) = 0 then Inl ErrClaimHolderNotActive else Inr (completeHolders now g st s))"

definition CompleteByClaimHandleAndRun ::
  "time \<Rightarrow> UUID \<Rightarrow> UUID \<Rightarrow> ClaimHolderState \<Rightarrow> ClaimStore \<Rightarrow> claim_error + ClaimStore" where
  "CompleteByClaimHandleAndRun now i run st s =
     (let g = (\<lambda>h. claim_handle_id h = i \<and> holder_run_id h = run \<and> holder_state h = ClaimHolderStateActive) in
      if affected g (claim_holders s) = 0 then Inl ErrClaimHolderNotActive else Inr (completeHolders now g st s))"

definition FailAllActiveByClaimHandle :: "time \<Rightarrow> UUID \<Rightarrow> string \<Rightarrow> ClaimStore \<Rightarrow> ClaimStore" where
  "FailAllActiveByClaimHandle now i supv s =
     completeHolders now (\<lambda>h. claim_handle_id h = i \<and> holder_state h = ClaimHolderStateActive \<and>
        list_ex (\<lambda>r. ch_id r = i \<and> heldBy supv r) (claim_handles s)) ClaimHolderStateFailed s"

subsection \<open>The producer-verb outbox\<close>

record ProducerVerbOutboxInsertInput =
  oiClaimHandleID :: UUID
  oiProducerName :: string
  oiVerb :: ProducerVerb
  oiClaimScopeData :: string
  oiAddress :: string
  oiLeaseToken :: string
  oiSupervisorID :: string
  oiInstanceID :: "UUID option"
  oiParentClaimHandleID :: "UUID option"
  oiNextAttemptAt :: time
  oiEnqueuedAt :: time

definition outboxRow :: "nat \<Rightarrow> ProducerVerbOutboxInsertInput \<Rightarrow> ProducerVerbOutboxRow" where
  "outboxRow n i =
     \<lparr>seq = n, ob_claim_handle_id = oiClaimHandleID i, ob_producer_name = oiProducerName i,
      verb = oiVerb i, ob_claim_scope_data = oiClaimScopeData i, ob_address = oiAddress i,
      ob_lease_token = oiLeaseToken i, ob_supervisor_id = oiSupervisorID i, ob_instance_id = oiInstanceID i,
      ob_parent_claim_handle_id = oiParentClaimHandleID i, attempt_count = 0,
      next_attempt_at = oiNextAttemptAt i, last_error = [], ob_enqueued_at = oiEnqueuedAt i\<rparr>"

text \<open>\<open>INSERT OR IGNORE\<close> under \<open>UNIQUE (claim_handle_id, verb)\<close>.\<close>

definition Enqueue :: "ProducerVerbOutboxInsertInput \<Rightarrow> ClaimStore \<Rightarrow> ClaimStore" where
  "Enqueue i s =
     (if list_ex (\<lambda>r. ob_claim_handle_id r = oiClaimHandleID i \<and> verb r = oiVerb i) (verb_outbox s) then s
      else s\<lparr>verb_outbox := verb_outbox s @ [outboxRow (last_seq s + 1) i], last_seq := last_seq s + 1\<rparr>)"

definition outboxListAll :: "ClaimStore \<Rightarrow> ProducerVerbOutboxRow list" where
  "outboxListAll s = sort_key seq (verb_outbox s)"

definition ListByProducer :: "ClaimStore \<Rightarrow> string \<Rightarrow> ProducerVerbOutboxRow list" where
  "ListByProducer s name = sort_key seq (filter (\<lambda>r. ob_producer_name r = name) (verb_outbox s))"

definition RecordAttempt :: "nat \<Rightarrow> time \<Rightarrow> string \<Rightarrow> ClaimStore \<Rightarrow> ClaimStore" where
  "RecordAttempt q nextAt err s =
     s\<lparr>verb_outbox := update_where (\<lambda>r. seq r = q)
         (\<lambda>r. r\<lparr>attempt_count := attempt_count r + 1, next_attempt_at := nextAt, last_error := err\<rparr>) (verb_outbox s)\<rparr>"

definition outboxDelete :: "nat \<Rightarrow> ClaimStore \<Rightarrow> ClaimStore" where
  "outboxDelete q s = s\<lparr>verb_outbox := delete_where (\<lambda>r. seq r = q) (verb_outbox s)\<rparr>"

definition CountByProducer :: "ClaimStore \<Rightarrow> (string \<times> nat) list" where
  "CountByProducer s =
     map (\<lambda>n. (n, length (filter (\<lambda>r. ob_producer_name r = n) (verb_outbox s))))
       (remdups (map ob_producer_name (verb_outbox s)))"

end
