(* ===== verification/Claim_Store_Props.thy ===== *)
theory Claim_Store_Props
  imports Claim_Store
begin

text \<open>
  What the claim tables guarantee. The interface \<open>claimant_write\<close> states what the claimant-guarded
  updates have in common; every such method is an interpretation of it. The relation
  \<open>claim_step\<close> collects all mutating methods, and the invariant \<open>claim_inv\<close> holds in every state
  reachable from empty tables.
\<close>

subsection \<open>The invariant\<close>

definition row_inv :: "ClaimHandleRow \<Rightarrow> bool" where
  "row_inv r \<longleftrightarrow> handle_check r \<and> (resolved_at r = None \<longleftrightarrow> ch_state r = ClaimHandleStateActive)"

text \<open>Parents are inserted before their children.\<close>

fun parents_precede :: "UUID set \<Rightarrow> ClaimHandleRow list \<Rightarrow> bool" where
  "parents_precede seen [] = True"
| "parents_precede seen (r # rs) =
     ((case parent_claim_handle_id r of None \<Rightarrow> True | Some p \<Rightarrow> p \<in> seen) \<and>
      parents_precede (insert (ch_id r) seen) rs)"

definition claim_inv :: "ClaimStore \<Rightarrow> bool" where
  "claim_inv s \<longleftrightarrow>
     keyed ch_id (claim_handles s) \<and> (\<forall>r \<in> set (claim_handles s). row_inv r) \<and>
     parents_precede {} (claim_handles s) \<and>
     keyed holder_id (claim_holders s) \<and> keyed (\<lambda>h. (claim_handle_id h, holder_run_id h)) (claim_holders s) \<and>
     (\<forall>h \<in> set (claim_holders s). claim_handle_id h \<in> ch_id ` set (claim_handles s)) \<and>
     keyed seq (verb_outbox s) \<and> (\<forall>v \<in> set (verb_outbox s). seq v \<le> last_seq s) \<and>
     keyed (\<lambda>v. (ob_claim_handle_id v, verb v)) (verb_outbox s)"

lemma parents_precede_mono: "parents_precede A rs \<Longrightarrow> A \<subseteq> B \<Longrightarrow> parents_precede B rs"
proof (induction rs arbitrary: A B)
  case (Cons r rs)
  from Cons.IH [of "insert (ch_id r) A" "insert (ch_id r) B"] Cons.prems show ?case
    by (auto split: option.splits)
qed simp

lemma parents_precede_append:
  "parents_precede A (xs @ ys) \<longleftrightarrow> parents_precede A xs \<and> parents_precede (A \<union> ch_id ` set xs) ys"
  by (induction xs arbitrary: A) (auto simp: insert_commute)

lemma parents_precede_update:
  assumes "\<And>r. ch_id (f r) = ch_id r" and "\<And>r. parent_claim_handle_id (f r) \<in> {None, parent_claim_handle_id r}"
  shows "parents_precede A rs \<Longrightarrow> parents_precede A (update_where g f rs)"
proof (induction rs arbitrary: A)
  case (Cons r rs)
  have "(case parent_claim_handle_id (f r) of None \<Rightarrow> True | Some p \<Rightarrow> p \<in> A)"
    using Cons.prems assms(2) [of r] by (auto split: option.splits)
  with Cons assms(1) show ?case by (auto simp: update_where_def)
qed (simp add: update_where_def)

text \<open>A handle's position in the table is a depth function for the parent relation.\<close>

definition position :: "ClaimHandleRow list \<Rightarrow> UUID \<Rightarrow> nat" where
  "position rs i = length (takeWhile (\<lambda>r. ch_id r \<noteq> i) rs)"

lemma position_append:
  "i \<in> ch_id ` set xs \<Longrightarrow> position (xs @ ys) i < length xs"
  unfolding position_def by (induction xs) auto

lemma position_ge: "i \<notin> ch_id ` set xs \<Longrightarrow> length xs \<le> position (xs @ ys) i"
  unfolding position_def by (induction xs) auto

lemma parent_position:
  assumes "keyed ch_id rs" and "parents_precede {} rs" and "r \<in> set rs" and "parent_claim_handle_id r = Some p"
  shows "p \<in> ch_id ` set rs" and "position rs p < position rs (ch_id r)"
proof -
  obtain xs ys where rs: "rs = xs @ r # ys" using assms(3) by (meson split_list)
  have p: "p \<in> ch_id ` set xs" using assms(2,4) by (auto simp: rs parents_precede_append)
  then show "p \<in> ch_id ` set rs" by (auto simp: rs)
  have "ch_id r \<notin> ch_id ` set xs" using assms(1) by (auto simp: rs keyed_def)
  from position_ge [OF this] position_append [OF p] show "position rs p < position rs (ch_id r)"
    unfolding rs by (meson order_less_le_trans)
qed

lemma parents_precede_delete:
  assumes "\<And>r. r \<in> set rs \<Longrightarrow> ch_id r \<in> gone \<longleftrightarrow> g r"
  defines "null \<equiv> \<lambda>r. case parent_claim_handle_id r of None \<Rightarrow> r
     | Some p \<Rightarrow> if p \<in> gone then r\<lparr>parent_claim_handle_id := None\<rparr> else r"
  shows "parents_precede A rs \<Longrightarrow> parents_precede (A - gone) (map null (delete_where g rs))"
  using assms(1)
proof (induction rs arbitrary: A)
  case (Cons r rs)
  have ih: "parents_precede (insert (ch_id r) A - gone) (map null (delete_where g rs))"
    using Cons by simp
  have null: "ch_id (null r) = ch_id r" "parent_claim_handle_id (null r) =
      (case parent_claim_handle_id r of None \<Rightarrow> None | Some p \<Rightarrow> if p \<in> gone then None else Some p)"
    by (auto simp: null_def split: option.split)
  show ?case
  proof (cases "g r")
    case True
    with Cons.prems(2) ih show ?thesis by (auto simp: delete_where_def insert_Diff_if)
  next
    case False
    with Cons.prems(2) have "ch_id r \<notin> gone" by simp
    with ih False null Cons.prems(1) show ?thesis
      by (auto simp: delete_where_def insert_Diff_if split: option.splits)
  qed
qed (simp add: delete_where_def)

subsection \<open>Claimant-guarded updates\<close>

locale claimant_write =
  fixes guard :: "string \<Rightarrow> ClaimHandleRow \<Rightarrow> bool" and upd :: "ClaimHandleRow \<Rightarrow> ClaimHandleRow"
  assumes by_claimant: "guard v r \<Longrightarrow> heldBy v r"
    and keeps_key: "ch_id (upd r) = ch_id r"
    and keeps_parent: "parent_claim_handle_id (upd r) = parent_claim_handle_id r"
    and keeps_resolution: "handle_check (upd r) \<Longrightarrow> row_inv r \<Longrightarrow> row_inv (upd r)"
begin

lemma rows_after:
  assumes "guarded_update (guard v) upd s = Inr s'"
  shows "claim_handles s' = update_where (guard v) upd (claim_handles s)"
    and "claim_holders s' = claim_holders s" and "verb_outbox s' = verb_outbox s" and "last_seq s' = last_seq s"
    and "\<And>r. r \<in> set (claim_handles s) \<Longrightarrow> guard v r \<Longrightarrow> handle_check (upd r)"
  using assms by (auto simp: guarded_update_def list_ex_iff split: if_splits)

lemma keeps_rows:
  assumes "guarded_update (guard v) upd s = Inr s'" and "\<forall>r \<in> set (claim_handles s). row_inv r"
  shows "\<forall>r \<in> set (claim_handles s'). row_inv r"
  using rows_after(5) [OF assms(1)] assms(2) keeps_resolution
  unfolding rows_after(1) [OF assms(1)] ball_update_where by simp

lemma keeps_invariant:
  assumes "guarded_update (guard v) upd s = Inr s'" and "claim_inv s"
  shows "claim_inv s'"
proof -
  note after = rows_after [OF assms(1)]
  have rows: "\<forall>r \<in> set (claim_handles s'). row_inv r"
    using keeps_rows [OF assms(1)] assms(2) by (simp add: claim_inv_def)
  have ids: "ch_id ` set (claim_handles s') = ch_id ` set (claim_handles s)"
    unfolding after(1) by (rule image_update_where) (rule keeps_key)
  have keyed: "keyed ch_id (claim_handles s') = keyed ch_id (claim_handles s)"
    unfolding after(1) by (rule update_where_keyed) (rule keeps_key)
  have "parents_precede {} (claim_handles s')"
    unfolding after(1) using assms(2) parents_precede_update [of upd, OF keeps_key]
    by (simp add: claim_inv_def keeps_parent)
  with rows ids keyed assms(2) show ?thesis unfolding claim_inv_def after(2-4) by simp
qed

lemma keeps_others:
  assumes "guarded_update (guard v) upd s = Inr s'" and "r \<in> set (claim_handles s)" and "\<not> heldBy v r"
  shows "r \<in> set (claim_handles s')"
proof -
  have "r = (if guard v r then upd r else r)" using assms(3) by_claimant [of v r] by auto
  with assms(2) show ?thesis unfolding rows_after(1) [OF assms(1)] set_update_where by (intro image_eqI)
qed

end

lemmas write_simps = row_inv_def handle_check_def heldBy_def

interpretation rws_write: claimant_write "\<lambda>v r. ch_id r = i \<and> heldBy v r" "\<lambda>r. r\<lparr>realized_write_semantics := x\<rparr>" for i x
  by unfold_locales (simp_all add: row_inv_def)

interpretation address_write: claimant_write "\<lambda>v r. ch_id r = i \<and> heldBy v r" "\<lambda>r. r\<lparr>address := x\<rparr>" for i x
  by unfold_locales (simp_all add: row_inv_def)

interpretation payload_write: claimant_write "\<lambda>v r. ch_id r = i \<and> heldBy v r" "\<lambda>r. r\<lparr>payload := x\<rparr>" for i x
  by unfold_locales (simp_all add: row_inv_def)

interpretation scope_write: claimant_write "\<lambda>v r. ch_id r = i \<and> heldBy v r" "\<lambda>r. r\<lparr>claim_scope_data := x\<rparr>" for i x
  by unfold_locales (simp_all add: row_inv_def)

interpretation policy_write: claimant_write "\<lambda>v r. ch_id r = i \<and> heldBy v r" "\<lambda>r. r\<lparr>aggregation_policy := x\<rparr>" for i x
  by unfold_locales (simp_all add: row_inv_def)

interpretation expected_write: claimant_write "\<lambda>v r. ch_id r = i \<and> heldBy v r"
    "\<lambda>r. r\<lparr>expected_children_count := expected_children_count r + x\<rparr>" for i x
  by unfold_locales (simp_all add: row_inv_def)

interpretation committed_write: claimant_write "\<lambda>v r. ch_id r = i \<and> heldBy v r"
    "\<lambda>r. r\<lparr>committed_children_count := committed_children_count r + x\<rparr>" for i x
  by unfold_locales (simp_all add: row_inv_def)

interpretation abandoned_write: claimant_write "\<lambda>v r. ch_id r = i \<and> heldBy v r"
    "\<lambda>r. r\<lparr>abandoned_children_count := abandoned_children_count r + x\<rparr>" for i x
  by unfold_locales (simp_all add: row_inv_def)

interpretation run_write: claimant_write "\<lambda>v r. ch_id r = i \<and> ch_state r = ClaimHandleStateActive \<and> heldBy v r"
    "\<lambda>r. r\<lparr>node_run_id := x\<rparr>" for i x
  by unfold_locales (simp_all add: row_inv_def)

interpretation reassign_write: claimant_write "\<lambda>v r. ch_id r = i \<and> ch_state r = ClaimHandleStateActive \<and> heldBy v r"
    "\<lambda>r. r\<lparr>holder_supervisor_id := Some x\<rparr>" for i x
  by unfold_locales (simp_all add: row_inv_def)

interpretation promote_write: claimant_write "\<lambda>v r. ch_id r = i \<and> ch_state r = ClaimHandleStateActive \<and> heldBy v r"
    "\<lambda>r. r\<lparr>ch_state := x, holder_supervisor_id := None, resolved_at := Some now\<rparr>" for i x now
  by unfold_locales (simp_all add: row_inv_def handle_check_def)

subsection \<open>All mutating methods\<close>

inductive claim_step :: "string \<Rightarrow> ClaimStore \<Rightarrow> ClaimStore \<Rightarrow> bool" for v where
  step_insert: "handleInsert now i s = Inr s' \<Longrightarrow> inHolderSupervisorID i = v \<Longrightarrow> claim_step v s s'"
| step_rws: "UpdateRealizedWriteSemantics i v ws s = Inr s' \<Longrightarrow> claim_step v s s'"
| step_address: "UpdateAddress i v a s = Inr s' \<Longrightarrow> claim_step v s s'"
| step_payload: "UpdatePayload i v p s = Inr s' \<Longrightarrow> claim_step v s s'"
| step_scope: "UpdateClaimScope i v sc s = Inr s' \<Longrightarrow> claim_step v s s'"
| step_run: "UpdateNodeRunID i run v s = Inr s' \<Longrightarrow> claim_step v s s'"
| step_reassign: "ReassignHolderSupervisor i v w s = Inr s' \<Longrightarrow> claim_step v s s'"
| step_promote: "Promote now i v st s = Inr s' \<Longrightarrow> claim_step v s s'"
| step_version: "SetVersionID i v ver s = Inr s' \<Longrightarrow> claim_step v s s'"
| step_policy: "SetAggregationPolicy i v pol s = Inr s' \<Longrightarrow> claim_step v s s'"
| step_expected: "BumpExpectedChildrenCount i v n s = Inr s' \<Longrightarrow> claim_step v s s'"
| step_outcome: "BumpChildOutcomeCount i v out n s = Inr s' \<Longrightarrow> claim_step v s s'"
| step_renew: "s' = RenewExpiryForHolderRun run t s \<Longrightarrow> claim_step v s s'"
| step_delete: "handleDelete i v s = Inr s' \<Longrightarrow> claim_step v s s'"
| step_expire: "DeleteIfExpired now busy i v s = (b, s') \<Longrightarrow> claim_step v s s'"
| step_delete_resolved: "DeleteResolved i s = Inr s' \<Longrightarrow> claim_step v s s'"
| step_delete_idle: "DeleteResolvedIfNoActiveHolders i s = (b, s') \<Longrightarrow> claim_step v s s'"
| step_reap: "DeleteResolvedOlderThan cutoff s = (n, s') \<Longrightarrow> claim_step v s s'"
| step_holder: "holderInsert h s = Inr s' \<Longrightarrow> claim_step v s s'"
| step_complete: "holderComplete now h st s = Inr s' \<Longrightarrow> claim_step v s s'"
| step_complete_run: "CompleteByClaimHandleAndRun now i run st s = Inr s' \<Longrightarrow> claim_step v s s'"
| step_fail_all: "s' = FailAllActiveByClaimHandle now i v s \<Longrightarrow> claim_step v s s'"
| step_enqueue: "s' = Enqueue ob s \<Longrightarrow> claim_step v s s'"
| step_attempt: "s' = RecordAttempt q t err s \<Longrightarrow> claim_step v s s'"
| step_deliver: "s' = outboxDelete q s \<Longrightarrow> claim_step v s s'"

definition emptyClaims :: ClaimStore where
  "emptyClaims = \<lparr>claim_handles = [], claim_holders = [], verb_outbox = [], last_seq = 0\<rparr>"

lemma insert_inv:
  assumes "handleInsert now i s = Inr s'" and "claim_inv s"
  shows "claim_inv s'"
proof -
  let ?r = "insertedRow now i"
  have s': "s' = s\<lparr>claim_handles := claim_handles s @ [?r]\<rparr>" and check: "handle_check ?r"
    and fresh: "\<forall>r \<in> set (claim_handles s). ch_id r \<noteq> inID i"
    and parent: "\<And>p. inParentClaimHandleID i = Some p \<Longrightarrow> \<exists>r \<in> set (claim_handles s). ch_id r = p"
    using assms(1) by (auto simp: handleInsert_def row_of_None_iff split: if_splits option.splits)
  have "row_inv ?r" using check by (simp add: row_inv_def insertedRow_def)
  moreover have "ch_id ?r = inID i" "parent_claim_handle_id ?r = inParentClaimHandleID i"
    by (simp_all add: insertedRow_def)
  ultimately show ?thesis
    using assms(2) fresh parent
    by (auto simp: claim_inv_def s' keyed_def parents_precede_append split: option.split)
qed

lemma claim_inv_holders:
  assumes "claim_inv s" and "claim_handles s' = claim_handles s" and "verb_outbox s' = verb_outbox s" and "last_seq s' = last_seq s"
    and "keyed holder_id (claim_holders s')" and "keyed (\<lambda>h. (claim_handle_id h, holder_run_id h)) (claim_holders s')"
    and "\<forall>h \<in> set (claim_holders s'). claim_handle_id h \<in> ch_id ` set (claim_handles s)"
  shows "claim_inv s'"
  using assms unfolding claim_inv_def by simp

lemma complete_inv: "claim_inv s \<Longrightarrow> claim_inv (completeHolders now g st s)"
  by (rule claim_inv_holders, assumption)
     (simp_all add: completeHolders_def claim_inv_def update_where_keyed ball_update_where if_distrib)

lemma holderInsert_inv:
  assumes "holderInsert i s = Inr s'" and "claim_inv s"
  shows "claim_inv s'"
proof (cases "s' = s")
  case False
  let ?h = "\<lparr>holder_id = hiID i, claim_handle_id = hiClaimHandleID i, holder_run_id = hiHolderNodeRunID i,
          holder_state = ClaimHolderStateActive, completed_at = None\<rparr>"
  have s': "s' = s\<lparr>claim_holders := claim_holders s @ [?h]\<rparr>"
    and ref: "\<exists>r \<in> set (claim_handles s). ch_id r = hiClaimHandleID i"
    and fresh: "\<forall>h \<in> set (claim_holders s). holder_id h \<noteq> hiID i"
      "\<forall>h \<in> set (claim_holders s). (claim_handle_id h, holder_run_id h) \<noteq> (hiClaimHandleID i, hiHolderNodeRunID i)"
    using assms(1) False by (auto simp: holderInsert_def row_of_None_iff list_ex_iff split: if_splits)
  from ref have "hiClaimHandleID i \<in> ch_id ` set (claim_handles s)" by (auto intro: rev_image_eqI)
  then show ?thesis
    by (intro claim_inv_holders [OF assms(2)])
       (use assms(2) fresh in \<open>auto simp: s' claim_inv_def keyed_def\<close>)
qed (use assms(2) in simp)

lemma delete_handles_rows:
  "set (claim_handles (delete_handles g s)) =
     (\<lambda>r. case parent_claim_handle_id r of None \<Rightarrow> r
        | Some p \<Rightarrow> if \<exists>q \<in> set (claim_handles s). g q \<and> ch_id q = p then r\<lparr>parent_claim_handle_id := None\<rparr> else r) `
       {r \<in> set (claim_handles s). \<not> g r}"
  by (simp add: delete_handles_def Let_def set_delete_where list_ex_iff)

lemma delete_inv:
  assumes "claim_inv s"
  shows "claim_inv (delete_handles g s)"
proof -
  let ?rows = "claim_handles s"
  let ?gone = "{i. \<exists>r \<in> set ?rows. g r \<and> ch_id r = i}"
  let ?null = "\<lambda>r. case parent_claim_handle_id r of None \<Rightarrow> r
     | Some p \<Rightarrow> if p \<in> ?gone then r\<lparr>parent_claim_handle_id := None\<rparr> else r"
  have k: "keyed ch_id ?rows" and rows: "\<forall>r \<in> set ?rows. row_inv r" and prec: "parents_precede {} ?rows"
    using assms by (auto simp: claim_inv_def)
  have g: "ch_id r \<in> ?gone \<longleftrightarrow> g r" if "r \<in> set ?rows" for r
    using that k by (auto simp: keyed_def distinct_map inj_on_def)
  have handles: "claim_handles (delete_handles g s) = map ?null (delete_where g ?rows)"
    and holders: "claim_holders (delete_handles g s) = delete_where (\<lambda>h. claim_handle_id h \<in> ?gone) (claim_holders s)"
    and rest: "verb_outbox (delete_handles g s) = verb_outbox s" "last_seq (delete_handles g s) = last_seq s"
    by (simp_all add: delete_handles_def Let_def list_ex_iff split: option.split)
  have null: "ch_id (?null r) = ch_id r" "row_inv (?null r) = row_inv r" for r
    by (auto simp: row_inv_def handle_check_def split: option.split)
  have keys: "map ch_id (map ?null (delete_where g ?rows)) = map ch_id (delete_where g ?rows)"
    using null(1) by simp
  have "parents_precede {} (map ?null (delete_where g ?rows))"
    using parents_precede_delete [OF g prec] by simp
  moreover have "keyed ch_id (map ?null (delete_where g ?rows))"
    unfolding keyed_def keys using delete_where_keyed [OF k] by (simp add: keyed_def)
  moreover have "\<forall>r \<in> set (map ?null (delete_where g ?rows)). row_inv r"
    using rows null(2) by (simp add: set_delete_where)
  moreover have "claim_handle_id h \<in> ch_id ` set (map ?null (delete_where g ?rows))"
    if "h \<in> set (delete_where (\<lambda>h. claim_handle_id h \<in> ?gone) (claim_holders s))" for h
  proof -
    have "claim_handle_id h \<in> ch_id ` set ?rows" "claim_handle_id h \<notin> ?gone"
      using that assms by (auto simp: set_delete_where claim_inv_def)
    then have "claim_handle_id h \<in> set (map ch_id (delete_where g ?rows))" by (auto simp: set_delete_where)
    then show ?thesis unfolding keys [symmetric] by (simp only: set_map)
  qed
  ultimately show ?thesis
    using assms unfolding claim_inv_def handles holders rest by (simp add: delete_where_keyed)
qed

lemma guarded_delete_inv: "guarded_delete g s = Inr s' \<Longrightarrow> claim_inv s \<Longrightarrow> claim_inv s'"
  by (auto simp: guarded_delete_def delete_inv split: if_splits)

lemma version_inv:
  assumes "SetVersionID i v ver s = Inr s'" and "claim_inv s"
  shows "claim_inv s'"
proof -
  obtain g where s': "s' = s\<lparr>claim_handles := update_where g (\<lambda>r. r\<lparr>version_id := if ver \<noteq> [] then Some ver else None\<rparr>) (claim_handles s)\<rparr>"
    using assms(1) by (auto simp: SetVersionID_def guarded_update_def split: if_splits)
  have "row_inv (r\<lparr>version_id := x\<rparr>) = row_inv r" for r x by (simp add: row_inv_def handle_check_def)
  then show ?thesis
    using assms(2) unfolding claim_inv_def s'
    by (simp add: update_where_keyed image_update_where ball_update_where parents_precede_update)
qed

lemma renew_inv: "claim_inv s \<Longrightarrow> claim_inv (RenewExpiryForHolderRun run t s)"
proof -
  assume inv: "claim_inv s"
  have "row_inv (r\<lparr>expires_at := x\<rparr>) = row_inv r" for r x by (simp add: row_inv_def handle_check_def)
  then show ?thesis
    using inv unfolding claim_inv_def RenewExpiryForHolderRun_def
    by (simp add: update_where_keyed image_update_where ball_update_where parents_precede_update)
qed

lemma claim_inv_outbox:
  assumes "claim_inv s" and "claim_handles s' = claim_handles s" and "claim_holders s' = claim_holders s"
    and "keyed seq (verb_outbox s')" and "\<forall>r \<in> set (verb_outbox s'). seq r \<le> last_seq s'"
    and "keyed (\<lambda>r. (ob_claim_handle_id r, verb r)) (verb_outbox s')"
  shows "claim_inv s'"
  using assms unfolding claim_inv_def by simp

lemma Enqueue_cases:
  obtains (ignored) "Enqueue i s = s" and "\<exists>r \<in> set (verb_outbox s). ob_claim_handle_id r = oiClaimHandleID i \<and> verb r = oiVerb i"
  | (added) "Enqueue i s = s\<lparr>verb_outbox := verb_outbox s @ [outboxRow (last_seq s + 1) i], last_seq := last_seq s + 1\<rparr>"
      and "\<forall>r \<in> set (verb_outbox s). (ob_claim_handle_id r, verb r) \<noteq> (oiClaimHandleID i, oiVerb i)"
proof (cases "list_ex (\<lambda>r. ob_claim_handle_id r = oiClaimHandleID i \<and> verb r = oiVerb i) (verb_outbox s)")
  case True
  with that(1) show ?thesis by (simp add: Enqueue_def list_ex_iff)
next
  case False
  then have none: "\<forall>r \<in> set (verb_outbox s). (ob_claim_handle_id r, verb r) \<noteq> (oiClaimHandleID i, oiVerb i)"
    by (auto simp: list_ex_iff)
  show ?thesis by (rule that(2) [OF _ none]) (simp add: Enqueue_def False)
qed

lemma outboxRow_simps [simp]:
  "seq (outboxRow n i) = n" "ob_claim_handle_id (outboxRow n i) = oiClaimHandleID i" "verb (outboxRow n i) = oiVerb i"
  "ob_producer_name (outboxRow n i) = oiProducerName i" "ob_claim_scope_data (outboxRow n i) = oiClaimScopeData i"
  by (simp_all add: outboxRow_def)

lemma Enqueue_inv: "claim_inv s \<Longrightarrow> claim_inv (Enqueue i s)"
proof (cases rule: Enqueue_cases [of i s])
  case added
  assume inv: "claim_inv s"
  then have seqs: "\<forall>r \<in> set (verb_outbox s). seq r \<le> last_seq s" by (simp add: claim_inv_def)
  show ?thesis
    by (rule claim_inv_outbox [OF inv])
       (use inv added(2) seqs in \<open>auto simp: added(1) claim_inv_def keyed_def\<close>)
qed simp

lemma RecordAttempt_inv: "claim_inv s \<Longrightarrow> claim_inv (RecordAttempt q t err s)"
  by (rule claim_inv_outbox, assumption)
     (auto simp: RecordAttempt_def claim_inv_def update_where_keyed ball_update_where)

lemma outboxDelete_inv: "claim_inv s \<Longrightarrow> claim_inv (outboxDelete q s)"
  by (rule claim_inv_outbox, assumption)
     (simp_all add: outboxDelete_def claim_inv_def delete_where_keyed set_delete_where)

text \<open>One preservation fact per method.\<close>

lemma method_invs:
  "UpdateRealizedWriteSemantics i v ws s = Inr s' \<Longrightarrow> claim_inv s \<Longrightarrow> claim_inv s'"
  "UpdateAddress i v a s = Inr s' \<Longrightarrow> claim_inv s \<Longrightarrow> claim_inv s'"
  "UpdatePayload i v a s = Inr s' \<Longrightarrow> claim_inv s \<Longrightarrow> claim_inv s'"
  "UpdateClaimScope i v a s = Inr s' \<Longrightarrow> claim_inv s \<Longrightarrow> claim_inv s'"
  "UpdateNodeRunID i run v s = Inr s' \<Longrightarrow> claim_inv s \<Longrightarrow> claim_inv s'"
  "Promote now i v st s = Inr s' \<Longrightarrow> claim_inv s \<Longrightarrow> claim_inv s'"
  "SetAggregationPolicy i v pol s = Inr s' \<Longrightarrow> claim_inv s \<Longrightarrow> claim_inv s'"
  "BumpExpectedChildrenCount i v n s = Inr s' \<Longrightarrow> claim_inv s \<Longrightarrow> claim_inv s'"
  "handleDelete i v s = Inr s' \<Longrightarrow> claim_inv s \<Longrightarrow> claim_inv s'"
  "DeleteResolved i s = Inr s' \<Longrightarrow> claim_inv s \<Longrightarrow> claim_inv s'"
  unfolding UpdateRealizedWriteSemantics_def UpdateAddress_def UpdatePayload_def UpdateClaimScope_def
    UpdateNodeRunID_def Promote_def SetAggregationPolicy_def BumpExpectedChildrenCount_def
    handleDelete_def DeleteResolved_def
  by (erule rws_write.keeps_invariant address_write.keeps_invariant payload_write.keeps_invariant
      scope_write.keeps_invariant run_write.keeps_invariant promote_write.keeps_invariant
      policy_write.keeps_invariant expected_write.keeps_invariant guarded_delete_inv, assumption)+

lemma reassign_inv: "ReassignHolderSupervisor i v w s = Inr s' \<Longrightarrow> claim_inv s \<Longrightarrow> claim_inv s'"
  unfolding ReassignHolderSupervisor_def by (cases "w = []") (simp_all add: reassign_write.keeps_invariant)

lemma outcome_inv:
  assumes "BumpChildOutcomeCount i v out n s = Inr s'" and "claim_inv s"
  shows "claim_inv s'"
proof -
  consider "out = ''commit''" | "out = ''abandon''" "out \<noteq> ''commit''"
    using assms(1) unfolding BumpChildOutcomeCount_def by (auto split: if_splits)
  then show ?thesis
  proof cases
    case 1
    from assms(1)[unfolded BumpChildOutcomeCount_def if_P [OF 1]] assms(2) show ?thesis
      by (rule committed_write.keeps_invariant)
  next
    case 2
    from assms(1)[unfolded BumpChildOutcomeCount_def if_not_P [OF 2(2)] if_P [OF 2(1)]] assms(2) show ?thesis
      by (rule abandoned_write.keeps_invariant)
  qed
qed

lemma pair_invs:
  "DeleteIfExpired now busy i v s = (b, s') \<Longrightarrow> claim_inv s \<Longrightarrow> claim_inv s'"
  "DeleteResolvedIfNoActiveHolders i s = (b, s') \<Longrightarrow> claim_inv s \<Longrightarrow> claim_inv s'"
  "DeleteResolvedOlderThan cutoff s = (n, s') \<Longrightarrow> claim_inv s \<Longrightarrow> claim_inv s'"
  "holderComplete now h st s = Inr s' \<Longrightarrow> claim_inv s \<Longrightarrow> claim_inv s'"
  "CompleteByClaimHandleAndRun now i run st s = Inr s' \<Longrightarrow> claim_inv s \<Longrightarrow> claim_inv s'"
  unfolding DeleteIfExpired_def DeleteResolvedIfNoActiveHolders_def DeleteResolvedOlderThan_def
    holderComplete_def CompleteByClaimHandleAndRun_def Let_def
  by (auto intro: delete_inv complete_inv split: if_splits)

lemma fail_all_inv: "claim_inv s \<Longrightarrow> claim_inv (FailAllActiveByClaimHandle now i v s)"
  unfolding FailAllActiveByClaimHandle_def by (rule complete_inv)

lemma claim_step_inv: "claim_step v s s' \<Longrightarrow> claim_inv s \<Longrightarrow> claim_inv s'"
  by (induction rule: claim_step.induct)
     (erule (1) method_invs insert_inv version_inv holderInsert_inv reassign_inv outcome_inv pair_invs
      | simp only: renew_inv fail_all_inv Enqueue_inv RecordAttempt_inv outboxDelete_inv)+

subsection \<open>Who may touch a claim\<close>

text \<open>\<open>r'\<close> is \<open>r\<close> up to a renewed expiry and a parent lost by deletion.\<close>

definition same_claim :: "ClaimHandleRow \<Rightarrow> ClaimHandleRow \<Rightarrow> bool" where
  "same_claim r r' \<longleftrightarrow>
     r' = r\<lparr>expires_at := expires_at r', parent_claim_handle_id := parent_claim_handle_id r'\<rparr> \<and>
     parent_claim_handle_id r' \<in> {None, parent_claim_handle_id r}"

definition kept :: "ClaimHandleRow \<Rightarrow> ClaimStore \<Rightarrow> bool" where
  "kept r s' \<longleftrightarrow> (\<exists>r' \<in> set (claim_handles s'). same_claim r r')"

lemma same_claim_refl: "same_claim r r"
  by (simp add: same_claim_def)

lemma kept_same: "r \<in> set (claim_handles s') \<Longrightarrow> kept r s'"
  unfolding kept_def using same_claim_refl by blast

lemma kept_delete:
  assumes "r \<in> set (claim_handles s)" and "\<not> g r"
  shows "kept r (delete_handles g s)"
proof -
  let ?r = "case parent_claim_handle_id r of None \<Rightarrow> r
     | Some p \<Rightarrow> if \<exists>q \<in> set (claim_handles s). g q \<and> ch_id q = p then r\<lparr>parent_claim_handle_id := None\<rparr> else r"
  have "?r \<in> set (claim_handles (delete_handles g s))" unfolding delete_handles_rows using assms by blast
  moreover have "same_claim r ?r" by (auto simp: same_claim_def split: option.split)
  ultimately show ?thesis unfolding kept_def by blast
qed

lemma kept_guarded_delete:
  "guarded_delete g s = Inr s' \<Longrightarrow> r \<in> set (claim_handles s) \<Longrightarrow> \<not> g r \<Longrightarrow> kept r s'"
  by (auto simp: guarded_delete_def kept_delete split: if_splits)

lemma update_where_keeps: "r \<in> set rows \<Longrightarrow> \<not> g r \<Longrightarrow> r \<in> set (update_where g f rows)"
  unfolding set_update_where by (rule image_eqI [of _ _ r]) simp_all

lemma update_where_mem: "r \<in> set rows \<Longrightarrow> (if g r then f r else r) \<in> set (update_where g f rows)"
  unfolding set_update_where by blast

lemma kept_renew: "r \<in> set (claim_handles s) \<Longrightarrow> kept r (RenewExpiryForHolderRun run t s)"
proof -
  assume r: "r \<in> set (claim_handles s)"
  let ?r = "if node_run_id r = Some run \<and> ch_state r = ClaimHandleStateActive then r\<lparr>expires_at := t\<rparr> else r"
  have "?r \<in> set (claim_handles (RenewExpiryForHolderRun run t s))"
    using update_where_mem [OF r, of "\<lambda>r. node_run_id r = Some run \<and> ch_state r = ClaimHandleStateActive"]
    unfolding RenewExpiryForHolderRun_def by simp
  moreover have "same_claim r ?r" by (simp add: same_claim_def)
  ultimately show ?thesis unfolding kept_def by blast
qed

lemma kept_method:
  assumes "r \<in> set (claim_handles s)" and "holder_supervisor_id r = Some w" and "w \<noteq> v"
  shows "UpdateRealizedWriteSemantics i v ws s = Inr s' \<Longrightarrow> kept r s'"
    and "UpdateAddress i v a s = Inr s' \<Longrightarrow> kept r s'" and "UpdatePayload i v a s = Inr s' \<Longrightarrow> kept r s'"
    and "UpdateClaimScope i v a s = Inr s' \<Longrightarrow> kept r s'" and "UpdateNodeRunID i run v s = Inr s' \<Longrightarrow> kept r s'"
    and "Promote now i v st s = Inr s' \<Longrightarrow> kept r s'" and "SetAggregationPolicy i v pol s = Inr s' \<Longrightarrow> kept r s'"
    and "BumpExpectedChildrenCount i v n s = Inr s' \<Longrightarrow> kept r s'"
  unfolding UpdateRealizedWriteSemantics_def UpdateAddress_def UpdatePayload_def UpdateClaimScope_def
    UpdateNodeRunID_def Promote_def SetAggregationPolicy_def BumpExpectedChildrenCount_def
  by (rule kept_same, erule rws_write.keeps_others address_write.keeps_others payload_write.keeps_others
      scope_write.keeps_others run_write.keeps_others promote_write.keeps_others
      policy_write.keeps_others expected_write.keeps_others, rule assms(1), simp add: heldBy_def assms(2,3))+

lemma guarded_update_keeps:
  "guarded_update g f s = Inr s' \<Longrightarrow> r \<in> set (claim_handles s) \<Longrightarrow> \<not> g r \<Longrightarrow> kept r s'"
  by (auto simp: guarded_update_def update_where_keeps intro!: kept_same split: if_splits)

lemma kept_other:
  assumes "r \<in> set (claim_handles s)" and "holder_supervisor_id r = Some w" and "w \<noteq> v"
    and "ch_state r = ClaimHandleStateActive"
  shows "handleInsert now inp s = Inr s' \<Longrightarrow> kept r s'"
    and "ReassignHolderSupervisor i v u s = Inr s' \<Longrightarrow> kept r s'"
    and "SetVersionID i v ver s = Inr s' \<Longrightarrow> kept r s'"
    and "BumpChildOutcomeCount i v out n s = Inr s' \<Longrightarrow> kept r s'"
    and "handleDelete i v s = Inr s' \<Longrightarrow> kept r s'" and "DeleteResolved i s = Inr s' \<Longrightarrow> kept r s'"
    and "DeleteIfExpired now busy i v s = (b, s') \<Longrightarrow> kept r s'"
    and "DeleteResolvedIfNoActiveHolders i s = (b, s') \<Longrightarrow> kept r s'"
    and "DeleteResolvedOlderThan cutoff s = (k, s') \<Longrightarrow> kept r s'"
proof -
  show "handleInsert now inp s = Inr s' \<Longrightarrow> kept r s'"
    using assms(1) by (auto simp: handleInsert_def intro!: kept_same split: if_splits option.splits)
  show "ReassignHolderSupervisor i v u s = Inr s' \<Longrightarrow> kept r s'"
    unfolding ReassignHolderSupervisor_def using assms by (auto simp: heldBy_def intro: guarded_update_keeps split: if_splits)
  show "SetVersionID i v ver s = Inr s' \<Longrightarrow> kept r s'"
    unfolding SetVersionID_def using assms by (auto simp: heldBy_def intro: guarded_update_keeps)
  show "BumpChildOutcomeCount i v out n s = Inr s' \<Longrightarrow> kept r s'"
    unfolding BumpChildOutcomeCount_def using assms by (auto simp: heldBy_def intro: guarded_update_keeps split: if_splits)
  show "handleDelete i v s = Inr s' \<Longrightarrow> kept r s'" "DeleteResolved i s = Inr s' \<Longrightarrow> kept r s'"
    unfolding handleDelete_def DeleteResolved_def using assms
    by (auto simp: heldBy_def resolvedHandle_def intro: kept_guarded_delete)
  show "DeleteIfExpired now busy i v s = (b, s') \<Longrightarrow> kept r s'"
    "DeleteResolvedIfNoActiveHolders i s = (b, s') \<Longrightarrow> kept r s'"
    "DeleteResolvedOlderThan cutoff s = (k, s') \<Longrightarrow> kept r s'"
    unfolding DeleteIfExpired_def DeleteResolvedIfNoActiveHolders_def DeleteResolvedOlderThan_def Let_def using assms
    by (auto simp: heldBy_def resolvedHandle_def intro!: kept_delete)
qed

lemma kept_handles_fixed:
  "holderInsert h s = Inr s' \<Longrightarrow> claim_handles s' = claim_handles s"
  "holderComplete now k st s = Inr s' \<Longrightarrow> claim_handles s' = claim_handles s"
  "CompleteByClaimHandleAndRun now i run st s = Inr s' \<Longrightarrow> claim_handles s' = claim_handles s"
  "claim_handles (FailAllActiveByClaimHandle now i v s) = claim_handles s"
  "claim_handles (Enqueue ob s) = claim_handles s" "claim_handles (RecordAttempt q t err s) = claim_handles s"
  "claim_handles (outboxDelete q s) = claim_handles s"
  by (auto simp: holderInsert_def holderComplete_def CompleteByClaimHandleAndRun_def FailAllActiveByClaimHandle_def
      completeHolders_def Enqueue_def RecordAttempt_def outboxDelete_def Let_def split: if_splits)

lemma claim_step_kept:
  assumes "claim_step v s s'" and "r \<in> set (claim_handles s)" and "holder_supervisor_id r = Some w" and "w \<noteq> v"
    and "ch_state r = ClaimHandleStateActive"
  shows "kept r s'"
proof -
  note m = kept_method [OF assms(2-4)] kept_other [OF assms(2-5)]
  have fixed: "kept r s'" if "claim_handles s' = claim_handles s" using kept_same assms(2) that by simp
  from assms(1) show ?thesis
  proof cases
    case step_renew
    then show ?thesis by (simp only: kept_renew [OF assms(2)])
  qed (erule m | rule fixed, (erule kept_handles_fixed | simp only: kept_handles_fixed))+
qed

text \<open>A resolved handle keeps its row, except that a version may be recorded and its parent may be
  deleted, until the row itself is deleted.\<close>

definition final :: "ClaimHandleRow \<Rightarrow> ClaimStore \<Rightarrow> bool" where
  "final r s' \<longleftrightarrow> (\<forall>r' \<in> set (claim_handles s'). ch_id r' \<noteq> ch_id r) \<or>
     (\<exists>r' \<in> set (claim_handles s'). r' = r\<lparr>version_id := version_id r', parent_claim_handle_id := parent_claim_handle_id r'\<rparr>)"

lemma final_same: "r \<in> set (claim_handles s') \<Longrightarrow> final r s'"
  unfolding final_def by (intro disjI2 bexI [of _ r]) simp_all

lemma final_write:
  "guarded_update g f s = Inr s' \<Longrightarrow> r \<in> set (claim_handles s) \<Longrightarrow> \<not> g r \<Longrightarrow> final r s'"
  by (auto simp: guarded_update_def update_where_keeps intro!: final_same split: if_splits)

lemma final_delete:
  assumes "keyed ch_id (claim_handles s)" and "r \<in> set (claim_handles s)"
  shows "final r (delete_handles g s)"
proof (cases "g r")
  case True
  have "ch_id r' \<noteq> ch_id r" if "r' \<in> set (claim_handles (delete_handles g s))" for r'
  proof -
    obtain q where q: "q \<in> set (claim_handles s)" "\<not> g q" "ch_id r' = ch_id q"
      using \<open>r' \<in> _\<close> unfolding delete_handles_rows by (auto split: option.splits)
    with True assms show ?thesis by (auto simp: keyed_def distinct_map dest: inj_onD)
  qed
  then show ?thesis by (simp add: final_def)
next
  case False
  let ?r = "case parent_claim_handle_id r of None \<Rightarrow> r
     | Some p \<Rightarrow> if \<exists>q \<in> set (claim_handles s). g q \<and> ch_id q = p then r\<lparr>parent_claim_handle_id := None\<rparr> else r"
  have "?r \<in> set (claim_handles (delete_handles g s))" unfolding delete_handles_rows using assms(2) False by blast
  moreover have "?r = r\<lparr>version_id := version_id ?r, parent_claim_handle_id := parent_claim_handle_id ?r\<rparr>"
    by (simp split: option.split)
  ultimately show ?thesis unfolding final_def by blast
qed

lemma final_version:
  assumes "SetVersionID i v ver s = Inr s'" and "r \<in> set (claim_handles s)"
  shows "final r s'"
proof -
  let ?f = "\<lambda>r. r\<lparr>version_id := if ver \<noteq> [] then Some ver else None\<rparr>"
  obtain g where "claim_handles s' = update_where g ?f (claim_handles s)"
    using assms(1) by (auto simp: SetVersionID_def guarded_update_def split: if_splits)
  then have "(if g r then ?f r else r) \<in> set (claim_handles s')" using update_where_mem [OF assms(2), of g ?f] by simp
  then show ?thesis unfolding final_def by (intro disjI2) (rule bexI, auto)
qed

lemma claim_step_final:
  assumes "claim_step v s s'" and "claim_inv s" and "r \<in> set (claim_handles s)" and "ch_state r \<noteq> ClaimHandleStateActive"
  shows "final r s'"
proof -
  have none: "holder_supervisor_id r = None" and k: "keyed ch_id (claim_handles s)"
    using assms(2-4) by (auto simp: claim_inv_def row_inv_def handle_check_def)
  then have no: "\<not> heldBy u r" for u by (simp add: heldBy_def)
  have renew: "r \<in> set (claim_handles (RenewExpiryForHolderRun run t s))" for run t
    unfolding RenewExpiryForHolderRun_def using assms(3,4) by (simp add: update_where_keeps)
  from assms(1) show ?thesis
  proof cases
    case step_insert
    with assms(3) show ?thesis
      by (auto simp: handleInsert_def intro!: final_same split: if_splits option.splits)
  next
    case step_version
    with assms(3) show ?thesis by (blast intro: final_version)
  qed (use assms(3,4) no k renew in \<open>auto simp: UpdateRealizedWriteSemantics_def UpdateAddress_def UpdatePayload_def
      UpdateClaimScope_def UpdateNodeRunID_def ReassignHolderSupervisor_def Promote_def SetAggregationPolicy_def
      BumpExpectedChildrenCount_def BumpChildOutcomeCount_def handleDelete_def DeleteIfExpired_def DeleteResolved_def
      DeleteResolvedIfNoActiveHolders_def DeleteResolvedOlderThan_def guarded_delete_def Let_def kept_handles_fixed
      intro: final_write final_delete final_same split: if_splits\<close>)
qed

subsection \<open>Properties of the tables\<close>


definition exampleHandle :: "UUID \<Rightarrow> UUID option \<Rightarrow> ClaimHandleInsertInput" where
  "exampleHandle i p =
     \<lparr>inID = i, inNodeRunID = None, inLockKind = LockKindScope, inLockName = None, inProducerName = Some ''fs'',
      inClaimScopeData = Some ''{}'', inAddress = None, inPayload = None, inIntent = Some ''rw'',
      inHolderSupervisorID = ''sup1'', inHolderNodeID = 7, inExpiresAt = 100, inClaimedAtOverride = 0,
      inFrameID = None, inRealizedWriteSemantics = [], inIsHeld = True, inParentClaimHandleID = p,
      inLifetime = None, inProducerCandidateHandle = [], inProducerLeaseToken = [], inAggregationPolicy = PolicyNull\<rparr>"

definition exampleClaims :: ClaimStore where
  "exampleClaims = emptyClaims\<lparr>claim_handles := [insertedRow 1 (exampleHandle 1 None), insertedRow 2 (exampleHandle 2 (Some 1))]\<rparr>"

lemma exampleClaims_reachable: "(\<lambda>s s'. \<exists>v. claim_step v s s')\<^sup>*\<^sup>* emptyClaims exampleClaims"
proof -
  let ?s = "emptyClaims\<lparr>claim_handles := [insertedRow 1 (exampleHandle 1 None)]\<rparr>"
  have "handleInsert 1 (exampleHandle 1 None) emptyClaims = Inr ?s"
    "handleInsert 2 (exampleHandle 2 (Some 1)) ?s = Inr exampleClaims"
    by (simp_all add: handleInsert_def insertedRow_def exampleHandle_def emptyClaims_def exampleClaims_def
        handle_check_def row_of_def)
  then have "claim_step ''sup1'' emptyClaims ?s" "claim_step ''sup1'' ?s exampleClaims"
    by (auto intro!: step_insert simp: exampleHandle_def)
  then show ?thesis by (blast intro: rtranclp.intros)
qed





definition resolvedExample :: ClaimStore where
  "resolvedExample = emptyClaims\<lparr>claim_handles := [(insertedRow 1 (exampleHandle 1 None))
     \<lparr>ch_state := ClaimHandleStateCommitted, holder_supervisor_id := None, resolved_at := Some 5\<rparr>]\<rparr>"


end
