(* ===== verification/Json_Values.thy ===== *)
theory Json_Values
  imports Prelude
begin

text \<open>
  JSON documents as Go's \<open>any\<close> holds them after decoding, with numbers kept in their text form
  (\<open>json.Number\<close>), and the recursive merge of \<open>lib/foundation/shared/jsonmerge.go\<close>. A Go
  \<open>map[string]any\<close> is an association list with distinct keys; \<open>nil\<close> is \<open>VNull\<close>.
\<close>

datatype jvalue =
  VNull
| VBool bool
| VNum string
| VStr string
| VArr "jvalue list"
| VObj "(string \<times> jvalue) list"

type_synonym jmap = "(string \<times> jvalue) list"

text \<open>The type assertion \<open>v.(map[string]any)\<close>.\<close>

fun asMap :: "jvalue \<Rightarrow> jmap option" where
  "asMap (VObj m) = Some m"
| "asMap _ = None"

text \<open>A lookup followed by the assertion, \<open>m[k].(map[string]any)\<close>.\<close>

definition mapAt :: "jmap \<Rightarrow> string \<Rightarrow> jmap option" where
  "mapAt m k = Option.bind (map_of m k) asMap"

text \<open>\<open>cloneJSON\<close> copies a document; values have no identity here, so a copy is the value.\<close>

fun DeepMergeJSON :: "jvalue \<Rightarrow> jvalue \<Rightarrow> jvalue" where
  "DeepMergeJSON (VObj bm) (VObj om) =
     VObj (map (\<lambda>(k, b). (k, case map_of om k of None \<Rightarrow> b | Some v \<Rightarrow> DeepMergeJSON b v)) bm @
           filter (\<lambda>(k, v). k \<notin> fst ` set bm) om)"
| "DeepMergeJSON base VNull = base"
| "DeepMergeJSON base over = over"

lemma map_of_merge:
  "map_of (map (\<lambda>(k, b). (k, case map_of om k of None \<Rightarrow> b | Some v \<Rightarrow> f b v)) bm @ filter (\<lambda>(k, v). k \<notin> fst ` set bm) om) x =
   (case map_of bm x of None \<Rightarrow> map_of om x | Some b \<Rightarrow> Some (case map_of om x of None \<Rightarrow> b | Some v \<Rightarrow> f b v))"
proof -
  have l: "map_of (map (\<lambda>(k, b). (k, case map_of om k of None \<Rightarrow> b | Some v \<Rightarrow> f b v)) ks) x =
     map_option (\<lambda>b. case map_of om x of None \<Rightarrow> b | Some v \<Rightarrow> f b v) (map_of ks x)" for ks
    by (induction ks) (auto split: option.split)
  have r: "x \<notin> S \<Longrightarrow> map_of (filter (\<lambda>(k, v). k \<notin> S) om) x = map_of om x" for S
    by (induction om) auto
  show ?thesis
  proof (cases "map_of bm x")
    case None
    then have "x \<notin> fst ` set bm" by (simp add: map_of_eq_None_iff)
    with None r [of "fst ` set bm"] show ?thesis by (simp add: map_add_def l)
  next
    case (Some b)
    then show ?thesis by (simp add: map_add_def l split: option.split)
  qed
qed

end
