(* ===== verification/Template_Model.thy ===== *)
theory Template_Model
  imports Run_Tree Json_Values
begin

text \<open>
  The template specification (\<open>lib/foundation/spec/template.go\<close>,
  \<open>graphs.go\<close>, \<open>subscription.go\<close>), the kind-sugar resolver (\<open>lib/graph/node/kind_resolver.go\<close>) and
  the holding subgraphs of a template (\<open>lib/graph/node/holding_subgraph.go\<close>). Go maps are
  association lists with distinct keys.
\<close>

subsection \<open>Specification types\<close>

record SubscriptionEntry =
  subNode :: string
  subType :: string
  subWhen :: string
  ForceUpstreamRefresh :: "bool option"
  ResolvesViaCallingNode :: bool

record NodeClaimProducerRef =
  refName :: string
  refSelector :: string
  refIntent :: string
  refAlias :: string
  refLifetime :: string
  refData :: string

record HoldsBinding =
  From :: string
  As :: string

record FanOutSpec =
  foClaim :: string
  PartitionRequest :: string
  Parallelism :: int
  foErrorPolicy :: AggregationPolicy

record NodeLockRef =
  lockRefName :: string

record ErrorTypePolicy =
  policyAction :: string
  policyReason :: string

record RetryBackoffConfig =
  backoffKind :: string
  backoffJitter :: string
  BaseDelayMs :: int
  MaxDelayMs :: int

record NodeAttributesDef =
  Schema :: jmap

record TemplateNodeDef =
  Type :: string
  nodeKind :: string
  nodeDescription :: string
  Executor :: string
  Tags :: "string list"
  ClaimProducers :: "NodeClaimProducerRef list"
  Locks :: "NodeLockRef list"
  Attributes :: "NodeAttributesDef option"
  ErrorTypes :: "(string \<times> ErrorTypePolicy) list"
  Subscribes :: "SubscriptionEntry list"
  MaxRetries :: "int option"
  RetryBackoff :: "RetryBackoffConfig option"
  SyncRPCDeadline :: string
  MaxQuietPeriod :: string
  MaxRuntime :: string
  Delegate :: string
  SendsMessage :: string
  Holds :: "(string \<times> HoldsBinding) list"
  FanOut :: "FanOutSpec option"
  IsSubgraphEntryAbsorbed :: bool
  IsSubgraphExit :: bool
  nodeCascadeMode :: string

record GraphSpec =
  GraphSpecName :: string
  Entry :: string
  Exit :: string
  GraphNodes :: "TemplateNodeDef list"

record PublisherSpec =
  pubName :: string
  pubKind :: string
  pubConfig :: string
  pubMessageType :: string

record MessageSchema =
  msgType :: string
  BodySchema :: string

record TemplateAttributeDefaults =
  ByExecutor :: "(string \<times> jmap) list"

record TemplateDefaults =
  defaultAttributes :: "TemplateAttributeDefaults option"

record TemplateSpec =
  Name :: string
  Version :: string
  Description :: string
  Nodes :: "TemplateNodeDef list"
  Graphs :: "GraphSpec list"
  Publishers :: "PublisherSpec list"
  ParamsSchema :: "jmap option"
  ParamsRedact :: "string list"
  LateBindServices :: "string list"
  Defaults :: "TemplateDefaults option"
  Messages :: "MessageSchema list"
  MessageQueueMode :: string

definition SendMessageKindName :: string where "SendMessageKindName = ''send_message''"
definition MainGraphName :: string where "MainGraphName = ''main''"

definition AliasOf :: "NodeClaimProducerRef \<Rightarrow> string" where
  "AliasOf s = (if refAlias s \<noteq> [] then refAlias s else refName s)"

definition LookupNodeDef :: "TemplateSpec \<Rightarrow> string \<Rightarrow> TemplateNodeDef option" where
  "LookupNodeDef tmpl nodeType = List.find (\<lambda>n. Type n = nodeType) (Nodes tmpl)"

subsection \<open>Kind sugar\<close>

type_synonym KindAliasMap = "(string \<times> string) list"

datatype sugar_error = DuplicateKind string string | SendMessageUnregistered nat string

definition Register :: "string \<Rightarrow> string \<Rightarrow> KindAliasMap \<Rightarrow> sugar_error + KindAliasMap" where
  "Register kind executorAlias m =
     (case map_of m kind of
        Some existing \<Rightarrow> Inl (DuplicateKind kind existing)
      | None \<Rightarrow> Inr (m @ [(kind, executorAlias)]))"

definition Resolve :: "KindAliasMap \<Rightarrow> string \<Rightarrow> string option" where
  "Resolve m kind = map_of m kind"

definition canonicalizeKind :: "KindAliasMap \<Rightarrow> TemplateNodeDef \<Rightarrow> TemplateNodeDef" where
  "canonicalizeKind aliases n =
     (if nodeKind n = [] then n
      else case Resolve aliases (nodeKind n) of
        None \<Rightarrow> n
      | Some alias \<Rightarrow> n\<lparr>Executor := alias, nodeKind := []\<rparr>)"

definition CanonicalizeKindSugar :: "KindAliasMap \<Rightarrow> TemplateSpec \<Rightarrow> TemplateSpec" where
  "CanonicalizeKindSugar aliases t = t\<lparr>Nodes := map (canonicalizeKind aliases) (Nodes t)\<rparr>"

fun canonicalizeSenders ::
  "string option \<Rightarrow> nat \<Rightarrow> TemplateNodeDef list \<Rightarrow> sugar_error + TemplateNodeDef list" where
  "canonicalizeSenders alias i [] = Inr []"
| "canonicalizeSenders alias i (n # ns) =
     res_bind
       (if SendsMessage n = [] then Inr n
        else if Executor n \<noteq> [] then Inr n
        else case alias of
          None \<Rightarrow> Inl (SendMessageUnregistered i (Type n))
        | Some a \<Rightarrow> Inr (n\<lparr>Executor := a\<rparr>))
       (\<lambda>n'. res_bind (canonicalizeSenders alias (i + 1) ns) (\<lambda>ns'. Inr (n' # ns')))"

definition CanonicalizeSendMessageSugar :: "KindAliasMap \<Rightarrow> TemplateSpec \<Rightarrow> sugar_error + TemplateSpec" where
  "CanonicalizeSendMessageSugar aliases t =
     res_bind (canonicalizeSenders (Resolve aliases SendMessageKindName) 0 (Nodes t))
       (\<lambda>ns. Inr (t\<lparr>Nodes := ns\<rparr>))"

definition CanonicalizeAggregationPolicyDefault :: "TemplateSpec \<Rightarrow> TemplateSpec" where
  "CanonicalizeAggregationPolicyDefault t =
     t\<lparr>Nodes := map (\<lambda>n. case FanOut n of
         None \<Rightarrow> n
       | Some fo \<Rightarrow>
           if Kind (foErrorPolicy fo) = AggregationKindUnset
           then n\<lparr>FanOut := Some (fo\<lparr>foErrorPolicy := (foErrorPolicy fo)\<lparr>Kind := AggregationKindStrict\<rparr>\<rparr>)\<rparr>
           else n) (Nodes t)\<rparr>"

subsection \<open>Holding subgraphs\<close>

record HoldingSubgraph =
  AcquirerType :: string
  Alias :: string
  Members :: "string list"

definition IsHeld :: "HoldingSubgraph \<Rightarrow> bool" where
  "IsHeld h \<longleftrightarrow> length (Members h) > 1"

text \<open>The nested Go map from keys to member sets; \<open>addMember\<close> is the guarded creation of the inner
  map followed by the insertion.\<close>

fun addMember :: "(string \<times> string list) list \<Rightarrow> string \<times> string \<Rightarrow> (string \<times> string list) list" where
  "addMember [] (key, m) = [(key, [m])]"
| "addMember ((k, ms) # rest) (key, m) =
     (if k = key then (k, if m \<in> set ms then ms else ms @ [m]) # rest
      else (k, ms) # addMember rest (key, m))"

definition subgraphKey :: "string \<Rightarrow> string \<Rightarrow> string" where
  "subgraphKey acquirer alias = acquirer @ ''|'' @ alias"

text \<open>The insertions one template node performs, in order.\<close>

definition nodeInsertions :: "TemplateNodeDef \<Rightarrow> (string \<times> string) list" where
  "nodeInsertions n =
     map (\<lambda>s. (subgraphKey (Type n) (AliasOf s), Type n)) (ClaimProducers n) @
     concat (map (\<lambda>(alias, hb).
       if From hb = [] \<or> alias = [] then []
       else if From hb = Type n then []
       else [(subgraphKey (From hb) alias, From hb), (subgraphKey (From hb) alias, Type n)]) (Holds n))"

fun splitSubgraphKey :: "string \<Rightarrow> string \<times> string" where
  "splitSubgraphKey [] = ([], [])"
| "splitSubgraphKey (c # cs) =
     (if c = CHR ''|'' then ([], cs) else (let (a, b) = splitSubgraphKey cs in (c # a, b)))"

definition HoldingSubgraphsForTemplate :: "TemplateSpec \<Rightarrow> HoldingSubgraph list" where
  "HoldingSubgraphsForTemplate t =
     (let subgraphs = foldl addMember [] (concat (map nodeInsertions (Nodes t)));
          out = map (\<lambda>(key, members). let (acquirer, alias) = splitSubgraphKey key
                   in \<lparr>AcquirerType = acquirer, Alias = alias, Members = sort members\<rparr>) subgraphs
      in sort_key AcquirerType (sort_key Alias out))"

definition findHoldingSubgraph :: "HoldingSubgraph list \<Rightarrow> string \<Rightarrow> string \<Rightarrow> HoldingSubgraph option" where
  "findHoldingSubgraph subgraphs acquirerType alias =
     List.find (\<lambda>sg. AcquirerType sg = acquirerType \<and> Alias sg = alias) subgraphs"

definition isAliasHeld :: "HoldingSubgraph list \<Rightarrow> string \<Rightarrow> string \<Rightarrow> bool" where
  "isAliasHeld subgraphs acquirerType alias =
     (case findHoldingSubgraph subgraphs acquirerType alias of None \<Rightarrow> False | Some sg \<Rightarrow> IsHeld sg)"

definition subgraphMembersIncludingType :: "TemplateSpec \<Rightarrow> string \<Rightarrow> string list" where
  "subgraphMembersIncludingType t nodeType =
     (if nodeType = [] then []
      else concat (map (\<lambda>sg. if nodeType \<in> set (Members sg) then Members sg else []) (HoldingSubgraphsForTemplate t)))"

definition subgraphMemberFilter :: "TemplateSpec \<Rightarrow> string \<Rightarrow> string \<Rightarrow> bool" where
  "subgraphMemberFilter t senderNodeType receiverType \<longleftrightarrow>
     receiverType \<in> set (subgraphMembersIncludingType t senderNodeType)"

definition subgraphNonMemberFilter :: "TemplateSpec \<Rightarrow> string \<Rightarrow> string \<Rightarrow> bool" where
  "subgraphNonMemberFilter t senderNodeType receiverType \<longleftrightarrow>
     \<not> receiverType \<in> set (subgraphMembersIncludingType t senderNodeType)"

subsection \<open>Members of a holding subgraph\<close>

lemma addMember_keys:
  "map fst (addMember sub (key, m)) = (if key \<in> fst ` set sub then map fst sub else map fst sub @ [key])"
  by (induction sub) (auto simp: fst_eq_Domain)

lemma addMember_lookup:
  "distinct (map fst sub) \<Longrightarrow> map_of (addMember sub (key, m)) k =
     (if k = key then Some (case map_of sub key of None \<Rightarrow> [m] | Some ms \<Rightarrow> if m \<in> set ms then ms else ms @ [m])
      else map_of sub k)"
  by (induction sub) auto

definition grouped :: "(string \<times> string) list \<Rightarrow> (string \<times> string list) list \<Rightarrow> bool" where
  "grouped ps sub \<longleftrightarrow> distinct (map fst sub) \<and> fst ` set sub = fst ` set ps \<and>
     (\<forall>k ms. map_of sub k = Some ms \<longrightarrow> distinct ms \<and> set ms = {m. (k, m) \<in> set ps})"

lemma grouped_step: "grouped ps sub \<Longrightarrow> grouped (ps @ [p]) (addMember sub p)"
proof -
  assume g: "grouped ps sub"
  obtain key m where p: "p = (key, m)" by (cases p)
  have d: "distinct (map fst sub)" and f: "fst ` set sub = fst ` set ps" using g by (auto simp: grouped_def)
  have "distinct (map fst (addMember sub p))" using d f by (auto simp: p addMember_keys)
  moreover have "set (map fst (addMember sub p)) = insert key (fst ` set sub)" by (auto simp: p addMember_keys)
  then have "fst ` set (addMember sub p) = fst ` set (ps @ [p])" using f by (simp add: p)
  moreover have "map_of sub key = None \<Longrightarrow> {x. (key, x) \<in> set ps} = {}"
    using f by (force simp: map_of_eq_None_iff)
  ultimately show ?thesis using g d
    by (auto simp: grouped_def p addMember_lookup split: option.splits if_splits)
qed

lemma grouped_fold: "grouped ps (foldl addMember [] ps)"
proof (induction ps rule: rev_induct)
  case Nil
  show ?case by (simp add: grouped_def)
next
  case (snoc p ps)
  then show ?case by (simp add: grouped_step)
qed

lemma splitSubgraphKey_key: "CHR ''|'' \<notin> set acquirer \<Longrightarrow> splitSubgraphKey (subgraphKey acquirer alias) = (acquirer, alias)"
  unfolding subgraphKey_def by (induction acquirer) auto

text \<open>The node types that hold the claim \<open>alias\<close> of \<open>acquirer\<close>: the acquirer itself if it declares the
  claim, and every node that binds it, together with its acquirer.\<close>

definition claimHolders :: "TemplateSpec \<Rightarrow> string \<Rightarrow> string \<Rightarrow> string set" where
  "claimHolders t acquirer alias =
     {m. \<exists>n \<in> set (Nodes t).
        m = Type n \<and> acquirer = Type n \<and> (\<exists>s \<in> set (ClaimProducers n). AliasOf s = alias) \<or>
        (\<exists>hb. (alias, hb) \<in> set (Holds n) \<and> From hb = acquirer \<and> acquirer \<noteq> [] \<and> alias \<noteq> [] \<and>
           acquirer \<noteq> Type n \<and> m \<in> {acquirer, Type n})}"

definition cleanTypes :: "TemplateSpec \<Rightarrow> bool" where
  "cleanTypes t \<longleftrightarrow> (\<forall>n \<in> set (Nodes t). CHR ''|'' \<notin> set (Type n) \<and> (\<forall>(alias, hb) \<in> set (Holds n). CHR ''|'' \<notin> set (From hb)))"

definition insertions :: "TemplateSpec \<Rightarrow> (string \<times> string) list" where
  "insertions t = concat (map nodeInsertions (Nodes t))"

lemma holdsInsertions_iff:
  "(k, m) \<in> set (case e of (al, hb) \<Rightarrow> if From hb = [] \<or> al = [] then [] else if From hb = typ then []
       else [(subgraphKey (From hb) al, From hb), (subgraphKey (From hb) al, typ)]) \<longleftrightarrow>
     (From (snd e) \<noteq> [] \<and> fst e \<noteq> [] \<and> From (snd e) \<noteq> typ \<and> k = subgraphKey (From (snd e)) (fst e) \<and> m \<in> {From (snd e), typ})"
  by (cases e) auto

lemma nodeInsertions_iff:
  "(k, m) \<in> set (nodeInsertions n) \<longleftrightarrow>
     (\<exists>s \<in> set (ClaimProducers n). k = subgraphKey (Type n) (AliasOf s) \<and> m = Type n) \<or>
     (\<exists>al hb. (al, hb) \<in> set (Holds n) \<and> From hb \<noteq> [] \<and> al \<noteq> [] \<and> From hb \<noteq> Type n \<and>
        k = subgraphKey (From hb) al \<and> m \<in> {From hb, Type n})"
  unfolding nodeInsertions_def set_append set_concat set_map Un_iff UN_iff bex_simps image_iff holdsInsertions_iff
  unfolding Bex_def split_paired_Ex by (simp, blast)

lemma insertion_cases:
  assumes "(k, m) \<in> set (insertions t)" and "cleanTypes t"
  obtains a al where "k = subgraphKey a al" and "CHR ''|'' \<notin> set a" and "m \<in> claimHolders t a al"
proof -
  obtain n where n: "n \<in> set (Nodes t)" "(k, m) \<in> set (nodeInsertions n)"
    using assms(1) by (auto simp: insertions_def)
  from n(2) consider s where "s \<in> set (ClaimProducers n)" "k = subgraphKey (Type n) (AliasOf s)" "m = Type n"
    | al hb where "(al, hb) \<in> set (Holds n)" "From hb \<noteq> []" "al \<noteq> []" "From hb \<noteq> Type n"
        "k = subgraphKey (From hb) al" "m \<in> {From hb, Type n}"
    unfolding nodeInsertions_iff by blast
  then show thesis
  proof cases
    case (1 s)
    with n(1) assms(2) show ?thesis
      by (intro that [of "Type n" "AliasOf s"]) (auto simp: claimHolders_def cleanTypes_def)
  next
    case (2 al hb)
    with n(1) have "m \<in> claimHolders t (From hb) al" unfolding claimHolders_def by blast
    moreover have "CHR ''|'' \<notin> set (From hb)" using 2(1) n(1) assms(2) by (auto simp: cleanTypes_def)
    ultimately show ?thesis using 2(5) that by blast
  qed
qed

lemma subgraphKey_inject:
  "CHR ''|'' \<notin> set a \<Longrightarrow> CHR ''|'' \<notin> set a' \<Longrightarrow> subgraphKey a al = subgraphKey a' al' \<longleftrightarrow> a = a' \<and> al = al'"
  using splitSubgraphKey_key by (metis prod.inject)

lemma holders_inserted:
  assumes "m \<in> claimHolders t a al"
  shows "(subgraphKey a al, m) \<in> set (insertions t)"
proof -
  obtain n where n: "n \<in> set (Nodes t)" and "m = Type n \<and> a = Type n \<and> (\<exists>s \<in> set (ClaimProducers n). AliasOf s = al) \<or>
        (\<exists>hb. (al, hb) \<in> set (Holds n) \<and> From hb = a \<and> a \<noteq> [] \<and> al \<noteq> [] \<and> a \<noteq> Type n \<and> m \<in> {a, Type n})"
    using assms unfolding claimHolders_def by blast
  then have "(subgraphKey a al, m) \<in> set (nodeInsertions n)" unfolding nodeInsertions_iff by blast
  with n show ?thesis by (auto simp: insertions_def)
qed

lemma insertions_at_key:
  assumes "cleanTypes t" and "CHR ''|'' \<notin> set a"
  shows "{m. (subgraphKey a al, m) \<in> set (insertions t)} = claimHolders t a al"
proof (intro set_eqI iffI)
  fix m assume "m \<in> {m. (subgraphKey a al, m) \<in> set (insertions t)}"
  then have "(subgraphKey a al, m) \<in> set (insertions t)" by simp
  then obtain a' al' where "subgraphKey a al = subgraphKey a' al'" "CHR ''|'' \<notin> set a'" "m \<in> claimHolders t a' al'"
    by (rule insertion_cases [OF _ assms(1)])
  with assms(2) show "m \<in> claimHolders t a al" by (simp add: subgraphKey_inject)
qed (simp add: holders_inserted)

lemma holder_acquirer_clean: "cleanTypes t \<Longrightarrow> m \<in> claimHolders t a al \<Longrightarrow> CHR ''|'' \<notin> set a"
  unfolding claimHolders_def cleanTypes_def by auto

definition toSubgraph :: "string \<times> string list \<Rightarrow> HoldingSubgraph" where
  "toSubgraph e = (case splitSubgraphKey (fst e) of (acquirer, alias) \<Rightarrow>
     \<lparr>AcquirerType = acquirer, Alias = alias, Members = sort (snd e)\<rparr>)"

lemma set_HoldingSubgraphs:
  "set (HoldingSubgraphsForTemplate t) = toSubgraph ` set (foldl addMember [] (insertions t))"
  unfolding HoldingSubgraphsForTemplate_def Let_def insertions_def toSubgraph_def
  by (simp add: case_prod_beta image_def)

lemma group_entry:
  assumes "cleanTypes t" and "e \<in> set (foldl addMember [] (insertions t))"
  obtains a al where "fst e = subgraphKey a al" and "CHR ''|'' \<notin> set a" and "distinct (snd e)"
    and "set (snd e) = claimHolders t a al" and "claimHolders t a al \<noteq> {}"
proof -
  have g: "grouped (insertions t) (foldl addMember [] (insertions t))" by (rule grouped_fold)
  then have lk: "map_of (foldl addMember [] (insertions t)) (fst e) = Some (snd e)"
    using assms(2) by (simp add: grouped_def)
  have "fst e \<in> fst ` set (insertions t)" using g assms(2) by (auto simp: grouped_def)
  then obtain m where m: "(fst e, m) \<in> set (insertions t)" by auto
  obtain a al where k: "fst e = subgraphKey a al" "CHR ''|'' \<notin> set a" "m \<in> claimHolders t a al"
    by (rule insertion_cases [OF m assms(1)])
  have "distinct (snd e) \<and> set (snd e) = claimHolders t a al"
    using g lk insertions_at_key [OF assms(1) k(2)] k(1) unfolding grouped_def by metis
  with k that show thesis by blast
qed

text \<open>The holding subgraphs of a template whose type names contain no \<open>|\<close> are exactly its claims: one
  subgraph per acquirer and alias that somebody declares or binds, whose members are, sorted and
  without repetition, the node types that hold that claim.\<close>

theorem holding_subgraphs_are_the_claims:
  assumes "cleanTypes t"
  shows "(\<forall>sg \<in> set (HoldingSubgraphsForTemplate t). sorted (Members sg) \<and> distinct (Members sg) \<and> Members sg \<noteq> [] \<and>
       set (Members sg) = claimHolders t (AcquirerType sg) (Alias sg)) \<and>
     (\<forall>a al. claimHolders t a al \<noteq> {} \<longrightarrow>
       (\<exists>!sg. sg \<in> set (HoldingSubgraphsForTemplate t) \<and> AcquirerType sg = a \<and> Alias sg = al))"
proof (intro conjI ballI allI impI)
  fix sg assume "sg \<in> set (HoldingSubgraphsForTemplate t)"
  then obtain e where e: "e \<in> set (foldl addMember [] (insertions t))" "sg = toSubgraph e"
    by (auto simp: set_HoldingSubgraphs)
  obtain a al where k: "fst e = subgraphKey a al" "CHR ''|'' \<notin> set a" "distinct (snd e)"
    "set (snd e) = claimHolders t a al" "claimHolders t a al \<noteq> {}"
    by (rule group_entry [OF assms e(1)])
  have sg: "AcquirerType sg = a" "Alias sg = al" "Members sg = sort (snd e)"
    by (simp_all add: e(2) toSubgraph_def k(1) splitSubgraphKey_key [OF k(2)])
  have ne: "snd e \<noteq> []" using k(4,5) by force
  show "Members sg \<noteq> []" using ne sg(3) set_sort [of "\<lambda>x. x" "snd e"] by (metis set_empty)
  show "sorted (Members sg)" "distinct (Members sg)" "set (Members sg) = claimHolders t (AcquirerType sg) (Alias sg)"
    by (simp_all add: sg k(3,4))
next
  fix a al assume h: "claimHolders t a al \<noteq> {}"
  then have a: "CHR ''|'' \<notin> set a" using holder_acquirer_clean [OF assms] by blast
  let ?sub = "foldl addMember [] (insertions t)"
  have g: "grouped (insertions t) ?sub" by (rule grouped_fold)
  from h obtain m where "(subgraphKey a al, m) \<in> set (insertions t)" using holders_inserted by blast
  from imageI [OF this, of fst] have "subgraphKey a al \<in> fst ` set (insertions t)" by simp
  moreover have d: "distinct (map fst ?sub)" and "fst ` set ?sub = fst ` set (insertions t)"
    using g unfolding grouped_def by blast+
  ultimately obtain ms where ms: "(subgraphKey a al, ms) \<in> set ?sub" by (metis imageE prod.collapse)
  show "\<exists>!sg. sg \<in> set (HoldingSubgraphsForTemplate t) \<and> AcquirerType sg = a \<and> Alias sg = al"
  proof (rule ex1I [of _ "toSubgraph (subgraphKey a al, ms)"])
    show "toSubgraph (subgraphKey a al, ms) \<in> set (HoldingSubgraphsForTemplate t) \<and>
       AcquirerType (toSubgraph (subgraphKey a al, ms)) = a \<and> Alias (toSubgraph (subgraphKey a al, ms)) = al"
      using imageI [OF ms, of toSubgraph] unfolding set_HoldingSubgraphs
      by (simp add: toSubgraph_def splitSubgraphKey_key [OF a])
  next
    fix sg assume sg: "sg \<in> set (HoldingSubgraphsForTemplate t) \<and> AcquirerType sg = a \<and> Alias sg = al"
    then obtain e where e: "e \<in> set ?sub" "sg = toSubgraph e" by (auto simp: set_HoldingSubgraphs)
    obtain a' al' where k: "fst e = subgraphKey a' al'" "CHR ''|'' \<notin> set a'" by (rule group_entry [OF assms e(1)])
    with sg e(2) have "fst e = subgraphKey a al" by (simp add: toSubgraph_def splitSubgraphKey_key)
    with e(1) have "(subgraphKey a al, snd e) \<in> set ?sub" by (metis prod.collapse)
    with d ms have "snd e = ms" by (meson eq_key_imp_eq_value)
    with \<open>fst e = subgraphKey a al\<close> have "e = (subgraphKey a al, ms)" by (metis prod.collapse)
    with e(2) show "sg = toSubgraph (subgraphKey a al, ms)" by simp
  qed
qed

definition plainNode :: "string \<Rightarrow> TemplateNodeDef" where
  "plainNode t = \<lparr>Type = t, nodeKind = [], nodeDescription = [], Executor = [], Tags = [], ClaimProducers = [], Locks = [], Attributes = None,
     ErrorTypes = [], Subscribes = [], MaxRetries = None, RetryBackoff = None, SyncRPCDeadline = [], MaxQuietPeriod = [], MaxRuntime = [],
     Delegate = [], SendsMessage = [], Holds = [], FanOut = None, IsSubgraphEntryAbsorbed = False, IsSubgraphExit = False, nodeCascadeMode = []\<rparr>"

definition exampleTemplate :: TemplateSpec where
  "exampleTemplate = \<lparr>Name = ''t'', Version = ''1'', Description = [],
     Nodes = [(plainNode ''a'')\<lparr>ClaimProducers := [\<lparr>refName = ''fs'', refSelector = [], refIntent = ''rw'', refAlias = ''d'', refLifetime = [], refData = []\<rparr>]\<rparr>,
              (plainNode ''b'')\<lparr>Holds := [(''d'', \<lparr>From = ''a'', As = []\<rparr>)]\<rparr>],
     Graphs = [], Publishers = [], ParamsSchema = None, ParamsRedact = [], LateBindServices = [], Defaults = None, Messages = [],
     MessageQueueMode = []\<rparr>"

theorem holding_subgraphs_are_the_claims_witness:
  "cleanTypes exampleTemplate \<and>
   (\<exists>!sg. sg \<in> set (HoldingSubgraphsForTemplate exampleTemplate) \<and> AcquirerType sg = ''a'' \<and> Alias sg = ''d'')"
proof -
  have c: "cleanTypes exampleTemplate" by (simp add: cleanTypes_def exampleTemplate_def plainNode_def)
  have "''b'' \<in> claimHolders exampleTemplate ''a'' ''d''"
    by (simp add: claimHolders_def exampleTemplate_def plainNode_def AliasOf_def)
  with holding_subgraphs_are_the_claims [OF c] c show ?thesis by blast
qed

text \<open>A type name that contains \<open>|\<close> is split at the wrong place, and the acquirer's subgraph is lost.\<close>

lemma bar_in_type_splits_wrong:
  "HoldingSubgraphsForTemplate (exampleTemplate\<lparr>Nodes := [(plainNode ''a|x'')\<lparr>ClaimProducers :=
      [\<lparr>refName = ''fs'', refSelector = [], refIntent = ''rw'', refAlias = ''d'', refLifetime = [], refData = []\<rparr>]\<rparr>]\<rparr>) =
   [\<lparr>AcquirerType = ''a'', Alias = ''x|d'', Members = [''a|x'']\<rparr>]"
  by (simp add: HoldingSubgraphsForTemplate_def nodeInsertions_def subgraphKey_def plainNode_def AliasOf_def exampleTemplate_def)

subsection \<open>Kind sugar is resolved once\<close>

lemma canonicalizeKind_idem: "canonicalizeKind aliases (canonicalizeKind aliases n) = canonicalizeKind aliases n"
  by (auto simp: canonicalizeKind_def split: option.splits)

lemma canonicalizeSenders_done:
  "canonicalizeSenders alias i ns = Inr ns' \<Longrightarrow> alias \<noteq> Some [] \<Longrightarrow>
   list_all2 (\<lambda>n n'. n' = n\<lparr>Executor := Executor n'\<rparr> \<and> (Executor n \<noteq> [] \<longrightarrow> n' = n)) ns ns' \<and>
   (\<forall>n' \<in> set ns'. SendsMessage n' \<noteq> [] \<longrightarrow> Executor n' \<noteq> [])"
  by (induction ns arbitrary: i ns')
     (auto simp: res_bind_Inr_iff split: if_splits option.splits)

text \<open>Resolving kind sugar is idempotent, replaces every registered kind by its executor alias, and
  leaves nodes without a registered kind alone.\<close>

theorem kind_sugar_resolved_once:
  "CanonicalizeKindSugar aliases (CanonicalizeKindSugar aliases t) = CanonicalizeKindSugar aliases t \<and>
   list_all2 (\<lambda>n n'. if nodeKind n \<noteq> [] \<and> Resolve aliases (nodeKind n) \<noteq> None
        then Executor n' = the (Resolve aliases (nodeKind n)) \<and> nodeKind n' = [] else n' = n)
     (Nodes t) (Nodes (CanonicalizeKindSugar aliases t))"
proof
  show "CanonicalizeKindSugar aliases (CanonicalizeKindSugar aliases t) = CanonicalizeKindSugar aliases t"
    by (simp add: CanonicalizeKindSugar_def canonicalizeKind_idem)
  show "list_all2 (\<lambda>n n'. if nodeKind n \<noteq> [] \<and> Resolve aliases (nodeKind n) \<noteq> None
        then Executor n' = the (Resolve aliases (nodeKind n)) \<and> nodeKind n' = [] else n' = n)
     (Nodes t) (Nodes (CanonicalizeKindSugar aliases t))"
    by (auto simp: CanonicalizeKindSugar_def canonicalizeKind_def list_all2_map2 list.rel_refl intro!: list.rel_refl split: option.split)
qed

end
