(* ===== verification/Directives.thy ===== *)
theory Directives
  imports Json_Values
begin

text \<open>
  Substitution of \<open>{{...}}\<close> directives in attribute sources (\<open>lib/graph/attribute/substitution.go\<close>): the scan
  for directives, the grammar of fallbacks and lenient markers, and the resolution of the six
  source kinds against a context. The codec of \<open>encoding/json\<close> is a parameter.
\<close>

subsection \<open>Scanning\<close>

text \<open>The regular expressions have the form \<open>\{\{([class]*)\}\}\<close> or \<open>\{\{([class]+)\}\}\<close> for a class
  without the closing brace, so a match takes the longest run of the class. \<open>minLen\<close> is the least
  length of the group.\<close>

definition matchDirective :: "(char \<Rightarrow> bool) \<Rightarrow> nat \<Rightarrow> string \<Rightarrow> (string \<times> string) option" where
  "matchDirective cls minLen s =
     (if HasPrefix s ''{{'' then
        (let body = takeWhile cls (drop 2 s); rest = dropWhile cls (drop 2 s) in
         if minLen \<le> length body \<and> HasPrefix rest ''}}'' then Some (body, drop 2 rest) else None)
      else None)"

datatype piece = Text char | Directive string

lemma matchDirective_shorter: "matchDirective cls m s = Some (b, rest) \<Longrightarrow> length rest < length s"
proof -
  assume a: "matchDirective cls m s = Some (b, rest)"
  then have r: "rest = drop 2 (dropWhile cls (drop 2 s))" "HasPrefix s ''{{''" by (auto simp: matchDirective_def Let_def split: if_splits)
  have "length (dropWhile cls (drop 2 s)) \<le> length s - 2" using length_dropWhile_le [of cls "drop 2 s"] by simp
  moreover have "length s \<ge> 2" using r(2) by (auto simp: HasPrefix_iff)
  ultimately show ?thesis by (simp add: r(1))
qed

function (sequential) scan :: "(char \<Rightarrow> bool) \<Rightarrow> nat \<Rightarrow> string \<Rightarrow> piece list" where
  "scan cls m [] = []"
| "scan cls m (c # s) =
     (case matchDirective cls m (c # s) of
        Some (body, rest) \<Rightarrow> Directive body # scan cls m rest
      | None \<Rightarrow> Text c # scan cls m s)"
  by pat_completeness auto
termination
  by (relation "measure (\<lambda>(cls, m, s). length s)") (auto dest: matchDirective_shorter)

fun bodies :: "piece list \<Rightarrow> string list" where
  "bodies [] = []"
| "bodies (Text c # ps) = bodies ps"
| "bodies (Directive b # ps) = b # bodies ps"

definition directivePattern :: "string \<Rightarrow> piece list" where
  "directivePattern = scan (\<lambda>c. c \<noteq> CHR ''}'') 0"

subsection \<open>The shape of a directive\<close>

record DirectiveShape =
  Body :: string
  Lenient :: bool
  HasFallback :: bool
  FallbackLiteral :: string
  MultiPipe :: bool

fun pipeLoop :: "nat \<Rightarrow> bool \<Rightarrow> string \<Rightarrow> nat list" where
  "pipeLoop i inQuotes [] = []"
| "pipeLoop i True (c # s) =
     (if c = CHR 0x5C then (case s of [] \<Rightarrow> [] | _ # s' \<Rightarrow> pipeLoop (i + 2) True s')
      else if c = CHR 0x22 then pipeLoop (i + 1) False s
      else pipeLoop (i + 1) True s)"
| "pipeLoop i False (c # s) =
     (if c = CHR 0x22 then pipeLoop (i + 1) True s
      else if c = CHR ''|'' then i # pipeLoop (i + 1) False s
      else pipeLoop (i + 1) False s)"

definition topLevelPipeIndices :: "string \<Rightarrow> nat list" where
  "topLevelPipeIndices s = pipeLoop 0 False s"

definition ParseLenientMarker :: "string \<Rightarrow> bool \<times> string" where
  "ParseLenientMarker body =
     (let trimmed = TrimSpace body in
      if HasSuffix trimmed ''?'' then (True, TrimSpace (TrimSuffix trimmed ''?'')) else (False, body))"

definition ParseDirectiveShape :: "string \<Rightarrow> DirectiveShape" where
  "ParseDirectiveShape directive =
     (case topLevelPipeIndices directive of
        [] \<Rightarrow> (let (lenient, stripped) = ParseLenientMarker directive in
               \<lparr>Body = stripped, Lenient = lenient, HasFallback = False, FallbackLiteral = [], MultiPipe = False\<rparr>)
      | [i] \<Rightarrow> (let left = TrimSpace (take i directive); right = TrimSpace (drop (i + 1) directive);
                   (lenient, stripped) = ParseLenientMarker left in
               \<lparr>Body = stripped, Lenient = lenient, HasFallback = True, FallbackLiteral = right, MultiPipe = False\<rparr>)
      | _ \<Rightarrow> \<lparr>Body = [], Lenient = False, HasFallback = False, FallbackLiteral = [], MultiPipe = True\<rparr>)"

subsection \<open>Resolution\<close>

record ClaimResult =
  resAddress :: string
  resPayload :: string
  resClaimScope :: string
  resRealizedWriteSemantics :: string

text \<open>What the code uses of \<open>encoding/json\<close>: encoding a value, decoding a whole document, decoding the
  first value of a stream with numbers kept as text, and whether a number fits a \<open>float64\<close>.\<close>

record JsonCodec =
  Marshal :: "jvalue \<Rightarrow> string"
  Unmarshal :: "string \<Rightarrow> jvalue option"
  DecodeFirst :: "string \<Rightarrow> jvalue option"
  inFloat64Range :: "string \<Rightarrow> bool"

record ResolveContext =
  Deps :: "(string \<times> string) list"
  Claim :: "(string \<times> ClaimResult) list"
  Params :: string
  ChildPartitionKey :: string
  RegistryDeclaredTypes :: "string list option"
  EnvLookup :: "string \<Rightarrow> string option"

datatype missing_reason =
  EmptyDirective
| NeedsKindAndField
| UnknownKind string
| EnvShape
| EnvName
| EnvUnset string
| EmptyType
| SecondNotAttribute
| UnregisteredMessage
| NoMessage string
| NoUpstream string
| FieldNotFound
| ChildShape
| NoPartitionKey
| ClaimShape
| NoClaim string
| TakesNoField
| ClaimFieldEmpty
| SecondNotClaimField
| ParamsEmpty
| ParamNotFound

datatype resolve_error =
  ErrMissingSource string missing_reason
| ErrFallbackChain string
| ErrLenientFallbackConflict string
| InvalidLiteral string

fun IsMissingSource :: "resolve_error \<Rightarrow> bool" where
  "IsMissingSource (ErrMissingSource d r) = True"
| "IsMissingSource _ = False"

fun walkLoop :: "jvalue \<Rightarrow> string list \<Rightarrow> jvalue option" where
  "walkLoop cur [] = (if cur = VNull then None else Some cur)"
| "walkLoop cur (seg # path) =
     (case cur of
        VObj m \<Rightarrow> (case map_of m seg of
            None \<Rightarrow> None
          | Some v \<Rightarrow> if v = VNull then None else walkLoop v path)
      | _ \<Rightarrow> None)"

definition walkPath :: "JsonCodec \<Rightarrow> string \<Rightarrow> string list \<Rightarrow> jvalue option" where
  "walkPath jc raw path =
     (if raw = [] then None else case DecodeFirst jc raw of None \<Rightarrow> None | Some root \<Rightarrow> walkLoop root path)"

text \<open>\<open>json.Unmarshal\<close> into a string: \<open>null\<close> leaves it empty.\<close>

definition stringifyRaw :: "JsonCodec \<Rightarrow> string \<Rightarrow> string" where
  "stringifyRaw jc raw = (case Unmarshal jc raw of Some (VStr s) \<Rightarrow> s | Some VNull \<Rightarrow> [] | _ \<Rightarrow> raw)"

definition nameStart :: "char \<Rightarrow> bool" where
  "nameStart c \<longleftrightarrow> (let n = of_char c :: nat in 65 \<le> n \<and> n \<le> 90 \<or> 97 \<le> n \<and> n \<le> 122 \<or> n = 95)"

definition nameChar :: "char \<Rightarrow> bool" where
  "nameChar c \<longleftrightarrow> nameStart c \<or> (let n = of_char c :: nat in 48 \<le> n \<and> n \<le> 57)"

definition envVarName :: "string \<Rightarrow> bool" where
  "envVarName s = (case s of [] \<Rightarrow> False | c # cs \<Rightarrow> nameStart c \<and> list_all nameChar cs)"

definition resolveEnvValue :: "string \<Rightarrow> string list \<Rightarrow> ResolveContext \<Rightarrow> resolve_error + jvalue" where
  "resolveEnvValue directive rest ctx =
     (case rest of
        [name] \<Rightarrow>
          if name = [] then Inl (ErrMissingSource directive EnvShape)
          else if \<not> envVarName name then Inl (ErrMissingSource directive EnvName)
          else (case EnvLookup ctx name of
             None \<Rightarrow> Inl (ErrMissingSource directive (EnvUnset name))
           | Some v \<Rightarrow> Inr (VStr v))
      | _ \<Rightarrow> Inl (ErrMissingSource directive EnvShape))"

definition resolveSubstitutionValue ::
  "JsonCodec \<Rightarrow> string \<Rightarrow> string \<Rightarrow> string list \<Rightarrow> ResolveContext \<Rightarrow> resolve_error + jvalue" where
  "resolveSubstitutionValue jc directive pfx rest ctx =
     (case rest of
        [] \<Rightarrow> Inl (ErrMissingSource directive NeedsKindAndField)
      | typeName # segs \<Rightarrow>
          if typeName = [] then Inl (ErrMissingSource directive EmptyType)
          else if pfx = ''nodes'' \<and> (case segs of [] \<Rightarrow> True | second # _ \<Rightarrow> second \<noteq> ''attribute'')
            then Inl (ErrMissingSource directive SecondNotAttribute)
          else if pfx = ''messages'' \<and> (case RegistryDeclaredTypes ctx of None \<Rightarrow> False | Some ts \<Rightarrow> typeName \<notin> set ts)
            then Inl (ErrMissingSource directive UnregisteredMessage)
          else case map_of (Deps ctx) typeName of
            None \<Rightarrow> Inl (ErrMissingSource directive (if pfx = ''messages'' then NoMessage typeName else NoUpstream typeName))
          | Some data \<Rightarrow>
              (case walkPath jc data (if pfx = ''nodes'' then drop 2 rest else drop 1 rest) of
                 None \<Rightarrow> Inl (ErrMissingSource directive FieldNotFound)
               | Some v \<Rightarrow> Inr v))"

definition resolveChildValue :: "string \<Rightarrow> string list \<Rightarrow> ResolveContext \<Rightarrow> resolve_error + jvalue" where
  "resolveChildValue directive rest ctx =
     (if rest \<noteq> [''partition_key''] then Inl (ErrMissingSource directive ChildShape)
      else if ChildPartitionKey ctx = [] then Inl (ErrMissingSource directive NoPartitionKey)
      else Inr (VStr (ChildPartitionKey ctx)))"

definition resolveClaimValue :: "JsonCodec \<Rightarrow> string \<Rightarrow> string list \<Rightarrow> (string \<times> ClaimResult) list \<Rightarrow> resolve_error + jvalue" where
  "resolveClaimValue jc directive rest claims =
     (case rest of
        aliasName # field # path \<Rightarrow>
          (case map_of claims aliasName of
             None \<Rightarrow> Inl (ErrMissingSource directive (NoClaim aliasName))
           | Some cr \<Rightarrow>
               if field = ''address'' then
                 (if path \<noteq> [] then Inl (ErrMissingSource directive TakesNoField)
                  else if resAddress cr = [] then Inl (ErrMissingSource directive ClaimFieldEmpty)
                  else Inr (VStr (stringifyRaw jc (resAddress cr))))
               else if field = ''claim_scope'' then
                 (if path \<noteq> [] then Inl (ErrMissingSource directive TakesNoField)
                  else if resClaimScope cr = [] then Inl (ErrMissingSource directive ClaimFieldEmpty)
                  else Inr (VStr (stringifyRaw jc (resClaimScope cr))))
               else if field = ''payload'' then
                 (if resPayload cr = [] then Inl (ErrMissingSource directive ClaimFieldEmpty)
                  else case walkPath jc (resPayload cr) path of
                    None \<Rightarrow> Inl (ErrMissingSource directive FieldNotFound)
                  | Some v \<Rightarrow> Inr v)
               else Inl (ErrMissingSource directive SecondNotClaimField))
      | _ \<Rightarrow> Inl (ErrMissingSource directive ClaimShape))"

definition resolveParamsValue :: "JsonCodec \<Rightarrow> string \<Rightarrow> string list \<Rightarrow> string \<Rightarrow> resolve_error + jvalue" where
  "resolveParamsValue jc directive rest params =
     (if rest = [] then Inl (ErrMissingSource directive NeedsKindAndField)
      else if params = [] then Inl (ErrMissingSource directive ParamsEmpty)
      else case walkPath jc params rest of
        None \<Rightarrow> Inl (ErrMissingSource directive ParamNotFound)
      | Some v \<Rightarrow> Inr v)"

definition resolveDirectiveValueRaw :: "JsonCodec \<Rightarrow> string \<Rightarrow> ResolveContext \<Rightarrow> resolve_error + jvalue" where
  "resolveDirectiveValueRaw jc directive ctx =
     (case Split directive CHR ''.'' of
        kind # rest \<Rightarrow>
          if rest = [] then Inl (ErrMissingSource directive NeedsKindAndField)
          else if kind = ''claim'' then resolveClaimValue jc directive rest (Claim ctx)
          else if kind = ''params'' then resolveParamsValue jc directive rest (Params ctx)
          else if kind = ''nodes'' \<or> kind = ''messages'' then resolveSubstitutionValue jc directive kind rest ctx
          else if kind = ''child'' then resolveChildValue directive rest ctx
          else if kind = ''env'' then resolveEnvValue directive rest ctx
          else Inl (ErrMissingSource directive (UnknownKind kind))
      | [] \<Rightarrow> Inl (ErrMissingSource directive NeedsKindAndField))"

definition quotedLiteral :: "string \<Rightarrow> bool" where
  "quotedLiteral raw \<longleftrightarrow> length raw \<ge> 2 \<and> hd raw = CHR 0x22 \<and> last raw = CHR 0x22"

text \<open>An unquoted literal is decoded into a \<open>json.Number\<close>.\<close>

definition parseFallbackLiteral :: "JsonCodec \<Rightarrow> string \<Rightarrow> resolve_error + jvalue" where
  "parseFallbackLiteral jc raw =
     (if raw = ''null'' then Inr VNull
      else if raw = ''true'' then Inr (VBool True)
      else if raw = ''false'' then Inr (VBool False)
      else if quotedLiteral raw then
        (case Unmarshal jc raw of Some (VStr s) \<Rightarrow> Inr (VStr s) | _ \<Rightarrow> Inl (InvalidLiteral raw))
      else case Unmarshal jc raw of Some (VNum n) \<Rightarrow> Inr (VNum n) | _ \<Rightarrow> Inl (InvalidLiteral raw))"

definition resolveDirectiveValue :: "JsonCodec \<Rightarrow> string \<Rightarrow> ResolveContext \<Rightarrow> resolve_error + jvalue" where
  "resolveDirectiveValue jc directive ctx =
     (let shape = ParseDirectiveShape directive in
      if MultiPipe shape then Inl (ErrFallbackChain directive)
      else if Lenient shape \<and> HasFallback shape then Inl (ErrLenientFallbackConflict directive)
      else case resolveDirectiveValueRaw jc (Body shape) ctx of
        Inr v \<Rightarrow> Inr v
      | Inl e \<Rightarrow>
          if \<not> IsMissingSource e then Inl e
          else if HasFallback shape then parseFallbackLiteral jc (FallbackLiteral shape)
          else if Lenient shape then Inr VNull
          else Inl e)"

fun stringifyAny :: "JsonCodec \<Rightarrow> jvalue \<Rightarrow> string" where
  "stringifyAny jc (VObj m) = Marshal jc (VObj m)"
| "stringifyAny jc (VArr xs) = Marshal jc (VArr xs)"
| "stringifyAny jc (VStr s) = s"
| "stringifyAny jc (VNum n) = n"
| "stringifyAny jc (VBool b) = (if b then ''true'' else ''false'')"
| "stringifyAny jc VNull = ''<nil>''"

definition resolveDirective :: "JsonCodec \<Rightarrow> string \<Rightarrow> ResolveContext \<Rightarrow> resolve_error + string" where
  "resolveDirective jc directive ctx =
     (case resolveDirectiveValue jc directive ctx of
        Inl e \<Rightarrow> Inl e
      | Inr v \<Rightarrow> Inr (if v = VNull then [] else stringifyAny jc v))"

subsection \<open>Substitution\<close>

text \<open>The callback of \<open>ReplaceAllStringFunc\<close>; after an error the remaining text is irrelevant.\<close>

fun replacePieces :: "(string \<Rightarrow> resolve_error + string) \<Rightarrow> piece list \<Rightarrow> resolve_error + string" where
  "replacePieces f [] = Inr []"
| "replacePieces f (Text c # ps) = (case replacePieces f ps of Inl e \<Rightarrow> Inl e | Inr t \<Rightarrow> Inr (c # t))"
| "replacePieces f (Directive b # ps) =
     (case f b of
        Inl e \<Rightarrow> Inl e
      | Inr r \<Rightarrow> (case replacePieces f ps of Inl e \<Rightarrow> Inl e | Inr t \<Rightarrow> Inr (r @ t)))"

definition resolveInside :: "JsonCodec \<Rightarrow> ResolveContext \<Rightarrow> string \<Rightarrow> resolve_error + string" where
  "resolveInside jc ctx body =
     (let inside = TrimSpace body in
      if inside = [] then Inl (ErrMissingSource inside EmptyDirective) else resolveDirective jc inside ctx)"

definition Substitute :: "JsonCodec \<Rightarrow> string \<Rightarrow> ResolveContext \<Rightarrow> resolve_error + string" where
  "Substitute jc rawValue ctx =
     (if \<not> Contains rawValue ''{{'' then Inr rawValue
      else replacePieces (resolveInside jc ctx) (directivePattern rawValue))"

text \<open>\<open>FindString(trimmed) == trimmed\<close>: the first match starts at the beginning and ends at the end.\<close>

definition wholeDirective :: "string \<Rightarrow> string option" where
  "wholeDirective trimmed =
     (case matchDirective (\<lambda>c. c \<noteq> CHR ''}'') 0 trimmed of Some (body, []) \<Rightarrow> Some body | _ \<Rightarrow> None)"

definition SubstituteValue :: "JsonCodec \<Rightarrow> string \<Rightarrow> ResolveContext \<Rightarrow> resolve_error + jvalue" where
  "SubstituteValue jc rawValue ctx =
     (case wholeDirective (TrimSpace rawValue) of
        Some body \<Rightarrow>
          (let inside = TrimSpace body in
           if inside = [] then Inl (ErrMissingSource inside EmptyDirective) else resolveDirectiveValue jc inside ctx)
      | None \<Rightarrow> (case Substitute jc rawValue ctx of Inl e \<Rightarrow> Inl e | Inr s \<Rightarrow> Inr (VStr s)))"

end
