(* ===== verification/Validation_Report.thy ===== *)
theory Validation_Report
  imports Template_Model Directives Signal_Taxonomy "HOL-Library.AList"
begin

text \<open>
  What the template validator reports and what it asks of its surroundings
  (\<open>lib/graph/node/template_validator.go\<close>, \<open>lib/foundation/signal/cel.go\<close>). A report is the list of
  findings in the order the checks append them; a check is a function to a report. A finding
  keeps its path and, in place of the formatted message, a tag for the message with its arguments.
\<close>

subsection \<open>Reports\<close>

record UncoveredRef =
  ucReceiver :: string
  ucRef :: string
  ucProperty :: string
  ucSuggestedNode :: string
  ucSuggestedType :: string

datatype finding =
  Error string string "string list"
| Warning string string "string list"
| Structured UncoveredRef

type_synonym report = "finding list"

fun blocking :: "finding \<Rightarrow> bool" where
  "blocking (Error p m a) = True"
| "blocking (Structured u) = True"
| "blocking (Warning p m a) = False"

definition Ok :: "report \<Rightarrow> bool" where
  "Ok r \<longleftrightarrow> \<not> list_ex blocking r"

lemma Ok_simps [simp]:
  "Ok []" "Ok (Error p m a # r) = False" "Ok (Structured u # r) = False" "Ok (Warning p m a # r) = Ok r"
  "Ok (r @ r') \<longleftrightarrow> Ok r \<and> Ok r'"
  by (auto simp: Ok_def)

lemma Ok_concat: "Ok (concat rs) \<longleftrightarrow> (\<forall>r \<in> set rs. Ok r)"
  by (induction rs) auto

lemma Ok_concat_map [simp]: "Ok (concat (map f xs)) \<longleftrightarrow> (\<forall>x \<in> set xs. Ok (f x))"
  by (simp add: Ok_concat)

text \<open>A loop with an index.\<close>

fun eachFrom :: "nat \<Rightarrow> (nat \<Rightarrow> 'a \<Rightarrow> report) \<Rightarrow> 'a list \<Rightarrow> report" where
  "eachFrom i f [] = []"
| "eachFrom i f (x # xs) = f i x @ eachFrom (i + 1) f xs"

definition each :: "(nat \<Rightarrow> 'a \<Rightarrow> report) \<Rightarrow> 'a list \<Rightarrow> report" where
  "each = eachFrom 0"

lemma Ok_eachFrom: "Ok (eachFrom i f xs) \<longleftrightarrow> (\<forall>j < length xs. Ok (f (i + j) (xs ! j)))"
proof (induction xs arbitrary: i)
  case (Cons x xs)
  show ?case unfolding eachFrom.simps Ok_simps Cons by (auto simp: less_Suc_eq_0_disj)
qed simp

lemma Ok_each: "Ok (each f xs) \<longleftrightarrow> (\<forall>j < length xs. Ok (f j (xs ! j)))"
  by (simp add: each_def Ok_eachFrom)

definition indexed :: "string \<Rightarrow> nat \<Rightarrow> string" where
  "indexed base i = base @ ''['' @ itoa i @ '']''"

definition keyed_path :: "string \<Rightarrow> string \<Rightarrow> string" where
  "keyed_path base k = base @ ''['' @ k @ '']''"

subsection \<open>Registry hooks\<close>

text \<open>A nil hook is \<open>None\<close>.\<close>

record RegistryHooks =
  StoreDeclared :: "(string \<Rightarrow> bool) option"
  NamedLockDeclared :: "(string \<Rightarrow> bool) option"
  ExecutorDeclared :: "(string \<Rightarrow> bool) option"
  ExecutorDeclaredTags :: "(string \<Rightarrow> string list option) option"
  ExecutorDeclaredErrorClasses :: "(string \<Rightarrow> string list option) option"
  ClaimProducerDeclaredErrorClasses :: "(string \<Rightarrow> string list option) option"
  ExecutorExpectedAttributesSchema :: "(string \<Rightarrow> string option) option"
  ClaimProducerAdvertisesSplitScope :: "(string \<Rightarrow> bool) option"
  PublisherDeclaredKinds :: "(string \<Rightarrow> string list option) option"
  KindAliases :: "KindAliasMap option"

text \<open>Libraries the validator calls: JSON, JSON Schema (whether a schema can be added as a resource, whether
  it compiles, whether a document satisfies it), the CEL compiler (the fields an expression selects from
  \<open>payload\<close> and from \<open>payload.attributes_delta\<close> when it parses and checks, and whether a program
  can be built), the fields of the payload messages, and \<open>time.ParseDuration\<close>.\<close>

record Libraries =
  codec :: JsonCodec
  AddResource :: "string \<Rightarrow> bool"
  CompileSchema :: "string \<Rightarrow> bool"
  SchemaAccepts :: "string \<Rightarrow> string \<Rightarrow> bool"
  celCheck :: "string \<Rightarrow> (string list \<times> string list) option"
  celProgram :: "string \<Rightarrow> bool"
  schemaFields :: "PayloadSchema \<Rightarrow> string list"
  ParseDuration :: "string \<Rightarrow> int option"

subsection \<open>Subscription predicates\<close>

datatype when_error = InvalidCEL | FieldNotInSchema "string list" | FieldNotInBody "string list" | NoProgram

definition missingFields :: "string list \<Rightarrow> string list \<Rightarrow> string list" where
  "missingFields allowed selected = dedup_loop [] [] (filter (\<lambda>f. f \<notin> set allowed) selected)"

definition checkPayloadFields :: "string list \<Rightarrow> string list \<Rightarrow> when_error option" where
  "checkPayloadFields allowed selected =
     (if allowed = [] then None
      else case missingFields allowed selected of [] \<Rightarrow> None | missing \<Rightarrow> Some (FieldNotInSchema missing))"

definition checkAttributesDeltaFields :: "string list \<Rightarrow> string list \<Rightarrow> when_error option" where
  "checkAttributesDeltaFields allowed selected =
     (case missingFields allowed selected of [] \<Rightarrow> None | missing \<Rightarrow> Some (FieldNotInBody missing))"

text \<open>A compiled predicate is determined by the pattern and the source; it is represented by its source,
  and the nil predicate by the empty one.\<close>

definition CompileWhenWithBodyFields :: "Libraries \<Rightarrow> TypePath \<Rightarrow> string \<Rightarrow> string list option \<Rightarrow> when_error + string" where
  "CompileWhenWithBodyFields lib typeSpec when bodyFields =
     (if when = [] then Inr []
      else case celCheck lib when of
        None \<Rightarrow> Inl InvalidCEL
      | Some (payloadSel, deltaSel) \<Rightarrow>
          (case (case PayloadSchemaForType typeSpec of
                   None \<Rightarrow> None | Some sch \<Rightarrow> checkPayloadFields (schemaFields lib sch) payloadSel) of
             Some e \<Rightarrow> Inl e
           | None \<Rightarrow>
               (case (case bodyFields of None \<Rightarrow> None | Some fs \<Rightarrow> checkAttributesDeltaFields fs deltaSel) of
                  Some e \<Rightarrow> Inl e
                | None \<Rightarrow> if celProgram lib when then Inr when else Inl NoProgram)))"

definition CompileWhen :: "Libraries \<Rightarrow> TypePath \<Rightarrow> string \<Rightarrow> when_error + string" where
  "CompileWhen lib typeSpec when = CompileWhenWithBodyFields lib typeSpec when None"

lemma CompileWhen_weaker:
  "CompileWhenWithBodyFields lib t w fs = Inr p \<Longrightarrow> CompileWhen lib t w = Inr p"
  by (auto simp: CompileWhen_def CompileWhenWithBodyFields_def split: if_splits option.splits)

end
