(* ===== verification/Directive_Checks.thy ===== *)
theory Directive_Checks
  imports Validation_Report
begin

text \<open>
  Registration-time checks of directives (\<open>lib/graph/node/template_validator_directives.go\<close>): attribute
  sources, claim selectors and lock names.
\<close>

subsection \<open>Regular expressions\<close>

text \<open>\<open>dispatchDirectiveRe\<close>: at least one character, no brace.\<close>

definition dispatchDirectives :: "string \<Rightarrow> piece list" where
  "dispatchDirectives = scan (\<lambda>c. c \<noteq> CHR ''{'' \<and> c \<noteq> CHR ''}'') 1"

text \<open>The text that is left when the directives are removed.\<close>

fun textOf :: "piece list \<Rightarrow> string" where
  "textOf [] = []"
| "textOf (Text c # ps) = c # textOf ps"
| "textOf (Directive b # ps) = textOf ps"

definition directiveKinds :: "string list" where
  "directiveKinds = [''claim'', ''params'', ''nodes'', ''child'', ''messages'', ''env'']"

text \<open>\<open>directiveBodyRe\<close>: a kind, a dot and a non-empty rest on one line.\<close>

definition directiveBody :: "string \<Rightarrow> (string \<times> string) option" where
  "directiveBody s =
     (case List.find (\<lambda>k. HasPrefix s (k @ ''.'')) directiveKinds of
        None \<Rightarrow> None
      | Some k \<Rightarrow> (let rest = drop (length k + 1) s in if rest = [] \<or> CHR 0x0A \<in> set rest then None else Some (k, rest)))"

text \<open>\<open>anyBraceRe\<close>: the brace-free texts between single braces, with the braces.\<close>

function (sequential) braceTexts :: "string \<Rightarrow> string list" where
  "braceTexts [] = []"
| "braceTexts (c # s) =
     (let inner = takeWhile (\<lambda>x. x \<noteq> CHR ''{'' \<and> x \<noteq> CHR ''}'') s; rest = dropWhile (\<lambda>x. x \<noteq> CHR ''{'' \<and> x \<noteq> CHR ''}'') s in
      if c = CHR ''{'' \<and> HasPrefix rest ''}'' then (''{'' @ inner @ ''}'') # braceTexts (drop 1 rest) else braceTexts s)"
  by pat_completeness auto
termination
proof (relation "measure length")
  fix c :: char and s x rest
  show "rest = dropWhile (\<lambda>x. x \<noteq> CHR ''{'' \<and> x \<noteq> CHR ''}'') s \<Longrightarrow> (drop 1 rest, c # s) \<in> measure length"
    using length_dropWhile_le [of "\<lambda>x. x \<noteq> CHR ''{'' \<and> x \<noteq> CHR ''}''" s] by simp
qed auto

text \<open>\<open>instantiationPlaceholderRe\<close> on a text that has braces only at its ends.\<close>

definition instantiationPlaceholder :: "string \<Rightarrow> bool" where
  "instantiationPlaceholder m \<longleftrightarrow> HasPrefix m ''{params.'' \<and> HasSuffix m ''}'' \<and> length m \<ge> 9 \<and>
     envVarName (take (length m - 9) (drop 8 m))"

subsection \<open>Checks\<close>

definition isValidFallbackLiteral :: "JsonCodec \<Rightarrow> string \<Rightarrow> bool" where
  "isValidFallbackLiteral jc s =
     (if s = ''null'' \<or> s = ''true'' \<or> s = ''false'' then True
      else if quotedLiteral s then (case Unmarshal jc s of Some (VStr _) \<Rightarrow> True | _ \<Rightarrow> False)
      else case Unmarshal jc s of Some (VNum n) \<Rightarrow> inFloat64Range jc n | _ \<Rightarrow> False)"

definition rejectEmptySegments :: "string list \<Rightarrow> nat \<Rightarrow> string \<Rightarrow> string \<Rightarrow> string \<Rightarrow> report" where
  "rejectEmptySegments parts start kindLabel body path =
     (if [] \<in> set (drop start parts) then [Error path ''empty segment'' [kindLabel, body]] else [])"

definition paramsTopKey :: "string \<Rightarrow> string" where
  "paramsTopKey rest = (let dot = IndexByte rest CHR ''.'' in if dot \<ge> 0 then take (nat dot) rest else rest)"

definition paramsSchemaProperties :: "TemplateSpec \<Rightarrow> jmap" where
  "paramsSchemaProperties t =
     (case ParamsSchema t of
        None \<Rightarrow> []
      | Some sch \<Rightarrow> (case mapAt sch ''properties'' of None \<Rightarrow> [] | Some ps \<Rightarrow> ps))"

definition checkParamsKeyDeclared :: "string \<Rightarrow> string \<Rightarrow> string \<Rightarrow> TemplateSpec \<Rightarrow> report" where
  "checkParamsKeyDeclared rest path body t =
     (if ParamsSchema t = None then []
      else let topKey = paramsTopKey rest in
        if map_of (paramsSchemaProperties t) topKey \<noteq> None then []
        else [Error path ''undeclared params key'' [body, topKey]])"

definition checkClaimParts :: "string list \<Rightarrow> string \<Rightarrow> string \<Rightarrow> string list \<Rightarrow> string list \<Rightarrow> report" where
  "checkClaimParts parts body path directAliases heldAliases =
     (case parts of
        aliasName # field # more' \<Rightarrow>
          if aliasName = [] then [Error path ''claim shape'' [body]]
          else
            (if field = ''address'' \<or> field = ''claim_scope'' then
               (if more' \<noteq> [] then [Error path ''takes no further field path'' [field]] else [])
             else if field = ''payload'' then rejectEmptySegments parts 2 ''claim'' body path
             else [Error path ''second segment must be address|claim_scope|payload'' [body]]) @
            (if aliasName \<notin> set directAliases \<and> aliasName \<notin> set heldAliases then [Error path ''unknown claim alias'' [aliasName]] else [])
      | _ \<Rightarrow> [Error path ''claim shape'' [body]])"

definition checkNodesParts :: "string list \<Rightarrow> string \<Rightarrow> string \<Rightarrow> (string \<times> nat) list \<Rightarrow> report" where
  "checkNodesParts parts body path declared =
     (case parts of
        nodeName # second # more' \<Rightarrow>
          if nodeName = [] then [Error path ''nodes shape'' [body]]
          else if second = ''attribute'' then
            (if [] \<in> set more' then rejectEmptySegments parts 2 ''nodes'' body path
             else if map_of declared nodeName = None then [Error path ''unknown node'' [nodeName]] else [])
          else [Error path ''second segment must be attribute'' [body]]
      | _ \<Rightarrow> [Error path ''nodes shape'' [body]])"

definition checkAttributeDirectiveBody ::
  "JsonCodec \<Rightarrow> string \<Rightarrow> string \<Rightarrow> (string \<times> nat) list \<Rightarrow> string list \<Rightarrow> string list \<Rightarrow> TemplateSpec \<Rightarrow> report" where
  "checkAttributeDirectiveBody jc raw path declared directAliases heldAliases t =
     (let rawBody = TrimSpace raw; shape = ParseDirectiveShape rawBody in
      if MultiPipe shape then [Error path ''multi-pipe fallback chain'' [rawBody]]
      else if HasFallback shape \<and> \<not> isValidFallbackLiteral jc (FallbackLiteral shape)
        then [Error path ''invalid fallback literal'' [rawBody, FallbackLiteral shape]]
      else if Lenient shape \<and> HasFallback shape then [Error path ''marker and fallback'' []]
      else let body = Body shape in
        case directiveBody body of
          None \<Rightarrow> [Error path ''unknown source kind'' [body]]
        | Some (kind, rest) \<Rightarrow>
            let parts = Split rest CHR ''.'' in
            if kind = ''claim'' then checkClaimParts parts body path directAliases heldAliases
            else if kind = ''params'' then
              (if hd parts = [] then [Error path ''params shape'' [body]]
               else if [] \<in> set (drop 1 parts) then rejectEmptySegments parts 1 ''params'' body path
               else if \<not> HasFallback shape \<and> \<not> Lenient shape then checkParamsKeyDeclared rest path body t else [])
            else if kind = ''nodes'' then checkNodesParts parts body path declared
            else if kind = ''child'' then
              (if parts \<noteq> [''partition_key''] then [Error path ''child shape'' [body]] else [])
            else if kind = ''messages'' then
              (if hd parts = [] then [Error path ''messages shape'' [body]]
               else rejectEmptySegments parts 1 ''messages'' body path)
            else
              (if length parts \<noteq> 1 \<or> \<not> envVarName (hd parts) then [Error path ''env shape'' [body]] else []))"

definition checkAttributeSource ::
  "JsonCodec \<Rightarrow> string \<Rightarrow> string \<Rightarrow> (string \<times> nat) list \<Rightarrow> string list \<Rightarrow> string list \<Rightarrow> TemplateSpec \<Rightarrow> report" where
  "checkAttributeSource jc src path declared directAliases heldAliases t =
     (let trimmed = TrimSpace src in
      if trimmed = [] then [Error path ''source is empty'' []]
      else let found = bodies (dispatchDirectives trimmed) in
        if found = [] then [Error path ''no directive'' [trimmed]]
        else concat (map (\<lambda>m. checkAttributeDirectiveBody jc (TrimSpace m) path declared directAliases heldAliases t) found))"

definition checkDispatchDirectives :: "string \<Rightarrow> string \<Rightarrow> TemplateSpec \<Rightarrow> report" where
  "checkDispatchDirectives s path t =
     concat (map (\<lambda>m.
       let body = TrimSpace m in
       if body = [] then [Error path ''empty directive'' []]
       else case directiveBody body of
         None \<Rightarrow> [Error path ''invalid directive'' [body]]
       | Some (kind, rest) \<Rightarrow> if kind = ''params'' then checkParamsKeyDeclared rest path body t else [])
       (bodies (dispatchDirectives s)))"

definition checkScopeDirectives :: "string \<Rightarrow> string \<Rightarrow> TemplateSpec \<Rightarrow> report" where
  "checkScopeDirectives s path t =
     checkDispatchDirectives s path t @
     concat (map (\<lambda>m. if instantiationPlaceholder m then [] else [Error path ''invalid placeholder'' [m]])
       (braceTexts (textOf (dispatchDirectives s))))"

definition checkLockNameDirectives :: "string \<Rightarrow> string \<Rightarrow> TemplateSpec \<Rightarrow> report" where
  "checkLockNameDirectives = checkScopeDirectives"

end
