(* ===== verification/Cycle_Search.thy ===== *)
theory Cycle_Search
  imports Prelude
begin

text \<open>
  The cycle searches of the template validator: \<open>findAllCycles\<close> of \<open>lib/graph/node/hard_dep_edges.go\<close>, which
  serves hard dependencies and delegation, and the search of \<open>validateHoldsAcyclic\<close>
  (\<open>template_validator_holds.go\<close>), which stops at the first cycle. Both colour nodes white, gray
  (on the current path) and black. The recursion takes the depth it may still reach; a path has no
  repetition, so the number of nodes plus one is enough.
\<close>

type_synonym adjacency = "(string \<times> string list) list"

datatype colour = white | gray | black

record Search =
  colours :: "string \<Rightarrow> colour"
  cycles :: "string list list"
  seenCycles :: "string list"

definition neighbours :: "adjacency \<Rightarrow> string \<Rightarrow> string list" where
  "neighbours adj n = (case map_of adj n of None \<Rightarrow> [] | Some ns \<Rightarrow> ns)"

definition graphNodes :: "adjacency \<Rightarrow> string list" where
  "graphNodes adj = remdups (map fst adj @ concat (map snd adj))"

subsection \<open>All cycles\<close>

text \<open>The loop that finds the least element of a cycle; \<open>minAt\<close> is the index of the least element so far.\<close>

function minIndexLoop :: "string list \<Rightarrow> nat \<Rightarrow> nat \<Rightarrow> nat" where
  "minIndexLoop body i minAt =
     (if i < length body then minIndexLoop body (i + 1) (if body ! i < body ! minAt then i else minAt) else minAt)"
  by auto
termination by (relation "measure (\<lambda>(body, i, minAt). length body - i)") auto

declare minIndexLoop.simps [simp del]

definition arrow :: string where
  "arrow = [CHR 0xE2, CHR 0x86, CHR 0x92]"

definition canonicalCycleKey :: "string list \<Rightarrow> string" where
  "canonicalCycleKey path =
     (if length path < 2 then Join path arrow
      else let body = butlast path; minAt = minIndexLoop body 1 0
           in Join (drop minAt body @ take minAt body) arrow)"

definition cyclePath :: "string list \<Rightarrow> string \<Rightarrow> string list" where
  "cyclePath path nxt =
     (let cycleStart = (if nxt \<in> set path then length (takeWhile (\<lambda>n. n \<noteq> nxt) path) else 0)
      in drop cycleStart path @ [nxt])"

definition recordCycle :: "string list \<Rightarrow> string \<Rightarrow> Search \<Rightarrow> Search" where
  "recordCycle path nxt st =
     (let cyc = cyclePath path nxt; key = canonicalCycleKey cyc
      in if key \<in> set (seenCycles st) then st
         else st\<lparr>seenCycles := key # seenCycles st, cycles := cycles st @ [cyc]\<rparr>)"

primrec dfsLoop :: "(string \<Rightarrow> Search \<Rightarrow> Search option) \<Rightarrow> string list \<Rightarrow> string list \<Rightarrow> Search \<Rightarrow> Search option" where
  "dfsLoop visit path [] st = Some st"
| "dfsLoop visit path (nxt # rest) st =
     (case colours st nxt of
        gray \<Rightarrow> dfsLoop visit path rest (recordCycle path nxt st)
      | white \<Rightarrow> Option.bind (visit nxt st) (dfsLoop visit path rest)
      | black \<Rightarrow> dfsLoop visit path rest st)"

definition paint :: "string \<Rightarrow> colour \<Rightarrow> Search \<Rightarrow> Search" where
  "paint n c st = st\<lparr>colours := (colours st)(n := c)\<rparr>"

fun dfs :: "nat \<Rightarrow> adjacency \<Rightarrow> string list \<Rightarrow> string \<Rightarrow> Search \<Rightarrow> Search option" where
  "dfs 0 adj path n st = None"
| "dfs (Suc d) adj path n st =
     map_option (paint n black)
       (dfsLoop (dfs d adj (path @ [n])) (path @ [n]) (neighbours adj n) (paint n gray st))"

primrec searchRoots :: "nat \<Rightarrow> adjacency \<Rightarrow> string list \<Rightarrow> Search \<Rightarrow> Search option" where
  "searchRoots d adj [] st = Some st"
| "searchRoots d adj (n # ns) st =
     (if colours st n = white then Option.bind (dfs d adj [] n st) (searchRoots d adj ns) else searchRoots d adj ns st)"

definition searchDepth :: "adjacency \<Rightarrow> nat" where
  "searchDepth adj = length (graphNodes adj) + 1"

definition unsearched :: Search where
  "unsearched = \<lparr>colours = (\<lambda>_. white), cycles = [], seenCycles = []\<rparr>"

definition cycleSearch :: "adjacency \<Rightarrow> Search option" where
  "cycleSearch adj = searchRoots (searchDepth adj) adj (sort (map fst adj)) unsearched"

definition findAllCycles :: "adjacency \<Rightarrow> string list list" where
  "findAllCycles adj = (case cycleSearch adj of None \<Rightarrow> [] | Some st \<Rightarrow> cycles st)"

subsection \<open>The first cycle\<close>

text \<open>The result is the cycle to report, if one was found, and the colours.\<close>

primrec firstLoop ::
  "(string \<Rightarrow> (string \<Rightarrow> colour) \<Rightarrow> (string list option \<times> (string \<Rightarrow> colour)) option) \<Rightarrow> string list \<Rightarrow> string \<Rightarrow> string list \<Rightarrow>
   (string \<Rightarrow> colour) \<Rightarrow> (string list option \<times> (string \<Rightarrow> colour)) option" where
  "firstLoop visit path n [] col = Some (None, col)"
| "firstLoop visit path n (nxt # rest) col =
     (if col nxt = gray then Some (Some (path @ [n, nxt]), col)
      else if col nxt = white then
        (case visit nxt col of
           None \<Rightarrow> None
         | Some (Some cyc, col') \<Rightarrow> Some (Some cyc, col')
         | Some (None, col') \<Rightarrow> firstLoop visit path n rest col')
      else firstLoop visit path n rest col)"

fun firstDfs :: "nat \<Rightarrow> adjacency \<Rightarrow> string list \<Rightarrow> string \<Rightarrow> (string \<Rightarrow> colour) \<Rightarrow> (string list option \<times> (string \<Rightarrow> colour)) option" where
  "firstDfs 0 adj path n col = None"
| "firstDfs (Suc d) adj path n col =
     (case firstLoop (firstDfs d adj (path @ [n])) path n (neighbours adj n) (col(n := gray)) of
        None \<Rightarrow> None
      | Some (Some cyc, col') \<Rightarrow> Some (Some cyc, col')
      | Some (None, col') \<Rightarrow> Some (None, col'(n := black)))"

primrec firstRoots :: "nat \<Rightarrow> adjacency \<Rightarrow> string list \<Rightarrow> (string \<Rightarrow> colour) \<Rightarrow> string list option option" where
  "firstRoots d adj [] col = Some None"
| "firstRoots d adj (n # ns) col =
     (if col n = white then
        (case firstDfs d adj [] n col of
           None \<Rightarrow> None
         | Some (Some cyc, col') \<Rightarrow> Some (Some cyc)
         | Some (None, col') \<Rightarrow> firstRoots d adj ns col')
      else firstRoots d adj ns col)"

definition firstCycleSearch :: "adjacency \<Rightarrow> string list option option" where
  "firstCycleSearch adj = firstRoots (searchDepth adj) adj (map fst adj) (\<lambda>_. white)"

definition firstCycle :: "adjacency \<Rightarrow> string list option" where
  "firstCycle adj = Option.bind (firstCycleSearch adj) id"

subsection \<open>The search is exact\<close>

definition edges :: "adjacency \<Rightarrow> (string \<times> string) set" where
  "edges adj = {(a, b). b \<in> set (neighbours adj a)}"

definition closedWalk :: "adjacency \<Rightarrow> string list \<Rightarrow> bool" where
  "closedWalk adj c \<longleftrightarrow> length c \<ge> 2 \<and> hd c = last c \<and> successively (\<lambda>a b. (a, b) \<in> edges adj) c"

abbreviation blacks :: "Search \<Rightarrow> string set" where
  "blacks st \<equiv> {n. colours st n = black}"

abbreviation grays :: "Search \<Rightarrow> string set" where
  "grays st \<equiv> {n. colours st n = gray}"

text \<open>As long as no cycle is recorded, the black nodes are closed under edges and carry no cycle.\<close>

definition search_inv :: "adjacency \<Rightarrow> string list \<Rightarrow> Search \<Rightarrow> bool" where
  "search_inv adj path st \<longleftrightarrow>
     grays st = set path \<and> distinct path \<and> successively (\<lambda>a b. (a, b) \<in> edges adj) path \<and> set path \<subseteq> set (graphNodes adj) \<and>
     (\<forall>c \<in> set (cycles st). closedWalk adj c) \<and> (cycles st = [] \<longrightarrow> seenCycles st = []) \<and>
     (cycles st = [] \<longrightarrow> edges adj `` blacks st \<subseteq> blacks st \<and> acyclic (edges adj \<inter> blacks st \<times> UNIV))"

definition advances :: "Search \<Rightarrow> Search \<Rightarrow> bool" where
  "advances st st' \<longleftrightarrow> blacks st \<subseteq> blacks st' \<and> (cycles st' = [] \<longrightarrow> cycles st = [])"

lemma advances_refl [simp]: "advances st st"
  by (simp add: advances_def)

lemma advances_trans: "advances a b \<Longrightarrow> advances b c \<Longrightarrow> advances a c"
  by (auto simp: advances_def)

lemma successively_last_append:
  "successively P (xs @ [y]) \<longleftrightarrow> successively P xs \<and> (xs = [] \<or> P (last xs) y)"
  by (auto simp: successively_append_iff)

lemma closedWalk_cyclic:
  assumes "closedWalk adj c"
  shows "\<not> acyclic (edges adj)"
proof -
  have walk: "successively (\<lambda>a b. (a, b) \<in> r) (x # xs) \<Longrightarrow> xs \<noteq> [] \<Longrightarrow> (x, last xs) \<in> r\<^sup>+" for x xs and r :: "('a \<times> 'a) set"
    by (induction xs arbitrary: x) (auto simp: successively_Cons intro: trancl_into_trancl2)
  from assms obtain x xs where "c = x # xs" "xs \<noteq> []" by (auto simp: closedWalk_def Suc_le_length_iff numeral_2_eq_2)
  with assms walk [of "edges adj" x xs] show ?thesis by (auto simp: closedWalk_def acyclic_def)
qed

lemma cyclePath_closed:
  assumes "successively (\<lambda>a b. (a, b) \<in> edges adj) path" "nxt \<in> set path" "(last path, nxt) \<in> edges adj"
  shows "closedWalk adj (cyclePath path nxt)"
proof -
  obtain us vs where p: "path = us @ nxt # vs" "nxt \<notin> set us" using assms(2) by (meson split_list_first)
  then have "takeWhile (\<lambda>n. n \<noteq> nxt) path = us" by (auto simp: takeWhile_append)
  then have "cyclePath path nxt = (nxt # vs) @ [nxt]" using assms(2) p by (simp add: cyclePath_def Let_def)
  with assms(1,3) p(1) show ?thesis
    by (auto simp: closedWalk_def successively_append_iff successively_Cons split: if_splits)
qed

lemma edges_graphNodes: "(a, b) \<in> edges adj \<Longrightarrow> a \<in> set (graphNodes adj) \<and> b \<in> set (graphNodes adj)"
proof -
  assume "(a, b) \<in> edges adj"
  then obtain ns where "map_of adj a = Some ns" "b \<in> set ns" by (cases "map_of adj a") (auto simp: edges_def neighbours_def)
  then have "(a, ns) \<in> set adj" "b \<in> set ns" by (auto dest: map_of_SomeD)
  then show ?thesis unfolding graphNodes_def set_remdups set_append set_map set_concat by force
qed

lemma edges_source: "(a, b) \<in> edges adj \<Longrightarrow> a \<in> set (map fst adj)"
  by (cases "map_of adj a") (auto simp: edges_def neighbours_def dest!: map_of_SomeD intro: rev_image_eqI)

lemma trancl_within:
  assumes "(x, y) \<in> (E \<inter> insert n B \<times> UNIV)\<^sup>+" and "E `` B \<subseteq> B" and "n \<notin> B" and "x \<in> B"
  shows "y \<in> B \<and> (x, y) \<in> (E \<inter> B \<times> UNIV)\<^sup>+"
  using assms(1,4)
proof (induction rule: trancl_induct)
  case (base y)
  with assms(2) show ?case by auto
next
  case (step y z)
  then have "y \<in> B" "(x, y) \<in> (E \<inter> B \<times> UNIV)\<^sup>+" by auto
  with step.hyps(2) assms(2,3) show ?case by (auto intro: trancl_into_trancl)
qed

lemma acyclic_insert_source:
  assumes "acyclic (E \<inter> B \<times> UNIV)" "E `` B \<subseteq> B" "n \<notin> B" "E `` {n} \<subseteq> B"
  shows "acyclic (E \<inter> insert n B \<times> UNIV)"
  unfolding acyclic_def
proof (intro allI notI)
  fix x assume x: "(x, x) \<in> (E \<inter> insert n B \<times> UNIV)\<^sup>+"
  show False
  proof (cases "x \<in> B")
    case True
    from trancl_within [OF x assms(2,3) True] assms(1) show False by (auto simp: acyclic_def)
  next
    case False
    from x obtain y where y: "(x, y) \<in> E \<inter> insert n B \<times> UNIV" "(y, x) \<in> (E \<inter> insert n B \<times> UNIV)\<^sup>*" by (meson tranclD)
    with False assms(4) have "y \<in> B" by auto
    with y(2) False obtain "(y, x) \<in> (E \<inter> insert n B \<times> UNIV)\<^sup>+" by (auto simp: rtrancl_eq_or_trancl)
    from trancl_within [OF this assms(2,3) \<open>y \<in> B\<close>] False show False by simp
  qed
qed

lemma recordCycle_inv:
  assumes "search_inv adj path st" "colours st nxt = gray" "path \<noteq> []" "(last path, nxt) \<in> edges adj"
  shows "search_inv adj path (recordCycle path nxt st) \<and> advances st (recordCycle path nxt st) \<and> cycles (recordCycle path nxt st) \<noteq> []"
proof -
  have "nxt \<in> set path" using assms(1,2) by (auto simp: search_inv_def)
  with assms have "closedWalk adj (cyclePath path nxt)" by (intro cyclePath_closed) (auto simp: search_inv_def)
  with assms(1) show ?thesis by (auto simp: search_inv_def recordCycle_def Let_def advances_def)
qed

lemma dfsLoop_ok:
  assumes visit: "\<And>nxt st. search_inv adj path st \<Longrightarrow> colours st nxt = white \<Longrightarrow> (last path, nxt) \<in> edges adj \<Longrightarrow>
      \<exists>st'. visit nxt st = Some st' \<and> search_inv adj path st' \<and> advances st st' \<and> colours st' nxt = black"
    and "path \<noteq> []" "search_inv adj path st" "set rest \<subseteq> edges adj `` {last path}"
  shows "\<exists>st'. dfsLoop visit path rest st = Some st' \<and> search_inv adj path st' \<and> advances st st' \<and> (cycles st' = [] \<longrightarrow> set rest \<subseteq> blacks st')"
  using assms(3,4)
proof (induction rest arbitrary: st)
  case Nil
  then show ?case by simp
next
  case (Cons nxt rest)
  have e: "(last path, nxt) \<in> edges adj" using Cons.prems(2) by auto
  have step: "\<exists>st1. dfsLoop visit path (nxt # rest) st = dfsLoop visit path rest st1 \<and> search_inv adj path st1 \<and> advances st st1 \<and>
      (cycles st1 = [] \<longrightarrow> colours st1 nxt = black)"
  proof (cases "colours st nxt")
    case white
    from visit [OF Cons.prems(1) white e] white show ?thesis by auto
  next
    case gray
    with recordCycle_inv [OF Cons.prems(1) gray \<open>path \<noteq> []\<close> e] show ?thesis by auto
  next
    case black
    with Cons.prems(1) show ?thesis by (auto intro!: exI [of _ st])
  qed
  then obtain st1 where st1: "dfsLoop visit path (nxt # rest) st = dfsLoop visit path rest st1" "search_inv adj path st1" "advances st st1"
    "cycles st1 = [] \<longrightarrow> colours st1 nxt = black" by blast
  from Cons.IH [OF st1(2)] Cons.prems(2) obtain st' where "dfsLoop visit path rest st1 = Some st'" "search_inv adj path st'" "advances st1 st'"
    "cycles st' = [] \<longrightarrow> set rest \<subseteq> blacks st'" by auto
  with st1 show ?case by (auto simp: advances_def)
qed

lemma paint_gray_inv:
  assumes "search_inv adj path st" "colours st n = white" "path = [] \<or> (last path, n) \<in> edges adj" "n \<in> set (graphNodes adj)"
  shows "search_inv adj (path @ [n]) (paint n gray st)"
proof -
  have "blacks (paint n gray st) = blacks st" "grays (paint n gray st) = insert n (grays st)" using assms(2) by (auto simp: paint_def)
  moreover have "n \<notin> set path" using assms(1,2) unfolding search_inv_def by (metis (mono_tags, lifting) colour.distinct(1) mem_Collect_eq)
  ultimately show ?thesis using assms by (auto simp: search_inv_def successively_last_append paint_def)
qed

lemma paint_black_inv:
  assumes "search_inv adj (path @ [n]) st" and "cycles st = [] \<longrightarrow> set (neighbours adj n) \<subseteq> blacks st"
  shows "search_inv adj path (paint n black st)"
proof -
  have n: "n \<in> grays st" "n \<notin> set path" using assms(1) by (auto simp: search_inv_def)
  have b: "blacks (paint n black st) = insert n (blacks st)" "grays (paint n black st) = grays st - {n}" by (auto simp: paint_def)
  have "edges adj `` insert n (blacks st) \<subseteq> insert n (blacks st)" "acyclic (edges adj \<inter> insert n (blacks st) \<times> UNIV)" if "cycles st = []"
  proof -
    have c: "edges adj `` blacks st \<subseteq> blacks st" "acyclic (edges adj \<inter> blacks st \<times> UNIV)" using assms(1) that by (auto simp: search_inv_def)
    have s: "edges adj `` {n} \<subseteq> blacks st" using assms(2) that by (auto simp: edges_def)
    from c s show "edges adj `` insert n (blacks st) \<subseteq> insert n (blacks st)" by blast
    show "acyclic (edges adj \<inter> insert n (blacks st) \<times> UNIV)" by (rule acyclic_insert_source [OF c(2,1) _ s]) (use n in auto)
  qed
  with assms(1) n b show ?thesis
    unfolding search_inv_def b by (auto simp: successively_last_append paint_def)
qed

lemma dfs_ok:
  assumes "search_inv adj path st" "colours st n = white" "path = [] \<or> (last path, n) \<in> edges adj" "n \<in> set (graphNodes adj)"
    and "length (graphNodes adj) < d + length path"
  shows "\<exists>st'. dfs d adj path n st = Some st' \<and> search_inv adj path st' \<and> advances st st' \<and> colours st' n = black"
  using assms
proof (induction d arbitrary: path n st)
  case 0
  have "card (set path) = length path" "set path \<subseteq> set (graphNodes adj)" using 0 by (auto simp: search_inv_def distinct_card)
  then have "length path \<le> length (graphNodes adj)" by (metis card_length card_mono finite_set order.trans)
  with 0 show ?case by simp
next
  case (Suc d)
  let ?path = "path @ [n]"
  have visit: "\<exists>st'. dfs d adj ?path nxt st1 = Some st' \<and> search_inv adj ?path st' \<and> advances st1 st' \<and> colours st' nxt = black"
    if "search_inv adj ?path st1" "colours st1 nxt = white" "(last ?path, nxt) \<in> edges adj" for st1 nxt
    using that Suc.prems(5) edges_graphNodes by (intro Suc.IH) auto
  from dfsLoop_ok [OF visit _ paint_gray_inv [OF Suc.prems(1-4)], of "neighbours adj n"] obtain st2 where
    st2: "dfsLoop (dfs d adj ?path) ?path (neighbours adj n) (paint n gray st) = Some st2" "search_inv adj ?path st2"
      "advances (paint n gray st) st2" "cycles st2 = [] \<longrightarrow> set (neighbours adj n) \<subseteq> blacks st2"
    by (auto simp: edges_def)
  have "advances st (paint n black st2)" using st2(3) Suc.prems(2) by (auto simp: advances_def paint_def)
  with st2 paint_black_inv [OF st2(2,4)] show ?case by (auto simp: paint_def)
qed

lemma searchRoots_ok:
  assumes "search_inv adj [] st" "set roots \<subseteq> set (graphNodes adj)" "length (graphNodes adj) < d"
  shows "\<exists>st'. searchRoots d adj roots st = Some st' \<and> search_inv adj [] st' \<and> advances st st' \<and> set roots \<subseteq> blacks st'"
  using assms
proof (induction roots arbitrary: st)
  case Nil
  then show ?case by simp
next
  case (Cons n ns)
  have "\<exists>st1. searchRoots d adj (n # ns) st = searchRoots d adj ns st1 \<and> search_inv adj [] st1 \<and> advances st st1 \<and> colours st1 n = black"
  proof (cases "colours st n")
    case white
    with dfs_ok [OF Cons.prems(1) white, of d] Cons.prems show ?thesis by auto
  next
    case gray
    with Cons.prems(1) show ?thesis by (auto simp: search_inv_def)
  next
    case black
    with Cons.prems show ?thesis by (auto intro!: exI [of _ st])
  qed
  then obtain st1 where st1: "searchRoots d adj (n # ns) st = searchRoots d adj ns st1" "search_inv adj [] st1" "advances st st1" "colours st1 n = black"
    by blast
  from Cons.IH [OF st1(2)] Cons.prems obtain st' where "searchRoots d adj ns st1 = Some st'" "search_inv adj [] st'" "advances st1 st'" "set ns \<subseteq> blacks st'"
    by auto
  with st1 show ?case by (auto simp: advances_def)
qed

lemma search_exact:
  assumes "set (map fst adj) = set roots" "length (graphNodes adj) < d"
  shows "\<exists>st. searchRoots d adj roots unsearched = Some st \<and> (cycles st = [] \<longleftrightarrow> acyclic (edges adj)) \<and> (\<forall>c \<in> set (cycles st). closedWalk adj c)"
proof -
  have "search_inv adj [] unsearched" by (simp add: search_inv_def unsearched_def wf_acyclic)
  moreover have "set roots \<subseteq> set (graphNodes adj)" using assms(1) by (auto simp: graphNodes_def)
  ultimately obtain st where st: "searchRoots d adj roots unsearched = Some st" "search_inv adj [] st" "set roots \<subseteq> blacks st"
    using searchRoots_ok assms(2) by blast
  have "edges adj \<subseteq> blacks st \<times> UNIV" using st(3) edges_source [of _ _ adj] unfolding assms(1) by auto
  then have "edges adj \<inter> blacks st \<times> UNIV = edges adj" by auto
  with st(2) have "cycles st = [] \<longrightarrow> acyclic (edges adj)" "\<forall>c \<in> set (cycles st). closedWalk adj c" by (auto simp: search_inv_def)
  moreover from this(2) have "cycles st \<noteq> [] \<Longrightarrow> \<not> acyclic (edges adj)" using closedWalk_cyclic last_in_set by metis
  ultimately show ?thesis using st(1) by blast
qed

text \<open>C28: The cycle search returns, it reports nothing exactly if the graph is acyclic, and everything it
  reports is a closed walk along the edges.\<close>

theorem cycle_search_exact:
  "cycleSearch adj \<noteq> None \<and> (findAllCycles adj = [] \<longleftrightarrow> acyclic (edges adj)) \<and> (\<forall>c \<in> set (findAllCycles adj). closedWalk adj c)"
  using search_exact [of adj "sort (map fst adj)" "searchDepth adj"]
  by (auto simp: cycleSearch_def findAllCycles_def searchDepth_def)

lemma closed_example:
  "findAllCycles [(''a'', [''b'']), (''b'', [''a''])] = [[''a'', ''b'', ''a'']]" "findAllCycles [(''a'', [''b''])] = []"
  by code_simp+

theorem cycle_search_exact_witness:
  "acyclic (edges [(''a'', [''b''])]) \<and> closedWalk [(''a'', [''b'']), (''b'', [''a''])] [''a'', ''b'', ''a'']"
  using cycle_search_exact [of "[(''a'', [''b''])]"] cycle_search_exact [of "[(''a'', [''b'']), (''b'', [''a''])]"] closed_example by simp

subsection \<open>The first cycle\<close>

text \<open>The search that stops early agrees with the full one until a cycle is found.\<close>

definition agrees :: "(string list option \<times> (string \<Rightarrow> colour)) option \<Rightarrow> Search option \<Rightarrow> bool" where
  "agrees r s \<longleftrightarrow> (\<exists>found col st. r = Some (found, col) \<and> s = Some st \<and> (found = None \<longleftrightarrow> cycles st = []) \<and> (found = None \<longrightarrow> col = colours st))"

lemma firstLoop_agrees:
  assumes visit: "\<And>nxt st. search_inv adj (path @ [n]) st \<Longrightarrow> colours st nxt = white \<Longrightarrow> (n, nxt) \<in> edges adj \<Longrightarrow> cycles st = [] \<Longrightarrow>
      agrees (visit' nxt (colours st)) (visit nxt st)"
    and ok: "\<And>nxt st. search_inv adj (path @ [n]) st \<Longrightarrow> colours st nxt = white \<Longrightarrow> (n, nxt) \<in> edges adj \<Longrightarrow>
      \<exists>st'. visit nxt st = Some st' \<and> search_inv adj (path @ [n]) st' \<and> advances st st' \<and> colours st' nxt = black"
    and "search_inv adj (path @ [n]) st" "set rest \<subseteq> edges adj `` {n}" "cycles st = []"
  shows "agrees (firstLoop visit' path n rest (colours st)) (dfsLoop visit (path @ [n]) rest st)"
  using assms(3-5)
proof (induction rest arbitrary: st)
  case Nil
  then show ?case by (simp add: agrees_def)
next
  case (Cons nxt rest)
  have e: "(n, nxt) \<in> edges adj" using Cons.prems(2) by auto
  have rest_ok: "\<exists>st'. dfsLoop visit (path @ [n]) rest st1 = Some st' \<and> advances st1 st'" if "search_inv adj (path @ [n]) st1" for st1
    using dfsLoop_ok [of adj "path @ [n]" visit st1 rest] ok that Cons.prems(2) by auto
  show ?case
  proof (cases "colours st nxt")
    case white
    from ok [OF Cons.prems(1) white e] obtain st1 where st1: "visit nxt st = Some st1" "search_inv adj (path @ [n]) st1" by blast
    from visit [OF Cons.prems(1) white e Cons.prems(3)] st1(1) obtain found col where
      v: "visit' nxt (colours st) = Some (found, col)" "found = None \<longleftrightarrow> cycles st1 = []" "found = None \<longrightarrow> col = colours st1"
      by (auto simp: agrees_def)
    show ?thesis
    proof (cases found)
      case None
      with v white st1 Cons.IH [OF st1(2)] Cons.prems(2) show ?thesis by auto
    next
      case (Some cyc)
      with v white st1 rest_ok [OF st1(2)] show ?thesis by (auto simp: agrees_def advances_def)
    qed
  next
    case gray
    with recordCycle_inv [OF Cons.prems(1) gray _ ] e rest_ok [of "recordCycle (path @ [n]) nxt st"] show ?thesis
      by (auto simp: agrees_def advances_def)
  next
    case black
    with Cons show ?thesis by auto
  qed
qed

lemma firstDfs_agrees:
  assumes "search_inv adj path st" "colours st n = white" "path = [] \<or> (last path, n) \<in> edges adj" "n \<in> set (graphNodes adj)"
    and "length (graphNodes adj) < d + length path" "cycles st = []"
  shows "agrees (firstDfs d adj path n (colours st)) (dfs d adj path n st)"
  using assms
proof (induction d arbitrary: path n st)
  case 0
  with dfs_ok [OF 0(1-5)] show ?case by auto
next
  case (Suc d)
  have "agrees (firstLoop (firstDfs d adj (path @ [n])) path n (neighbours adj n) (colours (paint n gray st)))
      (dfsLoop (dfs d adj (path @ [n])) (path @ [n]) (neighbours adj n) (paint n gray st))"
  proof (rule firstLoop_agrees)
    show "search_inv adj (path @ [n]) (paint n gray st)" by (rule paint_gray_inv [OF Suc.prems(1-4)])
    show "set (neighbours adj n) \<subseteq> edges adj `` {n}" "cycles (paint n gray st) = []" using Suc.prems(6) by (auto simp: edges_def paint_def)
  next
    fix nxt st1 assume "search_inv adj (path @ [n]) st1" "colours st1 nxt = white" "(n, nxt) \<in> edges adj"
    with Suc.prems(5) edges_graphNodes [of n nxt adj] show "cycles st1 = [] \<Longrightarrow> agrees (firstDfs d adj (path @ [n]) nxt (colours st1)) (dfs d adj (path @ [n]) nxt st1)"
      "\<exists>st'. dfs d adj (path @ [n]) nxt st1 = Some st' \<and> search_inv adj (path @ [n]) st' \<and> advances st1 st' \<and> colours st' nxt = black"
      by (auto intro!: Suc.IH dfs_ok)
  qed
  then show ?case by (auto simp: agrees_def paint_def)
qed

lemma firstRoots_agrees:
  assumes "search_inv adj [] st" "set roots \<subseteq> set (graphNodes adj)" "length (graphNodes adj) < d" "cycles st = []"
  shows "\<exists>found st'. firstRoots d adj roots (colours st) = Some found \<and> searchRoots d adj roots st = Some st' \<and> (found = None \<longleftrightarrow> cycles st' = [])"
  using assms
proof (induction roots arbitrary: st)
  case Nil
  then show ?case by simp
next
  case (Cons n ns)
  show ?case
  proof (cases "colours st n = white")
    case True
    from dfs_ok [OF Cons.prems(1) True, of d] Cons.prems obtain st1 where st1: "dfs d adj [] n st = Some st1" "search_inv adj [] st1" by auto
    from firstDfs_agrees [OF Cons.prems(1) True, of d] Cons.prems st1(1) obtain found col where
      f: "firstDfs d adj [] n (colours st) = Some (found, col)" "found = None \<longleftrightarrow> cycles st1 = []" "found = None \<longrightarrow> col = colours st1"
      by (auto simp: agrees_def)
    show ?thesis
    proof (cases found)
      case None
      with f st1 True Cons.IH [OF st1(2)] Cons.prems show ?thesis by auto
    next
      case (Some cyc)
      from searchRoots_ok [OF st1(2), of ns d] Cons.prems obtain st' where "searchRoots d adj ns st1 = Some st'" "advances st1 st'" by auto
      with Some f st1 True show ?thesis by (auto simp: advances_def)
    qed
  next
    case False
    with Cons show ?thesis by auto
  qed
qed

lemma first_cycle_exact: "firstCycleSearch adj \<noteq> None \<and> (firstCycle adj = None \<longleftrightarrow> acyclic (edges adj))"
proof -
  have inv: "search_inv adj [] unsearched" "cycles unsearched = []" by (simp_all add: search_inv_def unsearched_def wf_acyclic)
  have sub: "set (map fst adj) \<subseteq> set (graphNodes adj)" "length (graphNodes adj) < searchDepth adj" by (auto simp: graphNodes_def searchDepth_def)
  from firstRoots_agrees [OF inv(1) sub inv(2)] search_exact [OF refl sub(2)] show ?thesis
    by (auto simp: firstCycle_def firstCycleSearch_def unsearched_def)
qed

end
