(* ===== verification/Holds_Checks.thy ===== *)
theory Holds_Checks
  imports Directive_Checks Cycle_Search
begin

text \<open>
  Checks of co-holdership and fan-out (\<open>lib/graph/node/template_validator_holds.go\<close>). The Go map of holds is
  walked in the order of its association list.
\<close>

subsection \<open>Aliases\<close>

definition storeAliasDeclared :: "TemplateNodeDef \<Rightarrow> string \<Rightarrow> bool" where
  "storeAliasDeclared n aliasName = list_ex (\<lambda>s. AliasOf s = aliasName) (ClaimProducers n)"

definition EffectiveHoldsLocalAlias :: "string \<Rightarrow> HoldsBinding \<Rightarrow> string" where
  "EffectiveHoldsLocalAlias aliasName binding = (let as = TrimSpace (As binding) in if as \<noteq> [] then as else aliasName)"

definition resolveHeldClaimByLocalAlias :: "TemplateNodeDef \<Rightarrow> string \<Rightarrow> (string \<times> HoldsBinding) option" where
  "resolveHeldClaimByLocalAlias n localAlias = List.find (\<lambda>(a, b). EffectiveHoldsLocalAlias a b = localAlias) (Holds n)"

definition validateHoldsLocalAliasCollisions :: "TemplateNodeDef \<Rightarrow> string \<Rightarrow> report" where
  "validateHoldsLocalAliasCollisions n base =
     (let localAliases = sort (remdups (map (\<lambda>(a, b). EffectiveHoldsLocalAlias a b) (Holds n))) in
      concat (map (\<lambda>localAlias.
        let aliases = map fst (filter (\<lambda>(a, b). EffectiveHoldsLocalAlias a b = localAlias) (Holds n)) in
        if length aliases < 2 then []
        else [Error (base @ ''.holds'') ''holds_local_alias_collision'' [Join (sort aliases) '', '', localAlias]]) localAliases))"

subsection \<open>Holds\<close>

definition validateHold :: "TemplateNodeDef \<Rightarrow> string \<Rightarrow> TemplateSpec \<Rightarrow> (string \<times> nat) list \<Rightarrow> string \<Rightarrow> HoldsBinding \<Rightarrow> report" where
  "validateHold n base t declared aliasName binding =
     (let hbase = keyed_path (base @ ''.holds'') aliasName; from = TrimSpace (From binding) in
      if from = [] then [Error (hbase @ ''.from'') ''from is required'' []]
      else if from = Type n then [Error (hbase @ ''.from'') ''holds_from_not_dependency'' [from]]
      else case map_of declared from of
        None \<Rightarrow> [Error (hbase @ ''.from'') ''holds_from_undeclared'' [from]]
      | Some senderIdx \<Rightarrow>
          if storeAliasDeclared (Nodes t ! senderIdx) aliasName then []
          else [Error hbase ''holds_unknown_claim_alias'' [from, aliasName]])"

definition validateHolds :: "TemplateNodeDef \<Rightarrow> string \<Rightarrow> TemplateSpec \<Rightarrow> (string \<times> nat) list \<Rightarrow> report" where
  "validateHolds n base t declared =
     (if Holds n = [] then []
      else validateHoldsLocalAliasCollisions n base @
        concat (map (\<lambda>(aliasName, binding). validateHold n base t declared aliasName binding) (Holds n)))"

text \<open>The edges from a node to the nodes it holds from.\<close>

definition holdsPairs :: "TemplateSpec \<Rightarrow> (string \<times> string) list" where
  "holdsPairs t =
     concat (map (\<lambda>n. concat (map (\<lambda>(aliasName, binding).
       let from = TrimSpace (From binding) in if from = [] \<or> from = Type n then [] else [(Type n, from)]) (Holds n))) (Nodes t))"

definition appendNeighbour :: "string \<times> string \<Rightarrow> adjacency \<Rightarrow> adjacency" where
  "appendNeighbour e adj = (case e of (a, b) \<Rightarrow> AList.update a (neighbours adj a @ [b]) adj)"

definition holdsEdges :: "TemplateSpec \<Rightarrow> adjacency" where
  "holdsEdges t = fold appendNeighbour (holdsPairs t) []"

definition validateHoldsAcyclic :: "TemplateSpec \<Rightarrow> report" where
  "validateHoldsAcyclic t =
     (case firstCycle (holdsEdges t) of
        None \<Rightarrow> []
      | Some cyc \<Rightarrow> [Error ''nodes'' ''holds_from_not_dependency: cycle'' [Join cyc '' -> '']])"

subsection \<open>Fan-out\<close>

definition producerNamed :: "TemplateNodeDef \<Rightarrow> string \<Rightarrow> string" where
  "producerNamed n aliasName = (case List.find (\<lambda>s. AliasOf s = aliasName) (ClaimProducers n) of None \<Rightarrow> [] | Some s \<Rightarrow> refName s)"

definition fanOutProducer :: "TemplateNodeDef \<Rightarrow> string \<Rightarrow> TemplateSpec \<Rightarrow> (string \<times> nat) list \<Rightarrow> string option" where
  "fanOutProducer n claim t declared =
     (if storeAliasDeclared n claim then Some (producerNamed n claim)
      else case resolveHeldClaimByLocalAlias n claim of
        Some (senderAlias, binding) \<Rightarrow>
          (case map_of declared (From binding) of
             None \<Rightarrow> Some []
           | Some senderIdx \<Rightarrow> Some (producerNamed (Nodes t ! senderIdx) senderAlias))
      | None \<Rightarrow> None)"

definition validateFanOut :: "TemplateNodeDef \<Rightarrow> string \<Rightarrow> TemplateSpec \<Rightarrow> (string \<times> nat) list \<Rightarrow> RegistryHooks \<Rightarrow> report" where
  "validateFanOut n base t declared hooks =
     (case FanOut n of
        None \<Rightarrow> []
      | Some fo \<Rightarrow>
          let fbase = base @ ''.fan_out''; claim = TrimSpace (foClaim fo) in
          if claim = [] then [Error (fbase @ ''.claim'') ''claim is required'' []]
          else case fanOutProducer n claim t declared of
            None \<Rightarrow> [Error (fbase @ ''.claim'') ''fan_out_unknown_claim_alias'' [claim]]
          | Some producerName \<Rightarrow>
              (case ClaimProducerAdvertisesSplitScope hooks of
                 None \<Rightarrow> []
               | Some advertises \<Rightarrow>
                   if producerName \<noteq> [] \<and> \<not> advertises producerName
                   then [Error (fbase @ ''.claim'') ''fan_out requires supports_split_scope'' [producerName]] else []) @
              (case Kind (foErrorPolicy fo) of
                 AggregationKindOther k \<Rightarrow> [Error (fbase @ ''.error_policy.kind'') ''error_policy.kind is not valid'' [k]]
               | _ \<Rightarrow> []) @
              (if Kind (foErrorPolicy fo) = AggregationKindThreshold \<and> MaxFailures (foErrorPolicy fo) \<le> 0
               then [Error (fbase @ ''.error_policy.max_failures'') ''max_failures must be > 0'' []] else []) @
              (if Parallelism fo < 0 then [Error (fbase @ ''.parallelism'') ''parallelism must be >= 0'' []] else []) @
              (if TrimSpace (PartitionRequest fo) = [] then [Error (fbase @ ''.partition_request'') ''partition_request is required'' []] else []))"

subsection \<open>What accepted holds guarantee\<close>

lemma neighbours_update: "neighbours (AList.update a ns adj) x = (if x = a then ns else neighbours adj x)"
  by (simp add: neighbours_def update_conv')

lemma neighbours_appendNeighbour:
  "set (neighbours (appendNeighbour (a, b) adj) x) = set (neighbours adj x) \<union> (if x = a then {b} else {})"
  by (simp add: appendNeighbour_def neighbours_update)

lemma edges_appendNeighbour: "edges (appendNeighbour e adj) = insert e (edges adj)"
proof -
  obtain a b where e: "e = (a, b)" by (cases e)
  show ?thesis unfolding edges_def e neighbours_appendNeighbour by (auto split: if_splits)
qed

lemma edges_fold_append: "edges (fold appendNeighbour ps adj) = set ps \<union> edges adj"
  by (induction ps arbitrary: adj) (auto simp: edges_appendNeighbour)

lemma edges_holdsEdges: "edges (holdsEdges t) = set (holdsPairs t)"
  by (simp add: holdsEdges_def edges_fold_append) (simp add: edges_def neighbours_def)

lemma validateHoldsAcyclic_Ok: "Ok (validateHoldsAcyclic t) \<longleftrightarrow> acyclic (set (holdsPairs t))"
  using first_cycle_exact [of "holdsEdges t"]
  by (auto simp: validateHoldsAcyclic_def edges_holdsEdges split: option.split)

lemma validateHolds_Ok:
  assumes "Ok (validateHolds n base t declared)" and "(aliasName, binding) \<in> set (Holds n)"
  shows "\<exists>i. map_of declared (TrimSpace (From binding)) = Some i \<and> TrimSpace (From binding) \<noteq> Type n \<and> storeAliasDeclared (Nodes t ! i) aliasName"
proof -
  have "Ok (validateHold n base t declared aliasName binding)" using assms by (auto simp: validateHolds_def split: if_splits)
  then show ?thesis by (auto simp: validateHold_def Let_def split: if_splits option.splits)
qed

lemma distinct_map_filter_singleton:
  assumes "\<And>y. y \<in> f ` set xs \<Longrightarrow> length (filter (\<lambda>x. f x = y) xs) < 2"
  shows "distinct (map f xs)"
  using assms
proof (induction xs)
  case (Cons x xs)
  have "f x \<notin> f ` set xs"
  proof
    assume "f x \<in> f ` set xs"
    then have "filter (\<lambda>z. f z = f x) xs \<noteq> []" by (auto simp: filter_empty_conv)
    then have "length (filter (\<lambda>z. f z = f x) (x # xs)) \<ge> 2" by (cases "filter (\<lambda>z. f z = f x) xs") auto
    with Cons.prems [of "f x"] show False by simp
  qed
  moreover have "distinct (map f xs)"
  proof (rule Cons.IH)
    fix y assume "y \<in> f ` set xs"
    with Cons.prems [of y] show "length (filter (\<lambda>x. f x = y) xs) < 2" by (auto split: if_splits)
  qed
  ultimately show ?case by simp
qed simp

lemma validateHolds_local_aliases:
  assumes "Ok (validateHolds n base t declared)"
  shows "distinct (map (\<lambda>(a, b). EffectiveHoldsLocalAlias a b) (Holds n))"
proof (rule distinct_map_filter_singleton)
  fix y assume "y \<in> (\<lambda>(a, b). EffectiveHoldsLocalAlias a b) ` set (Holds n)"
  then have "Holds n \<noteq> []" "y \<in> set (sort (remdups (map (\<lambda>(a, b). EffectiveHoldsLocalAlias a b) (Holds n))))" by auto
  then have "length (map fst (filter (\<lambda>(a, b). EffectiveHoldsLocalAlias a b = y) (Holds n))) < 2"
    using assms by (auto simp: validateHolds_def validateHoldsLocalAliasCollisions_def Let_def split: if_splits)
  then show "length (filter (\<lambda>x. (case x of (a, b) \<Rightarrow> EffectiveHoldsLocalAlias a b) = y) (Holds n)) < 2"
    by (simp add: case_prod_unfold)
qed

end
