(* ===== verification/Graph_Canonical.thy ===== *)
theory Graph_Canonical
  imports Holds_Checks
begin

text \<open>
  Sub-graphs (\<open>lib/graph/node/template_validator_graphs.go\<close>): the graphs of a template are checked and flattened
  into its node list, a delegating node absorbs the entry of the sub-graph it delegates to, and
  sub-graphs have to be connected and self-contained. Paths with \<open>%q\<close> are written with plain
  quotes.
\<close>

definition quotedKey :: "string \<Rightarrow> string \<Rightarrow> string" where
  "quotedKey base k = base @ ''['' @ [CHR 0x22] @ k @ [CHR 0x22] @ '']''"

subsection \<open>Shape\<close>

definition graphTypes :: "GraphSpec \<Rightarrow> string list" where
  "graphTypes g = filter (\<lambda>ty. ty \<noteq> []) (map Type (GraphNodes g))"

definition validateGraphShape :: "GraphSpec \<Rightarrow> string \<Rightarrow> report" where
  "validateGraphShape g base =
     (let hasEntry = TrimSpace (Entry g) \<noteq> []; hasExit = TrimSpace (Exit g) \<noteq> []; name = GraphSpecName g in
      if name = MainGraphName then
        (if hasEntry \<or> hasExit then [Error base ''subgraph_main_has_entry_or_exit'' [name]] else [])
      else
        (if hasEntry then [] else [Error (base @ ''.entry'') ''subgraph_missing_entry'' [name]]) @
        (if hasExit then [] else [Error (base @ ''.exit'') ''subgraph_missing_exit'' [name]]) @
        (if hasEntry \<and> hasExit \<and> Entry g = Exit g then [Error base ''subgraph_entry_equals_exit'' [name, Entry g]] else []) @
        (if hasEntry \<and> Entry g \<notin> set (graphTypes g) then [Error (base @ ''.entry'') ''subgraph_unknown_entry'' [name, Entry g]] else []) @
        (if hasExit \<and> Exit g \<notin> set (graphTypes g) then [Error (base @ ''.exit'') ''subgraph_unknown_exit'' [name, Exit g]] else []))"

fun checkGraphs :: "nat \<Rightarrow> (string \<times> nat) list \<Rightarrow> GraphSpec list \<Rightarrow> report \<times> (string \<times> nat) list" where
  "checkGraphs i graphByName [] = ([], graphByName)"
| "checkGraphs i graphByName (g # gs) =
     (let base = indexed ''graphs'' i; name = GraphSpecName g in
      if name = [] then
        (let (r, idx) = checkGraphs (i + 1) graphByName gs in (Error (base @ ''.name'') ''graph name is required'' [] # r, idx))
      else case map_of graphByName name of
        Some prev \<Rightarrow>
          (let (r, idx) = checkGraphs (i + 1) graphByName gs in (Error (base @ ''.name'') ''duplicate graph name'' [name, itoa prev] # r, idx))
      | None \<Rightarrow>
          (let (r, idx) = checkGraphs (i + 1) ((name, i) # graphByName) gs in (validateGraphShape g base @ r, idx)))"

subsection \<open>Absorption\<close>

definition buildEntryIndex :: "GraphSpec list \<Rightarrow> (string \<times> TemplateNodeDef) list" where
  "buildEntryIndex gs =
     fold (\<lambda>g out. if GraphSpecName g = MainGraphName \<or> Entry g = [] then out
        else case List.find (\<lambda>n. Type n = Entry g) (GraphNodes g) of
          None \<Rightarrow> out | Some n \<Rightarrow> AList.update (GraphSpecName g) n out) gs []"

definition resolvedEntryExecutor :: "TemplateNodeDef \<Rightarrow> KindAliasMap option \<Rightarrow> string" where
  "resolvedEntryExecutor entry aliases =
     (case aliases of
        None \<Rightarrow> Executor entry
      | Some m \<Rightarrow>
          if Executor entry \<noteq> [] \<or> nodeKind entry = [] then Executor entry
          else (case Resolve m (nodeKind entry) of Some a \<Rightarrow> a | None \<Rightarrow> Executor entry))"

definition storeRefIdentical :: "NodeClaimProducerRef \<Rightarrow> NodeClaimProducerRef \<Rightarrow> bool" where
  "storeRefIdentical a b \<longleftrightarrow>
     refName a = refName b \<and> refSelector a = refSelector b \<and> refIntent a = refIntent b \<and>
     refAlias a = refAlias b \<and> refLifetime a = refLifetime b \<and> refData a = refData b"

fun mergeProducersLoop ::
  "string \<Rightarrow> NodeClaimProducerRef list \<Rightarrow> (string \<times> NodeClaimProducerRef) list \<Rightarrow> NodeClaimProducerRef list \<Rightarrow>
   NodeClaimProducerRef list \<times> report" where
  "mergeProducersLoop basePath [] byAlias out = (out, [])"
| "mergeProducersLoop basePath (s # ss) byAlias out =
     (case map_of byAlias (AliasOf s) of
        None \<Rightarrow> mergeProducersLoop basePath ss ((AliasOf s, s) # byAlias) (out @ [s])
      | Some existing \<Rightarrow>
          (let (out', errs) = mergeProducersLoop basePath ss byAlias out in
           (out', (if storeRefIdentical existing s then []
                   else [Error (keyed_path (basePath @ ''.claim_producers'') (AliasOf s)) ''subgraph_absorption_alias_conflict'' [AliasOf s]]) @ errs)))"

definition mergeClaimProducersOnAbsorb ::
  "NodeClaimProducerRef list \<Rightarrow> NodeClaimProducerRef list \<Rightarrow> string \<Rightarrow> NodeClaimProducerRef list \<times> report" where
  "mergeClaimProducersOnAbsorb callerProducers entryProducers basePath =
     mergeProducersLoop basePath entryProducers (fold (\<lambda>s. AList.update (AliasOf s) s) callerProducers []) callerProducers"

fun mergeHoldsLoop :: "string \<Rightarrow> (string \<times> HoldsBinding) list \<Rightarrow> (string \<times> HoldsBinding) list \<Rightarrow> (string \<times> HoldsBinding) list \<times> report" where
  "mergeHoldsLoop basePath [] out = (out, [])"
| "mergeHoldsLoop basePath ((k, v) # hs) out =
     (case map_of out k of
        None \<Rightarrow> mergeHoldsLoop basePath hs (out @ [(k, v)])
      | Some existing \<Rightarrow>
          (let (out', errs) = mergeHoldsLoop basePath hs out in
           (out', (if existing = v then []
                   else [Error (keyed_path (basePath @ ''.holds'') k) ''subgraph_absorption_alias_conflict'' [k]]) @ errs)))"

definition mergeHoldsOnAbsorb ::
  "(string \<times> HoldsBinding) list \<Rightarrow> (string \<times> HoldsBinding) list \<Rightarrow> string \<Rightarrow> (string \<times> HoldsBinding) list \<times> report" where
  "mergeHoldsOnAbsorb callerHolds entryHolds basePath = mergeHoldsLoop basePath entryHolds callerHolds"

abbreviation schemaOf :: "TemplateNodeDef \<Rightarrow> jmap" where
  "schemaOf n \<equiv> (case Attributes n of None \<Rightarrow> [] | Some a \<Rightarrow> Schema a)"

definition absorbAttributes :: "TemplateNodeDef \<Rightarrow> TemplateNodeDef \<Rightarrow> NodeAttributesDef option" where
  "absorbAttributes caller entry =
     (if schemaOf entry = [] then Attributes caller
      else case DeepMergeJSON (VObj (schemaOf entry)) (if schemaOf caller = [] then VNull else VObj (schemaOf caller)) of
        VObj m \<Rightarrow> if m = [] then Attributes caller else Some \<lparr>Schema = m\<rparr>
      | _ \<Rightarrow> Attributes caller)"

definition absorbEntryIntoCaller ::
  "TemplateNodeDef \<Rightarrow> TemplateNodeDef \<Rightarrow> KindAliasMap option \<Rightarrow> string \<Rightarrow> TemplateNodeDef \<times> report" where
  "absorbEntryIntoCaller caller entry aliases basePath =
     (let execErrs = (if Executor caller \<noteq> [] \<and> Delegate caller \<noteq> []
            then [Error (basePath @ ''.executor'') ''delegate and executor are mutually exclusive'' [Executor caller, Delegate caller]] else []);
          (producers, storeErrs) = (if ClaimProducers entry = [] then (ClaimProducers caller, [])
            else mergeClaimProducersOnAbsorb (ClaimProducers caller) (ClaimProducers entry) basePath);
          (holds, holdErrs) = (if Holds entry = [] then (Holds caller, [])
            else mergeHoldsOnAbsorb (Holds caller) (Holds entry) basePath)
      in (caller\<lparr>Executor := (if Executor caller = [] then resolvedEntryExecutor entry aliases else Executor caller),
                 ClaimProducers := producers, Holds := holds, Attributes := absorbAttributes caller entry\<rparr>,
          execErrs @ storeErrs @ holdErrs))"

subsection \<open>Flattening\<close>

definition resolveViaCaller :: "string \<Rightarrow> SubscriptionEntry \<Rightarrow> SubscriptionEntry" where
  "resolveViaCaller entryAlias s = (if subNode s = entryAlias then s\<lparr>ResolvesViaCallingNode := True\<rparr> else s)"

definition emittedSubscribes :: "GraphSpec \<Rightarrow> TemplateNodeDef \<Rightarrow> SubscriptionEntry list" where
  "emittedSubscribes g n =
     (if GraphSpecName g \<noteq> MainGraphName \<and> Entry g \<noteq> [] \<and> Type n \<noteq> Entry g
      then map (resolveViaCaller (Entry g)) (Subscribes n) else Subscribes n)"

definition emitNode ::
  "KindAliasMap option \<Rightarrow> (string \<times> TemplateNodeDef) list \<Rightarrow> string \<Rightarrow> GraphSpec \<Rightarrow> TemplateNodeDef \<Rightarrow> TemplateNodeDef \<times> report" where
  "emitNode aliases entryByGraph basePath g n =
     (let (absorbed, errs) =
            (if TrimSpace (Delegate n) = [] then (n, [])
             else case map_of entryByGraph (Delegate n) of
               None \<Rightarrow> (n, [])
             | Some entry \<Rightarrow> absorbEntryIntoCaller (n\<lparr>IsSubgraphEntryAbsorbed := True\<rparr>) entry aliases basePath);
          exited = (if GraphSpecName g \<noteq> MainGraphName \<and> Exit g \<noteq> [] \<and> Type absorbed = Exit g
                    then absorbed\<lparr>IsSubgraphExit := True\<rparr> else absorbed)
      in (exited\<lparr>Subscribes := emittedSubscribes g exited\<rparr>, errs))"

record Flattening =
  seenTypes :: "(string \<times> string) list"
  flatNodes :: "TemplateNodeDef list"
  flatErrs :: report

text \<open>The emitted node shares its subscription slice with the node of the graph, so marking the subscriptions
  marks both; the second component is the node of the graph afterwards.\<close>

definition flattenNode ::
  "KindAliasMap option \<Rightarrow> (string \<times> TemplateNodeDef) list \<Rightarrow> nat \<Rightarrow> GraphSpec \<Rightarrow> nat \<Rightarrow> TemplateNodeDef \<Rightarrow> Flattening \<Rightarrow> Flattening \<times> TemplateNodeDef" where
  "flattenNode aliases entryByGraph gi g ni n st =
     (let path = indexed (indexed ''graphs'' gi @ ''.nodes'') ni in
      if TrimSpace (Type n) = [] then (st\<lparr>flatNodes := flatNodes st @ [n]\<rparr>, n)
      else case map_of (seenTypes st) (Type n) of
        Some existing \<Rightarrow>
          (st\<lparr>flatErrs := flatErrs st @ [Error (path @ ''.type'') ''duplicate node type across graphs'' [Type n, existing]]\<rparr>, n)
      | None \<Rightarrow>
          (let (emitted, errs) = emitNode aliases entryByGraph path g n in
           (st\<lparr>seenTypes := (Type n, quotedKey ''graph '' (GraphSpecName g)) # seenTypes st,
              flatNodes := flatNodes st @ [emitted], flatErrs := flatErrs st @ errs\<rparr>,
            n\<lparr>Subscribes := emittedSubscribes g n\<rparr>)))"

fun flattenNodes ::
  "KindAliasMap option \<Rightarrow> (string \<times> TemplateNodeDef) list \<Rightarrow> nat \<Rightarrow> GraphSpec \<Rightarrow> nat \<Rightarrow> TemplateNodeDef list \<Rightarrow> Flattening \<Rightarrow>
   Flattening \<times> TemplateNodeDef list" where
  "flattenNodes aliases entryByGraph gi g ni [] st = (st, [])"
| "flattenNodes aliases entryByGraph gi g ni (n # ns) st =
     (let (st1, n') = flattenNode aliases entryByGraph gi g ni n st;
          (st2, ns') = flattenNodes aliases entryByGraph gi g (ni + 1) ns st1
      in (st2, n' # ns'))"

fun flattenGraphs ::
  "KindAliasMap option \<Rightarrow> (string \<times> TemplateNodeDef) list \<Rightarrow> nat \<Rightarrow> GraphSpec list \<Rightarrow> Flattening \<Rightarrow> Flattening \<times> GraphSpec list" where
  "flattenGraphs aliases entryByGraph gi [] st = (st, [])"
| "flattenGraphs aliases entryByGraph gi (g # gs) st =
     (let (st1, ns) = flattenNodes aliases entryByGraph gi g 0 (GraphNodes g) st;
          (st2, gs') = flattenGraphs aliases entryByGraph (gi + 1) gs st1
      in (st2, g\<lparr>GraphNodes := ns\<rparr> # gs'))"

definition flatten :: "TemplateSpec \<Rightarrow> KindAliasMap option \<Rightarrow> TemplateSpec \<times> report" where
  "flatten t aliases =
     (let (st, gs) = flattenGraphs aliases (buildEntryIndex (Graphs t)) 0 (Graphs t) \<lparr>seenTypes = [], flatNodes = [], flatErrs = []\<rparr>
      in (t\<lparr>Nodes := flatNodes st, Graphs := gs\<rparr>, flatErrs st))"

subsection \<open>Delegation\<close>

definition validateDelegateTargets :: "TemplateSpec \<Rightarrow> report" where
  "validateDelegateTargets t =
     (let subGraphNames = map GraphSpecName (filter (\<lambda>g. GraphSpecName g \<noteq> [] \<and> GraphSpecName g \<noteq> MainGraphName \<and>
            TrimSpace (Entry g) \<noteq> [] \<and> TrimSpace (Exit g) \<noteq> []) (Graphs t)) in
      each (\<lambda>i n.
        let delegate = TrimSpace (Delegate n) in
        if delegate = [] \<or> delegate \<in> set subGraphNames then []
        else [Error (indexed ''nodes'' i @ ''.delegate'') ''subgraph_unknown_delegate_target'' [delegate]]) (Nodes t))"

definition delegatePairs :: "TemplateSpec \<Rightarrow> (string \<times> nat) list \<Rightarrow> (string \<times> string) list" where
  "delegatePairs t graphIndex =
     concat (map (\<lambda>g. concat (map (\<lambda>n.
       if TrimSpace (Delegate n) = [] \<or> map_of graphIndex (Delegate n) = None then []
       else [(GraphSpecName g, Delegate n)]) (GraphNodes g))) (Graphs t))"

definition detectDelegateCycles :: "TemplateSpec \<Rightarrow> (string \<times> nat) list \<Rightarrow> report" where
  "detectDelegateCycles t graphIndex =
     (case findAllCycles (fold appendNeighbour (delegatePairs t graphIndex) []) of
        [] \<Rightarrow> []
      | cyc # _ \<Rightarrow> [Error ''graphs'' ''subgraph_recursion_unsupported'' [Join cyc '' -> '']])"

subsection \<open>Reachability\<close>

fun enqueue :: "string list \<Rightarrow> string list \<Rightarrow> string list \<Rightarrow> string list \<times> string list" where
  "enqueue [] visited queue = (visited, queue)"
| "enqueue (n # ns) visited queue =
     (if n \<in> set visited then enqueue ns visited queue else enqueue ns (visited @ [n]) (queue @ [n]))"

lemma enqueue_grows:
  "enqueue ns vis q = (vis', q') \<Longrightarrow> set vis' = set vis \<union> set ns \<and> (vis' = vis \<and> q' = q \<or> set vis \<subset> set vis') \<and> set q' = set q \<union> (set ns - set vis)"
proof (induction ns vis q rule: enqueue.induct)
  case (2 n ns vis q)
  then show ?case by (cases "n \<in> set vis") auto
qed simp

function breadthFirst :: "adjacency \<Rightarrow> string list \<Rightarrow> string list \<Rightarrow> string list" where
  "breadthFirst adj visited [] = visited"
| "breadthFirst adj visited (head # queue) =
     (let (visited', queue') = enqueue (neighbours adj head) visited queue in breadthFirst adj visited' queue')"
  by pat_completeness auto
termination
proof (relation "(\<lambda>(adj, vis, q). card (set (graphNodes adj) - set vis)) <*mlex*> measure (\<lambda>(adj, vis, q). length q)")
  fix adj vis head q z x y
  assume "z = enqueue (neighbours adj head) vis q" and "(x, y) = z"
  then have e: "enqueue (neighbours adj head) vis q = (x, y)" by simp
  have n: "set (neighbours adj head) \<subseteq> set (graphNodes adj)"
    using edges_graphNodes [of head _ adj] by (auto simp: edges_def)
  from enqueue_grows [OF e] consider "x = vis" "y = q" | "set vis \<subset> set x" "set x = set vis \<union> set (neighbours adj head)" by blast
  then show "((adj, x, y), (adj, vis, head # q)) \<in> (\<lambda>(adj, vis, q). card (set (graphNodes adj) - set vis)) <*mlex*> measure (\<lambda>(adj, vis, q). length q)"
  proof cases
    case 1
    then show ?thesis by (simp add: mlex_prod_def)
  next
    case 2
    then have "set (graphNodes adj) - set x \<subset> set (graphNodes adj) - set vis" using n by blast
    then have "card (set (graphNodes adj) - set x) < card (set (graphNodes adj) - set vis)" by (rule psubset_card_mono [rotated]) simp
    then show ?thesis by (simp add: mlex_prod_def)
  qed
qed (auto intro: wf_mlex)

definition subscriptionPairs :: "(string \<times> TemplateNodeDef) list \<Rightarrow> (string \<times> string) list" where
  "subscriptionPairs nodes =
     concat (map (\<lambda>(name, n). concat (map (\<lambda>s.
       if subNode s = [] \<or> map_of nodes (subNode s) = None then [] else [(subNode s, name)]) (Subscribes n))) nodes)"

definition graphNodeMap :: "GraphSpec \<Rightarrow> (string \<times> TemplateNodeDef) list" where
  "graphNodeMap g = fold (\<lambda>n m. if Type n = [] then m else AList.update (Type n) n m) (GraphNodes g) []"

definition validateGraphReachability :: "GraphSpec \<Rightarrow> report" where
  "validateGraphReachability g =
     (if Entry g = [] \<or> Exit g = [] then []
      else
        let nodes = graphNodeMap g;
            forward = fold appendNeighbour (subscriptionPairs nodes) [];
            backward = fold appendNeighbour (map prod.swap (subscriptionPairs nodes)) [];
            reachable = breadthFirst forward [Entry g] [Entry g];
            canReachExit = breadthFirst backward [Exit g] [Exit g];
            path = quotedKey ''graphs'' (GraphSpecName g)
        in concat (map (\<lambda>(name, n).
             if name = Entry g \<or> name = Exit g then []
             else if name \<notin> set reachable \<or> name \<notin> set canReachExit
               then [Error (quotedKey (path @ ''.nodes'') name) ''subgraph_disconnected_internal_node'' [name, GraphSpecName g, Entry g, Exit g]]
             else []) nodes) @
           (if Exit g \<noteq> Entry g \<and> Exit g \<notin> set reachable
            then [Error path ''subgraph_exit_unreachable'' [GraphSpecName g, Exit g, Entry g]] else []))"

subsection \<open>References across graphs\<close>

definition checkRefs :: "(string \<Rightarrow> bool) \<Rightarrow> string \<Rightarrow> string \<Rightarrow> TemplateNodeDef \<Rightarrow> report" where
  "checkRefs bad tag graphName n =
     (let gbase = quotedKey (quotedKey ''graphs'' graphName @ ''.nodes'') (Type n) in
      each (\<lambda>si s. if subNode s \<noteq> [] \<and> bad (subNode s)
        then [Error (indexed (gbase @ ''.subscribes'') si @ ''.node'') tag [Type n, graphName, subNode s]] else []) (Subscribes n) @
      concat (map (\<lambda>(aliasName, hb). if From hb \<noteq> [] \<and> bad (From hb)
        then [Error (quotedKey (gbase @ ''.holds'') aliasName @ ''.from'') tag [Type n, graphName, From hb]] else []) (Holds n)))"

definition validateOuterRefsNotInternal :: "GraphSpec \<Rightarrow> string list \<Rightarrow> report" where
  "validateOuterRefsNotInternal g allInternal =
     concat (map (checkRefs (\<lambda>r. r \<in> set allInternal) ''subgraph_outer_references_internal'' (GraphSpecName g)) (GraphNodes g))"

definition validateInternalRefsLocal :: "TemplateSpec \<Rightarrow> report" where
  "validateInternalRefsLocal t =
     (let allInternal = concat (map (\<lambda>g. if GraphSpecName g = MainGraphName then [] else graphTypes g) (Graphs t)) in
      concat (map (\<lambda>g.
        if GraphSpecName g = MainGraphName then validateOuterRefsNotInternal g allInternal
        else concat (map (checkRefs (\<lambda>r. r \<notin> set (graphTypes g)) ''subgraph_internal_references_outer'' (GraphSpecName g)) (GraphNodes g))) (Graphs t)))"

subsection \<open>Canonicalisation\<close>

definition trimGraphName :: "GraphSpec \<Rightarrow> GraphSpec" where
  "trimGraphName g = g\<lparr>GraphSpecName := TrimSpace (GraphSpecName g)\<rparr>"

definition canonicalizeGraphs :: "TemplateSpec \<Rightarrow> KindAliasMap option \<Rightarrow> TemplateSpec \<times> report" where
  "canonicalizeGraphs t aliases =
     (if Graphs t = [] then (t, [])
      else if Nodes t \<noteq> [] then (t, [Error ''nodes'' ''graphs_and_nodes_both_set'' []])
      else
        let t1 = t\<lparr>Graphs := map trimGraphName (Graphs t)\<rparr>;
            (shapeErrs, graphByName) = checkGraphs 0 [] (Graphs t1);
            mainErrs = (if map_of graphByName MainGraphName = None then [Error ''graphs'' ''subgraph_missing_main'' []] else []);
            (t2, flatErrs) = flatten t1 aliases;
            cycleErrs = detectDelegateCycles t2 graphByName;
            reachErrs = concat (map (\<lambda>g. if GraphSpecName g = [] \<or> GraphSpecName g = MainGraphName then []
              else validateGraphReachability g) (Graphs t2))
        in (t2, shapeErrs @ mainErrs @ flatErrs @ cycleErrs @ reachErrs @ validateInternalRefsLocal t2))"

end
