(* ===== verification/Message_Checks.thy ===== *)
theory Message_Checks
  imports Validation_Report
begin

text \<open>
  Checks of the message registry, of publishers and of nodes that send messages
  (\<open>lib/graph/node/template_validator_messages.go\<close>), of tag filters (\<open>subscription_tag_gate.go\<close>), and of a message body
  against its schema (\<open>message_body_validate.go\<close>).
\<close>

subsection \<open>Decoding\<close>

text \<open>\<open>json.Unmarshal\<close> into \<open>any\<close> stores numbers as \<open>float64\<close> and fails for a number outside its range.\<close>

fun numbersInRange :: "JsonCodec \<Rightarrow> jvalue \<Rightarrow> bool" where
  "numbersInRange jc (VNum n) = inFloat64Range jc n"
| "numbersInRange jc (VArr xs) = list_all (numbersInRange jc) xs"
| "numbersInRange jc (VObj m) = list_all (\<lambda>(k, v). numbersInRange jc v) m"
| "numbersInRange jc _ = True"

definition decodeAny :: "JsonCodec \<Rightarrow> string \<Rightarrow> jvalue option" where
  "decodeAny jc s = (case Unmarshal jc s of Some v \<Rightarrow> if numbersInRange jc v then Some v else None | None \<Rightarrow> None)"

text \<open>Into a \<open>map[string]any\<close>: \<open>null\<close> gives the nil map (\<open>Some None\<close>), any other non-object an error.\<close>

definition decodeMap :: "JsonCodec \<Rightarrow> string \<Rightarrow> jmap option option" where
  "decodeMap jc s = (case decodeAny jc s of Some (VObj m) \<Rightarrow> Some (Some m) | Some VNull \<Rightarrow> Some None | _ \<Rightarrow> None)"

definition jsonValuesEqual :: "JsonCodec \<Rightarrow> jvalue \<Rightarrow> jvalue \<Rightarrow> bool" where
  "jsonValuesEqual jc a b \<longleftrightarrow> Marshal jc a = Marshal jc b"

subsection \<open>Sending nodes\<close>

definition sendsMessageProperties :: "jmap \<Rightarrow> (string \<times> jmap) list" where
  "sendsMessageProperties schema =
     (case mapAt schema ''properties'' of
        None \<Rightarrow> []
      | Some props \<Rightarrow> map (\<lambda>(name, raw). (name, case raw of VObj m \<Rightarrow> m | _ \<Rightarrow> [])) props)"

definition sendsMessageRequiredSet :: "jmap \<Rightarrow> string list" where
  "sendsMessageRequiredSet schema =
     (case map_of schema ''required'' of
        Some (VArr vs) \<Rightarrow> dedup_loop [] [] (concat (map (\<lambda>v. case v of VStr s \<Rightarrow> [s] | _ \<Rightarrow> []) vs))
      | _ \<Rightarrow> [])"

text \<open>The attribute schema of a sending node against the body schema of the message it sends.\<close>

definition checkSendShape :: "JsonCodec \<Rightarrow> string \<Rightarrow> string \<Rightarrow> jmap \<Rightarrow> jmap \<Rightarrow> report" where
  "checkSendShape jc base mt nodeSchema bodyShape =
     (let bodyProps = sendsMessageProperties bodyShape; nodeProps = sendsMessageProperties nodeSchema;
          bodyRequired = sendsMessageRequiredSet bodyShape; nodeRequired = sendsMessageRequiredSet nodeSchema;
          sbase = base @ ''.attributes.schema'' in
      concat (map (\<lambda>(name, np). if map_of bodyProps name = None
        then [Error (sbase @ ''.properties.'' @ name) ''send-node attribute not in body_schema'' [name, mt]] else []) nodeProps) @
      concat (map (\<lambda>(name, bp). if map_of nodeProps name = None
        then [Error (sbase @ ''.properties'') ''send-node attributes schema is missing field'' [name, mt]] else []) bodyProps) @
      concat (map (\<lambda>(name, np).
        case map_of bodyProps name of
          None \<Rightarrow> []
        | Some bp \<Rightarrow>
            (case (map_of np ''type'', map_of bp ''type'') of
               (Some npType, Some bpType) \<Rightarrow>
                 if jsonValuesEqual jc npType bpType then []
                 else [Error (sbase @ ''.properties.'' @ name @ ''.type'') ''types must match exactly'' [name, mt]]
             | _ \<Rightarrow> [])) nodeProps) @
      concat (map (\<lambda>r. if r \<notin> set bodyRequired
        then [Error (sbase @ ''.required'') ''body_schema does not require'' [r, mt]] else []) nodeRequired) @
      concat (map (\<lambda>r. if r \<notin> set nodeRequired
        then [Error (sbase @ ''.required'') ''body_schema requires'' [mt, r]] else []) bodyRequired))"

definition messageBodyShape :: "JsonCodec \<Rightarrow> MessageSchema \<Rightarrow> jmap" where
  "messageBodyShape jc m =
     (if BodySchema m = [] then [] else case decodeAny jc (BodySchema m) of Some (VObj shape) \<Rightarrow> shape | _ \<Rightarrow> [])"

definition validateSendsMessage :: "JsonCodec \<Rightarrow> TemplateNodeDef \<Rightarrow> string \<Rightarrow> TemplateSpec \<Rightarrow> string list \<Rightarrow> report" where
  "validateSendsMessage jc n base t declaredMessages =
     (let mt = TrimSpace (SendsMessage n); path = base @ ''.sends_message'' in
      if SendsMessage n = [] then []
      else if mt = [] then [Error path ''sends_message must not be whitespace-only'' []]
      else if mt \<notin> set declaredMessages then [Error path ''sends_message references unknown message type'' (mt # sort declaredMessages)]
      else case List.find (\<lambda>m. TrimSpace (msgType m) = mt) (Messages t) of
        None \<Rightarrow> [Error path ''internal validator drift'' [mt]]
      | Some dest \<Rightarrow>
          checkSendShape jc base mt (case Attributes n of None \<Rightarrow> [] | Some a \<Rightarrow> Schema a) (messageBodyShape jc dest))"

subsection \<open>Publishers\<close>

definition containsString :: "string list \<Rightarrow> string \<Rightarrow> bool" where
  "containsString haystack needle \<longleftrightarrow> needle \<in> set haystack"

definition checkPublisher :: "string list \<Rightarrow> RegistryHooks \<Rightarrow> nat \<Rightarrow> string list \<Rightarrow> PublisherSpec \<Rightarrow> report" where
  "checkPublisher declaredMessages hooks i seenNames p =
     (let base = indexed ''publishers'' i; kind = TrimSpace (pubKind p); mt = TrimSpace (pubMessageType p) in
      (if TrimSpace (pubName p) = [] then [Error (base @ ''.name'') ''name is required'' []]
       else if pubName p \<in> set seenNames then [Error (base @ ''.name'') ''duplicate publisher name'' [pubName p]]
       else []) @
      (if kind = [] then [Error (base @ ''.kind'') ''kind is required'' []]
       else case PublisherDeclaredKinds hooks of
         None \<Rightarrow> []
       | Some kinds \<Rightarrow>
           if TrimSpace (pubName p) = [] then []
           else (case kinds (pubName p) of
              None \<Rightarrow> []
            | Some advertised \<Rightarrow>
                if containsString advertised kind then []
                else [Error (base @ ''.kind'') ''publisher_unadvertised_kind'' (pubName p # kind # sort advertised)])) @
      (if mt = [] then [Error (base @ ''.message_type'') ''message_type is required'' []]
       else if mt \<notin> set declaredMessages then [Error (base @ ''.message_type'') ''message_type is not declared'' (mt # sort declaredMessages)]
       else []))"

fun publishersLoop :: "string list \<Rightarrow> RegistryHooks \<Rightarrow> nat \<Rightarrow> string list \<Rightarrow> PublisherSpec list \<Rightarrow> report" where
  "publishersLoop declaredMessages hooks i seenNames [] = []"
| "publishersLoop declaredMessages hooks i seenNames (p # ps) =
     checkPublisher declaredMessages hooks i seenNames p @
     publishersLoop declaredMessages hooks (i + 1) (if TrimSpace (pubName p) = [] then seenNames else pubName p # seenNames) ps"

definition validatePublishers :: "TemplateSpec \<Rightarrow> string list \<Rightarrow> RegistryHooks \<Rightarrow> report" where
  "validatePublishers t declaredMessages hooks = publishersLoop declaredMessages hooks 0 [] (Publishers t)"

subsection \<open>The message registry\<close>

definition buildMessageBodyFieldSet :: "JsonCodec \<Rightarrow> TemplateSpec \<Rightarrow> (string \<times> string list) list" where
  "buildMessageBodyFieldSet jc t =
     fold (\<lambda>m out.
       if BodySchema m = [] then out
       else case decodeMap jc (BodySchema m) of
         None \<Rightarrow> out
       | Some shape \<Rightarrow>
           (case (case shape of None \<Rightarrow> None | Some s \<Rightarrow> mapAt s ''properties'') of
              None \<Rightarrow> AList.update (TrimSpace (msgType m)) [] out
            | Some props \<Rightarrow> AList.update (TrimSpace (msgType m)) (map fst props) out)) (Messages t) []"

definition whiteSpaceAny :: "string \<Rightarrow> bool" where
  "whiteSpaceAny s = list_ex (\<lambda>c. of_char c \<in> {32::nat, 9, 10, 13}) s"

text \<open>The checks of a message type before it is entered; the result is empty if the type can be declared.\<close>

definition checkMessageType :: "string \<Rightarrow> string \<Rightarrow> string list \<Rightarrow> (string \<times> nat) list \<Rightarrow> report" where
  "checkMessageType path ty declaredMessages declared =
     (let segs = Split ty CHR ''/'';
          segErrs = (if [] \<in> set segs then [Error path ''type has empty segment(s)'' [ty]] else []) @
                    (if list_ex (\<lambda>seg. CHR ''.'' \<in> set seg) segs then [Error path ''type segments must not contain a dot'' [ty]] else []) in
      if ty = [] then [Error path ''type is reserved-for-runtime'' []]
      else if whiteSpaceAny ty then [Error path ''type must not contain whitespace'' [ty]]
      else if HasPrefix ty ''/'' \<or> HasSuffix ty ''/'' then [Error path ''type must not start or end with a slash'' [ty]]
      else if segErrs \<noteq> [] then segErrs
      else if CHR ''/'' \<notin> set ty then [Error path ''type must be a slash-bearing type-path'' [ty]]
      else if ty \<in> set declaredMessages then [Error path ''duplicate message type'' [ty]]
      else if map_of declared ty \<noteq> None then [Error path ''message type collides with a declared node type'' [ty]]
      else [])"

definition checkBodySchema :: "Libraries \<Rightarrow> string \<Rightarrow> string \<Rightarrow> report" where
  "checkBodySchema lib path body =
     (if body = [] then []
      else case decodeAny (codec lib) body of
        None \<Rightarrow> [Error path ''body_schema is not valid JSON'' []]
      | Some (VObj m) \<Rightarrow>
          if \<not> AddResource lib body then [Error path ''body_schema is not valid JSON Schema'' []]
          else if \<not> CompileSchema lib body then [Error path ''body_schema does not compile'' []]
          else []
      | Some _ \<Rightarrow> [Error path ''body_schema must be a JSON Schema object'' []])"

fun messagesLoop :: "Libraries \<Rightarrow> (string \<times> nat) list \<Rightarrow> nat \<Rightarrow> string list \<Rightarrow> MessageSchema list \<Rightarrow> report \<times> string list" where
  "messagesLoop lib declared i declaredMessages [] = ([], declaredMessages)"
| "messagesLoop lib declared i declaredMessages (m # ms) =
     (let base = indexed ''messages'' i; ty = TrimSpace (msgType m);
          errs = checkMessageType (base @ ''.type'') ty declaredMessages declared in
      if errs \<noteq> [] then
        (let (r, ds) = messagesLoop lib declared (i + 1) declaredMessages ms in (errs @ r, ds))
      else
        (let (r, ds) = messagesLoop lib declared (i + 1) (ty # declaredMessages) ms in
         (checkBodySchema lib (base @ ''.body_schema'') (BodySchema m) @ r, ds)))"

definition validateMessages :: "Libraries \<Rightarrow> TemplateSpec \<Rightarrow> (string \<times> nat) list \<Rightarrow> report \<times> string list" where
  "validateMessages lib t declared = messagesLoop lib declared 0 [] (Messages t)"

subsection \<open>Tag filters\<close>

text \<open>\<open>payloadTagsLiteralRE\<close>: a quoted literal before \<open>in payload.tags\<close>, or in a call of \<open>payload.tags.contains\<close>. The
  runs of its classes are disjoint from what follows them, so every repetition is the longest run.\<close>

definition quoteChar :: "char \<Rightarrow> bool" where
  "quoteChar c \<longleftrightarrow> c = CHR 0x22 \<or> c = CHR 0x27"

definition reSpace :: "char \<Rightarrow> bool" where
  "reSpace c \<longleftrightarrow> of_char c \<in> {9::nat, 10, 12, 13, 32}"

definition quotedRun :: "string \<Rightarrow> (string \<times> string) option" where
  "quotedRun s =
     (case s of
        [] \<Rightarrow> None
      | c # r \<Rightarrow>
          let lit = takeWhile (\<lambda>x. \<not> quoteChar x) r; rest = dropWhile (\<lambda>x. \<not> quoteChar x) r in
          if quoteChar c \<and> lit \<noteq> [] \<and> rest \<noteq> [] then Some (lit, tl rest) else None)"

definition expectText :: "string \<Rightarrow> string \<Rightarrow> string option" where
  "expectText p s = (if HasPrefix s p then Some (drop (length p) s) else None)"

definition someSpace :: "string \<Rightarrow> string option" where
  "someSpace s = (case s of [] \<Rightarrow> None | c # r \<Rightarrow> if reSpace c then Some (dropWhile reSpace r) else None)"

definition membershipTag :: "string \<Rightarrow> (string \<times> string) option" where
  "membershipTag s =
     Option.bind (quotedRun s) (\<lambda>(lit, r).
     Option.bind (someSpace r) (\<lambda>r1.
     Option.bind (expectText ''in'' r1) (\<lambda>r2.
     Option.bind (someSpace r2) (\<lambda>r3.
     Option.bind (expectText ''payload.tags'' r3) (\<lambda>r4. Some (lit, r4))))))"

definition containsTag :: "string \<Rightarrow> (string \<times> string) option" where
  "containsTag s =
     Option.bind (expectText ''payload.tags.contains('' s) (\<lambda>r.
     Option.bind (quotedRun (dropWhile reSpace r)) (\<lambda>(lit, r1).
     Option.bind (expectText '')'' (dropWhile reSpace r1)) (\<lambda>r2. Some (lit, r2))))"

definition payloadTag :: "string \<Rightarrow> (string \<times> string) option" where
  "payloadTag s = (case membershipTag s of Some m \<Rightarrow> Some m | None \<Rightarrow> containsTag s)"

lemma quotedRun_shorter: "quotedRun s = Some (lit, r) \<Longrightarrow> length r < length s"
  using length_dropWhile_le [of "\<lambda>x. \<not> quoteChar x" "tl s"]
  by (cases s) (auto simp: quotedRun_def Let_def split: if_splits)

lemma someSpace_shorter: "someSpace s = Some r \<Longrightarrow> length r \<le> length s"
  using length_dropWhile_le [of reSpace "tl s"] by (cases s) (auto simp: someSpace_def split: if_splits)

lemma expectText_shorter: "expectText p s = Some r \<Longrightarrow> length r \<le> length s"
  by (auto simp: expectText_def split: if_splits)

lemma payloadTag_shorter: "payloadTag s = Some (lit, r) \<Longrightarrow> length r < length s"
proof -
  have m: "length r < length s" if "membershipTag s = Some (lit, r)"
    using that unfolding membershipTag_def
    by (auto simp: bind_eq_Some_conv dest!: quotedRun_shorter someSpace_shorter expectText_shorter)
  have c: "length r < length s" if c: "containsTag s = Some (lit, r)"
  proof -
    obtain r0 r1 where r: "expectText ''payload.tags.contains('' s = Some r0" "quotedRun (dropWhile reSpace r0) = Some (lit, r1)"
      "expectText '')'' (dropWhile reSpace r1) = Some r"
      using c by (auto simp: containsTag_def bind_eq_Some_conv)
    have "length r \<le> length r1" using expectText_shorter [OF r(3)] length_dropWhile_le [of reSpace r1] by linarith
    moreover have "length r1 < length r0" using quotedRun_shorter [OF r(2)] length_dropWhile_le [of reSpace r0] by linarith
    ultimately show ?thesis using expectText_shorter [OF r(1)] by linarith
  qed
  assume "payloadTag s = Some (lit, r)"
  then show ?thesis using m c by (auto simp: payloadTag_def split: option.splits)
qed

function (sequential) payloadTags :: "string \<Rightarrow> string list" where
  "payloadTags [] = []"
| "payloadTags (c # s) =
     (case payloadTag (c # s) of Some (lit, rest) \<Rightarrow> lit # payloadTags rest | None \<Rightarrow> payloadTags s)"
  by pat_completeness auto
termination by (relation "measure length") (auto dest: payloadTag_shorter)

definition extractPayloadTagLiterals :: "string \<Rightarrow> string list" where
  "extractPayloadTagLiterals when = dedup_loop [] [] (payloadTags when)"

definition effectiveExecutor :: "TemplateNodeDef \<Rightarrow> RegistryHooks \<Rightarrow> string" where
  "effectiveExecutor n hooks =
     (if Executor n \<noteq> [] then Executor n
      else case KindAliases hooks of
        None \<Rightarrow> []
      | Some m \<Rightarrow> if nodeKind n = [] then [] else (case Resolve m (nodeKind n) of None \<Rightarrow> [] | Some a \<Rightarrow> a))"

definition validateSubscriptionDeclaredTags :: "SubscriptionEntry \<Rightarrow> string \<Rightarrow> TemplateNodeDef \<Rightarrow> RegistryHooks \<Rightarrow> report" where
  "validateSubscriptionDeclaredTags s sbase sender hooks =
     (let senderExecutor = effectiveExecutor sender hooks in
      case ExecutorDeclaredTags hooks of
        None \<Rightarrow> []
      | Some tagsOf \<Rightarrow>
          if subWhen s = [] \<or> senderExecutor = [] then []
          else case tagsOf senderExecutor of
            None \<Rightarrow> []
          | Some declaredTags \<Rightarrow>
              concat (map (\<lambda>tag. if tag \<in> set declaredTags then []
                else [Error (sbase @ ''.when'') ''tag is not declared'' [tag, subNode s, senderExecutor]]) (extractPayloadTagLiterals (subWhen s))))"

subsection \<open>Message bodies\<close>

datatype message_body_error = BodySchemaInvalid string | BodySchemaUncompilable string | BodyNotJson string | MessageBodySchemaViolation string

definition ValidateMessageBody :: "Libraries \<Rightarrow> TemplateSpec \<Rightarrow> string \<Rightarrow> string \<Rightarrow> message_body_error + unit" where
  "ValidateMessageBody lib t messageType payload =
     (case List.find (\<lambda>m. msgType m = messageType) (Messages t) of
        None \<Rightarrow> Inr ()
      | Some m \<Rightarrow>
          let schema = BodySchema m; body = (if payload = [] then ''{}'' else payload) in
          if schema = [] then Inr ()
          else if \<not> AddResource lib schema then Inl (BodySchemaInvalid messageType)
          else if \<not> CompileSchema lib schema then Inl (BodySchemaUncompilable messageType)
          else if decodeAny (codec lib) body = None then Inl (BodyNotJson messageType)
          else if \<not> SchemaAccepts lib schema body then Inl (MessageBodySchemaViolation messageType)
          else Inr ())"

end
