(* ===== verification/Subscription_Edges.thy ===== *)
theory Subscription_Edges
  imports Validation_Report Cycle_Search
begin

text \<open>
  The edges a template gives rise to: the trie that finds the subscribers of a signal and the references
  extracted from directives (\<open>lib/graph/node/subscription_edges.go\<close>), and the hard dependencies
  (\<open>lib/graph/node/hard_dep_edges.go\<close>). The trie refines a plain comparison of path segments.
\<close>

subsection \<open>The trie\<close>

record SubscriptionEdge =
  ReceiverNodeType :: string
  TypePattern :: TypePath
  WhenExpr :: string
  edgeForceUpstreamRefresh :: bool
  edgeResolvesViaCallingNode :: bool

datatype prefixNode =
  PrefixNode (exactEdges: "SubscriptionEdge list") (wildcardEdges: "SubscriptionEdge list") (children: "(string \<times> prefixNode) list")

type_synonym SubscriptionEdgeMap = "(string \<times> prefixNode) list"

abbreviation emptyNode :: prefixNode where
  "emptyNode \<equiv> PrefixNode [] [] []"

definition splitSegments :: "string \<Rightarrow> string list" where
  "splitSegments s = (let t = TrimSuffix s ''/'' in if t = [] then [] else Split t CHR ''/'')"

definition containsEdge :: "SubscriptionEdge list \<Rightarrow> SubscriptionEdge \<Rightarrow> bool" where
  "containsEdge es e = list_ex (\<lambda>x. ReceiverNodeType x = ReceiverNodeType e \<and> TypePattern x = TypePattern e \<and>
     WhenExpr x = WhenExpr e \<and> edgeForceUpstreamRefresh x = edgeForceUpstreamRefresh e \<and>
     edgeResolvesViaCallingNode x = edgeResolvesViaCallingNode e) es"

definition addEdge :: "bool \<Rightarrow> SubscriptionEdge \<Rightarrow> prefixNode \<Rightarrow> prefixNode" where
  "addEdge isWildcard e n =
     (if isWildcard then
        PrefixNode (exactEdges n) (if containsEdge (wildcardEdges n) e then wildcardEdges n else wildcardEdges n @ [e]) (children n)
      else
        PrefixNode (if containsEdge (exactEdges n) e then exactEdges n else exactEdges n @ [e]) (wildcardEdges n) (children n))"

fun insertAt :: "string list \<Rightarrow> bool \<Rightarrow> SubscriptionEdge \<Rightarrow> prefixNode \<Rightarrow> prefixNode" where
  "insertAt [] isWildcard e n = addEdge isWildcard e n"
| "insertAt (seg # segs) isWildcard e n =
     PrefixNode (exactEdges n) (wildcardEdges n)
       (AList.update seg (insertAt segs isWildcard e (case map_of (children n) seg of None \<Rightarrow> emptyNode | Some c \<Rightarrow> c)) (children n))"

definition Insert :: "string \<Rightarrow> SubscriptionEdge \<Rightarrow> SubscriptionEdgeMap \<Rightarrow> SubscriptionEdgeMap" where
  "Insert senderNodeType e m =
     (let root = (case map_of m senderNodeType of None \<Rightarrow> emptyNode | Some n \<Rightarrow> n);
          isWildcard = HasSuffix (TypePattern e) ''*'';
          pattern = (if isWildcard then TrimSuffix (TrimSuffix (TypePattern e) ''*'') ''/'' else TypePattern e)
      in AList.update senderNodeType (insertAt (splitSegments pattern) isWildcard e root) m)"

text \<open>The frontier of \<open>appendMatches\<close> never has more than one node, as a node has one child per segment.\<close>

fun matchLoop :: "prefixNode list \<Rightarrow> string list \<Rightarrow> SubscriptionEdge list \<Rightarrow> SubscriptionEdge list" where
  "matchLoop frontier [] out = out @ concat (map exactEdges frontier)"
| "matchLoop frontier (seg # segs) out =
     (let nxt = concat (map (\<lambda>cur. case map_of (children cur) seg of None \<Rightarrow> [] | Some c \<Rightarrow> [c]) frontier);
          out' = out @ concat (map wildcardEdges nxt)
      in if nxt = [] then out' else matchLoop nxt segs out')"

definition appendMatches :: "SubscriptionEdge list \<Rightarrow> prefixNode option \<Rightarrow> TypePath \<Rightarrow> SubscriptionEdge list" where
  "appendMatches out root typ =
     (case root of None \<Rightarrow> out | Some n \<Rightarrow> matchLoop [n] (splitSegments typ) (out @ wildcardEdges n))"

definition Match :: "SubscriptionEdgeMap \<Rightarrow> string \<Rightarrow> TypePath \<Rightarrow> SubscriptionEdge list" where
  "Match m senderNodeType signalType = appendMatches [] (map_of m senderNodeType) signalType"

text \<open>\<open>walkAllEdges\<close> applies a callback to every edge; here it is the list of edges.\<close>

fun walkAllEdges :: "prefixNode \<Rightarrow> SubscriptionEdge list" where
  "walkAllEdges (PrefixNode ex wc cs) = ex @ wc @ concat (map (\<lambda>(k, c). walkAllEdges c) cs)"

abbreviation edgesOf :: "SubscriptionEdgeMap \<Rightarrow> string \<Rightarrow> SubscriptionEdge list" where
  "edgesOf m sender \<equiv> (case map_of m sender of None \<Rightarrow> [] | Some n \<Rightarrow> walkAllEdges n)"

definition Senders :: "SubscriptionEdgeMap \<Rightarrow> string list" where
  "Senders m = map fst m"

definition ReceiverNodeTypesForSender :: "SubscriptionEdgeMap \<Rightarrow> string \<Rightarrow> string list" where
  "ReceiverNodeTypesForSender m sender = dedup_loop [] [] (map ReceiverNodeType (edgesOf m sender))"

definition SenderNodeTypesForReceiver :: "SubscriptionEdgeMap \<Rightarrow> string \<Rightarrow> string list" where
  "SenderNodeTypesForReceiver m receiver =
     map fst (filter (\<lambda>(sender, root). sender \<noteq> [] \<and> list_ex (\<lambda>e. ReceiverNodeType e = receiver) (walkAllEdges root)) m)"

definition CallingNodeSenderTypesForReceiver :: "SubscriptionEdgeMap \<Rightarrow> string \<Rightarrow> string list" where
  "CallingNodeSenderTypesForReceiver m receiver =
     map fst (filter (\<lambda>(sender, root). sender \<noteq> [] \<and>
       list_ex (\<lambda>e. ReceiverNodeType e = receiver \<and> edgeResolvesViaCallingNode e) (walkAllEdges root)) m)"

definition ReceiverEdgesForSender :: "SubscriptionEdgeMap \<Rightarrow> string \<Rightarrow> SubscriptionEdge list" where
  "ReceiverEdgesForSender m sender = edgesOf m sender"

definition AllEdges :: "SubscriptionEdgeMap \<Rightarrow> SubscriptionEdge list" where
  "AllEdges m = concat (map (\<lambda>(sender, root). walkAllEdges root) m)"

subsection \<open>References in directives\<close>

record substitutionRef =
  Prefix :: string
  TypeName :: string
  FieldPath :: string
  TopicKind :: string
  RefLiteral :: string
  AttributeProperty :: string

definition parseSubstitutionDirective :: "string \<Rightarrow> substitutionRef option" where
  "parseSubstitutionDirective body =
     (let shape = ParseDirectiveShape (TrimSpace body) in
      if MultiPipe shape then None
      else case Split (Body shape) CHR ''.'' of
        k # typeName # rest \<Rightarrow>
          if k = ''nodes'' then
            (case rest of
               [] \<Rightarrow> None
             | second # fieldSegs \<Rightarrow>
                 if typeName = [] \<or> second \<noteq> ''attribute'' then None
                 else Some \<lparr>Prefix = ''nodes'', TypeName = typeName, FieldPath = (case fieldSegs of [] \<Rightarrow> [] | f # _ \<Rightarrow> f),
                   TopicKind = ''attribute'', RefLiteral = [], AttributeProperty = []\<rparr>)
          else if k = ''messages'' then
            (if typeName = [] then None
             else Some \<lparr>Prefix = ''messages'', TypeName = typeName, FieldPath = (case rest of [] \<Rightarrow> [] | f # _ \<Rightarrow> f),
               TopicKind = [], RefLiteral = [], AttributeProperty = []\<rparr>)
          else None
      | _ \<Rightarrow> None)"

text \<open>The \<open>source\<close> values of a schema with their paths.\<close>

fun walkSchemaForSourcesWithPath :: "jvalue \<Rightarrow> string \<Rightarrow> (jvalue \<times> string) list"
  and walkElements :: "nat \<Rightarrow> jvalue list \<Rightarrow> string \<Rightarrow> (jvalue \<times> string) list"
  and walkFields :: "(string \<times> jvalue) list \<Rightarrow> string \<Rightarrow> (jvalue \<times> string) list" where
  "walkSchemaForSourcesWithPath (VObj m) path = walkFields m path"
| "walkSchemaForSourcesWithPath (VArr xs) path = walkElements 0 xs path"
| "walkSchemaForSourcesWithPath v path = []"
| "walkElements i [] path = []"
| "walkElements i (x # xs) path = walkSchemaForSourcesWithPath x (indexed path i) @ walkElements (i + 1) xs path"
| "walkFields [] path = []"
| "walkFields ((k, v) # m) path =
     (let childPath = (if path = [] then k else path @ ''.'' @ k) in
      (if k = ''source'' then [(v, childPath)] else walkSchemaForSourcesWithPath v childPath) @ walkFields m path)"

text \<open>The strings \<open>parseSubstitutionRefsFromAttributes\<close> scans, with the property they belong to.\<close>

definition scannedSources :: "TemplateNodeDef \<Rightarrow> (string \<times> string) list" where
  "scannedSources n =
     (case Attributes n of
        None \<Rightarrow> []
      | Some a \<Rightarrow> concat (map (\<lambda>(v, p). case v of VStr s \<Rightarrow> [(s, p)] | _ \<Rightarrow> []) (walkSchemaForSourcesWithPath (VObj (Schema a)) []))) @
     map (\<lambda>(i, s). (refSelector s, indexed ''claim_producers'' i @ ''.selector'')) (zip [0..<length (ClaimProducers n)] (ClaimProducers n)) @
     map (\<lambda>(i, l). (lockRefName l, indexed ''locks'' i @ ''.name'')) (zip [0..<length (Locks n)] (Locks n)) @
     (case FanOut n of
        None \<Rightarrow> []
      | Some fo \<Rightarrow> if PartitionRequest fo = [] then [] else [(PartitionRequest fo, ''fan_out.partition_request'')])"

text \<open>One reference, or none for an empty, malformed or self-referring directive.\<close>

definition directiveRef :: "string \<Rightarrow> string \<Rightarrow> string \<Rightarrow> substitutionRef list" where
  "directiveRef nodeType property grp =
     (let body = TrimSpace grp in
      if body = [] then []
      else case parseSubstitutionDirective body of
        None \<Rightarrow> []
      | Some ref \<Rightarrow>
          if Prefix ref = ''nodes'' \<and> (TypeName ref = [] \<or> TypeName ref = nodeType) then []
          else [ref\<lparr>RefLiteral := ''{{'' @ grp @ ''}}'', AttributeProperty := property\<rparr>])"

abbreviation refKey :: "substitutionRef \<Rightarrow> string \<times> string \<times> string \<times> string" where
  "refKey r \<equiv> (Prefix r, TypeName r, FieldPath r, AttributeProperty r)"

fun dedupRefs :: "(string \<times> string \<times> string \<times> string) list \<Rightarrow> substitutionRef list \<Rightarrow> substitutionRef list" where
  "dedupRefs seen [] = []"
| "dedupRefs seen (r # rs) =
     (if refKey r \<in> set seen then dedupRefs seen rs else r # dedupRefs (refKey r # seen) rs)"

definition parseSubstitutionRefsFromAttributes :: "TemplateNodeDef \<Rightarrow> substitutionRef list" where
  "parseSubstitutionRefsFromAttributes n =
     dedupRefs [] (concat (map (\<lambda>(src, property). concat (map (directiveRef (Type n) property) (bodies (directivePattern src)))) (scannedSources n)))"

definition refsWithPrefix :: "string \<Rightarrow> TemplateSpec \<Rightarrow> (string \<times> substitutionRef list) list" where
  "refsWithPrefix pfx t =
     fold (\<lambda>n out. let refs = filter (\<lambda>r. Prefix r = pfx) (parseSubstitutionRefsFromAttributes n)
                   in if refs = [] then out else AList.update (Type n) refs out) (Nodes t) []"

definition ExtractSubstitutionRefsFromTemplate :: "TemplateSpec \<Rightarrow> (string \<times> substitutionRef list) list" where
  "ExtractSubstitutionRefsFromTemplate = refsWithPrefix ''nodes''"

definition ExtractMessageRefsFromTemplate :: "TemplateSpec \<Rightarrow> (string \<times> substitutionRef list) list" where
  "ExtractMessageRefsFromTemplate = refsWithPrefix ''messages''"

definition SubstitutionRefsFromAttributes :: "TemplateNodeDef \<Rightarrow> (string \<times> string \<times> string) list" where
  "SubstitutionRefsFromAttributes n =
     map (\<lambda>r. (TypeName r, TopicKind r, FieldPath r)) (filter (\<lambda>r. Prefix r = ''nodes'') (parseSubstitutionRefsFromAttributes n))"

definition UpstreamNodeTypesFromAttributes :: "TemplateNodeDef \<Rightarrow> string list" where
  "UpstreamNodeTypesFromAttributes n =
     dedup_loop [] [] (map TypeName (filter (\<lambda>r. Prefix r = ''nodes'' \<and> TypeName r \<noteq> [] \<and> TypeName r \<noteq> Type n)
       (parseSubstitutionRefsFromAttributes n)))"

subsection \<open>Building the edges\<close>

datatype edge_error = CompileWhenFailed string nat when_error | MissingRefreshFlag string nat

definition edgeFromSubscription :: "Libraries \<Rightarrow> nat \<Rightarrow> SubscriptionEntry \<Rightarrow> string \<Rightarrow> edge_error + SubscriptionEdge" where
  "edgeFromSubscription lib i s receiverType =
     (case CompileWhen lib (subType s) (subWhen s) of
        Inl e \<Rightarrow> Inl (CompileWhenFailed receiverType i e)
      | Inr w \<Rightarrow>
          (case ForceUpstreamRefresh s of
             None \<Rightarrow> Inl (MissingRefreshFlag receiverType i)
           | Some refresh \<Rightarrow>
               Inr \<lparr>ReceiverNodeType = receiverType, TypePattern = subType s, WhenExpr = w,
                    edgeForceUpstreamRefresh = refresh, edgeResolvesViaCallingNode = ResolvesViaCallingNode s\<rparr>))"

fun insertSubscriptions :: "Libraries \<Rightarrow> string \<Rightarrow> nat \<Rightarrow> SubscriptionEntry list \<Rightarrow> SubscriptionEdgeMap \<Rightarrow> edge_error + SubscriptionEdgeMap" where
  "insertSubscriptions lib receiverType i [] m = Inr m"
| "insertSubscriptions lib receiverType i (s # ss) m =
     (case edgeFromSubscription lib i s receiverType of
        Inl e \<Rightarrow> Inl e
      | Inr e \<Rightarrow> insertSubscriptions lib receiverType (i + 1) ss (Insert (subNode s) e m))"

fun insertNodes :: "Libraries \<Rightarrow> TemplateNodeDef list \<Rightarrow> SubscriptionEdgeMap \<Rightarrow> edge_error + SubscriptionEdgeMap" where
  "insertNodes lib [] m = Inr m"
| "insertNodes lib (n # ns) m =
     (case insertSubscriptions lib (Type n) 0 (Subscribes n) m of Inl e \<Rightarrow> Inl e | Inr m' \<Rightarrow> insertNodes lib ns m')"

definition subgraphInternalNodeTypes :: "TemplateSpec \<Rightarrow> string list" where
  "subgraphInternalNodeTypes t =
     concat (map (\<lambda>g. if GraphSpecName g = MainGraphName then [] else map Type (GraphNodes g)) (Graphs t))"

definition hasUpstream :: "(string \<times> substitutionRef list) list \<Rightarrow> TemplateNodeDef \<Rightarrow> bool" where
  "hasUpstream messageRefs n \<longleftrightarrow>
     list_ex (\<lambda>s. subNode s \<noteq> Type n) (Subscribes n) \<or>
     list_ex (\<lambda>ref. ref \<noteq> Type n) (UpstreamNodeTypesFromAttributes n) \<or>
     (case map_of messageRefs (Type n) of None \<Rightarrow> False | Some rs \<Rightarrow> rs \<noteq> [])"

definition rootEdge :: "string \<Rightarrow> SubscriptionEdge" where
  "rootEdge t = \<lparr>ReceiverNodeType = t, TypePattern = ''terminal/success'', WhenExpr = [],
     edgeForceUpstreamRefresh = False, edgeResolvesViaCallingNode = False\<rparr>"

definition rootTypes :: "TemplateSpec \<Rightarrow> (string \<times> substitutionRef list) list \<Rightarrow> string list" where
  "rootTypes t messageRefs =
     map Type (filter (\<lambda>n. Type n \<notin> set (subgraphInternalNodeTypes t) \<and> \<not> hasUpstream messageRefs n) (Nodes t))"

definition BuildSubscriptionEdges ::
  "Libraries \<Rightarrow> TemplateSpec \<Rightarrow> (string \<times> substitutionRef list) list \<Rightarrow> edge_error + SubscriptionEdgeMap" where
  "BuildSubscriptionEdges lib t messageRefs =
     (case insertNodes lib (Nodes t) [] of
        Inl e \<Rightarrow> Inl e
      | Inr m \<Rightarrow> Inr (fold (\<lambda>r. Insert [] (rootEdge r)) (rootTypes t messageRefs) m))"

subsection \<open>Hard dependencies\<close>

datatype hard_dep_error = FanOutTargets "(string \<times> string) list" | HardDepCycles "string list list"

definition hardDepSendersOf :: "TemplateNodeDef \<Rightarrow> string list" where
  "hardDepSendersOf n =
     dedup_loop [] [] (map subNode (filter (\<lambda>s. ForceUpstreamRefresh s = Some True \<and> subNode s \<noteq> [] \<and> subNode s \<noteq> Type n) (Subscribes n)))"

definition hardDepMap :: "TemplateNodeDef list \<Rightarrow> adjacency" where
  "hardDepMap ns = fold (\<lambda>n out. if hardDepSendersOf n = [] then out else AList.update (Type n) (hardDepSendersOf n) out) ns []"

definition detectHardDepCycle :: "adjacency \<Rightarrow> hard_dep_error option" where
  "detectHardDepCycle es = (case findAllCycles es of [] \<Rightarrow> None | cs \<Rightarrow> Some (HardDepCycles cs))"

definition BuildHardDepEdges :: "TemplateSpec \<Rightarrow> hard_dep_error + adjacency" where
  "BuildHardDepEdges t =
     (let fanoutTypes = map Type (filter (\<lambda>n. FanOut n \<noteq> None) (Nodes t));
          violations = concat (map (\<lambda>n. map (Pair (Type n)) (filter (\<lambda>s. s \<in> set fanoutTypes) (hardDepSendersOf n))) (Nodes t));
          out = hardDepMap (Nodes t)
      in if violations \<noteq> [] then Inl (FanOutTargets violations)
         else case detectHardDepCycle out of Some e \<Rightarrow> Inl e | None \<Rightarrow> Inr out)"

end
