(* ===== verification/Attribute_Schema_Checks.thy ===== *)
theory Attribute_Schema_Checks
  imports Message_Checks Holds_Checks Subscription_Edges
begin

text \<open>
  Attribute schemas at registration (\<open>lib/graph/node/template_validator_attrschema.go\<close>): the schema of a node is
  composed with the schema its executor expects and with the template's defaults, and the result has
  to populate every property. A nil schema is \<open>None\<close>.
\<close>

subsection \<open>Schemas\<close>

definition validateParamsSchema :: "Libraries \<Rightarrow> TemplateSpec \<Rightarrow> report" where
  "validateParamsSchema lib t =
     (case ParamsSchema t of
        None \<Rightarrow> []
      | Some sch \<Rightarrow>
          let schemaBytes = Marshal (codec lib) (VObj sch) in
          if \<not> AddResource lib schemaBytes then [Error ''params_schema'' ''params_schema is not valid JSON Schema'' []]
          else if \<not> CompileSchema lib schemaBytes then [Error ''params_schema'' ''params_schema does not compile'' []]
          else [])"

definition propsOf :: "jmap option \<Rightarrow> jmap option" where
  "propsOf schema = Option.bind schema (\<lambda>s. mapAt s ''properties'')"

abbreviation orEmpty :: "jmap option \<Rightarrow> jmap" where
  "orEmpty m \<equiv> (case m of None \<Rightarrow> [] | Some x \<Rightarrow> x)"

definition readOnlyProp :: "jvalue \<Rightarrow> bool" where
  "readOnlyProp v = (case v of VObj m \<Rightarrow> map_of m ''readOnly'' = Some (VBool True) | _ \<Rightarrow> False)"

definition extractReadOnlyProps :: "jmap option \<Rightarrow> string list" where
  "extractReadOnlyProps schema = map fst (filter (\<lambda>(name, raw). readOnlyProp raw) (orEmpty (propsOf schema)))"

definition IsPermissiveExecutorSchema :: "jmap option \<Rightarrow> bool" where
  "IsPermissiveExecutorSchema execSchema = (case execSchema of None \<Rightarrow> False | Some s \<Rightarrow> map_of s ''properties'' = None)"

definition executorSchemaAllowsExtensions :: "jmap option \<Rightarrow> bool" where
  "executorSchemaAllowsExtensions execSchema =
     (case execSchema of
        None \<Rightarrow> False
      | Some s \<Rightarrow> (case map_of s ''additionalProperties'' of None \<Rightarrow> False | Some (VBool b) \<Rightarrow> b | Some _ \<Rightarrow> True))"

definition SchemaWithoutTopLevelRequired :: "jmap \<Rightarrow> jmap" where
  "SchemaWithoutTopLevelRequired schema = filter (\<lambda>(k, v). k \<noteq> ''required'') schema"

subsection \<open>Composition\<close>

definition deepCopyJSON :: "JsonCodec \<Rightarrow> jmap \<Rightarrow> jmap" where
  "deepCopyJSON jc v = (case decodeMap jc (Marshal jc (VObj v)) of Some (Some m) \<Rightarrow> m | _ \<Rightarrow> [])"

definition applyDefault :: "string \<times> jvalue \<Rightarrow> jmap \<Rightarrow> jmap" where
  "applyDefault d props = (case d of (attr, val) \<Rightarrow>
     AList.update attr (VObj (AList.update ''default'' val (orEmpty (mapAt props attr)))) props)"

definition overlay :: "jmap \<Rightarrow> jmap \<Rightarrow> jmap" where
  "overlay nodeProp existing =
     (let e1 = (if map_of nodeProp ''source'' \<noteq> None then AList.delete ''default'' existing else existing);
          e2 = (if map_of nodeProp ''default'' \<noteq> None then AList.delete ''source'' e1 else e1)
      in fold (\<lambda>(k, v). AList.update k v) nodeProp e2)"

definition applyNodeProp :: "JsonCodec \<Rightarrow> string \<times> jvalue \<Rightarrow> jmap \<Rightarrow> jmap" where
  "applyNodeProp jc p props =
     (case p of (attr, raw) \<Rightarrow>
        (case asMap raw of
           None \<Rightarrow> props
         | Some nodeProp \<Rightarrow>
             (case mapAt props attr of
                None \<Rightarrow> AList.update attr (VObj (deepCopyJSON jc nodeProp)) props
              | Some existing \<Rightarrow> AList.update attr (VObj (overlay nodeProp existing)) props)))"

fun mergeRequired :: "string list \<Rightarrow> jvalue list \<Rightarrow> jvalue list" where
  "mergeRequired seen [] = []"
| "mergeRequired seen (r # rs) =
     (case r of
        VStr s \<Rightarrow> if s \<in> set seen then mergeRequired seen rs else r # mergeRequired (s # seen) rs
      | _ \<Rightarrow> mergeRequired seen rs)"

definition requiredStrings :: "jvalue list \<Rightarrow> string list" where
  "requiredStrings vs = concat (map (\<lambda>v. case v of VStr s \<Rightarrow> [s] | _ \<Rightarrow> []) vs)"

definition listAt :: "jmap \<Rightarrow> string \<Rightarrow> jvalue list" where
  "listAt m k = (case map_of m k of Some (VArr xs) \<Rightarrow> xs | _ \<Rightarrow> [])"

definition MergeAttributeDefaults :: "JsonCodec \<Rightarrow> jmap option \<Rightarrow> jmap \<Rightarrow> jmap option \<Rightarrow> jmap" where
  "MergeAttributeDefaults jc execSchema l1Defaults nodeSchema =
     (let out0 = (case execSchema of None \<Rightarrow> [] | Some s \<Rightarrow> deepCopyJSON jc s);
          props0 = orEmpty (mapAt out0 ''properties'');
          props1 = fold applyDefault l1Defaults props0 in
      case nodeSchema of
        None \<Rightarrow> AList.update ''properties'' (VObj props1) out0
      | Some ns \<Rightarrow>
          let props2 = fold (applyNodeProp jc) (orEmpty (mapAt ns ''properties'')) props1;
              out1 = AList.update ''properties'' (VObj props2) out0;
              nodeReq = listAt ns ''required''; existingReq = listAt out0 ''required'';
              out2 = (if nodeReq = [] then out1
                      else AList.update ''required'' (VArr (existingReq @ mergeRequired (requiredStrings existingReq) nodeReq)) out1)
          in (case (map_of out2 ''additionalProperties'', map_of ns ''additionalProperties'') of
                (None, Some v) \<Rightarrow> AList.update ''additionalProperties'' v out2
              | _ \<Rightarrow> out2))"

subsection \<open>Checks\<close>

definition checkEffectiveProp ::
  "jmap option \<Rightarrow> jmap option \<Rightarrow> string list \<Rightarrow> bool \<Rightarrow> string \<times> jvalue \<Rightarrow> (string \<times> string) list" where
  "checkEffectiveProp nodeSchema execSchema readOnlyProps execSchemaVisible p =
     (case p of (name, raw) \<Rightarrow>
        (case asMap raw of
           None \<Rightarrow> []
         | Some prop \<Rightarrow>
             let hasSource = map_of prop ''source'' \<noteq> None; hasDefault = map_of prop ''default'' \<noteq> None;
                 execRO = name \<in> set readOnlyProps; path = ''properties.'' @ name;
                 execEnumerates = map_of (orEmpty (propsOf execSchema)) name \<noteq> None;
                 propUnconstrained = IsPermissiveExecutorSchema execSchema \<or> executorSchemaAllowsExtensions execSchema \<and> \<not> execEnumerates
             in if hasSource \<and> hasDefault then [(path, ''property declares both source and default'')]
                else if \<not> hasSource \<and> \<not> hasDefault \<and> \<not> execRO \<and> execSchemaVisible \<and> \<not> propUnconstrained
                  then [(path, ''property is unpopulated at dispatch'')]
                else if execSchemaVisible \<and> \<not> propUnconstrained then
                  (case map_of (orEmpty (propsOf nodeSchema)) name of
                     None \<Rightarrow> []
                   | Some rawNode \<Rightarrow> if readOnlyProp rawNode \<and> \<not> execRO then [(path, ''template marks property readOnly'')] else [])
                else []))"

definition CheckEffectiveAttributesSchema ::
  "jmap option \<Rightarrow> jmap option \<Rightarrow> jmap option \<Rightarrow> string list \<Rightarrow> bool \<Rightarrow> (string \<times> string) list" where
  "CheckEffectiveAttributesSchema effective nodeSchema execSchema readOnlyProps execSchemaVisible =
     concat (map (checkEffectiveProp nodeSchema execSchema readOnlyProps execSchemaVisible) (orEmpty (propsOf effective)))"

definition checkAttributesSchema ::
  "jmap option \<Rightarrow> jmap option \<Rightarrow> jmap option \<Rightarrow> string list \<Rightarrow> bool \<Rightarrow> string \<Rightarrow> report" where
  "checkAttributesSchema effective nodeSchema execSchema readOnlyProps execSchemaVisible sbase =
     map (\<lambda>(path, msg). Error (sbase @ ''.'' @ path) msg [])
       (CheckEffectiveAttributesSchema effective nodeSchema execSchema readOnlyProps execSchemaVisible)"

datatype schema_error = ResourceFailed | CompileFailed | NormalizeFailed | Violated

definition validateAgainstSchema :: "Libraries \<Rightarrow> jmap \<Rightarrow> jmap \<Rightarrow> schema_error option" where
  "validateAgainstSchema lib schema data =
     (let schemaBytes = Marshal (codec lib) (VObj schema); dataBytes = Marshal (codec lib) (VObj data) in
      if \<not> AddResource lib schemaBytes then Some ResourceFailed
      else if \<not> CompileSchema lib schemaBytes then Some CompileFailed
      else if decodeAny (codec lib) dataBytes = None then Some NormalizeFailed
      else if \<not> SchemaAccepts lib schemaBytes dataBytes then Some Violated
      else None)"

definition defaultsBag :: "jmap \<Rightarrow> jmap \<Rightarrow> jmap" where
  "defaultsBag l1Defaults nodeProps =
     fold (\<lambda>(name, raw) bag. case Option.bind (asMap raw) (\<lambda>m. map_of m ''default'') of None \<Rightarrow> bag | Some v \<Rightarrow> AList.update name v bag)
       nodeProps (fold (\<lambda>(name, v). AList.update name v) l1Defaults [])"

definition typeMismatch :: "JsonCodec \<Rightarrow> string \<Rightarrow> jmap \<Rightarrow> string \<times> jvalue \<Rightarrow> report" where
  "typeMismatch jc sbase execProps p =
     (case p of (name, raw) \<Rightarrow>
        (case (Option.bind (asMap raw) (\<lambda>m. map_of m ''type''), Option.bind (mapAt execProps name) (\<lambda>m. map_of m ''type'')) of
           (Some nodeType, Some execType) \<Rightarrow>
             if jsonValuesEqual jc nodeType execType then []
             else [Error (sbase @ ''.properties.'' @ name @ ''.type'') ''the executor is authoritative on types'' [name]]
         | _ \<Rightarrow> []))"

definition validateCompositionAgainstExecutor :: "Libraries \<Rightarrow> jmap option \<Rightarrow> jmap \<Rightarrow> jmap \<Rightarrow> string \<Rightarrow> report" where
  "validateCompositionAgainstExecutor lib execSchema l1Defaults nodeSchema sbase =
     (case execSchema of
        None \<Rightarrow> []
      | Some es \<Rightarrow>
          let execProps = mapAt es ''properties''; nodeProps = orEmpty (mapAt nodeSchema ''properties'');
              closed = (map_of es ''additionalProperties'' = Some (VBool False)); bag = defaultsBag l1Defaults nodeProps in
          concat (map (typeMismatch (codec lib) sbase (orEmpty execProps)) nodeProps) @
          (case execProps of
             None \<Rightarrow> []
           | Some eps \<Rightarrow>
               if \<not> closed then []
               else concat (map (\<lambda>(name, raw). if map_of eps name = None
                      then [Error (sbase @ ''.properties.'' @ name) ''property is not declared and the schema is closed'' [name]] else []) nodeProps) @
                    concat (map (\<lambda>(name, v). if map_of eps name = None \<and> map_of nodeProps name = None
                      then [Error (''defaults.attributes.by_executor.'' @ name) ''property is not declared and the schema is closed'' [name]] else []) l1Defaults)) @
          (if bag = [] then []
           else case validateAgainstSchema lib (SchemaWithoutTopLevelRequired es) bag of
             None \<Rightarrow> []
           | Some e \<Rightarrow> [Error (sbase @ ''.defaults'') ''composed default values violate the schema'' []]))"

definition templateDefaultsFor :: "TemplateSpec \<Rightarrow> string \<Rightarrow> jmap" where
  "templateDefaultsFor t exec =
     (if exec = [] then []
      else case Option.bind (Defaults t) defaultAttributes of
        None \<Rightarrow> []
      | Some a \<Rightarrow> (case map_of (ByExecutor a) exec of None \<Rightarrow> [] | Some m \<Rightarrow> m))"

text \<open>The schema of the executor: whether it is visible, and the schema if it is not empty; \<open>None\<close> if it does not decode.\<close>

definition visibleSchema :: "Libraries \<Rightarrow> RegistryHooks \<Rightarrow> string \<Rightarrow> (bool \<times> jmap option) option" where
  "visibleSchema lib hooks exec =
     (case ExecutorExpectedAttributesSchema hooks of
        None \<Rightarrow> Some (False, None)
      | Some schemaFor \<Rightarrow>
          if exec = [] then Some (False, None)
          else (case schemaFor exec of
             None \<Rightarrow> Some (False, None)
           | Some execBytes \<Rightarrow> if execBytes = [] then Some (True, None) else map_option (Pair True) (decodeMap (codec lib) execBytes)))"

definition checkSources :: "JsonCodec \<Rightarrow> TemplateNodeDef \<Rightarrow> jmap \<Rightarrow> string \<Rightarrow> (string \<times> nat) list \<Rightarrow> TemplateSpec \<Rightarrow> report" where
  "checkSources jc n schema sbase declared t =
     (let directAliases = map AliasOf (ClaimProducers n); heldAliases = map (\<lambda>(a, b). EffectiveHoldsLocalAlias a b) (Holds n) in
      concat (map (\<lambda>(raw, path).
        case raw of
          VStr src \<Rightarrow> checkAttributeSource jc src (sbase @ ''.'' @ path) declared directAliases heldAliases t
        | _ \<Rightarrow> [Error (sbase @ ''.'' @ path) ''source must be a string'' []]) (walkSchemaForSourcesWithPath (VObj schema) [])))"

definition checkComposition :: "Libraries \<Rightarrow> TemplateSpec \<Rightarrow> RegistryHooks \<Rightarrow> jmap \<Rightarrow> string \<Rightarrow> string \<Rightarrow> string \<Rightarrow> report" where
  "checkComposition lib t hooks schema base sbase exec =
     (case visibleSchema lib hooks exec of
        None \<Rightarrow> [Error (base @ ''.attributes'') ''expected_attributes_schema is not valid JSON'' [exec]]
      | Some (execSchemaVisible, execSchema) \<Rightarrow>
          let l1Defaults = templateDefaultsFor t exec;
              effective = MergeAttributeDefaults (codec lib) execSchema l1Defaults (Some schema) in
          (if \<not> execSchemaVisible \<and> exec \<noteq> [] \<and> ExecutorExpectedAttributesSchema hooks \<noteq> None
           then [Error (base @ ''.attributes'') ''expected_attributes_schema is not visible at registration'' [exec]] else []) @
          checkAttributesSchema (Some effective) (Some schema) execSchema (extractReadOnlyProps execSchema) execSchemaVisible sbase @
          (if execSchemaVisible then validateCompositionAgainstExecutor lib execSchema l1Defaults schema sbase else []))"

definition validateAttributesSchema ::
  "Libraries \<Rightarrow> TemplateNodeDef \<Rightarrow> string \<Rightarrow> (string \<times> nat) list \<Rightarrow> TemplateSpec \<Rightarrow> RegistryHooks \<Rightarrow> report" where
  "validateAttributesSchema lib n base declared t hooks =
     (let schema = (case Attributes n of None \<Rightarrow> [] | Some a \<Rightarrow> Schema a);
          sbase = base @ ''.attributes.schema''; schemaBytes = Marshal (codec lib) (VObj schema) in
      if schema = [] then []
      else if \<not> AddResource lib schemaBytes then [Error sbase ''schema is not valid JSON'' []]
      else (if CompileSchema lib schemaBytes then [] else [Error sbase ''schema does not compile'' []]) @
           checkSources (codec lib) n schema sbase declared t @
           checkComposition lib t hooks schema base sbase (effectiveExecutor n hooks))"

end
