(* ===== verification/Template_Validator.thy ===== *)
theory Template_Validator
  imports Graph_Canonical Attribute_Schema_Checks
begin

text \<open>
  The template validator (\<open>lib/graph/node/template_validator.go\<close>): the checks of nodes, subscriptions and
  substitution references, and \<open>ValidateTemplate\<close>, which canonicalises a template and runs all
  checks in their order.
\<close>

subsection \<open>The template\<close>

definition MessageQueueModeBacklog :: string where "MessageQueueModeBacklog = ''backlog''"
definition MessageQueueModeCoalesce :: string where "MessageQueueModeCoalesce = ''coalesce''"

definition validateMessageQueueMode :: "TemplateSpec \<Rightarrow> report" where
  "validateMessageQueueMode t =
     (let mode = MessageQueueMode t; types = remdups (filter (\<lambda>ty. ty \<noteq> []) (map msgType (Messages t))) in
      if mode \<notin> {[], MessageQueueModeBacklog, MessageQueueModeCoalesce} then [Error ''message_queue_mode'' ''want one of backlog | coalesce'' [mode]]
      else if mode \<noteq> MessageQueueModeCoalesce \<or> length types < 2 then []
      else [Warning ''message_queue_mode'' ''coalesce cancels all pending messages'' (sort types)])"

definition rejectFlags :: "string \<Rightarrow> TemplateNodeDef \<Rightarrow> report" where
  "rejectFlags path n =
     (if IsSubgraphEntryAbsorbed n then [Error (path @ ''.is_subgraph_entry_absorbed'') ''may not be declared'' []] else []) @
     (if IsSubgraphExit n then [Error (path @ ''.is_subgraph_exit'') ''may not be declared'' []] else []) @
     each (\<lambda>si s. if ResolvesViaCallingNode s
       then [Error (indexed (path @ ''.subscribes'') si @ ''.resolves_via_calling_node'') ''may not be declared'' []] else []) (Subscribes n)"

definition rejectAuthorSetInternalFlags :: "TemplateSpec \<Rightarrow> report" where
  "rejectAuthorSetInternalFlags t =
     each (\<lambda>i. rejectFlags (indexed ''nodes'' i)) (Nodes t) @
     each (\<lambda>gi g. each (\<lambda>ni. rejectFlags (indexed (indexed ''graphs'' gi @ ''.nodes'') ni)) (GraphNodes g)) (Graphs t)"

definition validateDefaults :: "TemplateSpec \<Rightarrow> RegistryHooks \<Rightarrow> report" where
  "validateDefaults t hooks =
     (case Option.bind (Defaults t) defaultAttributes of
        None \<Rightarrow> []
      | Some a \<Rightarrow>
          let known = map (\<lambda>n. effectiveExecutor n hooks) (Nodes t) in
          concat (map (\<lambda>execName. if execName \<noteq> [] \<and> execName \<in> set known then []
            else [Error (quotedKey ''defaults.attributes.by_executor'' execName) ''executor name does not match any node'' [execName]])
            (sort (map fst (ByExecutor a)))))"

fun declareNodes :: "nat \<Rightarrow> (string \<times> nat) list \<Rightarrow> TemplateNodeDef list \<Rightarrow> report \<times> (string \<times> nat) list" where
  "declareNodes i declared [] = ([], declared)"
| "declareNodes i declared (n # ns) =
     (let path = indexed ''nodes'' i @ ''.type'' in
      if TrimSpace (Type n) = [] then
        (let (r, d) = declareNodes (i + 1) declared ns in (Error path ''type is required'' [] # r, d))
      else if map_of declared (Type n) \<noteq> None then
        (let (r, d) = declareNodes (i + 1) declared ns in (Error path ''duplicate node type'' [Type n] # r, d))
      else declareNodes (i + 1) ((Type n, i) # declared) ns)"

subsection \<open>Error classes\<close>

definition RuntimeSynthesizedErrorClasses :: "string list" where
  "RuntimeSynthesizedErrorClasses =
     [''template_resolution_failed'', ''template_validation_failed'', ''executor_schema_unavailable'',
      ''attributes_schema_failed'', ''unresolved_executor'', ''executor_sync_timeout'', ''executor_protocol_violation'', ''abandoned'']"

definition isRuntimeSynthesizedErrorClass :: "string \<Rightarrow> bool" where
  "isRuntimeSynthesizedErrorClass className \<longleftrightarrow> HasPrefix className ''acquire/'' \<or> className \<in> set RuntimeSynthesizedErrorClasses"

definition errorClassMatchesDeclared :: "string \<Rightarrow> string list \<Rightarrow> bool" where
  "errorClassMatchesDeclared cls declared =
     list_ex (\<lambda>d. d = cls \<or> HasSuffix d ''/*'' \<and> HasPrefix cls (TrimSuffix d ''*'')) declared"

definition RequiredClaimProducers :: "TemplateNodeDef \<Rightarrow> string list" where
  "RequiredClaimProducers n = dedup_loop [] [] (filter (\<lambda>name. name \<noteq> []) (map refName (ClaimProducers n)))"

text \<open>The classes an executor declares, \<open>None\<close> if the vocabulary is unknown, and those of the producers a node uses.\<close>

definition executorClassesOf :: "RegistryHooks \<Rightarrow> string \<Rightarrow> string list option" where
  "executorClassesOf hooks exec =
     (if exec = [] then None else Option.bind (ExecutorDeclaredErrorClasses hooks) (\<lambda>f. f exec))"

definition producerClassLists :: "RegistryHooks \<Rightarrow> TemplateNodeDef \<Rightarrow> string list list" where
  "producerClassLists hooks n =
     (case ClaimProducerDeclaredErrorClasses hooks of
        None \<Rightarrow> []
      | Some f \<Rightarrow> concat (map (\<lambda>p. case f p of None \<Rightarrow> [] | Some cs \<Rightarrow> [cs]) (RequiredClaimProducers n)))"

definition validActions :: "string list" where
  "validActions = [''pass'', ''give_up'', ''retry'', ''release_and_requeue'']"

definition validateErrorTypes :: "TemplateNodeDef \<Rightarrow> string \<Rightarrow> RegistryHooks \<Rightarrow> report" where
  "validateErrorTypes n base hooks =
     (let exec = effectiveExecutor n hooks; execClasses = executorClassesOf hooks exec; producerLists = producerClassLists hooks n;
          vocabularyKnown = (execClasses \<noteq> None \<or> producerLists \<noteq> []) in
      concat (map (\<lambda>className.
        let path = keyed_path (base @ ''.error_types'') className;
            action = (case map_of (ErrorTypes n) className of None \<Rightarrow> [] | Some p \<Rightarrow> policyAction p) in
        (if action \<in> set validActions then [] else [Error (path @ ''.action'') ''unknown action'' [action]]) @
        (if \<not> vocabularyKnown \<or> isRuntimeSynthesizedErrorClass className \<or>
            errorClassMatchesDeclared className (case execClasses of None \<Rightarrow> [] | Some cs \<Rightarrow> cs) \<or>
            errorClassMatchesDeclared className (concat producerLists) then []
         else [Warning path ''error class is not in any declared vocabulary'' [className, exec]]))
        (sort (map fst (ErrorTypes n)))))"

definition validateAcquireUnavailablePolicyAdvised :: "TemplateNodeDef \<Rightarrow> string \<Rightarrow> report" where
  "validateAcquireUnavailablePolicyAdvised n base =
     (if ClaimProducers n = [] \<or> errorClassMatchesDeclared ''acquire/unavailable'' (map fst (ErrorTypes n)) then []
      else [Warning (base @ ''.error_types'') ''no acquire/unavailable policy'' []])"

subsection \<open>Subscriptions\<close>

definition validateWhen :: "Libraries \<Rightarrow> SubscriptionEntry \<Rightarrow> string \<Rightarrow> string list \<Rightarrow> (string \<times> string list) list \<Rightarrow> report" where
  "validateWhen lib s sbase declaredMessages messageBodyFields =
     (if subWhen s = [] then []
      else case (if subNode s \<in> set declaredMessages
                 then CompileWhenWithBodyFields lib (subType s) (subWhen s)
                        (Some (case map_of messageBodyFields (subNode s) of None \<Rightarrow> [] | Some fs \<Rightarrow> fs))
                 else CompileWhen lib (subType s) (subWhen s)) of
        Inl e \<Rightarrow> [Error (sbase @ ''.when'') ''when does not compile'' [subWhen s]]
      | Inr p \<Rightarrow> [])"

definition warnUnknownErrorClass :: "SubscriptionEntry \<Rightarrow> string \<Rightarrow> TemplateNodeDef \<Rightarrow> RegistryHooks \<Rightarrow> report" where
  "warnUnknownErrorClass s sbase sender hooks =
     (let leaf = TrimPrefix (subType s) ''terminal/error/''; exec = effectiveExecutor sender hooks;
          vocabularies = (case executorClassesOf hooks exec of None \<Rightarrow> [] | Some cs \<Rightarrow> [cs]) @ producerClassLists hooks sender in
      if HasPrefix (subType s) ''terminal/error/'' \<and> \<not> HasSuffix (subType s) ''*'' \<and> \<not> isRuntimeSynthesizedErrorClass leaf \<and>
         vocabularies \<noteq> [] \<and> \<not> list_ex (errorClassMatchesDeclared leaf) vocabularies
      then [Warning (sbase @ ''.type'') ''error class is not in any vocabulary'' [leaf, subNode s, exec]] else [])"

definition validateSubscription ::
  "Libraries \<Rightarrow> (string \<times> nat) list \<Rightarrow> string list \<Rightarrow> (string \<times> string list) list \<Rightarrow> RegistryHooks \<Rightarrow> TemplateSpec \<Rightarrow> string \<Rightarrow> SubscriptionEntry \<Rightarrow> report" where
  "validateSubscription lib declared declaredMessages messageBodyFields hooks t sbase s =
     (if ForceUpstreamRefresh s = None then [Error (sbase @ ''.force_upstream_refresh'') ''force_upstream_refresh is required'' []] else []) @
     (let sender = map_of declared (subNode s); isDeclaredMessage = (subNode s \<in> set declaredMessages) in
      if subNode s = [] then [Error sbase ''must declare node'' []]
      else if sender = None \<and> \<not> isDeclaredMessage then
        (if CHR ''/'' \<in> set (subNode s) then [Error (sbase @ ''.node'') ''message type is not declared'' [subNode s]]
         else [Error (sbase @ ''.node'') ''does not reference a declared node'' [subNode s]])
      else if TrimSpace (subType s) = [] then [Error (sbase @ ''.type'') ''type is required'' []]
      else if ValidateSubscriptionType (subType s) \<noteq> Inr () then [Error (sbase @ ''.type'') ''type is not valid'' [subType s]]
      else if isDeclaredMessage \<and> sender = None \<and> subType s \<noteq> ''terminal/success'' \<and> subType s \<noteq> ''terminal/*''
        then [Error (sbase @ ''.type'') ''subscription_message_type_unreachable'' [subNode s, subType s]]
      else validateWhen lib s sbase declaredMessages messageBodyFields @
        (case sender of
           None \<Rightarrow> []
         | Some senderIdx \<Rightarrow>
             warnUnknownErrorClass s sbase (Nodes t ! senderIdx) hooks @
             validateSubscriptionDeclaredTags s sbase (Nodes t ! senderIdx) hooks))"

abbreviation subKey :: "SubscriptionEntry \<Rightarrow> string \<times> string \<times> string" where
  "subKey s \<equiv> (subNode s, subType s, subWhen s)"

text \<open>Entries with the same key have to agree on the refresh flag of the first.\<close>

definition conflictingFlags :: "TemplateNodeDef \<Rightarrow> string \<Rightarrow> report" where
  "conflictingFlags n base =
     (let entries = filter (\<lambda>(i, s). ForceUpstreamRefresh s \<noteq> None) (zip [0..<length (Subscribes n)] (Subscribes n));
          groupKeys = dedup_loop [] [] (map (\<lambda>(i, s). subKey s) entries) in
      concat (map (\<lambda>k.
        case filter (\<lambda>(i, s). subKey s = k) entries of
          [] \<Rightarrow> []
        | (fi, first) # later \<Rightarrow>
            concat (map (\<lambda>(i, s). if ForceUpstreamRefresh s = ForceUpstreamRefresh first then []
              else [Error (indexed (base @ ''.subscribes'') i) ''conflicting cascade-shape flags'' [subNode s, subType s, subWhen s, itoa fi, itoa i]]) later))
        groupKeys))"

definition validateSubscribes ::
  "Libraries \<Rightarrow> TemplateNodeDef \<Rightarrow> string \<Rightarrow> (string \<times> nat) list \<Rightarrow> string list \<Rightarrow> (string \<times> string list) list \<Rightarrow> RegistryHooks \<Rightarrow> TemplateSpec \<Rightarrow> report" where
  "validateSubscribes lib n base declared declaredMessages messageBodyFields hooks t =
     each (\<lambda>i. validateSubscription lib declared declaredMessages messageBodyFields hooks t (indexed (base @ ''.subscribes'') i)) (Subscribes n) @
     conflictingFlags n base"

subsection \<open>Substitution references\<close>

definition substitutionRefPath :: "(string \<times> nat) list \<Rightarrow> string \<Rightarrow> substitutionRef \<Rightarrow> string" where
  "substitutionRefPath declared receiverType ref =
     (let property = AttributeProperty ref;
          origin = (if HasPrefix property ''claim_producers['' \<or> HasPrefix property ''locks['' \<or> property = ''fan_out.partition_request'' then property
                    else if property \<noteq> [] then ''attributes.schema.'' @ property else ''attributes.schema'');
          node = (case map_of declared receiverType of Some i \<Rightarrow> itoa i | None \<Rightarrow> receiverType)
      in keyed_path ''nodes'' node @ ''.'' @ origin @ '' (substitution ref)'')"

definition sortedRefs :: "(string \<times> 'r list) list \<Rightarrow> (string \<times> 'r) list" where
  "sortedRefs m = concat (map (\<lambda>k. map (Pair k) (case map_of m k of None \<Rightarrow> [] | Some rs \<Rightarrow> rs)) (sort (map fst m)))"

definition attributeKeyDeclared :: "TemplateNodeDef \<Rightarrow> string \<Rightarrow> bool" where
  "attributeKeyDeclared sender key =
     (case Option.bind (Attributes sender) (\<lambda>a. mapAt (Schema a) ''properties'') of
        None \<Rightarrow> False | Some props \<Rightarrow> map_of props key \<noteq> None)"

definition validateMessageRefs ::
  "(string \<times> nat) list \<Rightarrow> string list \<Rightarrow> (string \<times> string list) list \<Rightarrow> (string \<times> substitutionRef list) list \<Rightarrow> report" where
  "validateMessageRefs declared declaredMessages messageBodyFields messageRefs =
     concat (map (\<lambda>(receiverType, ref).
       let path = substitutionRefPath declared receiverType ref in
       if TypeName ref \<notin> set declaredMessages then [Error path ''ref to unknown message type'' [TypeName ref, FieldPath ref]]
       else if FieldPath ref = [] then []
       else case map_of messageBodyFields (TypeName ref) of
         None \<Rightarrow> [Error path ''message type declares no body_schema'' [TypeName ref, FieldPath ref]]
       | Some fs \<Rightarrow> if FieldPath ref \<in> set fs then [] else [Error path ''field is not declared in body_schema'' [TypeName ref, FieldPath ref]])
       (sortedRefs messageRefs))"

definition validateSubstitutionRefExistence ::
  "TemplateSpec \<Rightarrow> (string \<times> nat) list \<Rightarrow> (string \<times> substitutionRef list) list \<Rightarrow> report" where
  "validateSubstitutionRefExistence t declared refs =
     concat (map (\<lambda>(receiverType, ref).
       let path = substitutionRefPath declared receiverType ref in
       case map_of declared (TypeName ref) of
         None \<Rightarrow> [Error path ''ref to unknown node'' [TypeName ref, TopicKind ref, FieldPath ref]]
       | Some senderIdx \<Rightarrow>
           if TopicKind ref = ''attribute'' \<and> FieldPath ref \<noteq> [] \<and> \<not> attributeKeyDeclared (Nodes t ! senderIdx) (FieldPath ref)
           then [Error path ''attribute key not declared on the sender'' [TypeName ref, FieldPath ref]] else [])
       (sortedRefs refs))"

text \<open>The subscription type a reference needs, and whether the index of the receiver has it.\<close>

definition coverageMatch :: "(string \<times> string) list \<Rightarrow> substitutionRef \<Rightarrow> string \<times> bool" where
  "coverageMatch idx ref =
     (if TopicKind ref = ''attribute'' then
        (if FieldPath ref = [] then (''attribute/*'', (TypeName ref, ''attribute/*'') \<in> set idx)
         else let suggested = ''attribute/'' @ FieldPath ref @ ''/changed'' in
           (suggested, (TypeName ref, suggested) \<in> set idx \<or> (TypeName ref, ''attribute/*'') \<in> set idx))
      else if TopicKind ref = ''message'' then
        (''terminal/success'', (TypeName ref, ''terminal/success'') \<in> set idx \<or> (TypeName ref, ''terminal/*'') \<in> set idx)
      else ([], True))"

definition coverageIndex :: "TemplateSpec \<Rightarrow> string \<Rightarrow> (string \<times> string) list" where
  "coverageIndex t receiverType =
     (case List.find (\<lambda>n. Type n = receiverType) (rev (Nodes t)) of
        None \<Rightarrow> []
      | Some n \<Rightarrow> map (\<lambda>s. (subNode s, subType s)) (filter (\<lambda>s. subNode s \<noteq> []) (Subscribes n)))"

definition uncovered :: "TemplateSpec \<Rightarrow> string \<Rightarrow> substitutionRef \<Rightarrow> string \<Rightarrow> report" where
  "uncovered t receiverType ref literal =
     (let (suggestedType, covered) = coverageMatch (coverageIndex t receiverType) ref in
      if covered then []
      else [Structured \<lparr>ucReceiver = receiverType, ucRef = literal, ucProperty = AttributeProperty ref,
              ucSuggestedNode = TypeName ref, ucSuggestedType = suggestedType\<rparr>])"

definition validateSubstitutionRefCoverage ::
  "TemplateSpec \<Rightarrow> (string \<times> substitutionRef list) list \<Rightarrow> (string \<times> substitutionRef list) list \<Rightarrow> report" where
  "validateSubstitutionRefCoverage t refs messageRefs =
     concat (map (\<lambda>(receiverType, ref). uncovered t receiverType ref (RefLiteral ref)) (sortedRefs refs)) @
     concat (map (\<lambda>(receiverType, ref). uncovered t receiverType (ref\<lparr>TopicKind := ''message''\<rparr>)
       (''{{messages.'' @ TypeName ref @ (if FieldPath ref = [] then [] else ''.'' @ FieldPath ref) @ ''}}'')) (sortedRefs messageRefs))"

subsection \<open>Nodes\<close>

definition validateExecutorCoherence :: "TemplateNodeDef \<Rightarrow> string \<Rightarrow> RegistryHooks \<Rightarrow> report" where
  "validateExecutorCoherence n base hooks =
     (let hasExecutor = (Executor n \<noteq> []); hasDelegate = (Delegate n \<noteq> []); hasSendsMessage = (SendsMessage n \<noteq> []) in
      (if hasExecutor \<and> hasDelegate \<and> \<not> IsSubgraphEntryAbsorbed n
       then [Error (base @ ''.delegate'') ''delegate and executor are mutually exclusive'' [Executor n, Delegate n]] else []) @
      (if hasExecutor \<and> hasSendsMessage
       then [Error (base @ ''.sends_message'') ''sends_message and executor are mutually exclusive'' [Executor n, SendsMessage n]] else []) @
      (if hasDelegate \<and> hasSendsMessage
       then [Error (base @ ''.sends_message'') ''sends_message and delegate are mutually exclusive'' [Delegate n, SendsMessage n]] else []) @
      (case KindAliases hooks of
         None \<Rightarrow> []
       | Some m \<Rightarrow>
           if hasExecutor \<and> \<not> hasSendsMessage \<and> Resolve m SendMessageKindName = Some (Executor n)
           then [Error (base @ ''.executor'') ''builtin send-message executor'' [Executor n]] else []) @
      (if \<not> hasExecutor \<and> \<not> hasDelegate \<and> \<not> hasSendsMessage \<and> effectiveExecutor n hooks = [] \<and> schemaOf n \<noteq> []
       then [Warning (base @ ''.attributes'') ''pure-cascade node declares attributes'' []] else []))"

definition validateKindDeclaration :: "TemplateNodeDef \<Rightarrow> string \<Rightarrow> RegistryHooks \<Rightarrow> report" where
  "validateKindDeclaration n base hooks =
     (let path = base @ ''.kind'' in
      if nodeKind n = [] then []
      else if Executor n \<noteq> [] then [Error path ''node declares both kind and executor'' []]
      else if Delegate n \<noteq> [] then [Error path ''node declares both kind and delegate'' [nodeKind n, Delegate n]]
      else if SendsMessage n \<noteq> [] then [Error path ''node declares both kind and sends_message'' [nodeKind n, SendsMessage n]]
      else case KindAliases hooks of
        None \<Rightarrow> [Error path ''no kind aliases configured'' [nodeKind n]]
      | Some m \<Rightarrow> if Resolve m (nodeKind n) = None then [Error path ''kind is not registered'' [nodeKind n]] else [])"

definition validateExecutorDeclared :: "TemplateNodeDef \<Rightarrow> string \<Rightarrow> RegistryHooks \<Rightarrow> report" where
  "validateExecutorDeclared n base hooks =
     (case ExecutorDeclared hooks of
        None \<Rightarrow> []
      | Some declared \<Rightarrow>
          if Executor n = [] \<or> declared (Executor n) then [] else [Error (base @ ''.executor'') ''executor is not declared'' [Executor n]])"

definition ClaimLifetimeSubgraph :: string where "ClaimLifetimeSubgraph = ''subgraph''"
definition ClaimLifetimeDurable :: string where "ClaimLifetimeDurable = ''durable''"

text \<open>One claim producer; the second component is whether its alias is entered.\<close>

definition validateClaimProducer ::
  "TemplateSpec \<Rightarrow> RegistryHooks \<Rightarrow> string \<Rightarrow> (string \<times> nat) list \<Rightarrow> NodeClaimProducerRef \<Rightarrow> report \<times> bool" where
  "validateClaimProducer t hooks sbase seenAlias s =
     (let name = TrimSpace (refName s) in
      if name = [] then ([Error (sbase @ ''.name'') ''store name is required'' []], False)
      else if (case StoreDeclared hooks of None \<Rightarrow> False | Some f \<Rightarrow> \<not> f name)
        then ([Error (sbase @ ''.name'') ''store is not declared'' [name]], False)
      else
        let intentErrs = (if refIntent s = ''r'' \<or> refIntent s = ''rw'' then []
              else if refIntent s = [] then [Error (sbase @ ''.intent'') ''intent is required'' []]
              else [Error (sbase @ ''.intent'') ''intent is not valid'' [refIntent s]]);
            selectorErrs = (if TrimSpace (refSelector s) = [] then [Error (sbase @ ''.selector'') ''selector is required'' []]
              else checkScopeDirectives (refSelector s) (sbase @ ''.selector'') t)
        in case map_of seenAlias (AliasOf s) of
          Some prev \<Rightarrow> (intentErrs @ selectorErrs @ [Error (sbase @ ''.alias'') ''duplicate claim alias'' [AliasOf s, itoa prev]], False)
        | None \<Rightarrow>
            (intentErrs @ selectorErrs @
             (if refLifetime s \<in> {[], ClaimLifetimeSubgraph, ClaimLifetimeDurable} then []
              else [Error (sbase @ ''.lifetime'') ''lifetime is not valid'' [refLifetime s]]), True))"

fun claimProducersLoop ::
  "TemplateSpec \<Rightarrow> RegistryHooks \<Rightarrow> string \<Rightarrow> nat \<Rightarrow> (string \<times> nat) list \<Rightarrow> NodeClaimProducerRef list \<Rightarrow> report" where
  "claimProducersLoop t hooks base j seenAlias [] = []"
| "claimProducersLoop t hooks base j seenAlias (s # ss) =
     (let (errs, entered) = validateClaimProducer t hooks (indexed (base @ ''.claim_producers'') j) seenAlias s in
      errs @ claimProducersLoop t hooks base (j + 1) (if entered then (AliasOf s, j) # seenAlias else seenAlias) ss)"

definition validateClaimProducers :: "TemplateNodeDef \<Rightarrow> string \<Rightarrow> TemplateSpec \<Rightarrow> RegistryHooks \<Rightarrow> report" where
  "validateClaimProducers n base t hooks = claimProducersLoop t hooks base 0 [] (ClaimProducers n)"

fun locksLoop :: "TemplateSpec \<Rightarrow> RegistryHooks \<Rightarrow> string \<Rightarrow> nat \<Rightarrow> (string \<times> nat) list \<Rightarrow> NodeLockRef list \<Rightarrow> report" where
  "locksLoop t hooks base j seen [] = []"
| "locksLoop t hooks base j seen (l # ls) =
     (let path = indexed (base @ ''.locks'') j @ ''.name''; name = TrimSpace (lockRefName l) in
      if name = [] then Error path ''lock name is required'' [] # locksLoop t hooks base (j + 1) seen ls
      else checkLockNameDirectives name path t @
        (case map_of seen name of
           Some prev \<Rightarrow> Error path ''duplicate lock name'' [name, itoa prev] # locksLoop t hooks base (j + 1) seen ls
         | None \<Rightarrow>
             (case NamedLockDeclared hooks of
                None \<Rightarrow> []
              | Some f \<Rightarrow> if CHR ''{'' \<notin> set name \<and> \<not> f name then [Error path ''named lock is not declared'' [name]] else []) @
             locksLoop t hooks base (j + 1) ((name, j) # seen) ls))"

definition validateLocks :: "TemplateNodeDef \<Rightarrow> string \<Rightarrow> TemplateSpec \<Rightarrow> RegistryHooks \<Rightarrow> report" where
  "validateLocks n base t hooks = locksLoop t hooks base 0 [] (Locks n)"

definition backoffIsConfigured :: "RetryBackoffConfig \<Rightarrow> bool" where
  "backoffIsConfigured b \<longleftrightarrow> backoffKind b \<noteq> [] \<or> backoffJitter b \<noteq> [] \<or> MaxDelayMs b \<noteq> 0"

definition validateRetryBackoff :: "TemplateNodeDef \<Rightarrow> string \<Rightarrow> report" where
  "validateRetryBackoff n base =
     (case RetryBackoff n of
        None \<Rightarrow> []
      | Some b \<Rightarrow>
          let path = base @ ''.retry_backoff'' in
          (if backoffKind b \<in> {[], ''linear'', ''exponential''} then [] else [Error (path @ ''.kind'') ''unknown retry_backoff kind'' [backoffKind b]]) @
          (if backoffJitter b \<in> {[], ''none'', ''plus_minus''} then [] else [Error (path @ ''.jitter'') ''unknown retry_backoff jitter'' [backoffJitter b]]) @
          (if BaseDelayMs b < 0 then [Error (path @ ''.base_delay_ms'') ''base_delay_ms must not be negative'' []] else []) @
          (if BaseDelayMs b = 0 \<and> backoffIsConfigured b then [Error (path @ ''.base_delay_ms'') ''base_delay_ms must be greater than zero'' []] else []) @
          (if MaxDelayMs b < 0 then [Error (path @ ''.max_delay_ms'') ''max_delay_ms must not be negative'' []] else []) @
          (if MaxDelayMs b > 0 \<and> BaseDelayMs b > 0 \<and> MaxDelayMs b < BaseDelayMs b
           then [Error (path @ ''.max_delay_ms'') ''max_delay_ms is below base_delay_ms'' []] else []))"

definition cascadeModes :: "string list" where
  "cascadeModes = [''most-recent'', ''sequenced'', ''idempotent-queue'', ''idempotent-settled'']"

definition validateCascadeMode :: "TemplateNodeDef \<Rightarrow> string \<Rightarrow> report" where
  "validateCascadeMode n base =
     (if nodeCascadeMode n = [] \<or> nodeCascadeMode n \<in> set cascadeModes then []
      else [Error (base @ ''.cascade_mode'') ''unknown cascade_mode'' [nodeCascadeMode n]])"

definition second :: int where "second = 1000000000"

definition validateDeadline :: "Libraries \<Rightarrow> string \<Rightarrow> string \<times> string \<Rightarrow> report" where
  "validateDeadline lib base kv =
     (case kv of (val, field) \<Rightarrow>
        let path = base @ ''.'' @ field in
        if val = [] then []
        else case ParseDuration lib val of
          None \<Rightarrow> [Error path ''invalid duration'' [val]]
        | Some d \<Rightarrow>
            if d < 0 then [Error path ''negative duration'' [val]]
            else if d > 0 \<and> d < second then [Error path ''duration is below the one-second resolution'' [val]]
            else [])"

definition validateDispatchDeadlines :: "Libraries \<Rightarrow> TemplateNodeDef \<Rightarrow> string \<Rightarrow> report" where
  "validateDispatchDeadlines lib n base =
     concat (map (validateDeadline lib base)
       [(SyncRPCDeadline n, ''sync_rpc_deadline''), (MaxQuietPeriod n, ''max_quiet_period''), (MaxRuntime n, ''max_runtime'')])"

definition validateTagsAtRegistration :: "TemplateNodeDef \<Rightarrow> string \<Rightarrow> TemplateSpec \<Rightarrow> report" where
  "validateTagsAtRegistration n base t =
     each (\<lambda>i tag.
       concat (map (\<lambda>m.
         let inside = TrimSpace m; path = indexed (base @ ''.tags'') i in
         case directiveBody inside of
           None \<Rightarrow> [Error path ''tag directive is malformed'' [inside]]
         | Some (kind, rest) \<Rightarrow>
             if kind \<noteq> ''params'' then [Error path ''tag directive uses unsupported kind'' [inside, kind]]
             else if map_of (paramsSchemaProperties t) (paramsTopKey rest) = None
               then [Error path ''tag references undeclared params key'' [paramsTopKey rest]] else [])
         (bodies (dispatchDirectives tag)))) (Tags n)"

subsection \<open>ValidateTemplate\<close>

definition validateNode ::
  "Libraries \<Rightarrow> RegistryHooks \<Rightarrow> TemplateSpec \<Rightarrow> (string \<times> nat) list \<Rightarrow> string list \<Rightarrow> (string \<times> string list) list \<Rightarrow> nat \<Rightarrow> TemplateNodeDef \<Rightarrow> report" where
  "validateNode lib hooks t declared declaredMessages messageBodyFields i n =
     (let base = indexed ''nodes'' i in
      validateSubscribes lib n base declared declaredMessages messageBodyFields hooks t @
      validateErrorTypes n base hooks @
      validateRetryBackoff n base @
      validateExecutorCoherence n base hooks @
      validateExecutorDeclared n base hooks @
      validateKindDeclaration n base hooks @
      validateSendsMessage (codec lib) n base t declaredMessages @
      validateClaimProducers n base t hooks @
      validateLocks n base t hooks @
      validateAttributesSchema lib n base declared t hooks @
      validateAcquireUnavailablePolicyAdvised n base @
      validateCascadeMode n base @
      validateDispatchDeadlines lib n base @
      validateHolds n base t declared @
      validateFanOut n base t declared hooks @
      validateTagsAtRegistration n base t)"

definition hardDepErrors :: "TemplateSpec \<Rightarrow> report" where
  "hardDepErrors t = (case BuildHardDepEdges t of Inl e \<Rightarrow> [Error ''graphs'' ''hard dependency'' []] | Inr es \<Rightarrow> [])"

text \<open>The checks that follow canonicalisation, for a template with at least one node.\<close>

definition validateCanonical :: "Libraries \<Rightarrow> RegistryHooks \<Rightarrow> TemplateSpec \<Rightarrow> report" where
  "validateCanonical lib hooks t =
     (let (declareErrs, declared) = declareNodes 0 [] (Nodes t);
          (messageErrs, declaredMessages) = validateMessages lib t declared;
          messageBodyFields = buildMessageBodyFieldSet (codec lib) t;
          messageRefs = ExtractMessageRefsFromTemplate t;
          refs = ExtractSubstitutionRefsFromTemplate t
      in validateDefaults t hooks @ declareErrs @ messageErrs @
         each (validateNode lib hooks t declared declaredMessages messageBodyFields) (Nodes t) @
         validateHoldsAcyclic t @
         validatePublishers t declaredMessages hooks @
         validateMessageRefs declared declaredMessages messageBodyFields messageRefs @
         validateSubstitutionRefExistence t declared refs @
         validateSubstitutionRefCoverage t refs messageRefs @
         hardDepErrors t)"

text \<open>The result is the template as it is left behind, canonicalised, and the report.\<close>

definition ValidateTemplate :: "Libraries \<Rightarrow> RegistryHooks \<Rightarrow> TemplateSpec \<Rightarrow> TemplateSpec \<times> report" where
  "ValidateTemplate lib hooks t =
     (let nameErrs = (if TrimSpace (Name t) = [] then [Error ''name'' ''name is required'' []] else []) @
            (if TrimSpace (Version t) = [] then [Error ''version'' ''version is required'' []] else []);
          (t', graphErrs) = canonicalizeGraphs t (KindAliases hooks);
          early = nameErrs @ validateMessageQueueMode t @ rejectAuthorSetInternalFlags t @ graphErrs @
            validateDelegateTargets t' @ validateParamsSchema lib t'
      in (t', if Nodes t' = [] then early @ [Error ''nodes'' ''template must declare at least one node'' []]
              else early @ validateCanonical lib hooks t'))"

end
