(* ===== verification/Graph_Canonical_Props.thy ===== *)
theory Graph_Canonical_Props
  imports Graph_Canonical
begin

text \<open>
  What accepted graphs guarantee: the breadth-first searches compute reachability, so every node of a sub-graph
  lies on a path of subscriptions from the entry to the exit, and delegation is acyclic.
\<close>

subsection \<open>Breadth-first search\<close>

lemma breadthFirst_reach:
  assumes "set queue \<subseteq> set visited" and "\<forall>a \<in> set visited - set queue. set (neighbours adj a) \<subseteq> set visited"
  shows "set (breadthFirst adj visited queue) = (edges adj)\<^sup>* `` set visited"
  using assms
proof (induction adj visited queue rule: breadthFirst.induct)
  case (1 adj visited)
  then have "edges adj `` set visited \<subseteq> set visited" by (auto simp: edges_def)
  then show ?case using Image_closed_trancl by (simp, blast)
next
  case (2 adj visited head queue)
  obtain vis q where e: "enqueue (neighbours adj head) visited queue = (vis, q)" by fastforce
  have vis: "set vis = set visited \<union> set (neighbours adj head)" and q: "set q = set queue \<union> (set (neighbours adj head) - set visited)"
    using enqueue_grows [OF e] by auto
  have head: "head \<in> set visited" using 2(2) by simp
  have "set q \<subseteq> set vis" using 2(2) vis q by auto
  moreover have "\<forall>a \<in> set vis - set q. set (neighbours adj a) \<subseteq> set vis"
  proof
    fix a assume a: "a \<in> set vis - set q"
    then have "a \<in> set visited" "a \<notin> set queue" using vis q by auto
    with 2(3) vis show "set (neighbours adj a) \<subseteq> set vis" by (cases "a = head") auto
  qed
  ultimately have "set (breadthFirst adj vis q) = (edges adj)\<^sup>* `` set vis" using 2(1) [OF e [symmetric] refl] by blast
  moreover have "set (neighbours adj head) \<subseteq> (edges adj)\<^sup>* `` set visited" using head by (auto simp: edges_def)
  then have "(edges adj)\<^sup>* `` set vis = (edges adj)\<^sup>* `` set visited" unfolding vis by (auto intro: rtrancl_trans)
  ultimately show ?case by (simp add: e)
qed

lemma breadthFirst_from: "set (breadthFirst adj [a] [a]) = {b. (a, b) \<in> (edges adj)\<^sup>*}"
  using breadthFirst_reach [of "[a]" "[a]" adj] by auto

declare breadthFirst.simps [simp del]

lemma edges_of_pairs: "edges (fold appendNeighbour ps []) = set ps"
  by (simp add: edges_fold_append) (simp add: edges_def neighbours_def)

subsection \<open>Sub-graphs\<close>

definition subscribesTo :: "GraphSpec \<Rightarrow> (string \<times> string) set" where
  "subscribesTo g = set (subscriptionPairs (graphNodeMap g))"

lemma graphNodeMap_keys: "fst ` set (graphNodeMap g) = set (graphTypes g)"
proof -
  have "fst ` set (fold (\<lambda>n m. if Type n = [] then m else AList.update (Type n) n m) ns m) = fst ` set m \<union> set (filter (\<lambda>ty. ty \<noteq> []) (map Type ns))" for ns m
    by (induction ns arbitrary: m) (auto simp: dom_update)
  from this [of "GraphNodes g" "[]"] show ?thesis by (simp add: graphNodeMap_def graphTypes_def)
qed

lemma converse_swap: "set (map prod.swap ps) = (set ps)\<inverse>"
  by (auto simp: image_iff) (metis prod.swap_def fst_conv snd_conv)

lemma reachability_Ok:
  assumes "Ok (validateGraphReachability g)" and "Entry g \<noteq> []" and "Exit g \<noteq> []" and "ty \<in> set (graphTypes g)"
  shows "(Entry g, ty) \<in> (subscribesTo g)\<^sup>* \<and> (ty, Exit g) \<in> (subscribesTo g)\<^sup>*"
proof -
  let ?R = "subscribesTo g"
  have f: "set (breadthFirst (fold appendNeighbour (subscriptionPairs (graphNodeMap g)) []) [Entry g] [Entry g]) = {b. (Entry g, b) \<in> ?R\<^sup>*}"
    unfolding breadthFirst_from edges_of_pairs subscribesTo_def ..
  have b: "set (breadthFirst (fold appendNeighbour (map prod.swap (subscriptionPairs (graphNodeMap g))) []) [Exit g] [Exit g]) = {b. (b, Exit g) \<in> ?R\<^sup>*}"
    unfolding breadthFirst_from edges_of_pairs subscribesTo_def converse_swap rtrancl_converse converse_iff ..
  have ex: "(Entry g, Exit g) \<in> ?R\<^sup>*"
    using assms(1-3) by (cases "Exit g = Entry g") (auto simp: validateGraphReachability_def Let_def f split: if_splits)
  obtain n where "(ty, n) \<in> set (graphNodeMap g)" using assms(4) graphNodeMap_keys [of g] by force
  then have "ty = Entry g \<or> ty = Exit g \<or> (Entry g, ty) \<in> ?R\<^sup>* \<and> (ty, Exit g) \<in> ?R\<^sup>*"
    using assms(1-3) by (simp add: validateGraphReachability_def Let_def f) (elim conjE, drule (1) bspec, auto simp: f b split: if_splits)
  with ex show ?thesis by blast
qed

subsection \<open>Names are kept\<close>

lemma flattenNodes_types: "flattenNodes al es gi g ni ns st = (st', ns') \<Longrightarrow> map Type ns' = map Type ns \<and> map Delegate ns' = map Delegate ns"
proof (induction ns arbitrary: ni st st' ns')
  case (Cons n ns)
  obtain st1 n' where n': "flattenNode al es gi g ni n st = (st1, n')" by fastforce
  then have "Type n' = Type n \<and> Delegate n' = Delegate n"
    by (auto simp: flattenNode_def Let_def split: if_splits option.splits prod.splits)
  with Cons n' show ?case by (auto split: prod.splits)
qed simp

definition sameOutline :: "GraphSpec \<Rightarrow> GraphSpec \<Rightarrow> bool" where
  "sameOutline g g' \<longleftrightarrow> GraphSpecName g' = GraphSpecName g \<and> Entry g' = Entry g \<and> Exit g' = Exit g \<and>
     map Type (GraphNodes g') = map Type (GraphNodes g) \<and> map Delegate (GraphNodes g') = map Delegate (GraphNodes g)"

lemma flattenGraphs_outline: "flattenGraphs al es gi gs st = (st', gs') \<Longrightarrow> list_all2 sameOutline gs gs'"
proof (induction gs arbitrary: gi st st' gs')
  case (Cons g gs)
  obtain st1 ns where ns: "flattenNodes al es gi g 0 (GraphNodes g) st = (st1, ns)" by fastforce
  have "sameOutline g (g\<lparr>GraphNodes := ns\<rparr>)" using flattenNodes_types [OF ns] by (simp add: sameOutline_def)
  with Cons ns show ?case by (auto split: prod.splits)
qed simp

lemma checkGraphs_Ok:
  "checkGraphs i seen gs = (r, idx) \<Longrightarrow> Ok r \<Longrightarrow>
   distinct (map GraphSpecName gs) \<and> fst ` set idx = fst ` set seen \<union> GraphSpecName ` set gs \<and> GraphSpecName ` set gs \<inter> fst ` set seen = {} \<and>
   (\<forall>g \<in> set gs. GraphSpecName g \<noteq> [] \<and> (\<exists>base. Ok (validateGraphShape g base)))"
proof (induction gs arbitrary: i seen r)
  case (Cons g gs)
  from Cons.prems have ne: "GraphSpecName g \<noteq> []" and fresh: "map_of seen (GraphSpecName g) = None"
    by (auto simp: Let_def split: if_splits option.splits prod.splits)
  obtain r' where r': "checkGraphs (i + 1) ((GraphSpecName g, i) # seen) gs = (r', idx)" "r = validateGraphShape g (indexed ''graphs'' i) @ r'"
    using Cons.prems ne fresh by (auto simp: Let_def split: prod.splits)
  have "GraphSpecName g \<notin> fst ` set seen" using fresh by (simp add: map_of_eq_None_iff)
  with Cons.IH [OF r'(1)] r'(2) Cons.prems(2) ne show ?case by auto
qed simp

definition graphsOk :: "TemplateSpec \<Rightarrow> bool" where
  "graphsOk t \<longleftrightarrow>
     distinct (map GraphSpecName (Graphs t)) \<and>
     (Graphs t \<noteq> [] \<longrightarrow> MainGraphName \<in> GraphSpecName ` set (Graphs t)) \<and>
     (\<forall>g \<in> set (Graphs t). GraphSpecName g \<noteq> MainGraphName \<longrightarrow>
        Entry g \<noteq> Exit g \<and> {Entry g, Exit g} \<subseteq> set (graphTypes g) \<and>
        (\<forall>ty \<in> set (graphTypes g). (Entry g, ty) \<in> (subscribesTo g)\<^sup>* \<and> (ty, Exit g) \<in> (subscribesTo g)\<^sup>*)) \<and>
     acyclic {(GraphSpecName g, Delegate n) | g n. g \<in> set (Graphs t) \<and> n \<in> set (GraphNodes g) \<and>
        TrimSpace (Delegate n) \<noteq> [] \<and> Delegate n \<in> GraphSpecName ` set (Graphs t)}"

lemma detectDelegateCycles_Ok: "Ok (detectDelegateCycles t idx) \<longleftrightarrow> acyclic (set (delegatePairs t idx))"
  using search_exact [of "fold appendNeighbour (delegatePairs t idx) []" "sort (map fst (fold appendNeighbour (delegatePairs t idx) []))"
      "searchDepth (fold appendNeighbour (delegatePairs t idx) [])"]
  by (auto simp: detectDelegateCycles_def findAllCycles_def cycleSearch_def searchDepth_def edges_of_pairs split: list.split)

lemma delegatePairs_set:
  "set (delegatePairs t idx) = {(GraphSpecName g, Delegate n) | g n. g \<in> set (Graphs t) \<and> n \<in> set (GraphNodes g) \<and>
     TrimSpace (Delegate n) \<noteq> [] \<and> Delegate n \<in> fst ` set idx}"
  by (auto simp: delegatePairs_def map_of_eq_None_iff split: if_splits)

lemma shape_subgraph:
  assumes "Ok (validateGraphShape g base)" and "GraphSpecName g \<noteq> MainGraphName"
  shows "Entry g \<noteq> Exit g \<and> {Entry g, Exit g} \<subseteq> set (graphTypes g) \<and> Entry g \<noteq> [] \<and> Exit g \<noteq> []"
proof -
  have "TrimSpace [] = []" by (simp add: TrimSpace_def)
  with assms show ?thesis by (auto simp: validateGraphShape_def Let_def split: if_splits)
qed

lemma graphsOk_empty: "Graphs t = [] \<Longrightarrow> graphsOk t"
  by (simp add: graphsOk_def acyclic_def)

lemma outline_member:
  assumes "list_all2 sameOutline gs gs'" and "g' \<in> set gs'"
  obtains g where "g \<in> set gs" and "sameOutline g g'"
  using assms by (metis in_set_conv_nth list_all2_conv_all_nth)

lemma outline_names: "list_all2 sameOutline gs gs' \<Longrightarrow> map GraphSpecName gs' = map GraphSpecName gs"
  by (induction rule: list_all2_induct) (auto simp: sameOutline_def)

lemma sameOutline_types: "sameOutline g g' \<Longrightarrow> graphTypes g' = graphTypes g"
  by (simp add: sameOutline_def graphTypes_def)

lemma canonicalizeGraphs_Ok:
  assumes c: "canonicalizeGraphs t al = (t', r)" and ok: "Ok r"
  shows "graphsOk t'"
proof (cases "Graphs t = []")
  case True
  with c show ?thesis by (auto simp: canonicalizeGraphs_def intro: graphsOk_empty)
next
  case False
  then have ns: "Nodes t = []" using c ok by (auto simp: canonicalizeGraphs_def split: if_splits)
  let ?gs = "map trimGraphName (Graphs t)"
  obtain r1 idx where cg: "checkGraphs 0 [] ?gs = (r1, idx)" by fastforce
  obtain st gs where fg: "flattenGraphs al (buildEntryIndex ?gs) 0 ?gs \<lparr>seenTypes = [], flatNodes = [], flatErrs = []\<rparr> = (st, gs)" by fastforce
  have t': "Graphs t' = gs" and r: "Ok r1" "map_of idx MainGraphName \<noteq> None" "Ok (detectDelegateCycles t' idx)"
    "\<forall>g \<in> set gs. GraphSpecName g \<noteq> [] \<longrightarrow> GraphSpecName g \<noteq> MainGraphName \<longrightarrow> Ok (validateGraphReachability g)"
    using c ok False ns by (auto simp: canonicalizeGraphs_def Let_def cg flatten_def fg split: if_splits)
  have out: "list_all2 sameOutline ?gs gs" by (rule flattenGraphs_outline [OF fg])
  have names: "map GraphSpecName gs = map GraphSpecName ?gs" by (rule outline_names [OF out])
  from checkGraphs_Ok [OF cg r(1)] have d: "distinct (map GraphSpecName gs)" and idx: "fst ` set idx = set (map GraphSpecName gs)"
    and shape: "\<forall>g \<in> set ?gs. GraphSpecName g \<noteq> [] \<and> (\<exists>base. Ok (validateGraphShape g base))"
    unfolding names by auto
  have sub: "Entry g \<noteq> Exit g \<and> {Entry g, Exit g} \<subseteq> set (graphTypes g) \<and>
      (\<forall>ty \<in> set (graphTypes g). (Entry g, ty) \<in> (subscribesTo g)\<^sup>* \<and> (ty, Exit g) \<in> (subscribesTo g)\<^sup>*)"
    if g: "g \<in> set gs" "GraphSpecName g \<noteq> MainGraphName" for g
  proof -
    obtain g0 where g0: "g0 \<in> set ?gs" "sameOutline g0 g" by (rule outline_member [OF out g(1)])
    with shape g(2) have e: "Entry g \<noteq> Exit g \<and> {Entry g, Exit g} \<subseteq> set (graphTypes g) \<and> Entry g \<noteq> [] \<and> Exit g \<noteq> []" "GraphSpecName g \<noteq> []"
      using shape_subgraph [of g0] sameOutline_types [OF g0(2)] unfolding sameOutline_def by metis+
    with r(4) g have "Ok (validateGraphReachability g)" by blast
    with reachability_Ok e show ?thesis by blast
  qed
  moreover have "MainGraphName \<in> GraphSpecName ` set gs" using r(2) idx by (metis list.set_map map_of_eq_None_iff)
  moreover have "acyclic {(GraphSpecName g, Delegate n) | g n. g \<in> set gs \<and> n \<in> set (GraphNodes g) \<and>
        TrimSpace (Delegate n) \<noteq> [] \<and> Delegate n \<in> GraphSpecName ` set gs}"
    using r(3) unfolding detectDelegateCycles_Ok delegatePairs_set idx t' set_map .
  ultimately show ?thesis using d unfolding graphsOk_def t' by blast
qed

end
