(* ===== verification/Directive_Soundness.thy ===== *)
theory Directive_Soundness
  imports Directive_Checks
begin

text \<open>
  Attribute sources that pass registration are well formed at dispatch: resolving one fails only because the
  context lacks a value that a directive without fallback and without lenient marker asks for.
\<close>

fun malformed :: "missing_reason \<Rightarrow> bool" where
  "malformed EmptyDirective = True"
| "malformed NeedsKindAndField = True"
| "malformed (UnknownKind k) = True"
| "malformed EnvShape = True"
| "malformed EnvName = True"
| "malformed EmptyType = True"
| "malformed SecondNotAttribute = True"
| "malformed ChildShape = True"
| "malformed ClaimShape = True"
| "malformed TakesNoField = True"
| "malformed SecondNotClaimField = True"
| "malformed _ = False"

definition lacksValue :: "string \<Rightarrow> resolve_error \<Rightarrow> bool" where
  "lacksValue inside e \<longleftrightarrow> (let shape = ParseDirectiveShape inside in
     \<not> MultiPipe shape \<and> \<not> Lenient shape \<and> \<not> HasFallback shape \<and> (\<exists>r. e = ErrMissingSource (Body shape) r \<and> \<not> malformed r))"

subsection \<open>One directive\<close>

lemma directiveBody_SomeD:
  "directiveBody s = Some (k, rest) \<Longrightarrow> k \<in> set directiveKinds \<and> s = k @ CHR ''.'' # rest \<and> rest \<noteq> []"
proof -
  assume a: "directiveBody s = Some (k, rest)"
  then have f: "List.find (\<lambda>k. HasPrefix s (k @ ''.'')) directiveKinds = Some k" and r: "rest = drop (length k + 1) s" "rest \<noteq> []"
    by (auto simp: directiveBody_def Let_def split: option.splits if_splits)
  from f have "k \<in> set directiveKinds" "HasPrefix s (k @ ''.'')" by (auto simp: find_Some_iff)
  with r show ?thesis by (auto simp: HasPrefix_iff)
qed

lemma kind_no_dot: "k \<in> set directiveKinds \<Longrightarrow> CHR ''.'' \<notin> set k"
  by (auto simp: directiveKinds_def)

lemma Split_body:
  "directiveBody s = Some (k, rest) \<Longrightarrow> Split s CHR ''.'' = k # Split rest CHR ''.''"
  using directiveBody_SomeD kind_no_dot Split_append by metis

lemma fallback_parses: "isValidFallbackLiteral jc s \<Longrightarrow> \<exists>v. parseFallbackLiteral jc s = Inr v"
  by (auto simp: isValidFallbackLiteral_def parseFallbackLiteral_def split: if_splits option.splits jvalue.splits)

lemma resolveClaim_ok:
  "Ok (checkClaimParts parts body path da ha) \<Longrightarrow> resolveClaimValue jc d parts claims = Inl e \<Longrightarrow> \<exists>r. e = ErrMissingSource d r \<and> \<not> malformed r"
  by (auto simp: checkClaimParts_def resolveClaimValue_def split: list.splits if_splits option.splits)

lemma resolveNodes_ok:
  "Ok (checkNodesParts parts body path declared) \<Longrightarrow> resolveSubstitutionValue jc d ''nodes'' parts ctx = Inl e \<Longrightarrow>
   \<exists>r. e = ErrMissingSource d r \<and> \<not> malformed r"
  by (auto simp: checkNodesParts_def resolveSubstitutionValue_def split: list.splits if_splits option.splits)

lemma resolveMessages_ok:
  "parts \<noteq> [] \<Longrightarrow> hd parts \<noteq> [] \<Longrightarrow> resolveSubstitutionValue jc d ''messages'' parts ctx = Inl e \<Longrightarrow> \<exists>r. e = ErrMissingSource d r \<and> \<not> malformed r"
  by (cases parts) (auto simp: resolveSubstitutionValue_def split: if_splits option.splits)

lemma resolveParams_ok:
  "parts \<noteq> [] \<Longrightarrow> resolveParamsValue jc d parts params = Inl e \<Longrightarrow> \<exists>r. e = ErrMissingSource d r \<and> \<not> malformed r"
  by (auto simp: resolveParamsValue_def split: if_splits option.splits)

lemma resolveEnv_ok:
  "length parts = 1 \<Longrightarrow> envVarName (hd parts) \<Longrightarrow> resolveEnvValue d parts ctx = Inl e \<Longrightarrow> \<exists>r. e = ErrMissingSource d r \<and> \<not> malformed r"
  by (cases parts) (auto simp: resolveEnvValue_def envVarName_def split: if_splits option.splits)

lemma resolveChild_ok:
  "parts = [''partition_key''] \<Longrightarrow> resolveChildValue d parts ctx = Inl e \<Longrightarrow> \<exists>r. e = ErrMissingSource d r \<and> \<not> malformed r"
  by (auto simp: resolveChildValue_def split: if_splits)

lemma raw_ok:
  assumes "directiveBody body = Some (kind, rest)"
    and "kind = ''claim'' \<Longrightarrow> Ok (checkClaimParts (Split rest CHR ''.'') body path da ha)"
    and "kind = ''nodes'' \<Longrightarrow> Ok (checkNodesParts (Split rest CHR ''.'') body path declared)"
    and "kind = ''child'' \<Longrightarrow> Split rest CHR ''.'' = [''partition_key'']"
    and "kind = ''messages'' \<Longrightarrow> hd (Split rest CHR ''.'') \<noteq> []"
    and "kind = ''env'' \<Longrightarrow> length (Split rest CHR ''.'') = 1 \<and> envVarName (hd (Split rest CHR ''.''))"
    and e: "resolveDirectiveValueRaw jc body ctx = Inl e"
  shows "\<exists>r. e = ErrMissingSource body r \<and> \<not> malformed r"
proof -
  let ?p = "Split rest CHR ''.''"
  have k: "kind \<in> {''claim'', ''params'', ''nodes'', ''child'', ''messages'', ''env''}"
    using directiveBody_SomeD [OF assms(1)] by (auto simp: directiveKinds_def)
  have raw: "resolveDirectiveValueRaw jc body ctx =
      (if kind = ''claim'' then resolveClaimValue jc body ?p (Claim ctx)
       else if kind = ''params'' then resolveParamsValue jc body ?p (Params ctx)
       else if kind = ''nodes'' \<or> kind = ''messages'' then resolveSubstitutionValue jc body kind ?p ctx
       else if kind = ''child'' then resolveChildValue body ?p ctx
       else resolveEnvValue body ?p ctx)"
    using k by (auto simp: resolveDirectiveValueRaw_def Split_body [OF assms(1)])
  show ?thesis using k
  proof (elim insertE)
    assume "kind = ''claim''" with raw e resolveClaim_ok [OF assms(2)] show ?thesis by simp
  next
    assume "kind = ''params''" with raw e resolveParams_ok [of ?p] show ?thesis by simp
  next
    assume "kind = ''nodes''" with raw e resolveNodes_ok [OF assms(3)] show ?thesis by simp
  next
    assume "kind = ''child''" with raw e resolveChild_ok [OF assms(4)] show ?thesis by simp
  next
    assume "kind = ''messages''" with raw e resolveMessages_ok [of ?p, OF _ assms(5)] show ?thesis by simp
  next
    assume "kind = ''env''" with raw e resolveEnv_ok [of ?p] assms(6) show ?thesis by simp
  qed simp
qed

lemma directive_ok:
  assumes ok: "Ok (checkAttributeDirectiveBody jc inside path declared da ha t)" and "TrimSpace inside = inside"
    and e: "resolveDirectiveValue jc inside ctx = Inl e"
  shows "lacksValue inside e"
proof -
  let ?s = "ParseDirectiveShape inside"
  from ok assms(2) have m: "\<not> MultiPipe ?s" and l: "\<not> (Lenient ?s \<and> HasFallback ?s)" and v: "HasFallback ?s \<Longrightarrow> isValidFallbackLiteral jc (FallbackLiteral ?s)"
    by (auto simp: checkAttributeDirectiveBody_def Let_def split: if_splits)
  from ok assms(2) m l v obtain kind rest where b: "directiveBody (Body ?s) = Some (kind, rest)"
    by (cases "directiveBody (Body ?s)") (auto simp: checkAttributeDirectiveBody_def Let_def split: if_splits)
  have raw: "\<exists>r. e' = ErrMissingSource (Body ?s) r \<and> \<not> malformed r" if "resolveDirectiveValueRaw jc (Body ?s) ctx = Inl e'" for e'
    using ok assms(2) m l v
    by (intro raw_ok [OF b _ _ _ _ _ that, where path = path and da = da and ha = ha and declared = declared])
       (auto simp: checkAttributeDirectiveBody_def Let_def b split: if_splits)
  from e m l obtain e' where e': "resolveDirectiveValueRaw jc (Body ?s) ctx = Inl e'"
    by (auto simp: resolveDirectiveValue_def Let_def split: sum.splits)
  with raw obtain r where r: "e' = ErrMissingSource (Body ?s) r" "\<not> malformed r" by blast
  show ?thesis
  proof (cases "HasFallback ?s")
    case True
    with fallback_parses [OF v] e e' r m l show ?thesis by (auto simp: resolveDirectiveValue_def Let_def)
  next
    case False
    with e e' r m l show ?thesis by (auto simp: resolveDirectiveValue_def lacksValue_def Let_def split: if_splits)
  qed
qed

subsection \<open>Directives found at registration and at dispatch\<close>

lemma matchDirective_append:
  assumes "\<forall>c \<in> set ws. c \<noteq> CHR ''{'' \<and> c \<noteq> CHR ''}''"
  shows "matchDirective (\<lambda>c. c \<noteq> CHR ''}'') 0 (s @ ws) =
    map_option (\<lambda>(b, r). (b, r @ ws)) (matchDirective (\<lambda>c. c \<noteq> CHR ''}'') 0 s)"
proof (cases "HasPrefix s ''{{''")
  case True
  then obtain r where r: "s = CHR ''{'' # CHR ''{'' # r" by (auto simp: HasPrefix_iff)
  show ?thesis
  proof (cases "CHR ''}'' \<in> set r")
    case True
    then obtain a t where a: "r = a @ CHR ''}'' # t" "CHR ''}'' \<notin> set a" by (metis split_list_first)
    have run: "takeWhile (\<lambda>c. c \<noteq> CHR ''}'') (a @ CHR ''}'' # x) = a" "dropWhile (\<lambda>c. c \<noteq> CHR ''}'') (a @ CHR ''}'' # x) = CHR ''}'' # x" for x
      using a(2) by (induction a) auto
    have close: "HasPrefix (CHR ''}'' # t @ ws) ''}}'' \<longleftrightarrow> HasPrefix (CHR ''}'' # t) ''}}''"
      using assms by (cases t; cases ws) (simp_all add: HasPrefix_def)
    have "HasPrefix (CHR ''}'' # t) ''}}'' \<Longrightarrow> t \<noteq> []" by (cases t) (simp_all add: HasPrefix_def)
    then show ?thesis
      by (cases "HasPrefix (CHR ''}'' # t) ''}}''") (simp_all add: matchDirective_def r a(1) Let_def run close neq_Nil_conv, auto simp: HasPrefix_def)
  next
    case False
    then have "\<forall>c \<in> set (r @ ws). c \<noteq> CHR ''}''" using assms by auto
    then have "dropWhile (\<lambda>c. c \<noteq> CHR ''}'') (r @ ws) = []" "dropWhile (\<lambda>c. c \<noteq> CHR ''}'') r = []" by auto
    moreover have "drop 2 (s @ ws) = r @ ws" "drop 2 s = r" by (simp_all add: r)
    ultimately show ?thesis unfolding matchDirective_def by (simp only: Let_def) (simp add: HasPrefix_def)
  qed
next
  case False
  moreover have "\<not> HasPrefix (s @ ws) ''{{''"
  proof -
    consider "s = []" | c where "s = [c]" | c d t where "s = c # d # t" by (cases s; cases "tl s") auto
    then show ?thesis using False assms by cases (cases ws; simp add: HasPrefix_def)+
  qed
  ultimately show ?thesis by (simp add: matchDirective_def)
qed

lemma scan_plain:
  "\<forall>c \<in> set ws. c \<noteq> CHR ''{'' \<Longrightarrow> bodies (scan cls m (ws @ s)) = bodies (scan cls m s)"
  by (induction ws) (auto simp: matchDirective_def HasPrefix_def)

lemma scan_append:
  assumes "\<forall>c \<in> set ws. c \<noteq> CHR ''{'' \<and> c \<noteq> CHR ''}''"
  shows "bodies (directivePattern (s @ ws)) = bodies (directivePattern s)"
proof -
  have "bodies (scan cls m (s @ ws)) = bodies (scan cls m s)" if "cls = (\<lambda>c. c \<noteq> CHR ''}'')" "m = 0" for cls m
    using that
  proof (induction cls m s rule: scan.induct)
    case (1 cls m)
    show ?case using scan_plain [of ws cls m "[]"] assms by simp
  next
    case (2 cls m c s)
    then show ?case using matchDirective_append [OF assms, of "c # s"] by (auto split: option.splits)
  qed
  then show ?thesis by (simp add: directivePattern_def)
qed

lemma TrimSpace_decomposition:
  "\<exists>l r. s = l @ TrimSpace s @ r \<and> (\<forall>c \<in> set l \<union> set r. asciiSpace c)"
proof -
  let ?d = "dropWhile asciiSpace s"
  have "s = takeWhile asciiSpace s @ ?d" by simp
  moreover have "?d = TrimSpace s @ rev (takeWhile asciiSpace (rev ?d))"
    unfolding TrimSpace_def by (metis rev_append rev_rev_ident takeWhile_dropWhile_id)
  ultimately show ?thesis by (metis (no_types, lifting) UnE set_rev set_takeWhileD)
qed

lemma asciiSpace_no_brace: "asciiSpace c \<Longrightarrow> c \<noteq> CHR ''{'' \<and> c \<noteq> CHR ''}''"
  by (auto simp: asciiSpace_def)

lemma bodies_TrimSpace: "bodies (directivePattern (TrimSpace s)) = bodies (directivePattern s)"
proof -
  obtain l r where s: "s = l @ TrimSpace s @ r" and ws: "\<forall>c \<in> set l \<union> set r. asciiSpace c"
    using TrimSpace_decomposition by blast
  have "bodies (directivePattern (l @ TrimSpace s @ r)) = bodies (directivePattern (TrimSpace s @ r))"
    unfolding directivePattern_def by (rule scan_plain) (use ws asciiSpace_no_brace in blast)
  also have "\<dots> = bodies (directivePattern (TrimSpace s))"
    by (rule scan_append) (use ws asciiSpace_no_brace in blast)
  finally show ?thesis using s by simp
qed

lemma TrimSpace_fixed: "t = [] \<or> \<not> asciiSpace (hd t) \<and> \<not> asciiSpace (last t) \<Longrightarrow> TrimSpace t = t"
proof -
  assume a: "t = [] \<or> \<not> asciiSpace (hd t) \<and> \<not> asciiSpace (last t)"
  then have "dropWhile asciiSpace t = t" "dropWhile asciiSpace (rev t) = rev t"
    by (auto simp: dropWhile_eq_self_iff hd_rev)
  then show ?thesis by (simp add: TrimSpace_def)
qed

lemma TrimSpace_idem: "TrimSpace (TrimSpace s) = TrimSpace s"
proof (rule TrimSpace_fixed, cases "TrimSpace s = []")
  case False
  let ?d = "dropWhile asciiSpace s"
  have d: "?d = TrimSpace s @ rev (takeWhile asciiSpace (rev ?d))"
    unfolding TrimSpace_def by (metis rev_append rev_rev_ident takeWhile_dropWhile_id)
  have ne: "?d \<noteq> []" "dropWhile asciiSpace (rev ?d) \<noteq> []" using False by (metis TrimSpace_def dropWhile.simps(1) rev.simps(1))+
  have "hd (TrimSpace s) = hd ?d" using d False by (metis hd_append2)
  then have "\<not> asciiSpace (hd (TrimSpace s))" using hd_dropWhile [OF ne(1)] by simp
  moreover have "\<not> asciiSpace (last (TrimSpace s))" using hd_dropWhile [OF ne(2)] ne(2) by (simp add: TrimSpace_def last_rev)
  ultimately show "TrimSpace s = [] \<or> \<not> asciiSpace (hd (TrimSpace s)) \<and> \<not> asciiSpace (last (TrimSpace s))" by simp
qed simp

definition checkable :: "string \<Rightarrow> bool" where
  "checkable b \<longleftrightarrow> b \<noteq> [] \<and> CHR ''{'' \<notin> set b"

lemma dropWhile_to_brace:
  "takeWhile (\<lambda>c. c \<noteq> CHR ''}'') r = a @ CHR ''{'' # t \<Longrightarrow> CHR ''{'' \<notin> set a \<Longrightarrow>
   dropWhile (\<lambda>c. c \<noteq> CHR ''{'' \<and> c \<noteq> CHR ''}'') r = CHR ''{'' # t @ dropWhile (\<lambda>c. c \<noteq> CHR ''}'') r"
proof (induction a arbitrary: r)
  case Nil
  then show ?case by (cases r) (auto split: if_splits)
next
  case (Cons c a)
  then show ?case by (cases r) (auto split: if_splits)
qed

lemma while_no_brace:
  "CHR ''{'' \<notin> set (takeWhile (\<lambda>c. c \<noteq> CHR ''}'') r) \<Longrightarrow>
   takeWhile (\<lambda>c. c \<noteq> CHR ''{'' \<and> c \<noteq> CHR ''}'') r = takeWhile (\<lambda>c. c \<noteq> CHR ''}'') r \<and>
   dropWhile (\<lambda>c. c \<noteq> CHR ''{'' \<and> c \<noteq> CHR ''}'') r = dropWhile (\<lambda>c. c \<noteq> CHR ''}'') r"
  by (induction r) (auto split: if_splits)

lemma dispatch_match:
  assumes "\<And>b r. matchDirective (\<lambda>c. c \<noteq> CHR ''}'') 0 s = Some (b, r) \<Longrightarrow> checkable b"
  shows "matchDirective (\<lambda>c. c \<noteq> CHR ''{'' \<and> c \<noteq> CHR ''}'') 1 s = matchDirective (\<lambda>c. c \<noteq> CHR ''}'') 0 s"
proof (cases "HasPrefix s ''{{''")
  case True
  let ?P = "\<lambda>c. c \<noteq> CHR ''}''" and ?Q = "\<lambda>c. c \<noteq> CHR ''{'' \<and> c \<noteq> CHR ''}''" and ?r = "drop 2 s"
  have P: "matchDirective ?P 0 s = (if HasPrefix (dropWhile ?P ?r) ''}}'' then Some (takeWhile ?P ?r, drop 2 (dropWhile ?P ?r)) else None)"
    using True by (simp add: matchDirective_def)
  have Q: "matchDirective ?Q 1 s =
      (if takeWhile ?Q ?r \<noteq> [] \<and> HasPrefix (dropWhile ?Q ?r) ''}}'' then Some (takeWhile ?Q ?r, drop 2 (dropWhile ?Q ?r)) else None)"
    using True by (simp add: matchDirective_def Suc_le_eq del: takeWhile_eq_Nil_iff)
  have c: "HasPrefix (dropWhile ?P ?r) ''}}'' \<Longrightarrow> checkable (takeWhile ?P ?r)" unfolding P by (rule assms [OF trans [OF P if_P]])
  show ?thesis
  proof (cases "CHR ''{'' \<in> set (takeWhile ?P ?r)")
    case brace: True
    then obtain a t where a: "takeWhile ?P ?r = a @ CHR ''{'' # t" "CHR ''{'' \<notin> set a" by (metis split_list_first)
    have "\<not> HasPrefix (dropWhile ?Q ?r) ''}}''" unfolding dropWhile_to_brace [OF a] by (simp add: HasPrefix_def)
    moreover have "\<not> HasPrefix (dropWhile ?P ?r) ''}}''" using c brace unfolding checkable_def by argo
    ultimately show ?thesis unfolding P Q by (simp only: simp_thms if_False)
  next
    case False
    show ?thesis using c unfolding P Q conjunct1 [OF while_no_brace [OF False]] conjunct2 [OF while_no_brace [OF False]] checkable_def by argo
  qed
qed (simp add: matchDirective_def)

lemma dispatch_bodies:
  assumes "\<forall>b \<in> set (bodies (directivePattern s)). checkable b"
  shows "bodies (dispatchDirectives s) = bodies (directivePattern s)"
proof -
  have "bodies (scan (\<lambda>c. c \<noteq> CHR ''{'' \<and> c \<noteq> CHR ''}'') 1 s) = bodies (scan cls m s)"
    if "cls = (\<lambda>c. c \<noteq> CHR ''}'')" "m = 0" "\<forall>b \<in> set (bodies (scan cls m s)). checkable b" for cls m
    using that
  proof (induction cls m s rule: scan.induct)
    case (2 cls m c s)
    then have "matchDirective (\<lambda>c. c \<noteq> CHR ''{'' \<and> c \<noteq> CHR ''}'') 1 (c # s) = matchDirective (\<lambda>c. c \<noteq> CHR ''}'') 0 (c # s)"
      by (intro dispatch_match) auto
    with 2 show ?case by (auto split: option.splits)
  qed simp
  with assms show ?thesis by (simp add: directivePattern_def dispatchDirectives_def)
qed

lemma replacePieces_error: "replacePieces f ps = Inl e \<Longrightarrow> \<exists>b \<in> set (bodies ps). f b = Inl e"
  by (induction ps rule: bodies.induct) (auto split: sum.splits)

lemma wholeDirective_bodies: "wholeDirective s = Some b \<Longrightarrow> bodies (directivePattern s) = [b]"
proof -
  assume "wholeDirective s = Some b"
  then have m: "matchDirective (\<lambda>c. c \<noteq> CHR ''}'') 0 s = Some (b, [])" by (auto simp: wholeDirective_def split: option.splits list.splits)
  then obtain c t where "s = c # t" by (cases s) (auto simp: matchDirective_def HasPrefix_def)
  with m show ?thesis by (simp add: directivePattern_def)
qed

subsection \<open>Sources\<close>

lemma accepted_body:
  assumes "Ok (checkAttributeSource jc src path declared da ha t)" and "\<forall>b \<in> set (bodies (directivePattern src)). checkable b"
    and "b \<in> set (bodies (directivePattern src))"
  shows "Ok (checkAttributeDirectiveBody jc (TrimSpace b) path declared da ha t)"
proof -
  have "bodies (dispatchDirectives (TrimSpace src)) = bodies (directivePattern src)"
    using dispatch_bodies [of "TrimSpace src"] assms(2) by (simp add: bodies_TrimSpace)
  with assms(1,3) show ?thesis by (auto simp: checkAttributeSource_def Let_def Ok_concat split: if_splits)
qed

lemma empty_body_rejected: "\<not> Ok (checkAttributeDirectiveBody jc [] path declared da ha t)"
  by (simp add: checkAttributeDirectiveBody_def TrimSpace_def ParseDirectiveShape_def topLevelPipeIndices_def ParseLenientMarker_def
      HasSuffix_def directiveBody_def directiveKinds_def HasPrefix_def)

lemma resolveDirective_error: "resolveDirective jc inside ctx = Inl e \<Longrightarrow> resolveDirectiveValue jc inside ctx = Inl e"
  by (auto simp: resolveDirective_def split: sum.splits)

lemma SubstituteValue_error:
  assumes "SubstituteValue jc src ctx = Inl e"
  shows "\<exists>b \<in> set (bodies (directivePattern src)). TrimSpace b = [] \<or> resolveDirectiveValue jc (TrimSpace b) ctx = Inl e"
proof (cases "wholeDirective (TrimSpace src)")
  case (Some b)
  with assms show ?thesis using wholeDirective_bodies [OF Some]
    by (auto simp: SubstituteValue_def bodies_TrimSpace Let_def split: if_splits)
next
  case None
  with assms have "replacePieces (resolveInside jc ctx) (directivePattern src) = Inl e"
    by (auto simp: SubstituteValue_def Substitute_def split: sum.splits if_splits)
  then obtain b where "b \<in> set (bodies (directivePattern src))" "resolveInside jc ctx b = Inl e" using replacePieces_error by blast
  then show ?thesis by (auto simp: resolveInside_def Let_def dest: resolveDirective_error split: if_splits)
qed

lemma accepted_source_lacks_value:
  assumes "Ok (checkAttributeSource jc src path declared directAliases heldAliases t)"
    and "\<forall>b \<in> set (bodies (directivePattern src)). checkable b"
    and "SubstituteValue jc src ctx = Inl e"
  shows "\<exists>b \<in> set (bodies (directivePattern src)). lacksValue (TrimSpace b) e"
proof -
  obtain b where b: "b \<in> set (bodies (directivePattern src))" "TrimSpace b = [] \<or> resolveDirectiveValue jc (TrimSpace b) ctx = Inl e"
    using SubstituteValue_error [OF assms(3)] by blast
  have ok: "Ok (checkAttributeDirectiveBody jc (TrimSpace b) path declared directAliases heldAliases t)"
    by (rule accepted_body [OF assms(1,2) b(1)])
  with empty_body_rejected b(2) have "resolveDirectiveValue jc (TrimSpace b) ctx = Inl e" by metis
  with directive_ok [OF ok TrimSpace_idem] b(1) show ?thesis by blast
qed

text \<open>C26: An attribute source that passes registration never fails at dispatch for its form. When every
  directive the dispatcher sees in the source is one the registration check can see (it is not empty and holds no
  opening brace), an error of \<open>SubstituteValue\<close> under any context is a missing source, raised by a
  directive of the source that has neither a fallback nor the lenient marker, and the reason is an absent value: an
  unset variable, an absent upstream, message, claim, parameter or field. It is never a fallback chain, a marker
  with a fallback, an invalid literal or a malformed path.\<close>

theorem accepted_source_fails_only_for_missing_values:
  assumes "Ok (checkAttributeSource jc src path declared directAliases heldAliases t)"
    and "\<forall>b \<in> set (bodies (directivePattern src)). checkable b"
    and "SubstituteValue jc src ctx = Inl e"
  shows "\<exists>b \<in> set (bodies (directivePattern src)). lacksValue (TrimSpace b) e"
  by (rule accepted_source_lacks_value [OF assms])

definition numericCodec :: JsonCodec where
  "numericCodec = \<lparr>Marshal = (\<lambda>v. []), Unmarshal = (\<lambda>s. Some (VNum s)), DecodeFirst = (\<lambda>s. Some (VNum s)), inFloat64Range = (\<lambda>n. True)\<rparr>"

definition emptyContext :: ResolveContext where
  "emptyContext = \<lparr>Deps = [], Claim = [], Params = [], ChildPartitionKey = [], RegistryDeclaredTypes = None, EnvLookup = (\<lambda>n. None)\<rparr>"

theorem accepted_source_fails_only_for_missing_values_witness:
  "\<exists>b \<in> set (bodies (directivePattern ''{{nodes.a.attribute.y | 3}} of {{params.x}}'')).
     lacksValue (TrimSpace b) (ErrMissingSource ''params.x'' ParamsEmpty)"
proof (rule accepted_source_fails_only_for_missing_values)
  show "Ok (checkAttributeSource numericCodec ''{{nodes.a.attribute.y | 3}} of {{params.x}}'' ''p'' [(''a'', 0)] [] [] exampleTemplate)"
    by code_simp
  show "\<forall>b \<in> set (bodies (directivePattern ''{{nodes.a.attribute.y | 3}} of {{params.x}}'')). checkable b" by code_simp
  show "SubstituteValue numericCodec ''{{nodes.a.attribute.y | 3}} of {{params.x}}'' emptyContext = Inl (ErrMissingSource ''params.x'' ParamsEmpty)"
    by code_simp
qed

text \<open>The hypothesis on the directives matters: a directive with an opening brace in its body is invisible
  to the registration check, so a fallback chain in it is accepted and fails at dispatch.\<close>

lemma hidden_directive_fails:
  "Ok (checkAttributeSource numericCodec ''{{env.A | 1}}{{env.B | { | 1}}'' ''p'' [] [] [] exampleTemplate) \<and>
   Substitute numericCodec ''{{env.A | 1}}{{env.B | { | 1}}'' emptyContext = Inl (ErrFallbackChain ''env.B | { | 1'')"
  by code_simp

end
