(* ===== verification/Subscription_Matching.thy ===== *)
theory Subscription_Matching
  imports Subscription_Edges
begin

text \<open>
  The trie of subscriptions refines a comparison of path segments: a signal reaches exactly the edges of its
  sender whose pattern it matches, each once.
\<close>

subsection \<open>What a trie holds\<close>

fun nodeAt :: "prefixNode \<Rightarrow> string list \<Rightarrow> prefixNode option" where
  "nodeAt n [] = Some n"
| "nodeAt n (s # ss) = (case map_of (children n) s of None \<Rightarrow> None | Some c \<Rightarrow> nodeAt c ss)"

definition edgesAt :: "bool \<Rightarrow> prefixNode \<Rightarrow> string list \<Rightarrow> SubscriptionEdge list" where
  "edgesAt isWildcard n p = (case nodeAt n p of None \<Rightarrow> [] | Some c \<Rightarrow> if isWildcard then wildcardEdges c else exactEdges c)"

definition patternSegments :: "TypePath \<Rightarrow> string list" where
  "patternSegments pattern =
     splitSegments (if HasSuffix pattern ''*'' then TrimSuffix (TrimSuffix pattern ''*'') ''/'' else pattern)"

definition pathMatches :: "TypePath \<Rightarrow> TypePath \<Rightarrow> bool" where
  "pathMatches pattern typ =
     (if HasSuffix pattern ''*'' then prefix (patternSegments pattern) (splitSegments typ)
      else patternSegments pattern = splitSegments typ)"

lemma containsEdge_iff: "containsEdge es e \<longleftrightarrow> e \<in> set es"
proof -
  have "(ReceiverNodeType x = ReceiverNodeType e \<and> TypePattern x = TypePattern e \<and> WhenExpr x = WhenExpr e \<and>
      edgeForceUpstreamRefresh x = edgeForceUpstreamRefresh e \<and> edgeResolvesViaCallingNode x = edgeResolvesViaCallingNode e) \<longleftrightarrow> x = e" for x
    by (cases x, cases e) simp
  then show ?thesis by (auto simp: containsEdge_def list_ex_iff)
qed

lemma edgesAt_empty [simp]: "edgesAt w emptyNode p = []"
  by (cases p) (auto simp: edgesAt_def)

lemma edgesAt_simps [simp]:
  "edgesAt w n [] = (if w then wildcardEdges n else exactEdges n)"
  "edgesAt w n (s # ss) = (case map_of (children n) s of None \<Rightarrow> [] | Some c \<Rightarrow> edgesAt w c ss)"
  by (auto simp: edgesAt_def split: option.split)

abbreviation addOnce :: "'a \<Rightarrow> 'a list \<Rightarrow> 'a list" where
  "addOnce x xs \<equiv> (if x \<in> set xs then xs else xs @ [x])"

lemma edgesAt_insertAt:
  "edgesAt w (insertAt segs w' e n) p = (if p = segs \<and> w = w' then addOnce e (edgesAt w n p) else edgesAt w n p)"
proof (induction segs arbitrary: n p)
  case Nil
  then show ?case by (cases p) (auto simp: addEdge_def containsEdge_iff)
next
  case (Cons seg segs)
  show ?case
  proof (cases p)
    case Nil
    then show ?thesis by simp
  next
    case (Cons s ss)
    with Cons.IH show ?thesis by (auto simp: update_conv' split: option.split)
  qed
qed

subsection \<open>Matching walks along the prefixes\<close>

lemma prefixes_tl: "prefixes xs = [] # tl (prefixes xs)"
  by (cases xs) auto

lemma matchLoop_prefixes:
  "matchLoop [n] segs out = out @ concat (map (edgesAt True n) (tl (prefixes segs))) @ edgesAt False n segs"
proof (induction segs arbitrary: n out)
  case (Cons s ss)
  show ?case
  proof (cases "map_of (children n) s")
    case None
    then show ?thesis by (simp add: comp_def)
  next
    case (Some c)
    have "concat (map (edgesAt True n) (map ((#) s) (prefixes ss))) = wildcardEdges c @ concat (map (edgesAt True c) (tl (prefixes ss)))"
      by (subst prefixes_tl) (simp add: Some comp_def)
    with Some Cons.IH [of c] show ?thesis by simp
  qed
qed simp

definition rootOf :: "SubscriptionEdgeMap \<Rightarrow> string \<Rightarrow> prefixNode" where
  "rootOf m sender = (case map_of m sender of None \<Rightarrow> emptyNode | Some n \<Rightarrow> n)"

lemma Match_prefixes:
  "Match m sender typ =
     concat (map (edgesAt True (rootOf m sender)) (prefixes (splitSegments typ))) @ edgesAt False (rootOf m sender) (splitSegments typ)"
proof (cases "map_of m sender")
  case None
  then have "rootOf m sender = emptyNode" "Match m sender typ = []" by (simp_all add: rootOf_def Match_def appendMatches_def)
  then show ?thesis by simp
next
  case (Some n)
  then have "rootOf m sender = n" by (simp add: rootOf_def)
  moreover have "concat (map (edgesAt True n) (prefixes (splitSegments typ))) = wildcardEdges n @ concat (map (edgesAt True n) (tl (prefixes (splitSegments typ))))"
    by (subst prefixes_tl) simp
  ultimately show ?thesis using Some by (simp add: Match_def appendMatches_def matchLoop_prefixes)
qed

subsection \<open>What a sequence of insertions holds\<close>

abbreviation isWild :: "SubscriptionEdge \<Rightarrow> bool" where
  "isWild e \<equiv> HasSuffix (TypePattern e) ''*''"

definition holds_edges :: "SubscriptionEdgeMap \<Rightarrow> (string \<times> SubscriptionEdge) set \<Rightarrow> bool" where
  "holds_edges m ps \<longleftrightarrow> (\<forall>sender w p. distinct (edgesAt w (rootOf m sender) p) \<and>
     set (edgesAt w (rootOf m sender) p) = {e. (sender, e) \<in> ps \<and> isWild e = w \<and> patternSegments (TypePattern e) = p})"

lemma holds_empty: "holds_edges [] {}"
  by (simp add: holds_edges_def rootOf_def)

lemma rootOf_Insert:
  "rootOf (Insert s e m) sender =
     (if sender = s then insertAt (patternSegments (TypePattern e)) (isWild e) e (rootOf m sender) else rootOf m sender)"
  by (auto simp: rootOf_def Insert_def Let_def update_conv' patternSegments_def)

lemma holds_Insert: "holds_edges m ps \<Longrightarrow> holds_edges (Insert s e m) (insert (s, e) ps)"
  by (auto simp: holds_edges_def rootOf_Insert edgesAt_insertAt)

lemma distinct_concat_map:
  assumes "\<And>p. distinct (f p)" and "\<And>p q. p \<noteq> q \<Longrightarrow> set (f p) \<inter> set (f q) = {}"
  shows "distinct ps \<Longrightarrow> distinct (concat (map f ps))"
proof (induction ps)
  case (Cons a ps)
  have "set (f a) \<inter> set (f q) = {}" if "q \<in> set ps" for q using Cons.prems that by (intro assms(2)) auto
  then have "set (f a) \<inter> set (concat (map f ps)) = {}" by auto
  moreover have "distinct (concat (map f ps))" using Cons by simp
  ultimately show ?case using assms(1) [of a] by simp
qed simp

lemma holds_Match:
  assumes "holds_edges m ps"
  shows "distinct (Match m sender typ) \<and> set (Match m sender typ) = {e. (sender, e) \<in> ps \<and> pathMatches (TypePattern e) typ}"
proof
  have d: "distinct (edgesAt w (rootOf m sender) p)"
    and s: "set (edgesAt w (rootOf m sender) p) = {e. (sender, e) \<in> ps \<and> isWild e = w \<and> patternSegments (TypePattern e) = p}" for w p
    using assms by (simp_all add: holds_edges_def)
  have "distinct (concat (map (edgesAt True (rootOf m sender)) (prefixes (splitSegments typ))))"
    by (rule distinct_concat_map [OF d]) (auto simp: s)
  with d s show "distinct (Match m sender typ)" unfolding Match_prefixes by auto
  show "set (Match m sender typ) = {e. (sender, e) \<in> ps \<and> pathMatches (TypePattern e) typ}"
    unfolding Match_prefixes by (auto simp: s pathMatches_def)
qed

subsection \<open>The edges of a template\<close>

text \<open>The edges a template declares for a sender: one per subscription, and for the empty message one per
  node that waits for nothing.\<close>

definition declaredEdges :: "Libraries \<Rightarrow> TemplateSpec \<Rightarrow> (string \<times> substitutionRef list) list \<Rightarrow> (string \<times> SubscriptionEdge) set" where
  "declaredEdges lib t refs =
     {(subNode s, e) | n s e. n \<in> set (Nodes t) \<and> s \<in> set (Subscribes n) \<and> edgeFromSubscription lib 0 s (Type n) = Inr e} \<union>
     {([], rootEdge r) | r. r \<in> set (rootTypes t refs)}"

lemma edgeFromSubscription_index:
  "edgeFromSubscription lib i s r = Inr e \<Longrightarrow> edgeFromSubscription lib j s r = Inr e"
  by (auto simp: edgeFromSubscription_def split: sum.splits option.splits)

lemma insertSubscriptions_holds:
  "insertSubscriptions lib r i ss m = Inr m' \<Longrightarrow> holds_edges m ps \<Longrightarrow>
   holds_edges m' (ps \<union> {(subNode s, e) | s e. s \<in> set ss \<and> edgeFromSubscription lib 0 s r = Inr e})"
proof (induction ss arbitrary: i m ps)
  case Nil
  then show ?case by simp
next
  case (Cons s ss)
  then obtain e where e: "edgeFromSubscription lib i s r = Inr e" "insertSubscriptions lib r (i + 1) ss (Insert (subNode s) e m) = Inr m'"
    by (auto split: sum.splits)
  have "ps \<union> {(subNode s', e') | s' e'. s' \<in> set (s # ss) \<and> edgeFromSubscription lib 0 s' r = Inr e'} =
      insert (subNode s, e) ps \<union> {(subNode s', e') | s' e'. s' \<in> set ss \<and> edgeFromSubscription lib 0 s' r = Inr e'}"
    using edgeFromSubscription_index [OF e(1), of 0] by auto
  with Cons.IH [OF e(2) holds_Insert [OF Cons.prems(2)]] show ?case by (simp only:)
qed

lemma insertNodes_holds:
  "insertNodes lib ns m = Inr m' \<Longrightarrow> holds_edges m ps \<Longrightarrow>
   holds_edges m' (ps \<union> {(subNode s, e) | n s e. n \<in> set ns \<and> s \<in> set (Subscribes n) \<and> edgeFromSubscription lib 0 s (Type n) = Inr e})"
proof (induction ns arbitrary: m ps)
  case Nil
  then show ?case by simp
next
  case (Cons n ns)
  let ?own = "{(subNode s, e) | s e. s \<in> set (Subscribes n) \<and> edgeFromSubscription lib 0 s (Type n) = Inr e}"
  from Cons.prems(1) obtain m1 where m1: "insertSubscriptions lib (Type n) 0 (Subscribes n) m = Inr m1" "insertNodes lib ns m1 = Inr m'"
    by (auto split: sum.splits)
  have "ps \<union> {(subNode s, e) | n' s e. n' \<in> set (n # ns) \<and> s \<in> set (Subscribes n') \<and> edgeFromSubscription lib 0 s (Type n') = Inr e} =
      ps \<union> ?own \<union> {(subNode s, e) | n' s e. n' \<in> set ns \<and> s \<in> set (Subscribes n') \<and> edgeFromSubscription lib 0 s (Type n') = Inr e}"
    by auto
  with Cons.IH [OF m1(2) insertSubscriptions_holds [OF m1(1) Cons.prems(2)]] show ?case by (simp only:)
qed

lemma fold_roots_holds:
  "holds_edges m ps \<Longrightarrow> holds_edges (fold (\<lambda>r. Insert [] (rootEdge r)) rs m) (ps \<union> {([], rootEdge r) | r. r \<in> set rs})"
proof (induction rs arbitrary: m ps)
  case (Cons r rs)
  have "ps \<union> {([], rootEdge r') | r'. r' \<in> set (r # rs)} = insert ([], rootEdge r) ps \<union> {([], rootEdge r') | r'. r' \<in> set rs}" by auto
  with Cons.IH [OF holds_Insert [OF Cons.prems, of "[]" "rootEdge r"]] show ?case by (simp only: fold_simps)
qed simp

text \<open>C27: The trie built from a template refines segment-wise matching: a signal of a given type emitted by a
  node reaches exactly the edges declared for that sender whose pattern covers the type, and each of them once.
  A pattern covers a type if their segments are equal or, for a trailing wildcard, if the segments before it are
  a prefix.\<close>

theorem match_refines_segments:
  assumes "BuildSubscriptionEdges lib t refs = Inr m"
  shows "distinct (Match m sender typ) \<and>
    set (Match m sender typ) = {e. (sender, e) \<in> declaredEdges lib t refs \<and> pathMatches (TypePattern e) typ}"
proof -
  from assms obtain m1 where m1: "insertNodes lib (Nodes t) [] = Inr m1" "m = fold (\<lambda>r. Insert [] (rootEdge r)) (rootTypes t refs) m1"
    by (auto simp: BuildSubscriptionEdges_def split: sum.splits)
  from fold_roots_holds [OF insertNodes_holds [OF m1(1) holds_empty], of "rootTypes t refs"]
  have "holds_edges m (declaredEdges lib t refs)" unfolding m1(2) declaredEdges_def by simp
  then show ?thesis by (rule holds_Match)
qed

subsection \<open>Examples\<close>

definition exampleCodec :: JsonCodec where
  "exampleCodec = \<lparr>Marshal = (\<lambda>_. ''{}''), Unmarshal = (\<lambda>s. if s = ''1'' then Some (VNum s) else None),
     DecodeFirst = (\<lambda>_. Some (VObj [(''x'', VStr ''v'')])), inFloat64Range = (\<lambda>_. True)\<rparr>"

definition exampleLibraries :: Libraries where
  "exampleLibraries = \<lparr>codec = exampleCodec, AddResource = (\<lambda>_. True), CompileSchema = (\<lambda>_. True), SchemaAccepts = (\<lambda>_ _. True),
     celCheck = (\<lambda>_. Some ([], [])), celProgram = (\<lambda>_. True), schemaFields = (\<lambda>_. []), ParseDuration = (\<lambda>_. None)\<rparr>"

definition exampleSubscription :: "string \<Rightarrow> SubscriptionEntry" where
  "exampleSubscription pattern = \<lparr>subNode = ''a'', subType = pattern, subWhen = [], ForceUpstreamRefresh = Some True,
     ResolvesViaCallingNode = False\<rparr>"

definition exampleGraph :: "string \<Rightarrow> TemplateSpec" where
  "exampleGraph pattern = exampleTemplate\<lparr>Nodes := [plainNode ''a'', (plainNode ''b'')\<lparr>Subscribes := [exampleSubscription pattern]\<rparr>]\<rparr>"

lemma exampleGraph_edges:
  "map_sum id (\<lambda>m. (map ReceiverNodeType (Match m ''a'' ''terminal/error/x''), map ReceiverNodeType (Match m [] ''terminal/success'')))
     (BuildSubscriptionEdges exampleLibraries (exampleGraph ''terminal/*'') []) = Inr ([''b''], [''a''])"
  "map_sum id (\<lambda>m. Match m ''a'' ''terminal/error/x'') (BuildSubscriptionEdges exampleLibraries (exampleGraph ''terminal/err*'') []) = Inr []"
  by code_simp+

theorem match_refines_segments_witness:
  "\<exists>m. BuildSubscriptionEdges exampleLibraries (exampleGraph ''terminal/*'') [] = Inr m \<and> distinct (Match m ''a'' ''terminal/error/x'') \<and>
     map ReceiverNodeType (Match m ''a'' ''terminal/error/x'') = [''b'']"
proof -
  obtain m where m: "BuildSubscriptionEdges exampleLibraries (exampleGraph ''terminal/*'') [] = Inr m"
    "map ReceiverNodeType (Match m ''a'' ''terminal/error/x'') = [''b'']"
    using exampleGraph_edges(1) by (cases "BuildSubscriptionEdges exampleLibraries (exampleGraph ''terminal/*'') []") auto
  from match_refines_segments [OF m(1), of "''a''" "''terminal/error/x''"] have "distinct (Match m ''a'' ''terminal/error/x'')" by (rule conjunct1)
  with m show ?thesis by (intro exI [of _ m] conjI)
qed

text \<open>A wildcard inside a segment is accepted at registration, where it counts as a string prefix, but the
  trie compares whole segments, so the subscription never fires.\<close>

lemma wildcard_inside_segment_never_fires:
  "ValidateSubscriptionType ''terminal/err*'' = Inr ()" "HasPrefixPath ''terminal/error/x'' ''terminal/err*''"
  "\<not> pathMatches ''terminal/err*'' ''terminal/error/x''"
  by code_simp+

end
