(* ===== verification/Template_Validator_Props.thy ===== *)
theory Template_Validator_Props
  imports Template_Validator Graph_Canonical_Props Directive_Soundness Subscription_Matching
begin

text \<open>
  What a template that passes the validator guarantees to the components that use it: every reference in it resolves,
  and the edges it gives rise to can be built.
\<close>

subsection \<open>Declared names\<close>

definition nodeTypes :: "TemplateSpec \<Rightarrow> string list" where
  "nodeTypes t = map Type (Nodes t)"

definition messageTypes :: "TemplateSpec \<Rightarrow> string list" where
  "messageTypes t = map (\<lambda>m. TrimSpace (msgType m)) (Messages t)"

text \<open>\<open>declared\<close> maps every declared type to a position where it stands.\<close>

definition declares :: "TemplateNodeDef list \<Rightarrow> (string \<times> nat) list \<Rightarrow> bool" where
  "declares ns declared \<longleftrightarrow> (\<forall>ty i. map_of declared ty = Some i \<longrightarrow> i < length ns \<and> Type (ns ! i) = ty)"

lemma declareNodes_Ok:
  assumes "declareNodes i d ns = (r, d')" and "Ok r" and "i = length ms" and "declares ms d" and "fst ` set d = Type ` set ms" and "distinct (map Type ms)"
  shows "declares (ms @ ns) d' \<and> fst ` set d' = Type ` set (ms @ ns) \<and> distinct (map Type (ms @ ns)) \<and> (\<forall>n \<in> set ns. TrimSpace (Type n) \<noteq> [])"
  using assms
proof (induction ns arbitrary: i d r ms)
  case (Cons n ns)
  from Cons.prems(1,2) have blank: "TrimSpace (Type n) \<noteq> []" and fresh: "map_of d (Type n) = None"
    by (auto simp: Let_def split: if_splits prod.splits)
  then have step: "declareNodes (i + 1) ((Type n, i) # d) ns = (r, d')" using Cons.prems(1) by (simp add: Let_def)
  have "Type n \<notin> Type ` set ms" using fresh Cons.prems(5) by (simp add: map_of_eq_None_iff)
  moreover have "declares (ms @ [n]) ((Type n, i) # d)"
    using Cons.prems(3,4) by (auto simp: declares_def nth_append less_Suc_eq)
  ultimately have "declares ((ms @ [n]) @ ns) d' \<and> fst ` set d' = Type ` set ((ms @ [n]) @ ns) \<and> distinct (map Type ((ms @ [n]) @ ns)) \<and>
      (\<forall>n \<in> set ns. TrimSpace (Type n) \<noteq> [])"
    using Cons.prems by (intro Cons.IH [OF step]) auto
  with blank show ?case by simp
qed simp

lemma declares_lookup:
  assumes "declares ns d" and "map_of d ty = Some i"
  obtains n where "n \<in> set ns" and "Type n = ty" and "ns ! i = n"
  using assms unfolding declares_def by (metis nth_mem)

lemma checkMessageType_Ok:
  "Ok (checkMessageType path ty dm d) \<Longrightarrow> checkMessageType path ty dm d = [] \<and> ty \<noteq> [] \<and> CHR ''/'' \<in> set ty \<and> ty \<notin> set dm \<and> map_of d ty = None"
  by (auto simp: checkMessageType_def Let_def split: if_splits)

lemma messagesLoop_Ok:
  "messagesLoop lib d i dm ms = (r, dm') \<Longrightarrow> Ok r \<Longrightarrow>
   set dm' = set dm \<union> set (map (\<lambda>m. TrimSpace (msgType m)) ms) \<and> distinct (map (\<lambda>m. TrimSpace (msgType m)) ms) \<and>
   set (map (\<lambda>m. TrimSpace (msgType m)) ms) \<inter> (set dm \<union> fst ` set d) = {} \<and>
   (\<forall>m \<in> set ms. CHR ''/'' \<in> set (TrimSpace (msgType m)))"
proof (induction ms arbitrary: i dm r)
  case (Cons m ms)
  let ?ty = "TrimSpace (msgType m)" and ?p = "indexed ''messages'' i @ ''.type''"
  have "Ok (checkMessageType ?p ?ty dm d)" using Cons.prems by (auto simp: Let_def split: if_splits prod.splits)
  note ty = checkMessageType_Ok [OF this]
  obtain r' where r': "messagesLoop lib d (i + 1) (?ty # dm) ms = (r', dm')" "Ok r'"
    using Cons.prems ty by (auto simp: Let_def split: prod.splits)
  have "?ty \<notin> fst ` set d" using ty by (simp add: map_of_eq_None_iff)
  with Cons.IH [OF r'] ty show ?case by auto
qed simp

subsection \<open>References\<close>

lemma refsWithPrefix_lookup:
  assumes "distinct (map Type (Nodes t))" and "n \<in> set (Nodes t)" and "ref \<in> set (parseSubstitutionRefsFromAttributes n)" and "Prefix ref = pfx"
  shows "(Type n, ref) \<in> set (sortedRefs (refsWithPrefix pfx t))"
proof -
  let ?f = "\<lambda>n. filter (\<lambda>r. Prefix r = pfx) (parseSubstitutionRefsFromAttributes n)"
  have "map_of (fold (\<lambda>n out. let refs = ?f n in if refs = [] then out else AList.update (Type n) refs out) ns out) (Type n) =
      (if n \<in> set ns then Some (?f n) else map_of out (Type n))"
    if "distinct (map Type ns)" "?f n \<noteq> []" "n \<in> set ns \<or> Type n \<notin> Type ` set ns" for ns out
    using that by (induction ns arbitrary: out) (auto simp: update_conv' Let_def)
  moreover have r: "ref \<in> set (?f n)" using assms by simp
  then have "?f n \<noteq> []" by force
  ultimately have m: "map_of (refsWithPrefix pfx t) (Type n) = Some (?f n)" using assms(1,2) by (simp add: refsWithPrefix_def)
  then have "Type n \<in> set (map fst (refsWithPrefix pfx t))" by (metis domI dom_map_of_conv_image_fst list.set_map)
  with m r show ?thesis unfolding sortedRefs_def by (auto simp: image_iff intro!: bexI [of _ "Type n"])
qed

lemma dedupRefs_subset: "set (dedupRefs seen rs) \<subseteq> set rs"
  by (induction seen rs rule: dedupRefs.induct) auto

lemma parsed_topic:
  assumes "ref \<in> set (parseSubstitutionRefsFromAttributes n)" and "Prefix ref = ''nodes''"
  shows "TopicKind ref = ''attribute''"
proof -
  have d: "TopicKind ref = ''attribute''" if "parseSubstitutionDirective b = Some ref" "Prefix ref = ''nodes''" for b ref
    using that by (auto simp: parseSubstitutionDirective_def Let_def split: if_splits list.splits)
  have "\<exists>src property grp. ref \<in> set (directiveRef (Type n) property grp)"
    using assms(1) dedupRefs_subset unfolding parseSubstitutionRefsFromAttributes_def by (fastforce simp: case_prod_beta)
  with assms(2) d show ?thesis by (auto simp: directiveRef_def Let_def split: if_splits option.splits)
qed

subsection \<open>Well-formed templates\<close>

definition subscriptionOk :: "Libraries \<Rightarrow> TemplateSpec \<Rightarrow> SubscriptionEntry \<Rightarrow> bool" where
  "subscriptionOk lib t s \<longleftrightarrow>
     ForceUpstreamRefresh s \<noteq> None \<and>
     (subNode s \<in> set (nodeTypes t) \<or> subNode s \<in> set (messageTypes t) \<and> (subType s = ''terminal/success'' \<or> subType s = ''terminal/*'')) \<and>
     ValidateSubscriptionType (subType s) = Inr () \<and> (\<exists>w. CompileWhen lib (subType s) (subWhen s) = Inr w)"

definition holdOk :: "TemplateSpec \<Rightarrow> TemplateNodeDef \<Rightarrow> string \<times> HoldsBinding \<Rightarrow> bool" where
  "holdOk t n h \<longleftrightarrow> TrimSpace (From (snd h)) \<noteq> Type n \<and>
     (\<exists>m \<in> set (Nodes t). Type m = TrimSpace (From (snd h)) \<and> storeAliasDeclared m (fst h))"

definition delegateOk :: "TemplateSpec \<Rightarrow> TemplateNodeDef \<Rightarrow> bool" where
  "delegateOk t n \<longleftrightarrow> TrimSpace (Delegate n) = [] \<or>
     (\<exists>g \<in> set (Graphs t). GraphSpecName g = TrimSpace (Delegate n) \<and> GraphSpecName g \<noteq> MainGraphName)"

definition coveredBy :: "TemplateNodeDef \<Rightarrow> string \<Rightarrow> string list \<Rightarrow> bool" where
  "coveredBy n sender types \<longleftrightarrow> (\<exists>s \<in> set (Subscribes n). subNode s = sender \<and> subType s \<in> set types)"

definition refOk :: "TemplateSpec \<Rightarrow> TemplateNodeDef \<Rightarrow> substitutionRef \<Rightarrow> bool" where
  "refOk t n ref \<longleftrightarrow>
     (Prefix ref = ''nodes'' \<longrightarrow>
        (\<exists>m \<in> set (Nodes t). Type m = TypeName ref \<and> (FieldPath ref = [] \<or> attributeKeyDeclared m (FieldPath ref))) \<and>
        coveredBy n (TypeName ref) (''attribute/*'' # (if FieldPath ref = [] then [] else [''attribute/'' @ FieldPath ref @ ''/changed'']))) \<and>
     (Prefix ref = ''messages'' \<longrightarrow>
        TypeName ref \<in> set (messageTypes t) \<and> coveredBy n (TypeName ref) [''terminal/success'', ''terminal/*''])"

definition sourceOk :: "JsonCodec \<Rightarrow> jvalue \<Rightarrow> bool" where
  "sourceOk jc raw \<longleftrightarrow> (\<exists>src. raw = VStr src \<and>
     ((\<forall>b \<in> set (bodies (directivePattern src)). checkable b) \<longrightarrow>
      (\<forall>ctx e. SubstituteValue jc src ctx = Inl e \<longrightarrow> (\<exists>b \<in> set (bodies (directivePattern src)). lacksValue (TrimSpace b) e))))"

definition nodeOk :: "Libraries \<Rightarrow> TemplateSpec \<Rightarrow> TemplateNodeDef \<Rightarrow> bool" where
  "nodeOk lib t n \<longleftrightarrow>
     TrimSpace (Type n) \<noteq> [] \<and>
     (\<forall>s \<in> set (Subscribes n). subscriptionOk lib t s) \<and>
     (\<forall>h \<in> set (Holds n). holdOk t n h) \<and> distinct (map (\<lambda>(a, b). EffectiveHoldsLocalAlias a b) (Holds n)) \<and>
     delegateOk t n \<and>
     (\<forall>ref \<in> set (parseSubstitutionRefsFromAttributes n). refOk t n ref) \<and>
     (\<forall>p \<in> set (walkSchemaForSourcesWithPath (VObj (schemaOf n)) []). sourceOk (codec lib) (fst p))"

definition wellFormed :: "Libraries \<Rightarrow> TemplateSpec \<Rightarrow> bool" where
  "wellFormed lib t \<longleftrightarrow>
     Nodes t \<noteq> [] \<and> distinct (nodeTypes t @ messageTypes t) \<and> (\<forall>n \<in> set (Nodes t). nodeOk lib t n) \<and>
     acyclic (set (holdsPairs t)) \<and> graphsOk t \<and>
     (\<exists>m. BuildSubscriptionEdges lib t (ExtractMessageRefsFromTemplate t) = Inr m) \<and>
     (\<exists>adj. BuildHardDepEdges t = Inr adj \<and> acyclic (edges adj))"

subsection \<open>Each check\<close>

lemma validateSubscription_Ok:
  assumes ok: "Ok (validateSubscription lib declared dm mbf hooks t sbase s)"
    and d: "declares (Nodes t) declared" and m: "set dm = set (messageTypes t)"
  shows "subscriptionOk lib t s"
proof -
  have flag: "ForceUpstreamRefresh s \<noteq> None" and ne: "subNode s \<noteq> []"
    and snd: "map_of declared (subNode s) \<noteq> None \<or> subNode s \<in> set dm"
    and ty: "ValidateSubscriptionType (subType s) = Inr ()"
    and msg: "subNode s \<in> set dm \<and> map_of declared (subNode s) = None \<Longrightarrow> subType s = ''terminal/success'' \<or> subType s = ''terminal/*''"
    using ok by (auto simp: validateSubscription_def Let_def split: if_splits)
  then have w: "Ok (validateWhen lib s sbase dm mbf)"
    using ok by (auto simp: validateSubscription_def Let_def split: if_splits)
  have "\<exists>w. CompileWhen lib (subType s) (subWhen s) = Inr w"
  proof (cases "subWhen s = []")
    case True
    then show ?thesis by (simp add: CompileWhen_def CompileWhenWithBodyFields_def)
  next
    case False
    with w show ?thesis by (auto simp: validateWhen_def split: if_splits sum.splits dest: CompileWhen_weaker)
  qed
  moreover have "map_of declared (subNode s) \<noteq> None \<Longrightarrow> subNode s \<in> set (nodeTypes t)"
    using d unfolding declares_def nodeTypes_def by (metis image_eqI list.set_map not_None_eq nth_mem)
  ultimately show ?thesis using flag snd ty msg unfolding subscriptionOk_def m [symmetric]
    by (cases "map_of declared (subNode s) = None") (simp_all only: simp_thms)
qed

lemma validateHolds_node:
  assumes "Ok (validateHolds n base t declared)" and "declares (Nodes t) declared" and "h \<in> set (Holds n)"
  shows "holdOk t n h"
proof -
  obtain i where i: "map_of declared (TrimSpace (From (snd h))) = Some i" "TrimSpace (From (snd h)) \<noteq> Type n" "storeAliasDeclared (Nodes t ! i) (fst h)"
    using validateHolds_Ok [OF assms(1), of "fst h" "snd h"] assms(3) by auto
  from declares_lookup [OF assms(2) i(1)] obtain m where "m \<in> set (Nodes t)" "Type m = TrimSpace (From (snd h))" "Nodes t ! i = m" .
  with i show ?thesis unfolding holdOk_def by blast
qed

lemma Ok_each_mem: "Ok (each f xs) \<Longrightarrow> x \<in> set xs \<Longrightarrow> \<exists>i. Ok (f i x)"
  by (auto simp: Ok_each in_set_conv_nth)

lemma validateDelegateTargets_Ok:
  assumes "Ok (validateDelegateTargets t)" and "n \<in> set (Nodes t)"
  shows "delegateOk t n"
  using Ok_each_mem [OF assms(1) [unfolded validateDelegateTargets_def Let_def] assms(2)]
  by (auto simp: delegateOk_def split: if_splits)

lemma validateSources_Ok:
  assumes "Ok (validateAttributesSchema lib n base declared t hooks)" and "p \<in> set (walkSchemaForSourcesWithPath (VObj (schemaOf n)) [])"
  shows "sourceOk (codec lib) (fst p)"
proof -
  have "schemaOf n \<noteq> []" using assms(2) by (auto split: option.splits)
  then have "Ok (checkSources (codec lib) n (schemaOf n) (base @ ''.attributes.schema'') declared t)"
    using assms(1) by (auto simp: validateAttributesSchema_def Let_def split: if_splits)
  from bspec [OF this [unfolded checkSources_def Let_def Ok_concat_map] assms(2)]
  obtain src where "fst p = VStr src"
    "Ok (checkAttributeSource (codec lib) src ((base @ ''.attributes.schema'') @ ''.'' @ snd p) declared
       (map AliasOf (ClaimProducers n)) (map (\<lambda>(a, b). EffectiveHoldsLocalAlias a b) (Holds n)) t)"
    by (auto split: prod.splits jvalue.splits)
  then show ?thesis unfolding sourceOk_def using accepted_source_lacks_value by blast
qed

lemma find_SomeD: "List.find P xs = Some x \<Longrightarrow> x \<in> set xs \<and> P x"
  by (induction xs) (auto split: if_splits)

lemma coverageIndex_node:
  assumes "distinct (map Type (Nodes t))" and "n \<in> set (Nodes t)" and "(sender, ty) \<in> set (coverageIndex t (Type n))"
  shows "\<exists>s \<in> set (Subscribes n). subNode s = sender \<and> subType s = ty"
proof -
  have "List.find (\<lambda>m. Type m = Type n) (rev (Nodes t)) = Some n"
  proof (cases "List.find (\<lambda>m. Type m = Type n) (rev (Nodes t))")
    case None
    with assms(2) show ?thesis by (auto simp: find_None_iff)
  next
    case (Some m)
    then have "m \<in> set (Nodes t)" "Type m = Type n" using find_SomeD [OF Some] by auto
    with assms(1,2) Some show ?thesis by (simp add: distinct_map inj_on_def)
  qed
  with assms(3) show ?thesis by (auto simp: coverageIndex_def)
qed

lemma validateRefs_Ok:
  assumes d: "distinct (map Type (Nodes t))" and n: "n \<in> set (Nodes t)" and decl: "declares (Nodes t) declared"
    and ex: "Ok (validateSubstitutionRefExistence t declared (ExtractSubstitutionRefsFromTemplate t))"
    and cov: "Ok (validateSubstitutionRefCoverage t (ExtractSubstitutionRefsFromTemplate t) (ExtractMessageRefsFromTemplate t))"
    and msg: "Ok (validateMessageRefs declared dm mbf (ExtractMessageRefsFromTemplate t))" and m: "set dm = set (messageTypes t)"
    and ref: "ref \<in> set (parseSubstitutionRefsFromAttributes n)"
  shows "refOk t n ref"
proof -
  have nodes: "(\<exists>m \<in> set (Nodes t). Type m = TypeName ref \<and> (FieldPath ref = [] \<or> attributeKeyDeclared m (FieldPath ref))) \<and>
      coveredBy n (TypeName ref) (''attribute/*'' # (if FieldPath ref = [] then [] else [''attribute/'' @ FieldPath ref @ ''/changed'']))"
    if p: "Prefix ref = ''nodes''"
  proof
    have r: "(Type n, ref) \<in> set (sortedRefs (ExtractSubstitutionRefsFromTemplate t))"
      unfolding ExtractSubstitutionRefsFromTemplate_def by (rule refsWithPrefix_lookup [OF d n ref p])
    have topic: "TopicKind ref = ''attribute''" by (rule parsed_topic [OF ref p])
    from bspec [OF ex [unfolded validateSubstitutionRefExistence_def Ok_concat_map] r] topic
    obtain i where i: "map_of declared (TypeName ref) = Some i" "FieldPath ref = [] \<or> attributeKeyDeclared (Nodes t ! i) (FieldPath ref)"
      by (auto simp: Let_def split: option.splits if_splits)
    from declares_lookup [OF decl i(1)] i(2)
    show "\<exists>m \<in> set (Nodes t). Type m = TypeName ref \<and> (FieldPath ref = [] \<or> attributeKeyDeclared m (FieldPath ref))" by metis
    have "Ok (uncovered t (Type n) ref (RefLiteral ref))" using cov r by (auto simp: validateSubstitutionRefCoverage_def)
    then have "snd (coverageMatch (coverageIndex t (Type n)) ref)" by (auto simp: uncovered_def split: prod.splits if_splits)
    then have "\<exists>ty \<in> set (''attribute/*'' # (if FieldPath ref = [] then [] else [''attribute/'' @ FieldPath ref @ ''/changed''])).
        (TypeName ref, ty) \<in> set (coverageIndex t (Type n))"
      by (auto simp: coverageMatch_def topic Let_def split: if_splits)
    then show "coveredBy n (TypeName ref) (''attribute/*'' # (if FieldPath ref = [] then [] else [''attribute/'' @ FieldPath ref @ ''/changed'']))"
      unfolding coveredBy_def using coverageIndex_node [OF d n] by metis
  qed
  moreover have "TypeName ref \<in> set (messageTypes t) \<and> coveredBy n (TypeName ref) [''terminal/success'', ''terminal/*'']"
    if p: "Prefix ref = ''messages''"
  proof
    have r: "(Type n, ref) \<in> set (sortedRefs (ExtractMessageRefsFromTemplate t))"
      unfolding ExtractMessageRefsFromTemplate_def by (rule refsWithPrefix_lookup [OF d n ref p])
    from bspec [OF msg [unfolded validateMessageRefs_def Ok_concat_map] r] m
    show "TypeName ref \<in> set (messageTypes t)" by (auto simp: Let_def split: if_splits)
    have "snd (coverageMatch (coverageIndex t (Type n)) (ref\<lparr>TopicKind := ''message''\<rparr>))"
      using bspec [OF conjunct2 [OF cov [unfolded validateSubstitutionRefCoverage_def Ok_simps(5)], unfolded Ok_concat_map] r]
      by (auto simp: uncovered_def split: prod.splits if_splits)
    then have "\<exists>ty \<in> set [''terminal/success'', ''terminal/*'']. (TypeName ref, ty) \<in> set (coverageIndex t (Type n))"
      by (auto simp: coverageMatch_def)
    then show "coveredBy n (TypeName ref) [''terminal/success'', ''terminal/*'']"
      unfolding coveredBy_def using coverageIndex_node [OF d n] by metis
  qed
  ultimately show ?thesis unfolding refOk_def by blast
qed

subsection \<open>Edges\<close>

lemma insertSubscriptions_ok: "\<forall>s \<in> set ss. subscriptionOk lib t s \<Longrightarrow> \<exists>m'. insertSubscriptions lib ty i ss m = Inr m'"
proof (induction ss arbitrary: i m)
  case (Cons s ss)
  then have "subscriptionOk lib t s" by simp
  then obtain e where "edgeFromSubscription lib i s ty = Inr e" by (auto simp: subscriptionOk_def edgeFromSubscription_def)
  with Cons show ?case by simp
qed simp

lemma insertNodes_ok: "\<forall>n \<in> set ns. \<forall>s \<in> set (Subscribes n). subscriptionOk lib t s \<Longrightarrow> \<exists>m'. insertNodes lib ns m = Inr m'"
proof (induction ns arbitrary: m)
  case (Cons n ns)
  then obtain m1 where "insertSubscriptions lib (Type n) 0 (Subscribes n) m = Inr m1" using insertSubscriptions_ok by (metis list.set_intros(1))
  with Cons show ?case by simp
qed simp

lemma BuildSubscriptionEdges_ok:
  "\<forall>n \<in> set (Nodes t). \<forall>s \<in> set (Subscribes n). subscriptionOk lib t s \<Longrightarrow> \<exists>m. BuildSubscriptionEdges lib t refs = Inr m"
  using insertNodes_ok [of "Nodes t" lib t "[]"] by (auto simp: BuildSubscriptionEdges_def)

lemma hardDep_ok:
  assumes "Ok (hardDepErrors t)"
  shows "\<exists>adj. BuildHardDepEdges t = Inr adj \<and> acyclic (edges adj)"
proof -
  obtain adj where adj: "BuildHardDepEdges t = Inr adj" using assms by (auto simp: hardDepErrors_def split: sum.splits)
  then have "findAllCycles adj = []"
    by (auto simp: BuildHardDepEdges_def detectHardDepCycle_def Let_def split: if_splits option.splits list.splits)
  then have "acyclic (edges adj)"
    using search_exact [of adj "sort (map fst adj)" "searchDepth adj"] by (auto simp: findAllCycles_def cycleSearch_def searchDepth_def)
  with adj show ?thesis by blast
qed

subsection \<open>Validated templates\<close>

lemma validateNode_Ok:
  assumes ok: "Ok (validateNode lib hooks t declared dm mbf i n)" and decl: "declares (Nodes t) declared" and m: "set dm = set (messageTypes t)"
  shows "(\<forall>s \<in> set (Subscribes n). subscriptionOk lib t s) \<and> (\<forall>h \<in> set (Holds n). holdOk t n h) \<and>
     distinct (map (\<lambda>(a, b). EffectiveHoldsLocalAlias a b) (Holds n)) \<and>
     (\<forall>p \<in> set (walkSchemaForSourcesWithPath (VObj (schemaOf n)) []). sourceOk (codec lib) (fst p))"
proof -
  let ?base = "indexed ''nodes'' i"
  have subs: "Ok (validateSubscribes lib n ?base declared dm mbf hooks t)" and attrs: "Ok (validateAttributesSchema lib n ?base declared t hooks)"
    and holds: "Ok (validateHolds n ?base t declared)"
    using ok by (simp_all add: validateNode_def Let_def)
  have "subscriptionOk lib t s" if "s \<in> set (Subscribes n)" for s
  proof -
    have "Ok (each (\<lambda>i. validateSubscription lib declared dm mbf hooks t (indexed (?base @ ''.subscribes'') i)) (Subscribes n))"
      using subs by (simp add: validateSubscribes_def)
    from Ok_each_mem [OF this that] show ?thesis using validateSubscription_Ok [OF _ decl m] by blast
  qed
  with validateHolds_node [OF holds decl] validateHolds_local_aliases [OF holds] validateSources_Ok [OF attrs] show ?thesis by blast
qed

lemma validateCanonical_Ok:
  assumes ok: "Ok (validateCanonical lib hooks t)" and deleg: "Ok (validateDelegateTargets t)"
  shows "distinct (nodeTypes t @ messageTypes t) \<and> (\<forall>n \<in> set (Nodes t). nodeOk lib t n) \<and> acyclic (set (holdsPairs t)) \<and>
     (\<exists>m. BuildSubscriptionEdges lib t (ExtractMessageRefsFromTemplate t) = Inr m) \<and> (\<exists>adj. BuildHardDepEdges t = Inr adj \<and> acyclic (edges adj))"
proof -
  obtain r1 declared where dn: "declareNodes 0 [] (Nodes t) = (r1, declared)" by fastforce
  obtain r2 dm where vm: "messagesLoop lib declared 0 [] (Messages t) = (r2, dm)" by fastforce
  let ?mbf = "buildMessageBodyFieldSet (codec lib) t"
  have r1: "Ok r1" and r2: "Ok r2" and nodes: "Ok (each (validateNode lib hooks t declared dm ?mbf) (Nodes t))"
    and acyc: "Ok (validateHoldsAcyclic t)"
    and ex: "Ok (validateSubstitutionRefExistence t declared (ExtractSubstitutionRefsFromTemplate t))"
    and cov: "Ok (validateSubstitutionRefCoverage t (ExtractSubstitutionRefsFromTemplate t) (ExtractMessageRefsFromTemplate t))"
    and msg: "Ok (validateMessageRefs declared dm ?mbf (ExtractMessageRefsFromTemplate t))" and hard: "Ok (hardDepErrors t)"
    using ok by (simp_all add: validateCanonical_def Let_def dn validateMessages_def vm)
  have D: "declares (Nodes t) declared" "fst ` set declared = Type ` set (Nodes t)" "distinct (map Type (Nodes t))" "\<forall>n \<in> set (Nodes t). TrimSpace (Type n) \<noteq> []"
    using declareNodes_Ok [OF dn r1, of "[]"] by (simp_all add: declares_def)
  have M: "set dm = set (messageTypes t)" "distinct (nodeTypes t @ messageTypes t)"
    using messagesLoop_Ok [OF vm r2] D(2,3) unfolding nodeTypes_def messageTypes_def by auto
  have node: "nodeOk lib t n" if n: "n \<in> set (Nodes t)" for n
  proof -
    obtain i where "Ok (validateNode lib hooks t declared dm ?mbf i n)" using Ok_each_mem [OF nodes n] by blast
    from validateNode_Ok [OF this D(1) M(1)] validateDelegateTargets_Ok [OF deleg n] validateRefs_Ok [OF D(3) n D(1) ex cov msg M(1)] D(4) n
    show ?thesis unfolding nodeOk_def by blast
  qed
  then have "\<forall>n \<in> set (Nodes t). \<forall>s \<in> set (Subscribes n). subscriptionOk lib t s" by (simp add: nodeOk_def)
  with node M(2) acyc hardDep_ok [OF hard] show ?thesis unfolding validateHoldsAcyclic_Ok using BuildSubscriptionEdges_ok by blast
qed


definition noHooks :: RegistryHooks where
  "noHooks = \<lparr>StoreDeclared = None, NamedLockDeclared = None, ExecutorDeclared = None, ExecutorDeclaredTags = None,
     ExecutorDeclaredErrorClasses = None, ClaimProducerDeclaredErrorClasses = None, ExecutorExpectedAttributesSchema = None,
     ClaimProducerAdvertisesSplitScope = None, PublisherDeclaredKinds = None, KindAliases = None\<rparr>"

definition subscribe :: "string \<Rightarrow> string \<Rightarrow> bool \<Rightarrow> SubscriptionEntry" where
  "subscribe sender ty refresh = \<lparr>subNode = sender, subType = ty, subWhen = [], ForceUpstreamRefresh = Some refresh, ResolvesViaCallingNode = False\<rparr>"

definition sourced :: "string \<Rightarrow> string \<Rightarrow> NodeAttributesDef" where
  "sourced key src = \<lparr>Schema = [(''properties'', VObj [(key, VObj [(''source'', VStr src)])])]\<rparr>"

text \<open>A main graph whose node \<open>call\<close> delegates to a sub-graph; \<open>sink\<close> reads a message and an attribute of \<open>call\<close> and holds its claim.\<close>

definition exampleProject :: "string \<Rightarrow> MessageSchema \<Rightarrow> TemplateSpec" where
  "exampleProject delegate msg =
     (let call = (plainNode ''call'')\<lparr>Delegate := delegate, Attributes := Some (sourced ''k'' ''{{env.HOME | 1}}''),
            ClaimProducers := [\<lparr>refName = ''db'', refSelector = ''rows'', refIntent = ''rw'', refAlias = [], refLifetime = [], refData = []\<rparr>]\<rparr>;
          sink = (plainNode ''sink'')\<lparr>
            Subscribes := [subscribe ''call'' ''attribute/*'' True, subscribe ''in/go'' ''terminal/success'' False],
            Attributes := Some (sourced ''y'' ''{{nodes.call.attribute.k}} {{messages.in/go}}''),
            Holds := [(''db'', \<lparr>From = ''call'', As = []\<rparr>)]\<rparr>;
          finish = (plainNode ''finish'')\<lparr>Subscribes := [subscribe ''start'' ''terminal/success'' True]\<rparr>
      in exampleTemplate\<lparr>Name := ''p'', Version := ''1'', Nodes := [],
           Messages := [msg],
           Graphs := [\<lparr>GraphSpecName = ''main'', Entry = [], Exit = [], GraphNodes = [call, sink]\<rparr>,
                      \<lparr>GraphSpecName = ''sub'', Entry = ''start'', Exit = ''finish'', GraphNodes = [plainNode ''start'', finish]\<rparr>]\<rparr>)"

lemma exampleProject_accepted: "Ok (snd (ValidateTemplate exampleLibraries noHooks (exampleProject ''sub'' \<lparr>msgType = ''in/go'', BodySchema = []\<rparr>)))"
  by code_simp


subsection \<open>White space\<close>

text \<open>A delegate with surrounding white space is accepted, but its sub-graph's entry is not absorbed.\<close>

lemma padded_delegate_not_absorbed:
  "(case ValidateTemplate exampleLibraries noHooks (exampleProject '' sub'' \<lparr>msgType = ''in/go'', BodySchema = []\<rparr>) of
      (t, rep) \<Rightarrow> Ok rep \<and> \<not> list_ex IsSubgraphEntryAbsorbed (Nodes t)) \<and>
   list_ex IsSubgraphEntryAbsorbed (Nodes (fst (ValidateTemplate exampleLibraries noHooks (exampleProject ''sub'' \<lparr>msgType = ''in/go'', BodySchema = []\<rparr>))))"
  by code_simp

text \<open>A message type with surrounding white space is declared without it, and its bodies are not validated, even by a
  schema that accepts nothing.\<close>

lemma padded_message_type_unchecked:
  "Ok (snd (ValidateTemplate exampleLibraries noHooks (exampleProject ''sub'' \<lparr>msgType = '' in/go'', BodySchema = []\<rparr>))) \<and>
   ValidateMessageBody (lib\<lparr>SchemaAccepts := (\<lambda>_ _. False)\<rparr>) (exampleProject ''sub'' \<lparr>msgType = '' in/go'', BodySchema = sch\<rparr>) ''in/go'' body = Inr ()"
proof
  show "Ok (snd (ValidateTemplate exampleLibraries noHooks (exampleProject ''sub'' \<lparr>msgType = '' in/go'', BodySchema = []\<rparr>)))" by code_simp
qed (simp add: ValidateMessageBody_def exampleProject_def Let_def)

end
