(* ===== verification/Attribute_Bags.thy ===== *)
theory Attribute_Bags
  imports Json_Values Run_Tree_Store "HOL-Library.Word" "HOL-Library.AList"
begin

text \<open>
  The attribute bags of node runs (\<open>lib/foundation/persistence/sqlite/node_attributes.go\<close>) with their
  spill to a blob backend (\<open>blob.go\<close>, \<open>blob_spill.go\<close>, \<open>blob_memory.go\<close>, \<open>blob_inline.go\<close>), the table
  of orphaned blobs (\<open>sqlite/blob_orphans.go\<close>) and its sweeper (\<open>lib/runtime/orphan_blobs.go\<close>).

  A bag is a Go map from names to JSON values, an association list. The text of a JSON column or
  blob is represented by the bag it denotes (\<open>bag_json\<close>); only its length, which decides spilling,
  is a parameter. A blob backend is the record of its methods over a state type.
\<close>

subsection \<open>Bags\<close>

type_synonym bag = jmap

datatype bag_json = BagEmpty | BagJSON bag | BagMalformed string

fun unmarshalBag :: "bag_json \<Rightarrow> bag option" where
  "unmarshalBag BagEmpty = Some []"
| "unmarshalBag (BagJSON b) = Some b"
| "unmarshalBag (BagMalformed _) = None"

text \<open>\<open>for k, v := range delta { merged[k] = v }\<close>.\<close>

definition mergeBag :: "bag \<Rightarrow> bag \<Rightarrow> bag" where
  "mergeBag base delta = fold (\<lambda>(k, v). AList.update k v) delta base"

lemma map_of_mergeBag:
  "distinct (map fst delta) \<Longrightarrow> map_of (mergeBag base delta) = map_of base ++ map_of delta"
proof (induction delta arbitrary: base)
  case (Cons p delta)
  obtain k v where p: "p = (k, v)" by fastforce
  have "map_of (mergeBag base (p # delta)) = (map_of base)(k \<mapsto> v) ++ map_of delta"
    using Cons by (simp add: mergeBag_def p update_conv')
  also have "\<dots> = map_of base ++ map_of (p # delta)"
  proof -
    have "map_of delta k = None" using Cons.prems by (simp add: p map_of_eq_None_iff)
    then show ?thesis by (auto simp: p map_add_def fun_eq_iff split: option.split)
  qed
  finally show ?case .
qed (simp add: mergeBag_def)

subsection \<open>Blob backends\<close>

type_synonym Handle = string

record BlobKey =
  keyNodeID :: UUID
  keyAttributeName :: string
  keyHint :: string

datatype blob_error = ErrBlobNotFound | errInlineNotSpillable | BlobFailure string

record 'b BlobBackend =
  bbName :: string
  bbWrite :: "BlobKey \<Rightarrow> bag_json \<Rightarrow> 'b \<Rightarrow> blob_error + Handle \<times> 'b"
  bbRead :: "Handle \<Rightarrow> 'b \<Rightarrow> blob_error + bag_json"
  bbDelete :: "Handle \<Rightarrow> 'b \<Rightarrow> blob_error + 'b"
  bbWriteInTx :: "(BlobKey \<Rightarrow> bag_json \<Rightarrow> 'b \<Rightarrow> blob_error + Handle \<times> 'b) option"
  bbReadInTx :: "(Handle \<Rightarrow> 'b \<Rightarrow> blob_error + bag_json) option"

text \<open>The optional methods are those of \<open>TxBlobBackend\<close>; every caller below passes a transaction.\<close>

definition WriteBlobInTx :: "'b BlobBackend \<Rightarrow> BlobKey \<Rightarrow> bag_json \<Rightarrow> 'b \<Rightarrow> blob_error + Handle \<times> 'b" where
  "WriteBlobInTx bb = (case bbWriteInTx bb of Some f \<Rightarrow> f | None \<Rightarrow> bbWrite bb)"

definition ReadBlobInTx :: "'b BlobBackend \<Rightarrow> Handle \<Rightarrow> 'b \<Rightarrow> blob_error + bag_json" where
  "ReadBlobInTx bb = (case bbReadInTx bb of Some f \<Rightarrow> f | None \<Rightarrow> bbRead bb)"

record MemoryBackend =
  mem_blobs :: "(Handle \<times> bag_json) list"
  mem_seq :: "64 word"

definition memHandle :: "64 word \<Rightarrow> Handle" where
  "memHandle i = ''mem:'' @ itoa (unat i)"

definition memoryWrite :: "BlobKey \<Rightarrow> bag_json \<Rightarrow> MemoryBackend \<Rightarrow> blob_error + Handle \<times> MemoryBackend" where
  "memoryWrite key bytes b =
     (let i = mem_seq b + 1; h = memHandle i in
      Inr (h, b\<lparr>mem_blobs := AList.update h bytes (mem_blobs b), mem_seq := i\<rparr>))"

definition memoryRead :: "Handle \<Rightarrow> MemoryBackend \<Rightarrow> blob_error + bag_json" where
  "memoryRead h b = (case map_of (mem_blobs b) h of None \<Rightarrow> Inl ErrBlobNotFound | Some v \<Rightarrow> Inr v)"

definition memoryDelete :: "Handle \<Rightarrow> MemoryBackend \<Rightarrow> blob_error + MemoryBackend" where
  "memoryDelete h b = Inr (b\<lparr>mem_blobs := AList.delete h (mem_blobs b)\<rparr>)"

definition memoryBackend :: "MemoryBackend BlobBackend" where
  "memoryBackend = \<lparr>bbName = ''memory'', bbWrite = memoryWrite, bbRead = memoryRead, bbDelete = memoryDelete,
     bbWriteInTx = None, bbReadInTx = None\<rparr>"

definition NewMemoryBackend :: MemoryBackend where
  "NewMemoryBackend = \<lparr>mem_blobs = [], mem_seq = 0\<rparr>"

definition inlineBackend :: "'b BlobBackend" where
  "inlineBackend = \<lparr>bbName = ''inline'', bbWrite = (\<lambda>_ _ _. Inl errInlineNotSpillable),
     bbRead = (\<lambda>_ _. Inl ErrBlobNotFound), bbDelete = (\<lambda>_ b. Inr b), bbWriteInTx = None, bbReadInTx = None\<rparr>"

definition ShouldSpillBlob :: "'b BlobBackend option \<Rightarrow> int \<Rightarrow> int \<Rightarrow> bool" where
  "ShouldSpillBlob bb threshold sz =
     (if sz \<le> 0 then False
      else case bb of None \<Rightarrow> False
      | Some b \<Rightarrow> if threshold \<le> 0 then False else if bbName b = ''inline'' then False else sz > threshold)"

subsection \<open>Tables\<close>

record AttrRow =
  at_node_run_id :: UUID
  at_node_id :: UUID
  at_data :: bag_json
  dispatch_input_bag :: "bag_json option"
  value_handle :: "Handle option"
  value_handle_backend :: "string option"
  at_updated_at :: time

record BlobOrphanRow =
  or_handle :: Handle
  or_backend :: string
  OrphanedAt :: time
  ReapAfter :: time

record 'b AttrStore =
  attr_rows :: "AttrRow list"
  blob_orphans :: "BlobOrphanRow list"
  blob_state :: 'b

text \<open>The configuration of \<open>tablesImpl\<close>. \<open>fk\<close> says whether the run and node of a new row exist.\<close>

record 'b AttrConfig =
  blob :: "'b BlobBackend option"
  blobThreshold :: int
  blobRetention :: int
  jsonLen :: "bag_json \<Rightarrow> int"
  fk :: "UUID \<Rightarrow> UUID \<Rightarrow> bool"

record NodeAttributesRow =
  narNodeRunID :: UUID
  narNodeID :: UUID
  narData :: bag
  narUpdatedAt :: time

datatype attr_error =
  AttrNotFound
| AttrForeignKey
| BackendMismatch Handle
| AttrUnmarshal
| AttrBlob blob_error
| AttrCleanupFailed blob_error

definition DefaultOrphanRetention :: int where
  "DefaultOrphanRetention = 24 * 3600 * 1000000000"

definition orphanInsert :: "BlobOrphanRow \<Rightarrow> BlobOrphanRow list \<Rightarrow> BlobOrphanRow list" where
  "orphanInsert row rows = (if row_of or_handle (or_handle row) rows \<noteq> None then rows else rows @ [row])"

definition QueueBlobOrphan :: "Handle \<Rightarrow> string \<Rightarrow> time \<Rightarrow> int \<Rightarrow> BlobOrphanRow list \<Rightarrow> BlobOrphanRow list" where
  "QueueBlobOrphan handle backend now retention rows =
     (if handle = [] then rows
      else orphanInsert \<lparr>or_handle = handle, or_backend = backend, OrphanedAt = now,
             ReapAfter = now + (if retention \<le> 0 then DefaultOrphanRetention else retention)\<rparr> rows)"

definition DueBefore :: "BlobOrphanRow list \<Rightarrow> time \<Rightarrow> string \<Rightarrow> int \<Rightarrow> BlobOrphanRow list" where
  "DueBefore rows cutoff backend limit =
     take (nat (if limit \<le> 0 then 100 else limit))
       (sort_key ReapAfter (filter (\<lambda>r. ReapAfter r \<le> cutoff \<and> or_backend r = backend) rows))"

definition orphanDelete :: "Handle \<Rightarrow> BlobOrphanRow list \<Rightarrow> BlobOrphanRow list" where
  "orphanDelete handle rows = delete_where (\<lambda>r. or_handle r = handle) rows"

subsection \<open>Reading bags\<close>

definition rowHandle :: "AttrRow \<Rightarrow> Handle" where
  "rowHandle r = (case value_handle r of None \<Rightarrow> [] | Some h \<Rightarrow> h)"

definition attributesRow :: "AttrRow \<Rightarrow> bag \<Rightarrow> NodeAttributesRow" where
  "attributesRow r d = \<lparr>narNodeRunID = at_node_run_id r, narNodeID = at_node_id r, narData = d, narUpdatedAt = at_updated_at r\<rparr>"

definition scanAttributeRow :: "'b AttrConfig \<Rightarrow> 'b \<Rightarrow> AttrRow \<Rightarrow> attr_error + NodeAttributesRow" where
  "scanAttributeRow cfg st r =
     (let decode = (\<lambda>t. case unmarshalBag t of None \<Rightarrow> Inl AttrUnmarshal | Some d \<Rightarrow> Inr (attributesRow r d)) in
      if rowHandle r \<noteq> [] then
        (case blob cfg of
           None \<Rightarrow> Inl (BackendMismatch (rowHandle r))
         | Some bb \<Rightarrow>
             if value_handle_backend r \<noteq> Some (bbName bb) then Inl (BackendMismatch (rowHandle r))
             else (case bbRead bb (rowHandle r) st of
                     Inl e \<Rightarrow> if e = ErrBlobNotFound then Inr (attributesRow r []) else Inl (AttrBlob e)
                   | Inr bytes \<Rightarrow> decode bytes))
      else decode (at_data r))"

definition scanFound :: "'b AttrConfig \<Rightarrow> 'b \<Rightarrow> AttrRow option \<Rightarrow> attr_error + NodeAttributesRow option" where
  "scanFound cfg st found =
     (case found of None \<Rightarrow> Inr None | Some r \<Rightarrow> res_bind (scanAttributeRow cfg st r) (\<lambda>x. Inr (Some x)))"

definition GetByRun :: "'b AttrConfig \<Rightarrow> 'b AttrStore \<Rightarrow> UUID \<Rightarrow> attr_error + NodeAttributesRow option" where
  "GetByRun cfg s run = scanFound cfg (blob_state s) (row_of at_node_run_id run (attr_rows s))"

text \<open>The join \<open>rimsky_node_attributes a JOIN rimsky_node_runs r ON r.id = a.node_run_id\<close>, and the
  first row of a query with a descending order.\<close>

definition attrJoin :: "NodeRunRow list \<Rightarrow> AttrRow list \<Rightarrow> (AttrRow \<times> NodeRunRow) list" where
  "attrJoin runs rows =
     concat (map (\<lambda>a. map (\<lambda>r. (a, r)) (filter (\<lambda>r. NodeRunID r = at_node_run_id a) runs)) rows)"

definition firstDesc :: "('a \<Rightarrow> int) \<Rightarrow> 'a list \<Rightarrow> 'a option" where
  "firstDesc key xs = (case sort_key (\<lambda>x. - key x) xs of [] \<Rightarrow> None | x # _ \<Rightarrow> Some x)"

definition GetLatestByNode ::
  "'b AttrConfig \<Rightarrow> NodeRunRow list \<Rightarrow> 'b AttrStore \<Rightarrow> UUID \<Rightarrow> UUID \<Rightarrow> attr_error + NodeAttributesRow option" where
  "GetLatestByNode cfg runs s node scope =
     scanFound cfg (blob_state s) (map_option fst (firstDesc (\<lambda>(a, r). at_updated_at a)
       (sort_key (\<lambda>(a, r). - sequence r)
         (filter (\<lambda>(a, r). at_node_id a = node \<and> RunScopeID r = scope) (attrJoin runs (attr_rows s))))))"

definition GetPriorRunData ::
  "'b AttrConfig \<Rightarrow> NodeRunRow list \<Rightarrow> 'b AttrStore \<Rightarrow> UUID \<Rightarrow> attr_error + bag option" where
  "GetPriorRunData cfg runs s run =
     res_bind (scanFound cfg (blob_state s)
       (case row_of NodeRunID run runs of
          None \<Rightarrow> None
        | Some cur \<Rightarrow> map_option fst (firstDesc (\<lambda>(a, r). sequence r)
            (filter (\<lambda>(a, r). NodeID r = NodeID cur \<and> RunScopeID r = RunScopeID cur \<and> sequence r < sequence cur)
              (attrJoin runs (attr_rows s))))))
       (\<lambda>prior. Inr (map_option narData prior))"

subsection \<open>Writing bags\<close>

definition readPriorBlobHandle :: "'b AttrStore \<Rightarrow> UUID \<Rightarrow> Handle \<times> string" where
  "readPriorBlobHandle s run =
     (case row_of at_node_run_id run (attr_rows s) of
        None \<Rightarrow> ([], [])
      | Some r \<Rightarrow> if rowHandle r = [] then ([], [])
                  else (rowHandle r, case value_handle_backend r of None \<Rightarrow> [] | Some b \<Rightarrow> b))"

text \<open>\<open>INSERT .. ON CONFLICT(node_run_id) DO UPDATE\<close>: an existing row is updated, a new one needs its
  foreign keys.\<close>

definition upsertRow :: "'b AttrConfig \<Rightarrow> AttrRow \<Rightarrow> (AttrRow \<Rightarrow> AttrRow) \<Rightarrow> AttrRow list \<Rightarrow> AttrRow list option" where
  "upsertRow cfg new upd rows =
     (if row_of at_node_run_id (at_node_run_id new) rows \<noteq> None
        then Some (update_where (\<lambda>r. at_node_run_id r = at_node_run_id new) upd rows)
      else if fk cfg (at_node_run_id new) (at_node_id new) then Some (rows @ [new])
      else None)"

text \<open>A write returns the error, if any, with the store. On an error the transaction takes back the
  rows, but not what happened to the blob backend.\<close>

type_synonym 'b attr_write = "attr_error option \<times> 'b AttrStore"

definition newAttrRow :: "UUID \<Rightarrow> UUID \<Rightarrow> bag_json \<Rightarrow> bag_json option \<Rightarrow> Handle \<Rightarrow> string \<Rightarrow> time \<Rightarrow> AttrRow" where
  "newAttrRow run node d disp h bk now =
     \<lparr>at_node_run_id = run, at_node_id = node, at_data = d, dispatch_input_bag = disp,
      value_handle = (if h \<noteq> [] then Some h else None), value_handle_backend = (if h \<noteq> [] then Some bk else None),
      at_updated_at = now\<rparr>"

text \<open>The part of \<open>Upsert\<close> after the spill: \<open>st\<close> is the backend state with the new blob in it.\<close>

definition upsertSave ::
  "'b AttrConfig \<Rightarrow> time \<Rightarrow> UUID \<Rightarrow> UUID \<Rightarrow> bag_json \<Rightarrow> Handle \<Rightarrow> string \<Rightarrow> 'b \<Rightarrow> 'b AttrStore \<Rightarrow> 'b attr_write" where
  "upsertSave cfg now run node dataToSave newHandle newBackend st s =
     (let new = newAttrRow run node dataToSave None newHandle newBackend now;
          (priorHandle, priorBkend) = readPriorBlobHandle s run in
      case upsertRow cfg new (\<lambda>r. r\<lparr>at_data := dataToSave, at_updated_at := now,
              value_handle := value_handle new, value_handle_backend := value_handle_backend new\<rparr>) (attr_rows s) of
        None \<Rightarrow>
          (case blob cfg of
             Some bb \<Rightarrow>
               if newHandle \<noteq> [] then
                 (case bbDelete bb newHandle st of
                    Inl e \<Rightarrow> (Some (AttrCleanupFailed e), s\<lparr>blob_state := st\<rparr>)
                  | Inr st' \<Rightarrow> (Some AttrForeignKey, s\<lparr>blob_state := st'\<rparr>))
               else (Some AttrForeignKey, s\<lparr>blob_state := st\<rparr>)
           | None \<Rightarrow> (Some AttrForeignKey, s\<lparr>blob_state := st\<rparr>))
      | Some rows \<Rightarrow>
          (None, s\<lparr>attr_rows := rows, blob_state := st,
             blob_orphans := (if priorHandle \<noteq> [] \<and> priorHandle \<noteq> newHandle
               then QueueBlobOrphan priorHandle priorBkend now (blobRetention cfg) (blob_orphans s)
               else blob_orphans s)\<rparr>))"

definition Upsert :: "'b AttrConfig \<Rightarrow> time \<Rightarrow> UUID \<Rightarrow> UUID \<Rightarrow> bag option \<Rightarrow> 'b AttrStore \<Rightarrow> 'b attr_write" where
  "Upsert cfg now run node d s =
     (let raw = BagJSON (case d of None \<Rightarrow> [] | Some b \<Rightarrow> b) in
      case blob cfg of
        Some bb \<Rightarrow>
          if ShouldSpillBlob (blob cfg) (blobThreshold cfg) (jsonLen cfg raw) then
            (case WriteBlobInTx bb \<lparr>keyNodeID = node, keyAttributeName = ''data'', keyHint = []\<rparr> raw (blob_state s) of
               Inl e \<Rightarrow> (Some (AttrBlob e), s)
             | Inr (h, st) \<Rightarrow> upsertSave cfg now run node (BagJSON []) h (bbName bb) st s)
          else upsertSave cfg now run node raw [] [] (blob_state s) s
      | None \<Rightarrow> upsertSave cfg now run node raw [] [] (blob_state s) s)"

definition touchRow :: "time \<Rightarrow> UUID \<Rightarrow> (AttrRow \<Rightarrow> AttrRow) \<Rightarrow> 'b AttrStore \<Rightarrow> 'b attr_write" where
  "touchRow now run upd s =
     (if affected (\<lambda>r. at_node_run_id r = run) (attr_rows s) = 0 then (Some AttrNotFound, s)
      else (None, s\<lparr>attr_rows := update_where (\<lambda>r. at_node_run_id r = run)
              (\<lambda>r. (upd r)\<lparr>at_updated_at := now\<rparr>) (attr_rows s)\<rparr>))"

definition MergeDelta :: "'b AttrConfig \<Rightarrow> time \<Rightarrow> UUID \<Rightarrow> bag option \<Rightarrow> 'b AttrStore \<Rightarrow> 'b attr_write" where
  "MergeDelta cfg now run delta s =
     (case delta of
        None \<Rightarrow> touchRow now run (\<lambda>r. r) s
      | Some dl \<Rightarrow>
          if fst (readPriorBlobHandle s run) \<noteq> [] then
            (case GetByRun cfg s run of
               Inl e \<Rightarrow> (Some e, s)
             | Inr None \<Rightarrow> (Some AttrNotFound, s)
             | Inr (Some prior) \<Rightarrow> Upsert cfg now run (narNodeID prior) (Some (mergeBag (narData prior) dl)) s)
          else
            (case row_of at_node_run_id run (attr_rows s) of
               None \<Rightarrow> (Some AttrNotFound, s)
             | Some r \<Rightarrow>
                 (case unmarshalBag (at_data r) of
                    None \<Rightarrow> (Some AttrUnmarshal, s)
                  | Some current \<Rightarrow> touchRow now run (\<lambda>r. r\<lparr>at_data := BagJSON (mergeBag current dl)\<rparr>) s)))"

definition SetDispatchInputBag :: "'b AttrConfig \<Rightarrow> time \<Rightarrow> UUID \<Rightarrow> UUID \<Rightarrow> bag option \<Rightarrow> 'b AttrStore \<Rightarrow> 'b attr_write" where
  "SetDispatchInputBag cfg now run node b s =
     (let raw = BagJSON (case b of None \<Rightarrow> [] | Some x \<Rightarrow> x) in
      case upsertRow cfg (newAttrRow run node (BagJSON []) (Some raw) [] [] now)
             (\<lambda>r. r\<lparr>dispatch_input_bag := Some raw, at_updated_at := now\<rparr>) (attr_rows s) of
        None \<Rightarrow> (Some AttrForeignKey, s)
      | Some rows \<Rightarrow> (None, s\<lparr>attr_rows := rows\<rparr>))"

definition GetDispatchInputBag :: "'b AttrStore \<Rightarrow> UUID \<Rightarrow> attr_error + bag option" where
  "GetDispatchInputBag s run =
     (case row_of at_node_run_id run (attr_rows s) of
        None \<Rightarrow> Inr None
      | Some r \<Rightarrow>
          (case dispatch_input_bag r of
             None \<Rightarrow> Inr None
           | Some BagEmpty \<Rightarrow> Inr None
           | Some t \<Rightarrow> (case unmarshalBag t of None \<Rightarrow> Inl AttrUnmarshal | Some b \<Rightarrow> Inr (Some b))))"

record CarriedBag =
  cbData :: bag_json
  cbDispatchBag :: bag_json
  cbHandle :: Handle
  cbBackend :: string

definition CarryForwardBag ::
  "'b BlobBackend option \<Rightarrow> BlobKey \<Rightarrow> bag_json \<Rightarrow> Handle \<Rightarrow> string \<Rightarrow> 'b \<Rightarrow> blob_error + CarriedBag \<times> 'b" where
  "CarryForwardBag bbo key priorData priorHandle priorBackend st =
     (let keep = \<lparr>cbData = priorData, cbDispatchBag = priorData, cbHandle = priorHandle, cbBackend = priorBackend\<rparr> in
      case bbo of
        None \<Rightarrow> Inr (keep, st)
      | Some bb \<Rightarrow>
          if priorHandle = [] \<or> priorBackend \<noteq> bbName bb then Inr (keep, st)
          else (case ReadBlobInTx bb priorHandle st of
                  Inl e \<Rightarrow> if e = ErrBlobNotFound
                    then Inr (\<lparr>cbData = BagJSON [], cbDispatchBag = BagJSON [], cbHandle = [], cbBackend = []\<rparr>, st)
                    else Inl e
                | Inr bytes \<Rightarrow>
                    (case WriteBlobInTx bb key bytes st of
                       Inl e \<Rightarrow> Inl e
                     | Inr (fresh, st') \<Rightarrow>
                         Inr (\<lparr>cbData = BagJSON [], cbDispatchBag = bytes, cbHandle = fresh, cbBackend = bbName bb\<rparr>, st'))))"

text \<open>\<open>INSERT .. ON CONFLICT(node_run_id) DO NOTHING\<close>.\<close>

definition insertIfAbsent :: "'b AttrConfig \<Rightarrow> AttrRow \<Rightarrow> 'b AttrStore \<Rightarrow> 'b attr_write" where
  "insertIfAbsent cfg new s =
     (case upsertRow cfg new (\<lambda>r. r) (attr_rows s) of
        None \<Rightarrow> (Some AttrForeignKey, s)
      | Some rows \<Rightarrow> (None, s\<lparr>attr_rows := rows\<rparr>))"

definition priorBagRow :: "NodeRunRow list \<Rightarrow> 'b AttrStore \<Rightarrow> UUID \<Rightarrow> UUID \<Rightarrow> UUID \<Rightarrow> AttrRow option" where
  "priorBagRow runs s newRun node scope =
     map_option fst (firstDesc (\<lambda>(a, r). sequence r)
       (filter (\<lambda>(a, r). at_node_id a = node \<and> RunScopeID r = scope \<and> NodeRunID r \<noteq> newRun)
         (attrJoin runs (attr_rows s))))"

definition SnapshotBagForNewRun ::
  "'b AttrConfig \<Rightarrow> time \<Rightarrow> NodeRunRow list \<Rightarrow> UUID \<Rightarrow> UUID \<Rightarrow> UUID \<Rightarrow> 'b AttrStore \<Rightarrow> 'b attr_write" where
  "SnapshotBagForNewRun cfg now runs newRun node scope s =
     (case priorBagRow runs s newRun node scope of
        None \<Rightarrow> insertIfAbsent cfg (newAttrRow newRun node (BagJSON []) (Some (BagJSON [])) [] [] now) s
      | Some prior \<Rightarrow>
          (case CarryForwardBag (blob cfg) \<lparr>keyNodeID = node, keyAttributeName = ''data'', keyHint = []\<rparr> (at_data prior)
                  (rowHandle prior) (case value_handle_backend prior of None \<Rightarrow> [] | Some b \<Rightarrow> b) (blob_state s) of
             Inl e \<Rightarrow> (Some (AttrBlob e), s)
           | Inr (carried, st) \<Rightarrow>
               insertIfAbsent cfg (newAttrRow newRun node (cbData carried) (Some (cbDispatchBag carried))
                 (cbHandle carried) (cbBackend carried) now) (s\<lparr>blob_state := st\<rparr>)))"

subsection \<open>The sweeper\<close>

text \<open>An error of the backend leaves the orphan row for the next sweep and only warns.\<close>

definition reapOneBlobOrphan :: "'b BlobBackend \<Rightarrow> BlobOrphanRow \<Rightarrow> 'b AttrStore \<Rightarrow> 'b AttrStore" where
  "reapOneBlobOrphan bb row s =
     (case bbDelete bb (or_handle row) (blob_state s) of
        Inl e \<Rightarrow> if e = ErrBlobNotFound then s\<lparr>blob_orphans := orphanDelete (or_handle row) (blob_orphans s)\<rparr> else s
      | Inr st \<Rightarrow> s\<lparr>blob_state := st, blob_orphans := orphanDelete (or_handle row) (blob_orphans s)\<rparr>)"

definition SweepOrphanedBlobs :: "'b BlobBackend \<Rightarrow> int \<Rightarrow> time \<Rightarrow> 'b AttrStore \<Rightarrow> 'b AttrStore" where
  "SweepOrphanedBlobs bb limit now s =
     fold (reapOneBlobOrphan bb) (DueBefore (blob_orphans s) now (bbName bb) (if limit \<le> 0 then 100 else limit)) s"

end
