(* ===== verification/Attribute_Bags_Props.thy ===== *)
theory Attribute_Bags_Props
  imports Attribute_Bags
begin

text \<open>
  What the attribute bags guarantee. The interface \<open>blob_backend\<close> states what the bags need of a
  backend: a written blob gets a handle never issued before and can be read back, and writes and
  deletes do not disturb other blobs. The memory backend is its interpretation. On that interface
  rest the read-after-write laws of the bags and the safety of the orphan sweeper.
\<close>

subsection \<open>The invariant\<close>

text \<open>Rows own their blobs: no two rows share a handle, and a queued orphan belongs to no row.\<close>

definition attr_inv :: "'b BlobBackend \<Rightarrow> (Handle \<Rightarrow> 'b \<Rightarrow> bool) \<Rightarrow> 'b AttrStore \<Rightarrow> bool" where
  "attr_inv bb used s \<longleftrightarrow>
     keyed at_node_run_id (attr_rows s) \<and>
     inj_on rowHandle {r \<in> set (attr_rows s). rowHandle r \<noteq> []} \<and>
     (\<forall>r \<in> set (attr_rows s). rowHandle r \<noteq> [] \<longrightarrow>
        value_handle_backend r = Some (bbName bb) \<and> used (rowHandle r) (blob_state s)) \<and>
     (\<forall>ob \<in> set (blob_orphans s). used (or_handle ob) (blob_state s) \<and> or_handle ob \<notin> rowHandle ` set (attr_rows s))"

definition upserted :: "AttrRow \<Rightarrow> (AttrRow \<Rightarrow> AttrRow) \<Rightarrow> AttrRow list \<Rightarrow> AttrRow" where
  "upserted new upd rows = (case row_of at_node_run_id (at_node_run_id new) rows of None \<Rightarrow> new | Some r \<Rightarrow> upd r)"

lemma upsertRow_cases:
  assumes "upsertRow cfg new upd rows = Some rows'"
  obtains (insert) "row_of at_node_run_id (at_node_run_id new) rows = None" "rows' = rows @ [new]"
  | (update) r where "row_of at_node_run_id (at_node_run_id new) rows = Some r"
      "rows' = update_where (\<lambda>r. at_node_run_id r = at_node_run_id new) upd rows"
  using assms unfolding upsertRow_def by (auto split: if_splits)

lemma upsertRow_find:
  assumes "upsertRow cfg new upd rows = Some rows'" and id: "\<And>r. at_node_run_id (upd r) = at_node_run_id r"
  shows "row_of at_node_run_id run rows' =
    (if run = at_node_run_id new then Some (upserted new upd rows) else row_of at_node_run_id run rows)"
  using assms(1)
proof (cases rule: upsertRow_cases)
  case insert
  have "row_of at_node_run_id q [new] = (if q = at_node_run_id new then Some new else None)" for q
    by (auto simp: row_of_def)
  with insert show ?thesis unfolding upserted_def by (simp add: row_of_append split: option.split)
next
  case (update r)
  show ?thesis
  proof (cases "run = at_node_run_id new")
    case True
    with update row_of_SomeD [OF update(1)] show ?thesis
      unfolding upserted_def by (simp add: row_of_update_where id)
  next
    case False
    then have "at_node_run_id q \<noteq> at_node_run_id new" if "row_of at_node_run_id run rows = Some q" for q
      using row_of_SomeD [OF that] by simp
    with False update(2) show ?thesis
      by (cases "row_of at_node_run_id run rows") (simp_all add: row_of_update_where id)
  qed
qed

lemma upsertRow_keyed:
  assumes "upsertRow cfg new upd rows = Some rows'" and "\<And>r. at_node_run_id (upd r) = at_node_run_id r"
    and "keyed at_node_run_id rows"
  shows "keyed at_node_run_id rows'"
  using assms(1)
proof (cases rule: upsertRow_cases)
  case insert
  with assms(3) show ?thesis by (auto simp: keyed_def row_of_None_iff)
next
  case (update r)
  with assms(2,3) show ?thesis by (simp add: update_where_keyed)
qed

text \<open>In a keyed table membership and lookup agree.\<close>

lemma upsertRow_mem:
  assumes "upsertRow cfg new upd rows = Some rows'" and id: "\<And>r. at_node_run_id (upd r) = at_node_run_id r"
    and "keyed at_node_run_id rows"
  shows "set rows' = insert (upserted new upd rows) {r \<in> set rows. at_node_run_id r \<noteq> at_node_run_id new}"
proof (rule set_eqI)
  fix q
  have x: "at_node_run_id (upserted new upd rows) = at_node_run_id new"
  proof (cases "row_of at_node_run_id (at_node_run_id new) rows")
    case (Some r)
    with id row_of_SomeD [OF Some] show ?thesis by (simp add: upserted_def)
  qed (simp add: upserted_def)
  have "q \<in> set rows' \<longleftrightarrow> row_of at_node_run_id (at_node_run_id q) rows' = Some q"
    unfolding row_of_Some_iff [OF upsertRow_keyed [OF assms]] by blast
  also have "\<dots> \<longleftrightarrow> (if at_node_run_id q = at_node_run_id new then upserted new upd rows = q else q \<in> set rows)"
    unfolding upsertRow_find [OF assms(1,2)]
    by (cases "at_node_run_id q = at_node_run_id new") (simp_all add: row_of_Some_iff [OF assms(3)])
  finally show "q \<in> set rows' \<longleftrightarrow> q \<in> insert (upserted new upd rows) {r \<in> set rows. at_node_run_id r \<noteq> at_node_run_id new}"
    using x by (cases "at_node_run_id q = at_node_run_id new") auto
qed

text \<open>The bag a run reads, and the store after one row was written.\<close>

definition readBag :: "'b AttrConfig \<Rightarrow> 'b AttrStore \<Rightarrow> UUID \<Rightarrow> bag option" where
  "readBag cfg s run = map_option narData (case GetByRun cfg s run of Inl _ \<Rightarrow> None | Inr r \<Rightarrow> r)"

lemma GetByRun_upsert:
  assumes "upsertRow cfg new upd (attr_rows s) = Some rows'" and "\<And>r. at_node_run_id (upd r) = at_node_run_id r"
  shows "GetByRun cfg (s\<lparr>attr_rows := rows'\<rparr>) run =
    (if run = at_node_run_id new then scanFound cfg (blob_state s) (Some (upserted new upd (attr_rows s)))
     else GetByRun cfg s run)"
  unfolding GetByRun_def by (simp add: upsertRow_find [OF assms])

lemma touchRow_upsert:
  assumes "touchRow now run upd s = (None, s')"
  shows "s' = s\<lparr>attr_rows := attr_rows s'\<rparr>" and "row_of at_node_run_id run (attr_rows s) \<noteq> None"
    and "upsertRow cfg (newAttrRow run 0 BagEmpty None [] [] now) (\<lambda>r. (upd r)\<lparr>at_updated_at := now\<rparr>) (attr_rows s) = Some (attr_rows s')"
proof -
  from assms have "affected (\<lambda>r. at_node_run_id r = run) (attr_rows s) \<noteq> 0" and
    s': "s' = s\<lparr>attr_rows := update_where (\<lambda>r. at_node_run_id r = run) (\<lambda>r. (upd r)\<lparr>at_updated_at := now\<rparr>) (attr_rows s)\<rparr>"
    by (auto simp: touchRow_def split: if_splits)
  then show "row_of at_node_run_id run (attr_rows s) \<noteq> None"
    unfolding affected_0_iff row_of_None_iff by blast
  with s' show "s' = s\<lparr>attr_rows := attr_rows s'\<rparr>"
    and "upsertRow cfg (newAttrRow run 0 BagEmpty None [] [] now) (\<lambda>r. (upd r)\<lparr>at_updated_at := now\<rparr>) (attr_rows s) = Some (attr_rows s')"
    by (auto simp: upsertRow_def newAttrRow_def)
qed

lemma touchRow_error: "touchRow now run upd s = (Some e, s') \<Longrightarrow> s' = s"
  by (auto simp: touchRow_def split: if_splits)

lemma firstDesc_mem: "firstDesc key xs = Some x \<Longrightarrow> x \<in> set xs"
  by (auto simp: firstDesc_def split: list.splits) (metis list.set_intros(1) set_sort)

lemma priorBagRow_mem:
  assumes "priorBagRow runs s newRun node scope = Some prior"
  shows "prior \<in> set (attr_rows s)" and "at_node_run_id prior \<noteq> newRun"
proof -
  from assms obtain r where "(prior, r) \<in> set (filter (\<lambda>(a, r). at_node_id a = node \<and> RunScopeID r = scope \<and> NodeRunID r \<noteq> newRun)
      (attrJoin runs (attr_rows s)))"
    unfolding priorBagRow_def by (auto dest!: firstDesc_mem)
  then show "prior \<in> set (attr_rows s)" and "at_node_run_id prior \<noteq> newRun" by (auto simp: attrJoin_def)
qed

subsection \<open>The interface of a blob backend\<close>

locale blob_backend =
  fixes bb :: "'b BlobBackend" and used :: "Handle \<Rightarrow> 'b \<Rightarrow> bool" and room :: "'b \<Rightarrow> bool"
  assumes write_fresh: "room b \<Longrightarrow> WriteBlobInTx bb k v b = Inr (h, b') \<Longrightarrow> h \<noteq> [] \<and> \<not> used h b \<and> used h b'"
    and write_read: "room b \<Longrightarrow> WriteBlobInTx bb k v b = Inr (h, b') \<Longrightarrow> bbRead bb h b' = Inr v"
    and write_frame: "room b \<Longrightarrow> WriteBlobInTx bb k v b = Inr (h, b') \<Longrightarrow> used h' b \<Longrightarrow>
        used h' b' \<and> bbRead bb h' b' = bbRead bb h' b"
    and delete_used: "bbDelete bb h b = Inr b' \<Longrightarrow> used h' b' = used h' b"
    and delete_frame: "bbDelete bb h b = Inr b' \<Longrightarrow> h' \<noteq> h \<Longrightarrow> bbRead bb h' b' = bbRead bb h' b"
    and used_nonempty: "\<not> used [] b"
    and read_in_tx: "ReadBlobInTx bb = bbRead bb"
begin

lemma scan_cong:
  "blob cfg = Some bb \<Longrightarrow> (rowHandle r \<noteq> [] \<Longrightarrow> bbRead bb (rowHandle r) st' = bbRead bb (rowHandle r) st) \<Longrightarrow>
     scanAttributeRow cfg st' r = scanAttributeRow cfg st r"
  by (simp add: scanAttributeRow_def Let_def)

lemma replace_inv:
  assumes inv: "attr_inv bb used s"
    and rows: "keyed at_node_run_id rows'" "set rows' = insert x {r \<in> set (attr_rows s). at_node_run_id r \<noteq> run}"
    and st: "\<And>h. used h (blob_state s) \<Longrightarrow> used h st'"
    and x: "rowHandle x \<noteq> [] \<Longrightarrow> value_handle_backend x = Some (bbName bb) \<and> used (rowHandle x) st' \<and>
        (\<not> used (rowHandle x) (blob_state s) \<or> (\<exists>r \<in> set (attr_rows s). at_node_run_id r = run \<and> rowHandle r = rowHandle x))"
    and orphans: "\<And>ob. ob \<in> set obs' \<Longrightarrow> ob \<in> set (blob_orphans s) \<or>
        (\<exists>r \<in> set (attr_rows s). at_node_run_id r = run \<and> rowHandle r = or_handle ob \<and> or_handle ob \<noteq> [] \<and> or_handle ob \<noteq> rowHandle x)"
  shows "attr_inv bb used (s\<lparr>attr_rows := rows', blob_orphans := obs', blob_state := st'\<rparr>)"
proof -
  let ?R = "set (attr_rows s)" and ?st = "blob_state s"
  have inj: "r = r'" if "r \<in> ?R" "r' \<in> ?R" "rowHandle r = rowHandle r'" "rowHandle r \<noteq> []" for r r'
    using inv that unfolding attr_inv_def inj_on_def by simp
  have own: "value_handle_backend r = Some (bbName bb) \<and> used (rowHandle r) ?st" if "r \<in> ?R" "rowHandle r \<noteq> []" for r
    using inv that unfolding attr_inv_def by blast
  have other: "rowHandle r \<noteq> rowHandle x" if "r \<in> ?R" "at_node_run_id r \<noteq> run" "rowHandle r \<noteq> []" for r
    using x own [OF that(1,3)] inj [OF that(1) _ _ that(3)] that(2,3) by metis
  have orph: "used (or_handle ob) st' \<and> or_handle ob \<notin> rowHandle ` set rows'" if ob: "ob \<in> set obs'" for ob
    using orphans [OF ob]
  proof
    assume "ob \<in> set (blob_orphans s)"
    then have u: "used (or_handle ob) ?st" "or_handle ob \<notin> rowHandle ` ?R" using inv unfolding attr_inv_def by blast+
    then have "or_handle ob \<noteq> rowHandle x" using x used_nonempty by (metis imageI)
    with u st show ?thesis unfolding rows(2) by blast
  next
    assume "\<exists>r \<in> ?R. at_node_run_id r = run \<and> rowHandle r = or_handle ob \<and> or_handle ob \<noteq> [] \<and> or_handle ob \<noteq> rowHandle x"
    then obtain r where r: "r \<in> ?R" "at_node_run_id r = run" "rowHandle r = or_handle ob" "or_handle ob \<noteq> []"
      "or_handle ob \<noteq> rowHandle x" by blast
    have "rowHandle r' \<noteq> or_handle ob" if "r' \<in> ?R" "at_node_run_id r' \<noteq> run" for r'
      using inj [OF r(1) that(1)] r(2,3,4) that(2) by metis
    then have "or_handle ob \<notin> rowHandle ` set rows'" unfolding rows(2) using r(5) by fastforce
    moreover have "used (or_handle ob) st'" using own [OF r(1)] r(3,4) st by metis
    ultimately show ?thesis by blast
  qed
  have "inj_on rowHandle {r \<in> set rows'. rowHandle r \<noteq> []}"
  proof (rule inj_onI)
    fix a b
    assume a: "a \<in> {r \<in> set rows'. rowHandle r \<noteq> []}" and b: "b \<in> {r \<in> set rows'. rowHandle r \<noteq> []}"
      and eq: "rowHandle a = rowHandle b"
    show "a = b"
    proof (cases "a = x \<or> b = x")
      case True
      with a b eq other [of a] other [of b] show ?thesis unfolding rows(2) by auto
    next
      case False
      with a b have "a \<in> ?R" "b \<in> ?R" "rowHandle a \<noteq> []" unfolding rows(2) by auto
      with eq show ?thesis by (intro inj)
    qed
  qed
  moreover have "\<forall>r \<in> set rows'. rowHandle r \<noteq> [] \<longrightarrow> value_handle_backend r = Some (bbName bb) \<and> used (rowHandle r) st'"
    unfolding rows(2) using x own st by blast
  ultimately show ?thesis using rows(1) orph unfolding attr_inv_def by simp
qed

lemma state_inv:
  assumes "attr_inv bb used s" and "\<And>h. used h (blob_state s) \<Longrightarrow> used h st'"
  shows "attr_inv bb used (s\<lparr>blob_state := st'\<rparr>)"
  using assms unfolding attr_inv_def by simp

lemma queue_orphan_mem:
  "ob \<in> set (QueueBlobOrphan h bk now ret rows) \<Longrightarrow> ob \<in> set rows \<or> or_handle ob = h \<and> h \<noteq> []"
  by (auto simp: QueueBlobOrphan_def orphanInsert_def split: if_splits)

lemma upsertSave_cases:
  assumes up: "upsertSave cfg now run node d h bk st s = (err, s')" and cfg: "blob cfg = Some bb"
  shows "(\<exists>e. err = Some e) \<and> (\<exists>st'. s' = s\<lparr>blob_state := st'\<rparr> \<and> (\<forall>q. used q st \<longrightarrow> used q st')) \<or>
    err = None \<and> (\<exists>rows'. upsertRow cfg (newAttrRow run node d None h bk now) (\<lambda>r. r\<lparr>at_data := d, at_updated_at := now,
        value_handle := if h \<noteq> [] then Some h else None, value_handle_backend := if h \<noteq> [] then Some bk else None\<rparr>)
        (attr_rows s) = Some rows' \<and> s' = s\<lparr>attr_rows := rows', blob_state := st,
          blob_orphans := (case readPriorBlobHandle s run of (ph, pb) \<Rightarrow> if ph \<noteq> [] \<and> ph \<noteq> h
             then QueueBlobOrphan ph pb now (blobRetention cfg) (blob_orphans s) else blob_orphans s)\<rparr>)"
proof (cases "upsertRow cfg (newAttrRow run node d None h bk now) (\<lambda>r. r\<lparr>at_data := d, at_updated_at := now,
        value_handle := if h \<noteq> [] then Some h else None, value_handle_backend := if h \<noteq> [] then Some bk else None\<rparr>)
        (attr_rows s)")
  case None
  with up cfg have "(\<exists>e. err = Some e) \<and> (\<exists>st'. s' = s\<lparr>blob_state := st'\<rparr> \<and> (st' = st \<or> bbDelete bb h st = Inr st'))"
    by (auto simp: upsertSave_def Let_def newAttrRow_def split: prod.splits if_splits sum.splits)
  then show ?thesis using delete_used by metis
next
  case (Some rows')
  with up cfg show ?thesis
    by (auto simp: upsertSave_def Let_def newAttrRow_def split: prod.splits)
qed

lemma upsertSave_inv:
  assumes inv: "attr_inv bb used s" and cfg: "blob cfg = Some bb"
    and st: "\<And>q. used q (blob_state s) \<Longrightarrow> used q st"
    and h: "h \<noteq> [] \<Longrightarrow> bk = bbName bb \<and> \<not> used h (blob_state s) \<and> used h st"
    and up: "upsertSave cfg now run node d h bk st s = (err, s')"
  shows "attr_inv bb used s'"
  using upsertSave_cases [OF up cfg]
proof (elim disjE conjE exE)
  fix st' assume "s' = s\<lparr>blob_state := st'\<rparr>" "\<forall>q. used q st \<longrightarrow> used q st'"
  then show ?thesis using inv st by (auto intro: state_inv)
next
  fix rows'
  assume ups: "upsertRow cfg (newAttrRow run node d None h bk now) (\<lambda>r. r\<lparr>at_data := d, at_updated_at := now,
        value_handle := if h \<noteq> [] then Some h else None, value_handle_backend := if h \<noteq> [] then Some bk else None\<rparr>)
        (attr_rows s) = Some rows'"
    and s': "s' = s\<lparr>attr_rows := rows', blob_state := st,
          blob_orphans := (case readPriorBlobHandle s run of (ph, pb) \<Rightarrow> if ph \<noteq> [] \<and> ph \<noteq> h
             then QueueBlobOrphan ph pb now (blobRetention cfg) (blob_orphans s) else blob_orphans s)\<rparr>"
  have k: "keyed at_node_run_id (attr_rows s)" using inv by (simp add: attr_inv_def)
  define x where "x = upserted (newAttrRow run node d None h bk now) (\<lambda>r. r\<lparr>at_data := d, at_updated_at := now,
      value_handle := if h \<noteq> [] then Some h else None, value_handle_backend := if h \<noteq> [] then Some bk else None\<rparr>) (attr_rows s)"
  have rows: "keyed at_node_run_id rows'" "set rows' = insert x {r \<in> set (attr_rows s). at_node_run_id r \<noteq> run}"
    using upsertRow_keyed [OF ups _ k] upsertRow_mem [OF ups _ k] by (simp_all add: x_def newAttrRow_def)
  have xh: "rowHandle x = h" "h \<noteq> [] \<Longrightarrow> value_handle_backend x = Some bk"
    by (auto simp: x_def upserted_def rowHandle_def newAttrRow_def split: option.split)
  have "attr_inv bb used (s\<lparr>attr_rows := rows', blob_orphans := blob_orphans s', blob_state := st\<rparr>)"
  proof (rule replace_inv [OF inv rows st])
    fix ob assume "ob \<in> set (blob_orphans s')"
    then have "ob \<in> set (blob_orphans s) \<or> or_handle ob = fst (readPriorBlobHandle s run) \<and> or_handle ob \<noteq> [] \<and> or_handle ob \<noteq> h"
      by (cases "readPriorBlobHandle s run") (auto simp: s' split: if_splits dest: queue_orphan_mem)
    then show "ob \<in> set (blob_orphans s) \<or> (\<exists>r \<in> set (attr_rows s). at_node_run_id r = run \<and> rowHandle r = or_handle ob \<and>
        or_handle ob \<noteq> [] \<and> or_handle ob \<noteq> rowHandle x)"
      unfolding xh(1) readPriorBlobHandle_def
      by (auto split: option.splits if_splits dest: row_of_SomeD)
  qed (use h xh in auto)
  then show ?thesis by (simp add: attr_inv_def s')
qed

lemma Upsert_cases:
  assumes up: "Upsert cfg now run node d s = (err, s')" and cfg: "blob cfg = Some bb" and room: "room (blob_state s)"
  obtains (failed) e where "err = Some (AttrBlob e)" "s' = s"
  | (saved) t h bk st where "upsertSave cfg now run node t h bk st s = (err, s')"
      "\<And>q. used q (blob_state s) \<Longrightarrow> used q st \<and> bbRead bb q st = bbRead bb q (blob_state s)"
      "h \<noteq> [] \<Longrightarrow> bk = bbName bb \<and> \<not> used h (blob_state s) \<and> used h st \<and> bbRead bb h st = Inr (BagJSON (case d of None \<Rightarrow> [] | Some b \<Rightarrow> b))"
      "h = [] \<Longrightarrow> t = BagJSON (case d of None \<Rightarrow> [] | Some b \<Rightarrow> b)"
proof -
  let ?raw = "BagJSON (case d of None \<Rightarrow> [] | Some b \<Rightarrow> b)"
  show ?thesis
  proof (cases "ShouldSpillBlob (blob cfg) (blobThreshold cfg) (jsonLen cfg ?raw)")
    case False
    with up cfg have "upsertSave cfg now run node ?raw [] [] (blob_state s) s = (err, s')"
      by (simp add: Upsert_def Let_def)
    then show ?thesis by (rule saved) simp_all
  next
    case True
    show ?thesis
    proof (cases "WriteBlobInTx bb \<lparr>keyNodeID = node, keyAttributeName = ''data'', keyHint = []\<rparr> ?raw (blob_state s)")
      case (Inl e)
      with up cfg True show ?thesis by (intro failed) (auto simp: Upsert_def Let_def)
    next
      case (Inr p)
      obtain h st where p: "p = (h, st)" by fastforce
      from up cfg True Inr p have save: "upsertSave cfg now run node (BagJSON []) h (bbName bb) st s = (err, s')"
        by (simp add: Upsert_def Let_def)
      note w = room Inr [unfolded p]
      from write_fresh [OF w] write_read [OF w] write_frame [OF w] show ?thesis
        by (intro saved [OF save]) simp_all
    qed
  qed
qed

lemma Upsert_inv:
  assumes "attr_inv bb used s" and "blob cfg = Some bb" and "room (blob_state s)"
    and "Upsert cfg now run node d s = (err, s')"
  shows "attr_inv bb used s'"
  using assms(4,2,3)
proof (cases rule: Upsert_cases)
  case (saved t h bk st)
  from saved(2,3) show ?thesis by (intro upsertSave_inv [OF assms(1,2) _ _ saved(1)]) blast+
qed (use assms(1) in simp)

text \<open>Reading after a successful \<open>Upsert\<close>.\<close>

lemma Upsert_reads:
  assumes inv: "attr_inv bb used s" and cfg: "blob cfg = Some bb" and room: "room (blob_state s)"
    and up: "Upsert cfg now run node d s = (None, s')"
  shows "readBag cfg s' run = Some (case d of None \<Rightarrow> [] | Some b \<Rightarrow> b)"
    and "run' \<noteq> run \<Longrightarrow> GetByRun cfg s' run' = GetByRun cfg s run'"
proof -
  obtain t h bk st where sv: "upsertSave cfg now run node t h bk st s = (None, s')"
    and fr: "\<And>q. used q (blob_state s) \<Longrightarrow> used q st \<and> bbRead bb q st = bbRead bb q (blob_state s)"
    and h: "h \<noteq> [] \<Longrightarrow> bk = bbName bb \<and> \<not> used h (blob_state s) \<and> used h st \<and> bbRead bb h st = Inr (BagJSON (case d of None \<Rightarrow> [] | Some b \<Rightarrow> b))"
    and t: "h = [] \<Longrightarrow> t = BagJSON (case d of None \<Rightarrow> [] | Some b \<Rightarrow> b)"
    using up cfg room
  proof (cases rule: Upsert_cases)
    case (saved t h bk st)
    then show ?thesis by (intro that) blast+
  qed simp
  obtain rows' where ups: "upsertRow cfg (newAttrRow run node t None h bk now) (\<lambda>r. r\<lparr>at_data := t, at_updated_at := now,
        value_handle := if h \<noteq> [] then Some h else None, value_handle_backend := if h \<noteq> [] then Some bk else None\<rparr>)
        (attr_rows s) = Some rows'" and s': "attr_rows s' = rows'" "blob_state s' = st"
    using upsertSave_cases [OF sv cfg] by auto
  have k: "keyed at_node_run_id (attr_rows s)" using inv by (simp add: attr_inv_def)
  define x where "x = upserted (newAttrRow run node t None h bk now) (\<lambda>r. r\<lparr>at_data := t, at_updated_at := now,
      value_handle := if h \<noteq> [] then Some h else None, value_handle_backend := if h \<noteq> [] then Some bk else None\<rparr>) (attr_rows s)"
  have rows: "row_of at_node_run_id run' rows' = (if run' = run then Some x else row_of at_node_run_id run' (attr_rows s))" for run'
    using upsertRow_find [OF ups] by (simp add: x_def newAttrRow_def)
  have xh: "rowHandle x = h" "h \<noteq> [] \<Longrightarrow> value_handle_backend x = Some bk" "at_data x = t"
    by (auto simp: x_def upserted_def rowHandle_def newAttrRow_def split: option.split)
  show "readBag cfg s' run = Some (case d of None \<Rightarrow> [] | Some b \<Rightarrow> b)"
    using h t xh cfg by (cases "h = []")
      (simp_all add: readBag_def GetByRun_def s' rows scanFound_def scanAttributeRow_def attributesRow_def Let_def)
  show "GetByRun cfg s' run' = GetByRun cfg s run'" if "run' \<noteq> run"
  proof (cases "row_of at_node_run_id run' (attr_rows s)")
    case (Some r)
    then have "rowHandle r \<noteq> [] \<Longrightarrow> used (rowHandle r) (blob_state s)"
      using inv row_of_SomeD [OF Some] by (auto simp: attr_inv_def)
    then have "scanAttributeRow cfg st r = scanAttributeRow cfg (blob_state s) r"
      using fr by (intro scan_cong [OF cfg]) blast
    with Some that show ?thesis by (simp add: GetByRun_def s' rows scanFound_def)
  qed (use that in \<open>simp add: GetByRun_def s' rows scanFound_def\<close>)
qed

text \<open>Writes that leave the handle of the row alone.\<close>

lemma keep_inv:
  assumes inv: "attr_inv bb used s" and ups: "upsertRow cfg new upd (attr_rows s) = Some rows'"
    and id: "\<And>r. at_node_run_id (upd r) = at_node_run_id r"
    and h: "\<And>r. rowHandle (upd r) = rowHandle r" "\<And>r. value_handle_backend (upd r) = value_handle_backend r" "rowHandle new = []"
  shows "attr_inv bb used (s\<lparr>attr_rows := rows'\<rparr>)"
proof -
  have k: "keyed at_node_run_id (attr_rows s)" using inv by (simp add: attr_inv_def)
  let ?x = "upserted new upd (attr_rows s)"
  have "attr_inv bb used (s\<lparr>attr_rows := rows', blob_orphans := blob_orphans s, blob_state := blob_state s\<rparr>)"
  proof (rule replace_inv [OF inv upsertRow_keyed [OF ups id k] upsertRow_mem [OF ups id k]])
    assume ne: "rowHandle ?x \<noteq> []"
    then obtain r where r: "row_of at_node_run_id (at_node_run_id new) (attr_rows s) = Some r"
      unfolding upserted_def using h(3) by (cases "row_of at_node_run_id (at_node_run_id new) (attr_rows s)") auto
    note m = row_of_SomeD [OF r]
    have x: "rowHandle ?x = rowHandle r" "value_handle_backend ?x = value_handle_backend r"
      by (simp_all add: upserted_def r h)
    with inv m ne show "value_handle_backend ?x = Some (bbName bb) \<and> used (rowHandle ?x) (blob_state s) \<and>
      (\<not> used (rowHandle ?x) (blob_state s) \<or> (\<exists>r \<in> set (attr_rows s). at_node_run_id r = at_node_run_id new \<and> rowHandle r = rowHandle ?x))"
      unfolding attr_inv_def by (metis (no_types, lifting))
  qed simp_all
  then show ?thesis by (simp add: attr_inv_def)
qed

lemma touchRow_inv:
  assumes "attr_inv bb used s" and "touchRow now run upd s = (err, s')"
    and "\<And>r. at_node_run_id (upd r) = at_node_run_id r" "\<And>r. value_handle (upd r) = value_handle r"
      "\<And>r. value_handle_backend (upd r) = value_handle_backend r"
  shows "attr_inv bb used s'"
proof (cases err)
  case None
  note t = touchRow_upsert [OF assms(2) [unfolded None]]
  have "attr_inv bb used (s\<lparr>attr_rows := attr_rows s'\<rparr>)"
    by (rule keep_inv [OF assms(1) t(3)]) (simp_all add: assms rowHandle_def newAttrRow_def)
  with t(1) show ?thesis by simp
next
  case (Some e)
  with assms(1,2) touchRow_error show ?thesis by metis
qed

lemma MergeDelta_inv:
  assumes "attr_inv bb used s" and "blob cfg = Some bb" and "room (blob_state s)"
    and "MergeDelta cfg now run delta s = (err, s')"
  shows "attr_inv bb used s'"
  using assms(1,4) unfolding MergeDelta_def
  by (auto split: option.splits if_splits sum.splits intro: Upsert_inv [OF assms(1,2,3)] touchRow_inv [OF assms(1)])

lemma MergeDelta_reads:
  assumes inv: "attr_inv bb used s" and cfg: "blob cfg = Some bb" and room: "room (blob_state s)"
    and mg: "MergeDelta cfg now run (Some dl) s = (None, s')"
  shows "\<exists>prior. readBag cfg s run = Some prior \<and> readBag cfg s' run = Some (mergeBag prior dl)"
    and "run' \<noteq> run \<Longrightarrow> GetByRun cfg s' run' = GetByRun cfg s run'"
proof -
  have "(\<exists>prior. readBag cfg s run = Some prior \<and> readBag cfg s' run = Some (mergeBag prior dl)) \<and>
    (run' \<noteq> run \<longrightarrow> GetByRun cfg s' run' = GetByRun cfg s run')"
  proof (cases "fst (readPriorBlobHandle s run) \<noteq> []")
    case True
    with mg obtain prior where "GetByRun cfg s run = Inr (Some prior)"
      and up: "Upsert cfg now run (narNodeID prior) (Some (mergeBag (narData prior) dl)) s = (None, s')"
      by (auto simp: MergeDelta_def split: sum.splits option.splits)
    with Upsert_reads [OF inv cfg room up] show ?thesis by (simp add: readBag_def)
  next
    case False
    with mg obtain r current where r: "row_of at_node_run_id run (attr_rows s) = Some r"
      and c: "unmarshalBag (at_data r) = Some current"
      and t: "touchRow now run (\<lambda>r. r\<lparr>at_data := BagJSON (mergeBag current dl)\<rparr>) s = (None, s')"
      by (auto simp: MergeDelta_def split: option.splits)
    have h: "rowHandle r = []" using False r by (auto simp: readPriorBlobHandle_def split: if_splits)
    note t' = touchRow_upsert [OF t]
    let ?x = "upserted (newAttrRow run 0 BagEmpty None [] [] now)
       (\<lambda>r. r\<lparr>at_data := BagJSON (mergeBag current dl), at_updated_at := now\<rparr>) (attr_rows s)"
    have x: "rowHandle ?x = []" "at_data ?x = BagJSON (mergeBag current dl)"
      using h r by (simp_all add: upserted_def newAttrRow_def rowHandle_def)
    have g: "GetByRun cfg s' q = (if q = run then scanFound cfg (blob_state s) (Some ?x) else GetByRun cfg s q)" for q
      using GetByRun_upsert [OF t'(3), where run = q] t'(1) by (simp add: newAttrRow_def)
    have "readBag cfg s run = Some current" "readBag cfg s' run = Some (mergeBag current dl)"
      using h r c x by (simp_all add: readBag_def g) (simp_all add: GetByRun_def scanFound_def scanAttributeRow_def attributesRow_def)
    with g show ?thesis by simp
  qed
  then show "\<exists>prior. readBag cfg s run = Some prior \<and> readBag cfg s' run = Some (mergeBag prior dl)"
    and "run' \<noteq> run \<Longrightarrow> GetByRun cfg s' run' = GetByRun cfg s run'" by blast+
qed

lemma SetDispatchInputBag_inv:
  assumes "attr_inv bb used s" and "SetDispatchInputBag cfg now run node b s = (err, s')"
  shows "attr_inv bb used s'"
proof (cases err)
  case None
  with assms(2) obtain raw rows where
    ups: "upsertRow cfg (newAttrRow run node (BagJSON []) (Some raw) [] [] now)
       (\<lambda>r. r\<lparr>dispatch_input_bag := Some raw, at_updated_at := now\<rparr>) (attr_rows s) = Some rows"
    and s': "s' = s\<lparr>attr_rows := rows\<rparr>"
    by (auto simp: SetDispatchInputBag_def Let_def split: option.splits)
  show ?thesis unfolding s' by (rule keep_inv [OF assms(1) ups]) (simp_all add: rowHandle_def newAttrRow_def)
next
  case (Some e)
  with assms show ?thesis by (auto simp: SetDispatchInputBag_def Let_def split: option.splits)
qed

text \<open>A carried bag with the backend in force: either inline, or a fresh copy of the blob.\<close>

lemma CarryForward_cases:
  assumes inv: "attr_inv bb used s" and room: "room (blob_state s)" and r: "r \<in> set (attr_rows s)"
    and carry: "CarryForwardBag (Some bb) key (at_data r) (rowHandle r)
       (case value_handle_backend r of None \<Rightarrow> [] | Some b \<Rightarrow> b) (blob_state s) = Inr (c, st)"
  shows "\<And>h. used h (blob_state s) \<Longrightarrow> used h st \<and> bbRead bb h st = bbRead bb h (blob_state s)"
    and "cbHandle c \<noteq> [] \<Longrightarrow> cbBackend c = bbName bb \<and> \<not> used (cbHandle c) (blob_state s) \<and> used (cbHandle c) st \<and>
       bbRead bb (cbHandle c) st = bbRead bb (rowHandle r) (blob_state s) \<and> rowHandle r \<noteq> [] \<and>
       bbRead bb (rowHandle r) (blob_state s) = Inr (cbDispatchBag c)"
    and "cbHandle c = [] \<Longrightarrow> cbDispatchBag c = cbData c \<and>
       (rowHandle r = [] \<and> cbData c = at_data r \<or>
        rowHandle r \<noteq> [] \<and> cbData c = BagJSON [] \<and> bbRead bb (rowHandle r) (blob_state s) = Inl ErrBlobNotFound)"
proof -
  let ?st = "blob_state s"
  have "(rowHandle r = [] \<and> st = ?st \<and> c = \<lparr>cbData = at_data r, cbDispatchBag = at_data r, cbHandle = [],
        cbBackend = (case value_handle_backend r of None \<Rightarrow> [] | Some b \<Rightarrow> b)\<rparr>) \<or>
    (rowHandle r \<noteq> [] \<and> bbRead bb (rowHandle r) ?st = Inl ErrBlobNotFound \<and> st = ?st \<and>
       c = \<lparr>cbData = BagJSON [], cbDispatchBag = BagJSON [], cbHandle = [], cbBackend = []\<rparr>) \<or>
    (rowHandle r \<noteq> [] \<and> (\<exists>bytes fresh. bbRead bb (rowHandle r) ?st = Inr bytes \<and> WriteBlobInTx bb key bytes ?st = Inr (fresh, st) \<and>
       c = \<lparr>cbData = BagJSON [], cbDispatchBag = bytes, cbHandle = fresh, cbBackend = bbName bb\<rparr>))"
  proof (cases "rowHandle r = []")
    case True
    with carry show ?thesis by (auto simp: CarryForwardBag_def Let_def)
  next
    case False
    with inv r have "value_handle_backend r = Some (bbName bb)" by (auto simp: attr_inv_def)
    with carry False show ?thesis
      by (auto simp: CarryForwardBag_def Let_def read_in_tx split: sum.splits if_splits)
  qed
  then have cases: "P" if
    "rowHandle r = [] \<Longrightarrow> st = ?st \<Longrightarrow> c = \<lparr>cbData = at_data r, cbDispatchBag = at_data r, cbHandle = [],
        cbBackend = (case value_handle_backend r of None \<Rightarrow> [] | Some b \<Rightarrow> b)\<rparr> \<Longrightarrow> P"
    "rowHandle r \<noteq> [] \<Longrightarrow> bbRead bb (rowHandle r) ?st = Inl ErrBlobNotFound \<Longrightarrow> st = ?st \<Longrightarrow>
       c = \<lparr>cbData = BagJSON [], cbDispatchBag = BagJSON [], cbHandle = [], cbBackend = []\<rparr> \<Longrightarrow> P"
    "\<And>bytes fresh. rowHandle r \<noteq> [] \<Longrightarrow> bbRead bb (rowHandle r) ?st = Inr bytes \<Longrightarrow> WriteBlobInTx bb key bytes ?st = Inr (fresh, st) \<Longrightarrow>
       c = \<lparr>cbData = BagJSON [], cbDispatchBag = bytes, cbHandle = fresh, cbBackend = bbName bb\<rparr> \<Longrightarrow> P" for P
    using that by blast
  show "used h st \<and> bbRead bb h st = bbRead bb h ?st" if "used h ?st" for h
    by (rule cases) (use that write_frame [OF room] in auto)
  show "cbBackend c = bbName bb \<and> \<not> used (cbHandle c) ?st \<and> used (cbHandle c) st \<and>
       bbRead bb (cbHandle c) st = bbRead bb (rowHandle r) ?st \<and> rowHandle r \<noteq> [] \<and> bbRead bb (rowHandle r) ?st = Inr (cbDispatchBag c)"
    if "cbHandle c \<noteq> []"
    by (rule cases) (use that write_fresh [OF room] write_read [OF room] in auto)
  show "cbDispatchBag c = cbData c \<and> (rowHandle r = [] \<and> cbData c = at_data r \<or>
        rowHandle r \<noteq> [] \<and> cbData c = BagJSON [] \<and> bbRead bb (rowHandle r) ?st = Inl ErrBlobNotFound)"
    if "cbHandle c = []"
    by (rule cases) (use that write_fresh [OF room] in auto)
qed

lemma insertIfAbsent_inv:
  assumes inv: "attr_inv bb used s" and st: "\<And>h. used h (blob_state s) \<Longrightarrow> used h st"
    and new: "rowHandle new \<noteq> [] \<Longrightarrow> value_handle_backend new = Some (bbName bb) \<and> \<not> used (rowHandle new) (blob_state s) \<and> used (rowHandle new) st"
    and ins: "insertIfAbsent cfg new (s\<lparr>blob_state := st\<rparr>) = (err, s')"
  shows "attr_inv bb used s'"
proof (cases "upsertRow cfg new (\<lambda>r. r) (attr_rows s)")
  case None
  with ins have "s' = s\<lparr>blob_state := st\<rparr>" by (auto simp: insertIfAbsent_def)
  with inv st show ?thesis by (simp add: state_inv)
next
  case (Some rows')
  with ins have s': "attr_rows s' = rows'" "blob_state s' = st" "blob_orphans s' = blob_orphans s"
    by (auto simp: insertIfAbsent_def)
  have k: "keyed at_node_run_id (attr_rows s)" using inv by (simp add: attr_inv_def)
  let ?x = "upserted new (\<lambda>r. r) (attr_rows s)"
  have "attr_inv bb used (s\<lparr>attr_rows := rows', blob_orphans := blob_orphans s, blob_state := st\<rparr>)"
  proof (rule replace_inv [OF inv upsertRow_keyed [OF Some _ k] upsertRow_mem [OF Some _ k] st])
    assume ne: "rowHandle ?x \<noteq> []"
    show "value_handle_backend ?x = Some (bbName bb) \<and> used (rowHandle ?x) st \<and>
      (\<not> used (rowHandle ?x) (blob_state s) \<or> (\<exists>r \<in> set (attr_rows s). at_node_run_id r = at_node_run_id new \<and> rowHandle r = rowHandle ?x))"
    proof (cases "row_of at_node_run_id (at_node_run_id new) (attr_rows s)")
      case None
      with new ne show ?thesis by (simp add: upserted_def)
    next
      case (Some r)
      note m = row_of_SomeD [OF Some]
      have x: "?x = r" by (simp add: upserted_def Some)
      from ne m inv have "value_handle_backend r = Some (bbName bb)" "used (rowHandle r) (blob_state s)"
        unfolding x attr_inv_def by blast+
      with m st show ?thesis unfolding x by blast
    qed
  qed simp_all
  then show ?thesis by (simp add: attr_inv_def s')
qed

lemma Snapshot_cases:
  assumes snap: "SnapshotBagForNewRun cfg now runs newRun node scope s = (err, s')" and cfg: "blob cfg = Some bb"
    and inv: "attr_inv bb used s" and room: "room (blob_state s)"
  obtains (failed) e where "err = Some e" "s' = s"
  | (empty) "priorBagRow runs s newRun node scope = None"
      "insertIfAbsent cfg (newAttrRow newRun node (BagJSON []) (Some (BagJSON [])) [] [] now) s = (err, s')"
  | (carried) prior c st where "priorBagRow runs s newRun node scope = Some prior"
      "insertIfAbsent cfg (newAttrRow newRun node (cbData c) (Some (cbDispatchBag c)) (cbHandle c) (cbBackend c) now)
         (s\<lparr>blob_state := st\<rparr>) = (err, s')"
      "CarryForwardBag (Some bb) \<lparr>keyNodeID = node, keyAttributeName = ''data'', keyHint = []\<rparr> (at_data prior) (rowHandle prior)
         (case value_handle_backend prior of None \<Rightarrow> [] | Some b \<Rightarrow> b) (blob_state s) = Inr (c, st)"
  using snap unfolding SnapshotBagForNewRun_def cfg by (auto split: option.splits sum.splits)

lemma Snapshot_inv:
  assumes "attr_inv bb used s" and "blob cfg = Some bb" and "room (blob_state s)"
    and "SnapshotBagForNewRun cfg now runs newRun node scope s = (err, s')"
  shows "attr_inv bb used s'"
  using assms(4,2,1,3)
proof (cases rule: Snapshot_cases)
  case empty
  have "s = s\<lparr>blob_state := blob_state s\<rparr>" by simp
  with empty(2) show ?thesis
    by (intro insertIfAbsent_inv [OF assms(1), where st = "blob_state s"]) (simp_all add: rowHandle_def newAttrRow_def)
next
  case (carried prior c st)
  note cc = CarryForward_cases [OF assms(1,3) priorBagRow_mem(1) [OF carried(1)] carried(3)]
  show ?thesis
    by (rule insertIfAbsent_inv [OF assms(1) _ _ carried(2)]) (use cc(1,2) in \<open>auto simp: rowHandle_def newAttrRow_def\<close>)
qed (use assms(1) in simp)

lemma readBag_scan:
  "row_of at_node_run_id run (attr_rows s) = Some r \<Longrightarrow>
     readBag cfg s run = (case scanAttributeRow cfg (blob_state s) r of Inl _ \<Rightarrow> None | Inr a \<Rightarrow> Some (narData a))"
  by (simp add: readBag_def GetByRun_def scanFound_def split: sum.split)

lemma insertIfAbsent_reads:
  assumes "insertIfAbsent cfg new s = (None, s')"
  shows "row_of at_node_run_id (at_node_run_id new) (attr_rows s) = None \<Longrightarrow>
      row_of at_node_run_id (at_node_run_id new) (attr_rows s') = Some new"
    and "blob_state s' = blob_state s"
    and "run' \<noteq> at_node_run_id new \<Longrightarrow> GetByRun cfg s' run' = GetByRun cfg s run'"
proof -
  from assms obtain rows' where up: "upsertRow cfg new (\<lambda>r. r) (attr_rows s) = Some rows'" and s': "s' = s\<lparr>attr_rows := rows'\<rparr>"
    by (auto simp: insertIfAbsent_def split: option.splits)
  show "row_of at_node_run_id (at_node_run_id new) (attr_rows s) = None \<Longrightarrow>
      row_of at_node_run_id (at_node_run_id new) (attr_rows s') = Some new"
    by (simp add: s' upsertRow_find [OF up] upserted_def)
  show "blob_state s' = blob_state s" by (simp add: s')
  show "run' \<noteq> at_node_run_id new \<Longrightarrow> GetByRun cfg s' run' = GetByRun cfg s run'"
    by (simp add: s' GetByRun_upsert [OF up])
qed

lemma frame_state:
  assumes "attr_inv bb used s" and "blob cfg = Some bb"
    and "\<And>h. used h (blob_state s) \<Longrightarrow> bbRead bb h st = bbRead bb h (blob_state s)"
  shows "GetByRun cfg (s\<lparr>blob_state := st\<rparr>) run = GetByRun cfg s run"
proof (cases "row_of at_node_run_id run (attr_rows s)")
  case (Some r)
  have "rowHandle r \<noteq> [] \<Longrightarrow> used (rowHandle r) (blob_state s)"
    using assms(1) row_of_SomeD [OF Some] by (auto simp: attr_inv_def)
  then have "scanAttributeRow cfg st r = scanAttributeRow cfg (blob_state s) r"
    by (intro scan_cong [OF assms(2)] assms(3))
  with Some show ?thesis by (simp add: GetByRun_def scanFound_def)
qed (simp add: GetByRun_def scanFound_def)

text \<open>A new run starts with the bag of the latest run of its node and scope.\<close>

lemma Snapshot_reads:
  assumes inv: "attr_inv bb used s" and cfg: "blob cfg = Some bb" and room: "room (blob_state s)"
    and snap: "SnapshotBagForNewRun cfg now runs newRun node scope s = (None, s')"
    and new: "row_of at_node_run_id newRun (attr_rows s) = None"
  shows "readBag cfg s' newRun =
      (case priorBagRow runs s newRun node scope of None \<Rightarrow> Some [] | Some prior \<Rightarrow> readBag cfg s (at_node_run_id prior))"
    and "run' \<noteq> newRun \<Longrightarrow> GetByRun cfg s' run' = GetByRun cfg s run'"
proof -
  have "readBag cfg s' newRun =
      (case priorBagRow runs s newRun node scope of None \<Rightarrow> Some [] | Some prior \<Rightarrow> readBag cfg s (at_node_run_id prior)) \<and>
    (run' \<noteq> newRun \<longrightarrow> GetByRun cfg s' run' = GetByRun cfg s run')"
    using snap cfg inv room
  proof (cases rule: Snapshot_cases)
    case empty
    note ins = insertIfAbsent_reads [OF empty(2)]
    have "row_of at_node_run_id newRun (attr_rows s') = Some (newAttrRow newRun node (BagJSON []) (Some (BagJSON [])) [] [] now)"
      using ins(1) new by (simp add: newAttrRow_def)
    from readBag_scan [OF this] have "readBag cfg s' newRun = Some []"
      by (simp add: scanAttributeRow_def rowHandle_def newAttrRow_def attributesRow_def)
    with empty(1) ins(3) show ?thesis by (simp add: newAttrRow_def)
  next
    case (carried prior c st)
    let ?new = "newAttrRow newRun node (cbData c) (Some (cbDispatchBag c)) (cbHandle c) (cbBackend c) now"
    note m = priorBagRow_mem(1) [OF carried(1)]
    note cc = CarryForward_cases [OF inv room m carried(3)]
    note ins = insertIfAbsent_reads [OF carried(2)]
    have row: "row_of at_node_run_id newRun (attr_rows s') = Some ?new"
      using ins(1) new by (simp add: newAttrRow_def)
    have prow: "row_of at_node_run_id (at_node_run_id prior) (attr_rows s) = Some prior"
      using inv m by (simp add: attr_inv_def row_of_Some_iff)
    have st': "blob_state s' = st" using ins(2) by simp
    have nh: "rowHandle ?new = cbHandle c" "at_data ?new = cbData c" "cbHandle c \<noteq> [] \<Longrightarrow> value_handle_backend ?new = Some (cbBackend c)"
      by (simp_all add: rowHandle_def newAttrRow_def)
    have pb: "rowHandle prior \<noteq> [] \<Longrightarrow> value_handle_backend prior = Some (bbName bb)"
      using inv m by (auto simp: attr_inv_def)
    have "readBag cfg s' newRun = readBag cfg s (at_node_run_id prior)"
      unfolding readBag_scan [OF row] readBag_scan [OF prow] st'
      using cc(2,3) nh pb
      by (cases "cbHandle c = []")
        (auto simp: scanAttributeRow_def Let_def cfg attributesRow_def split: sum.split option.split)
    moreover have "GetByRun cfg s' run' = GetByRun cfg s run'" if "run' \<noteq> newRun"
      using ins(3) [of run'] that frame_state [OF inv cfg, of st run'] cc(1) by (simp add: newAttrRow_def)
    ultimately show ?thesis using carried(1) by simp
  qed simp
  then show "readBag cfg s' newRun =
      (case priorBagRow runs s newRun node scope of None \<Rightarrow> Some [] | Some prior \<Rightarrow> readBag cfg s (at_node_run_id prior))"
    and "run' \<noteq> newRun \<Longrightarrow> GetByRun cfg s' run' = GetByRun cfg s run'" by blast+
qed

text \<open>Sweeping removes only blobs that no row refers to.\<close>

lemma reap_step:
  assumes "attr_inv bb used s" and "blob cfg = Some bb" and "or_handle ob \<notin> rowHandle ` set (attr_rows s)"
  shows "attr_inv bb used (reapOneBlobOrphan bb ob s)" and "attr_rows (reapOneBlobOrphan bb ob s) = attr_rows s"
    and "GetByRun cfg (reapOneBlobOrphan bb ob s) run = GetByRun cfg s run"
proof -
  let ?s = "reapOneBlobOrphan bb ob s"
  show rows: "attr_rows ?s = attr_rows s" by (simp add: reapOneBlobOrphan_def split: sum.split)
  have obs: "set (blob_orphans ?s) \<subseteq> set (blob_orphans s)"
    by (auto simp: reapOneBlobOrphan_def orphanDelete_def set_delete_where split: sum.split)
  have st: "blob_state ?s = blob_state s \<or> bbDelete bb (or_handle ob) (blob_state s) = Inr (blob_state ?s)"
    by (auto simp: reapOneBlobOrphan_def split: sum.split)
  have used: "used h (blob_state ?s) = used h (blob_state s)" for h using st delete_used by metis
  with assms(1) obs show "attr_inv bb used ?s" unfolding attr_inv_def rows by blast
  have "scanAttributeRow cfg (blob_state ?s) r = scanAttributeRow cfg (blob_state s) r" if "r \<in> set (attr_rows s)" for r
  proof (rule scan_cong [OF assms(2)])
    have "rowHandle r \<noteq> or_handle ob" using assms(3) that by (metis imageI)
    then show "bbRead bb (rowHandle r) (blob_state ?s) = bbRead bb (rowHandle r) (blob_state s)"
      using st delete_frame by metis
  qed
  then show "GetByRun cfg ?s run = GetByRun cfg s run"
    by (auto simp: GetByRun_def scanFound_def rows split: option.split dest: row_of_SomeD)
qed

lemma sweep_fold:
  assumes "attr_inv bb used s" and "blob cfg = Some bb"
    and "\<forall>ob \<in> set obs. or_handle ob \<notin> rowHandle ` set (attr_rows s)"
  shows "attr_inv bb used (fold (reapOneBlobOrphan bb) obs s) \<and>
    GetByRun cfg (fold (reapOneBlobOrphan bb) obs s) run = GetByRun cfg s run"
  using assms(1,3)
proof (induction obs arbitrary: s)
  case (Cons ob obs)
  note st = reap_step [OF Cons.prems(1) assms(2), of ob]
  from Cons.IH [of "reapOneBlobOrphan bb ob s"] st Cons.prems show ?case by simp
qed simp

lemma Sweep_safe:
  assumes "attr_inv bb used s" and "blob cfg = Some bb"
  shows "attr_inv bb used (SweepOrphanedBlobs bb limit now s)"
    and "GetByRun cfg (SweepOrphanedBlobs bb limit now s) run = GetByRun cfg s run"
proof -
  have "\<forall>ob \<in> set (DueBefore (blob_orphans s) now (bbName bb) l). or_handle ob \<notin> rowHandle ` set (attr_rows s)" for l
    using assms(1) by (auto simp: attr_inv_def DueBefore_def dest!: in_set_takeD)
  from sweep_fold [OF assms this] show "attr_inv bb used (SweepOrphanedBlobs bb limit now s)"
    and "GetByRun cfg (SweepOrphanedBlobs bb limit now s) run = GetByRun cfg s run"
    by (auto simp: SweepOrphanedBlobs_def)
qed

end

subsection \<open>The memory backend\<close>

definition mem_used :: "Handle \<Rightarrow> MemoryBackend \<Rightarrow> bool" where
  "mem_used h b \<longleftrightarrow> (\<exists>i. 0 < i \<and> i \<le> mem_seq b \<and> h = memHandle i)"

text \<open>The 64-bit counter has not wrapped around.\<close>

definition mem_room :: "MemoryBackend \<Rightarrow> bool" where
  "mem_room b \<longleftrightarrow> mem_seq b \<noteq> - 1"

lemma memHandle_inject [simp]: "memHandle i = memHandle j \<longleftrightarrow> i = j"
  by (simp add: memHandle_def word_unat_eq_iff)

lemma memHandle_ne [simp]: "memHandle i \<noteq> []"
  by (simp add: memHandle_def)

lemma word_less_Suc: "x \<noteq> - 1 \<Longrightarrow> y < x + 1 \<longleftrightarrow> y \<le> x" for x y :: "'a::len word"
  using unatSuc [of x] by (simp add: word_less_nat_alt word_le_nat_alt eq_neg_iff_add_eq_0 add.commute less_Suc_eq_le)

lemma memoryWrite_used:
  assumes "mem_room b" and "memoryWrite k v b = Inr (h, b')"
  shows "h = memHandle (mem_seq b + 1)" and "\<not> mem_used h b" and "mem_used h b'"
    and "mem_used h' b \<Longrightarrow> mem_used h' b' \<and> h' \<noteq> h" and "mem_blobs b' = AList.update h v (mem_blobs b)"
proof -
  show h: "h = memHandle (mem_seq b + 1)" and b: "mem_blobs b' = AList.update h v (mem_blobs b)"
    using assms(2) by (auto simp: memoryWrite_def Let_def)
  have q: "mem_seq b' = mem_seq b + 1" using assms(2) by (auto simp: memoryWrite_def Let_def)
  have lt: "y < mem_seq b + 1 \<longleftrightarrow> y \<le> mem_seq b" for y
    using assms(1) by (simp add: mem_room_def word_less_Suc)
  then have fresh: "\<not> mem_seq b + 1 \<le> mem_seq b" and pos: "0 < mem_seq b + 1" by (auto simp: not_le)
  show nu: "\<not> mem_used h b" using fresh by (simp add: mem_used_def h)
  show "mem_used h b'" using pos by (auto simp: mem_used_def h q)
  show "mem_used h' b' \<and> h' \<noteq> h" if "mem_used h' b"
  proof -
    from that obtain i where i: "0 < i" "i \<le> mem_seq b" "h' = memHandle i" by (auto simp: mem_used_def)
    then have "i \<le> mem_seq b + 1" using lt [of i] by simp
    with i have "mem_used h' b'" unfolding mem_used_def q by blast
    moreover have "h' \<noteq> h" using that nu by blast
    ultimately show ?thesis ..
  qed
qed

interpretation memory: blob_backend memoryBackend mem_used mem_room
proof
  fix b k v h b'
  assume room: "mem_room b" and w: "WriteBlobInTx memoryBackend k v b = Inr (h, b')"
  then have w': "memoryWrite k v b = Inr (h, b')" by (simp add: WriteBlobInTx_def memoryBackend_def)
  note u = memoryWrite_used [OF room w']
  show "h \<noteq> [] \<and> \<not> mem_used h b \<and> mem_used h b'" using u(1,2,3) by (simp add: memHandle_def)
  show "bbRead memoryBackend h b' = Inr v" by (simp add: memoryBackend_def memoryRead_def u(5) update_conv')
  show "mem_used h' b' \<and> bbRead memoryBackend h' b' = bbRead memoryBackend h' b" if "mem_used h' b" for h'
    using u(4) [OF that] by (simp add: memoryBackend_def memoryRead_def u(5) update_conv')
next
  fix h b b' h'
  assume d: "bbDelete memoryBackend h b = Inr b'"
  then have b': "b' = b\<lparr>mem_blobs := AList.delete h (mem_blobs b)\<rparr>" by (simp add: memoryBackend_def memoryDelete_def)
  show "mem_used h' b' = mem_used h' b" by (simp add: b' mem_used_def)
  show "bbRead memoryBackend h' b' = bbRead memoryBackend h' b" if "h' \<noteq> h"
    using that by (simp add: b' memoryBackend_def memoryRead_def delete_conv')
next
  show "\<not> mem_used [] b" for b by (simp add: mem_used_def memHandle_def)
  show "ReadBlobInTx memoryBackend = bbRead memoryBackend" by (simp add: ReadBlobInTx_def memoryBackend_def)
qed

subsection \<open>Reachable stores\<close>

inductive attr_step :: "MemoryBackend AttrConfig \<Rightarrow> MemoryBackend AttrStore \<Rightarrow> MemoryBackend AttrStore \<Rightarrow> bool" for cfg where
  upsert: "mem_room (blob_state s) \<Longrightarrow> Upsert cfg now run node d s = (err, s') \<Longrightarrow> attr_step cfg s s'"
| merge: "mem_room (blob_state s) \<Longrightarrow> MergeDelta cfg now run delta s = (err, s') \<Longrightarrow> attr_step cfg s s'"
| dispatch: "SetDispatchInputBag cfg now run node b s = (err, s') \<Longrightarrow> attr_step cfg s s'"
| snapshot: "mem_room (blob_state s) \<Longrightarrow> SnapshotBagForNewRun cfg now runs run node scope s = (err, s') \<Longrightarrow> attr_step cfg s s'"
| sweep: "attr_step cfg s (SweepOrphanedBlobs memoryBackend limit now s)"

definition emptyAttrs :: "MemoryBackend AttrStore" where
  "emptyAttrs = \<lparr>attr_rows = [], blob_orphans = [], blob_state = NewMemoryBackend\<rparr>"

abbreviation memory_inv :: "MemoryBackend AttrStore \<Rightarrow> bool" where
  "memory_inv \<equiv> attr_inv memoryBackend mem_used"

lemma attr_step_inv:
  assumes "attr_step cfg s s'" and "blob cfg = Some memoryBackend" and "memory_inv s"
  shows "memory_inv s'"
  using assms(1)
proof cases
  case upsert
  with assms(2,3) show ?thesis by (metis memory.Upsert_inv)
next
  case merge
  with assms(2,3) show ?thesis by (metis memory.MergeDelta_inv)
next
  case dispatch
  with assms(3) show ?thesis by (metis memory.SetDispatchInputBag_inv)
next
  case snapshot
  with assms(2,3) show ?thesis by (metis memory.Snapshot_inv)
next
  case sweep
  with assms(2,3) show ?thesis by (simp add: memory.Sweep_safe)
qed

lemma reachable_inv:
  assumes "(attr_step cfg)\<^sup>*\<^sup>* emptyAttrs s" and "blob cfg = Some memoryBackend"
  shows "memory_inv s"
  using assms(1)
proof (induction rule: rtranclp_induct)
  case base
  show ?case by (simp add: attr_inv_def emptyAttrs_def keyed_def)
next
  case (step s s')
  with assms(2) show ?case by (metis attr_step_inv)
qed

definition exampleCfg :: "MemoryBackend AttrConfig" where
  "exampleCfg = \<lparr>blob = Some memoryBackend, blobThreshold = 5, blobRetention = 0,
     jsonLen = (\<lambda>t. case t of BagJSON b \<Rightarrow> 10 * int (length b) | _ \<Rightarrow> 0), fk = (\<lambda>_ _. True)\<rparr>"

text \<open>A store with one spilled bag and one orphan.\<close>

definition exampleAttrs :: "MemoryBackend AttrStore" where
  "exampleAttrs = snd (Upsert exampleCfg 2 7 3 (Some [(''b'', VNull)])
     (snd (Upsert exampleCfg 1 7 3 (Some [(''a'', VNull)]) emptyAttrs)))"

lemmas bag_eval = exampleCfg_def emptyAttrs_def NewMemoryBackend_def Upsert_def ShouldSpillBlob_def WriteBlobInTx_def
  memoryBackend_def memoryWrite_def upsertSave_def newAttrRow_def upsertRow_def readPriorBlobHandle_def rowHandle_def
  row_of_def update_where_def QueueBlobOrphan_def orphanInsert_def Let_def

lemma exampleAttrs_reachable: "(attr_step exampleCfg)\<^sup>*\<^sup>* emptyAttrs exampleAttrs" "mem_room (blob_state exampleAttrs)"
proof -
  let ?s = "snd (Upsert exampleCfg 1 7 3 (Some [(''a'', VNull)]) emptyAttrs)"
  have r: "mem_room (blob_state emptyAttrs)" "mem_room (blob_state ?s)"
    by (simp_all add: bag_eval mem_room_def)
  have "attr_step exampleCfg emptyAttrs ?s" by (rule attr_step.upsert [OF r(1) surjective_pairing])
  moreover have "attr_step exampleCfg ?s exampleAttrs"
    unfolding exampleAttrs_def by (rule attr_step.upsert [OF r(2) surjective_pairing])
  ultimately show "(attr_step exampleCfg)\<^sup>*\<^sup>* emptyAttrs exampleAttrs" by (meson r_into_rtranclp rtranclp_trans)
  show "mem_room (blob_state exampleAttrs)" by (simp add: exampleAttrs_def bag_eval mem_room_def)
qed

subsection \<open>Properties\<close>


lemma exampleUpsert:
  "Upsert exampleCfg 3 8 3 (Some [(''c'', VNull)]) exampleAttrs = (None, snd (Upsert exampleCfg 3 8 3 (Some [(''c'', VNull)]) exampleAttrs))"
  by (simp add: exampleAttrs_def bag_eval)


text \<open>\<open>MergeDelta\<close> is a read-modify-write of the bag: it succeeds only for a run that has one, the new
  bag maps every name of the delta to its new value and every other name to its old one, and other
  runs are not affected.\<close>

theorem merge_is_map_override:
  assumes "blob cfg = Some memoryBackend" and "(attr_step cfg)\<^sup>*\<^sup>* emptyAttrs s" and "mem_room (blob_state s)"
    and "MergeDelta cfg now run (Some delta) s = (None, s')" and "distinct (map fst delta)"
  shows "\<exists>prior new. readBag cfg s run = Some prior \<and> readBag cfg s' run = Some new \<and>
    map_of new = map_of prior ++ map_of delta \<and> (\<forall>run'. run' \<noteq> run \<longrightarrow> GetByRun cfg s' run' = GetByRun cfg s run')"
  using memory.MergeDelta_reads [OF reachable_inv [OF assms(2,1)] assms(1,3,4)] map_of_mergeBag [OF assms(5)] by blast

lemma exampleMerge:
  "MergeDelta exampleCfg 3 7 (Some [(''c'', VNull)]) exampleAttrs = (None, snd (MergeDelta exampleCfg 3 7 (Some [(''c'', VNull)]) exampleAttrs))"
  by (simp add: exampleAttrs_def bag_eval MergeDelta_def GetByRun_def scanFound_def scanAttributeRow_def attributesRow_def
      memoryRead_def mergeBag_def)

theorem merge_is_map_override_witness:
  "\<exists>prior new. readBag exampleCfg exampleAttrs 7 = Some prior \<and>
     readBag exampleCfg (snd (MergeDelta exampleCfg 3 7 (Some [(''c'', VNull)]) exampleAttrs)) 7 = Some new \<and>
     map_of new = (map_of prior)(''c'' \<mapsto> VNull)"
  using merge_is_map_override [OF _ exampleAttrs_reachable exampleMerge] by (simp add: exampleCfg_def) blast

text \<open>A new run starts from the bag of the latest earlier run of the same node and scope, read
  through a blob of its own when that bag was spilled, or from the empty bag when there is none.\<close>

theorem snapshot_carries_bag_forward:
  assumes "blob cfg = Some memoryBackend" and "(attr_step cfg)\<^sup>*\<^sup>* emptyAttrs s" and "mem_room (blob_state s)"
    and "SnapshotBagForNewRun cfg now runs newRun node scope s = (None, s')"
    and "row_of at_node_run_id newRun (attr_rows s) = None"
  shows "readBag cfg s' newRun =
      (case priorBagRow runs s newRun node scope of None \<Rightarrow> Some [] | Some prior \<Rightarrow> readBag cfg s (at_node_run_id prior)) \<and>
    (\<forall>run'. run' \<noteq> newRun \<longrightarrow> GetByRun cfg s' run' = GetByRun cfg s run')"
  using memory.Snapshot_reads [OF reachable_inv [OF assms(2,1)] assms(1,3,4,5)] by blast

definition exampleRun :: "UUID \<Rightarrow> int \<Rightarrow> NodeRunRow" where
  "exampleRun i n = \<lparr>NodeRunID = i, NodeID = 3, FrameID = 1, RunScopeID = 2, State = NodeStateFresh, SettlingSignalType = None,
     Policy = \<lparr>Kind = AggregationKindStrict, MaxFailures = 0\<rparr>, Changed = False, executor_name = None,
     required_claim_producers = [], enqueued_at = 0, sequence = n, creation_reason = CreationReasonCascade, claimed_by = None,
      claimed_at = None, active_terminal_at = None, progress_at = None, parked_at = None, resume_at = None, retry_counter = 0,
      prior_dispatch_id = None, prior_dispatch_disposition = None, scratch = noScratch, ack = noAck\<rparr>"

lemmas snapshot_eval = SnapshotBagForNewRun_def priorBagRow_def firstDesc_def attrJoin_def exampleRun_def CarryForwardBag_def
  ReadBlobInTx_def memoryRead_def insertIfAbsent_def

lemma exampleSnapshot:
  "SnapshotBagForNewRun exampleCfg 3 [exampleRun 7 1, exampleRun 9 2] 9 3 2 exampleAttrs =
     (None, snd (SnapshotBagForNewRun exampleCfg 3 [exampleRun 7 1, exampleRun 9 2] 9 3 2 exampleAttrs))"
  "row_of at_node_run_id 9 (attr_rows exampleAttrs) = None"
  "map_option at_node_run_id (priorBagRow [exampleRun 7 1, exampleRun 9 2] exampleAttrs 9 3 2) = Some 7"
  by (simp_all add: exampleAttrs_def bag_eval snapshot_eval)

theorem snapshot_carries_bag_forward_witness:
  "readBag exampleCfg (snd (SnapshotBagForNewRun exampleCfg 3 [exampleRun 7 1, exampleRun 9 2] 9 3 2 exampleAttrs)) 9 =
     readBag exampleCfg exampleAttrs 7"
  using snapshot_carries_bag_forward [OF _ exampleAttrs_reachable exampleSnapshot(1,2)] exampleSnapshot(3)
  by (auto simp: exampleCfg_def)



text \<open>The invariant needs the backend that wrote the handles: under another backend (here the inline
  one) a snapshot copies the handle itself, and a later write of the new run queues the blob of the
  earlier run as an orphan.\<close>

lemma foreign_backend_shares_handle:
  "let cfg = exampleCfg\<lparr>blob := Some inlineBackend\<rparr>;
       s1 = snd (SnapshotBagForNewRun cfg 3 [exampleRun 7 1, exampleRun 9 2] 9 3 2 exampleAttrs);
       s2 = snd (Upsert cfg 4 9 3 (Some []) s1) in
   map_option value_handle (row_of at_node_run_id 7 (attr_rows s2)) = Some (Some (memHandle 2)) \<and>
   memHandle 2 \<in> or_handle ` set (blob_orphans s2)"
  by (simp add: exampleAttrs_def bag_eval snapshot_eval inlineBackend_def)

end
