(* ===== verification/Signals.thy ===== *)
theory Signals
  imports Signal_Taxonomy Json_Values
begin

text \<open>
  Signals with their payloads (\<open>lib/foundation/signal/types.go\<close>, \<open>payloads.go\<close>). A payload is the
  protobuf message the runtime builds, one constructor per message; an absent struct is \<open>None\<close>.
\<close>

datatype Payload =
  TerminalErrorPayload string "jmap option" int int jmap "string list"
| TerminalSuccessPayload bool jmap string "string list"
| AttributeChangedPayload string jvalue jvalue
| TransientRetryPayload int int string int "jmap option"
| TransientReleasePayload string "jmap option"
| TransientInfraPayload string "jmap option"

record Signal =
  sigType :: TypePath
  sigPayload :: Payload

definition orEmptyMap :: "jmap option \<Rightarrow> jmap" where
  "orEmptyMap m = (case m of None \<Rightarrow> [] | Some x \<Rightarrow> x)"

definition BuildTerminalErrorSignal ::
  "string \<Rightarrow> jmap option \<Rightarrow> int \<Rightarrow> int \<Rightarrow> jmap option \<Rightarrow> string list \<Rightarrow> Signal" where
  "BuildTerminalErrorSignal errorClass errorPayload attempt retriesSoFar attributesDelta tags =
     \<lparr>sigType = ''terminal/error/'' @ errorClass,
      sigPayload = TerminalErrorPayload errorClass errorPayload (wrap32 attempt) (wrap32 retriesSoFar) (orEmptyMap attributesDelta) tags\<rparr>"

definition BuildTerminalSuccessSignal :: "bool \<Rightarrow> jmap option \<Rightarrow> string \<Rightarrow> string list \<Rightarrow> Signal" where
  "BuildTerminalSuccessSignal changed attributesDelta changeSummary tags =
     \<lparr>sigType = ''terminal/success'',
      sigPayload = TerminalSuccessPayload changed (orEmptyMap attributesDelta) changeSummary tags\<rparr>"

end
