(* ===== verification/Settlement_World.thy ===== *)
theory Settlement_World
  imports Claim_Store_Props Run_Tree_Store Attribute_Bags Signals Subscription_Edges
begin

text \<open>
  The types settlement of claims works on. Settlement is the resolution of a claim handle (\<open>lib/runtime/terminal_decision.go\<close>,
  \<open>terminal_decision_forensics.go\<close>, \<open>producer_verb_outbox.go\<close>), the cancel walks over siblings and
  descendants (\<open>terminal_decision_cancel.go\<close>), the settlement of a fan-out parent
  (\<open>child_execution.go\<close>), the deferred cascade of held runs (\<open>held_cascade_defer.go\<close>) and the automatic
  terminal (\<open>auto_terminal.go\<close>).

  An error aborts the enclosing transaction, so it carries no state. What leaves the component is recorded: lineage rows, events and
  calls to data processors and semaphores in the world, post-commit functions in the result.
  The cascade of a signal and the gate evaluation after a settlement act on the graph tables only; the
  environment carries them as two functions, which \<open>Cascade_Settlement\<close> instantiates with the model of the cascade. The producer
  registry, the data processors and the libraries are parameters. Nodes, instances, templates and delivered messages
  are not written by this code.
\<close>

subsection \<open>Results\<close>

datatype settle_error =
  NilProducer UUID
| UnknownTerminalOutcome UUID
| CandidateError string
| ClockRequired UUID
| StoreError claim_error
| RunTreeError run_error
| AttrError attr_error
| StateError cascade_error
| RunRowMissing UUID
| ProducerLookupError string
| UnknownProducer string
| NodeNotFound UUID
| InstanceNotFound UUID
| TemplateNotFound string
| CascadeUnfinished
| NilClock
| ErrRunScopeClosed
| RunScopeNotFound UUID
| RunNotPending UUID
| ForeignKeyFailed
| SerializationGate UUID
| FieldRequired string
| AckIDTaken string
| ErrRunClaimantMismatch UUID
| ScratchExclusive
| EdgesFailed edge_error
| HardDepsFailed hard_dep_error
| InvalidSignal taxonomy_error
| Unresolved string resolve_error
| UnknownCascadeMode string
| NotCanonical
| BagCopyFailed

datatype 'a outcome = OutOfFuel | Fail settle_error | Done 'a

fun out_bind :: "'a outcome \<Rightarrow> ('a \<Rightarrow> 'b outcome) \<Rightarrow> 'b outcome" where
  "out_bind OutOfFuel f = OutOfFuel"
| "out_bind (Fail e) f = Fail e"
| "out_bind (Done a) f = f a"

fun out_lift :: "('e \<Rightarrow> settle_error) \<Rightarrow> 'e + 'a \<Rightarrow> 'a outcome" where
  "out_lift k (Inl e) = Fail (k e)"
| "out_lift k (Inr a) = Done a"

subsection \<open>Decisions\<close>

datatype TerminalSource = ActiveTerminal | HeldTerminal | OwnershipBail

datatype TerminalOutcome =
  OutcomeCommit | OutcomeAbandon | OutcomeAbandonSiblingCancel | OutcomeAbandonDescendantCancel | OutcomeOther string

definition IsAbandon :: "TerminalOutcome \<Rightarrow> bool" where
  "IsAbandon ot \<longleftrightarrow> ot \<noteq> OutcomeCommit"

fun valid :: "TerminalOutcome \<Rightarrow> bool" where
  "valid (OutcomeOther _) = False"
| "valid _ = True"

fun CauseString :: "TerminalOutcome \<Rightarrow> string" where
  "CauseString OutcomeAbandon = ''natural''"
| "CauseString OutcomeAbandonSiblingCancel = ''sibling_failed''"
| "CauseString OutcomeAbandonDescendantCancel = ''parent_resolved''"
| "CauseString _ = ''''"

record ClaimLineageHint =
  hintInstanceID :: UUID
  hintFrameID :: UUID
  hintNodeRunID :: UUID
  hintNodeID :: UUID
  hintProducerName :: string
  hintVersionID :: string

definition zeroHint :: ClaimLineageHint where
  "zeroHint = \<lparr>hintInstanceID = 0, hintFrameID = 0, hintNodeRunID = 0, hintNodeID = 0, hintProducerName = [], hintVersionID = []\<rparr>"

text \<open>\<open>tdProducer\<close> is the name of the resolved producer, \<open>None\<close> for a nil interface.\<close>

record TerminalDecision =
  tdClaimHandleID :: UUID
  tdSupervisorID :: string
  tdSource :: TerminalSource
  tdOutcome :: TerminalOutcome
  tdProducer :: "string option"
  tdScope :: string
  tdAddress :: string
  tdLeaseToken :: string
  tdLifetime :: ClaimLifetime
  tdCandidateHandle :: string
  tdProducerName :: string
  tdLineageHint :: ClaimLineageHint
  tdParentClaimHandleID :: "UUID option"
  tdLineageParentClaimHandleID :: "UUID option"

subsection \<open>World and environment\<close>

record ClaimTerminalRecord =
  recClaimHandleID :: UUID
  recNodeRunID :: UUID
  recNodeID :: UUID
  recFrameID :: UUID
  recParentClaimHandleID :: "UUID option"
  recSubClaimHandleIDs :: "UUID list"
  recCommittedAt :: time
  recProducerName :: string
  recClaimScopeDataHash :: string
  recVersionID :: string
  recOutcome :: string
  recCause :: string
  recTerminatingSupervisorID :: string

record LineageRow =
  linInstanceID :: UUID
  linFrameID :: UUID
  linObservedAt :: time
  linRecord :: ClaimTerminalRecord
  linOutcome :: string

datatype EventKind = KindClaimResolutionCommit | KindClaimResolutionAbandon

record EventRow =
  evNodeID :: UUID
  evInstanceID :: UUID
  evKind :: EventKind
  evClaimHandleID :: UUID
  evRunID :: UUID
  evFrameID :: UUID
  evProducerName :: string
  evClaimScopeDataHash :: string
  evVersionID :: string
  evParentClaimHandleID :: "UUID option"
  evCause :: string

datatype effect =
  BeginCandidate string UUID string
| CommitCandidate string UUID string
| AbandonCandidate string UUID string
| SemaphoreDrop UUID
| SubclaimBeginCandidateEvent UUID UUID string nat
| SubclaimAcquiredEvent UUID string nat

record FrameRow =
  fr_frame_id :: UUID
  last_progress_at :: time
  ended_at :: "time option"

text \<open>The rows of \<open>rimsky_wait_set\<close>; an empty filter is NULL.\<close>

record WaitSetRow =
  wsFrameID :: UUID
  wsReceiver :: UUID
  wsSender :: UUID
  wsTopicKind :: string
  wsTopicFilter :: string
  wsDrainedAt :: "time option"

text \<open>Events the graph code appends, with the fields of their payloads.\<close>

datatype AuditEvent =
  SignalEvent UUID "UUID option" Signal "time option"
| ParkedResumeStarted UUID UUID string string
| ResolutionFailed UUID UUID string string string string resolve_error

text \<open>\<open>next_id\<close> is the identifier the next \<open>uuid.New()\<close> returns.\<close>

record 'b Graph =
  runs :: RunStore
  attrs :: "'b AttrStore"
  frames :: "FrameRow list"
  wait_set :: "WaitSetRow list"
  next_id :: UUID
  audit :: "AuditEvent list"

record 'b World =
  claims :: ClaimStore
  graph :: "'b Graph"
  lineage :: "LineageRow list"
  events :: "EventRow list"
  effects :: "effect list"

record NodeRow =
  nr_id :: UUID
  nr_instance_id :: UUID
  nr_node_type :: string
  nr_executor :: string
  nr_cascade_mode :: string

record InstanceRow =
  in_id :: UUID
  in_template_hash :: string
  in_params :: jmap
  in_paused :: bool
  in_terminated_at :: "time option"

text \<open>\<open>dpBeginCandidate\<close> takes the producer, the handle, the sub-scope and the idempotency key.\<close>

record DataProcessor =
  dpBeginCandidate :: "string \<Rightarrow> UUID \<Rightarrow> string \<Rightarrow> string \<Rightarrow> string + string"
  dpCommitCandidate :: "string \<Rightarrow> UUID \<Rightarrow> string \<Rightarrow> string option"
  dpAbandonCandidate :: "string \<Rightarrow> UUID \<Rightarrow> string \<Rightarrow> bool"

record SignalEmission =
  emSenderID :: UUID
  emSenderNodeType :: string
  emSenderNodeRunID :: UUID
  emInstanceID :: UUID
  emFrameID :: UUID
  emSignal :: Signal
  emFilter :: "string \<Rightarrow> bool"

text \<open>What the cascade uses of libraries and services: the validator's libraries, the evaluation of a
  compiled predicate (\<open>None\<close> for an evaluation error), the schema an executor announces, the
  canonicalisation of JSON text, the process environment, the random source (\<open>rand.Float64()\<close> in units of
  \<open>2\<close> to the power \<open>-53\<close>), the delivered messages of a frame as pairs of type and payload, and the text
  of a substitution error for a field.\<close>

record CascadeLib =
  libraries :: Libraries
  evalWhen :: "string \<Rightarrow> Signal \<Rightarrow> bool option"
  ExpectedAttributesSchemaFor :: "string \<Rightarrow> string option"
  canonicalTransform :: "string \<Rightarrow> string option"
  LookupEnv :: "string \<Rightarrow> string option"
  randFloat :: int
  deliveredMessages :: "UUID \<Rightarrow> (string \<times> string) list"
  errorText :: "string \<Rightarrow> resolve_error \<Rightarrow> string"

record 'b Env =
  SupervisorID :: string
  Clock :: "time option"
  dbNow :: time
  hasVerbOutbox :: bool
  hasVerbKick :: bool
  hasFanOutSemaphores :: bool
  resolveProducer :: "string \<Rightarrow> string \<Rightarrow> string + string option"
  dataProcessor :: "string \<Rightarrow> DataProcessor option"
  nodes :: "NodeRow list"
  instances :: "InstanceRow list"
  templates :: "(string \<times> TemplateSpec) list"
  HashBytes :: "string \<Rightarrow> string"
  uuidString :: "UUID \<Rightarrow> string"
  attrConfig :: "'b AttrConfig"
  lib :: CascadeLib
  emitSignal :: "SignalEmission \<Rightarrow> 'b Graph \<Rightarrow> settle_error + 'b Graph"
  drainWaitSet :: "UUID \<Rightarrow> UUID \<Rightarrow> 'b Graph \<Rightarrow> settle_error + 'b Graph"

text \<open>A post-commit function is the list of what it will do; chaining is concatenation.\<close>

datatype post_action =
  KickProducerVerbs
| PropagateIfChild UUID
| FanOutRunScopeEvent TemplateSpec UUID UUID string

type_synonym postCommitFn = "post_action list"
type_synonym 'b settled = "(postCommitFn \<times> 'b World) outcome"

definition chainPostCommit :: "postCommitFn \<Rightarrow> postCommitFn \<Rightarrow> postCommitFn" where
  "chainPostCommit a b = (if a = [] then b else if b = [] then a else a @ b)"

definition nodesGet :: "'b Env \<Rightarrow> UUID \<Rightarrow> NodeRow option" where
  "nodesGet env i = row_of nr_id i (nodes env)"

definition instancesGet :: "'b Env \<Rightarrow> UUID \<Rightarrow> InstanceRow option" where
  "instancesGet env i = row_of in_id i (instances env)"

definition templatesGetByHash :: "'b Env \<Rightarrow> string \<Rightarrow> TemplateSpec option" where
  "templatesGetByHash env h = map_of (templates env) h"

definition acquirerInstanceID :: "'b Env \<Rightarrow> UUID \<Rightarrow> UUID outcome" where
  "acquirerInstanceID env holderNodeID =
     (case nodesGet env holderNodeID of None \<Rightarrow> Fail (NodeNotFound holderNodeID) | Some n \<Rightarrow> Done (nr_instance_id n))"

definition loadTemplateSpec :: "'b Env \<Rightarrow> UUID \<Rightarrow> TemplateSpec outcome" where
  "loadTemplateSpec env instanceID =
     (case instancesGet env instanceID of
        None \<Rightarrow> Fail (InstanceNotFound instanceID)
      | Some inst \<Rightarrow>
          (case templatesGetByHash env (in_template_hash inst) of
             None \<Rightarrow> Fail (TemplateNotFound (in_template_hash inst))
           | Some t \<Rightarrow> Done t))"

text \<open>\<open>ResolveWithContext\<close> followed by the two checks every caller makes.\<close>

definition resolveProducerOrFail :: "'b Env \<Rightarrow> string \<Rightarrow> string \<Rightarrow> string outcome" where
  "resolveProducerOrFail env producerName instanceID =
     (case resolveProducer env producerName instanceID of
        Inl e \<Rightarrow> Fail (ProducerLookupError e)
      | Inr None \<Rightarrow> Fail (UnknownProducer producerName)
      | Inr (Some p) \<Rightarrow> Done p)"

end
