(* ===== verification/Run_Rows.thy ===== *)
theory Run_Rows
  imports Settlement_World
begin

text \<open>
  The run methods of the node table (\<open>lib/foundation/persistence/sqlite/nodes.go\<close>): state updates, the pending
  runs a cascade creates, coalesces and drops, the probes of gate evaluation and the evaluator state. The methods act on
  the graph tables; \<open>rows affected\<close> and NULL are modelled as in the other tables. Two constraints of
  the schema are written out: the foreign keys with their \<open>ON DELETE\<close> actions, and the unique index
  \<open>uq_rimsky_node_runs_serialization_gate\<close>.
\<close>

subsection \<open>The serialization gate\<close>

text \<open>The partial index covers the runs that are claimed by a supervisor, held or parked; it admits one
  per node and run scope.\<close>

definition occupies :: "NodeRunRow \<Rightarrow> bool" where
  "occupies r \<longleftrightarrow> claimed_by r \<noteq> None \<or> State r = NodeStateHeld \<or> State r = NodeStateParked"

definition siblings :: "NodeRunRow \<Rightarrow> NodeRunRow \<Rightarrow> bool" where
  "siblings r x \<longleftrightarrow> NodeID x = NodeID r \<and> RunScopeID x = RunScopeID r \<and> NodeRunID x \<noteq> NodeRunID r"

definition occupiedByOther :: "NodeRunRow \<Rightarrow> NodeRunRow list \<Rightarrow> bool" where
  "occupiedByOther r rows = list_ex (\<lambda>x. siblings r x \<and> occupies x) rows"

subsection \<open>Updates\<close>

abbreviation node_rows :: "'b Graph \<Rightarrow> NodeRunRow list" where
  "node_rows g \<equiv> node_runs (runs g)"

definition withRows :: "NodeRunRow list \<Rightarrow> 'b Graph \<Rightarrow> 'b Graph" where
  "withRows rows g = g\<lparr>runs := (runs g)\<lparr>node_runs := rows\<rparr>\<rparr>"

definition updateRuns :: "(NodeRunRow \<Rightarrow> bool) \<Rightarrow> (NodeRunRow \<Rightarrow> NodeRunRow) \<Rightarrow> 'b Graph \<Rightarrow> 'b Graph" where
  "updateRuns p f g = withRows (update_where p f (node_rows g)) g"

text \<open>\<open>Nodes().UpdateState\<close>: the transition must be the one the state machine computes; the frame's
  progress stamp is refreshed.\<close>

definition nodesUpdateState ::
  "time \<Rightarrow> UUID \<Rightarrow> NodeState \<Rightarrow> TransitionReason \<Rightarrow> string option \<Rightarrow> 'b Graph \<Rightarrow> settle_error + 'b Graph" where
  "nodesUpdateState now runID state reason sig g =
     (case runGetByID (runs g) runID of
        None \<Rightarrow> Inl (RunRowMissing runID)
      | Some r \<Rightarrow>
          (case NextState (State r) reason of
             Inl e \<Rightarrow> Inl (StateError e)
           | Inr expected \<Rightarrow>
               if expected \<noteq> state then Inl (StateError (ErrIllegalTransition (State r) reason))
               else if (state = NodeStateHeld \<or> state = NodeStateParked) \<and> occupiedByOther r (node_rows g)
                 then Inl (SerializationGate runID)
               else Inr ((updateRuns (\<lambda>x. NodeRunID x = runID)
                       (\<lambda>x. x\<lparr>State := state, SettlingSignalType := (if sig = None then SettlingSignalType x else sig)\<rparr>) g)
                     \<lparr>frames := update_where (\<lambda>f. fr_frame_id f = FrameID r \<and> ended_at f = None)
                       (\<lambda>f. f\<lparr>last_progress_at := now\<rparr>) (frames g)\<rparr>)))"

definition UpdateRunEvaluatorState :: "UUID \<Rightarrow> int \<Rightarrow> 'b Graph \<Rightarrow> settle_error + 'b Graph" where
  "UpdateRunEvaluatorState runID counter g =
     (if runGetByID (runs g) runID = None then Inl (RunRowMissing runID)
      else Inr (updateRuns (\<lambda>x. NodeRunID x = runID) (\<lambda>x. x\<lparr>retry_counter := counter\<rparr>) g))"

definition GetRunEvaluatorState :: "'b Graph \<Rightarrow> UUID \<Rightarrow> int" where
  "GetRunEvaluatorState g runID = (case runGetByID (runs g) runID of None \<Rightarrow> 0 | Some r \<Rightarrow> retry_counter r)"

definition TransitionPendingToStale :: "UUID \<Rightarrow> time \<Rightarrow> 'b Graph \<Rightarrow> settle_error + 'b Graph" where
  "TransitionPendingToStale runID enqueuedAt g =
     (case NextState NodeStatePending ReasonGateCleared of
        Inl e \<Rightarrow> Inl (StateError e)
      | Inr target \<Rightarrow>
          if target \<noteq> NodeStateStale then Inl (StateError (ErrIllegalTransition NodeStatePending ReasonGateCleared))
          else let p = (\<lambda>x. NodeRunID x = runID \<and> State x = NodeStatePending) in
            if affected p (node_rows g) = 0 then Inl (RunNotPending runID)
            else Inr (updateRuns p (\<lambda>x. x\<lparr>State := target, enqueued_at := enqueuedAt\<rparr>) g))"

definition SetRunRequiredClaimProducers :: "UUID \<Rightarrow> string list \<Rightarrow> 'b Graph \<Rightarrow> bool \<times> 'b Graph" where
  "SetRunRequiredClaimProducers runID producers g =
     (let p = (\<lambda>x. NodeRunID x = runID \<and> State x = NodeStateStale \<and> claimed_by x = None \<and>
                list_ex (\<lambda>rs. ScopeID rs = RunScopeID x \<and> ClosedAt rs = None) (run_scopes (runs g)))
      in (affected p (node_rows g) = 1, updateRuns p (\<lambda>x. x\<lparr>required_claim_producers := producers\<rparr>) g))"

text \<open>The latest failed run of a node; \<open>COALESCE(active_terminal_at, enqueued_at)\<close>.\<close>

definition latestFailed :: "(NodeRunRow \<Rightarrow> bool) \<Rightarrow> 'b Graph \<Rightarrow> NodeRunRow option" where
  "latestFailed p g =
     firstDesc (\<lambda>r. case active_terminal_at r of Some t \<Rightarrow> t | None \<Rightarrow> enqueued_at r)
       (filter (\<lambda>r. p r \<and> State r = NodeStateFailed) (node_rows g))"

definition ResetFailedTerminalSettlingSignalType :: "UUID \<Rightarrow> UUID \<Rightarrow> 'b Graph \<Rightarrow> 'b Graph" where
  "ResetFailedTerminalSettlingSignalType node scope g =
     (case latestFailed (\<lambda>r. NodeID r = node \<and> RunScopeID r = scope) g of
        None \<Rightarrow> g
      | Some r \<Rightarrow> updateRuns (\<lambda>x. NodeRunID x = NodeRunID r) (\<lambda>x. x\<lparr>SettlingSignalType := None\<rparr>) g)"

definition GetFailedTerminalRunScopeID :: "UUID \<Rightarrow> 'b Graph \<Rightarrow> UUID option" where
  "GetFailedTerminalRunScopeID node g = map_option RunScopeID (latestFailed (\<lambda>r. NodeID r = node) g)"

subsection \<open>Probes\<close>

definition GetRunForGate :: "'b Graph \<Rightarrow> UUID \<Rightarrow> NodeRunRow option" where
  "GetRunForGate g runID = runGetByID (runs g) runID"

text \<open>\<open>ORDER BY sequence DESC LIMIT 1\<close>.\<close>

definition latestRun :: "(NodeRunRow \<Rightarrow> bool) \<Rightarrow> 'b Graph \<Rightarrow> NodeRunRow option" where
  "latestRun p g = firstDesc sequence (filter p (node_rows g))"

definition FindLatestCascadePending :: "'b Graph \<Rightarrow> UUID \<Rightarrow> UUID \<Rightarrow> UUID \<Rightarrow> NodeRunRow option" where
  "FindLatestCascadePending g node scope frame =
     latestRun (\<lambda>r. NodeID r = node \<and> RunScopeID r = scope \<and> FrameID r = frame \<and> State r = NodeStatePending \<and>
       creation_reason r = CreationReasonCascade) g"

definition GetPriorRunBySequence :: "'b Graph \<Rightarrow> UUID \<Rightarrow> UUID \<Rightarrow> int \<Rightarrow> NodeRunRow option" where
  "GetPriorRunBySequence g node scope beforeSeq =
     latestRun (\<lambda>r. NodeID r = node \<and> RunScopeID r = scope \<and> sequence r < beforeSeq) g"

definition GetPriorCascadeQueuedNotClaimed :: "'b Graph \<Rightarrow> UUID \<Rightarrow> UUID \<Rightarrow> int \<Rightarrow> NodeRunRow option" where
  "GetPriorCascadeQueuedNotClaimed g node scope beforeSeq =
     latestRun (\<lambda>r. NodeID r = node \<and> RunScopeID r = scope \<and> sequence r < beforeSeq \<and>
       (State r = NodeStatePending \<or> State r = NodeStateStale) \<and> creation_reason r = CreationReasonCascade \<and> claimed_by r = None) g"

text \<open>\<open>beforeSeq\<close> is \<open>None\<close> for the caller that passes \<open>math.MaxInt64\<close>.\<close>

definition GetMostRecentSettledRun :: "'b Graph \<Rightarrow> UUID \<Rightarrow> UUID \<Rightarrow> int option \<Rightarrow> NodeRunRow option" where
  "GetMostRecentSettledRun g node scope beforeSeq =
     latestRun (\<lambda>r. NodeID r = node \<and> RunScopeID r = scope \<and> (case beforeSeq of None \<Rightarrow> True | Some n \<Rightarrow> sequence r < n) \<and>
       State r = NodeStateFresh) g"

definition HasLaterCascadePending :: "'b Graph \<Rightarrow> UUID \<Rightarrow> UUID \<Rightarrow> int \<Rightarrow> bool" where
  "HasLaterCascadePending g node scope afterSeq =
     list_ex (\<lambda>r. NodeID r = node \<and> RunScopeID r = scope \<and> sequence r > afterSeq \<and>
       (State r = NodeStatePending \<or> State r = NodeStateStale) \<and> creation_reason r = CreationReasonCascade \<and>
       claimed_by r = None) (node_rows g)"

definition HasRunForNodeInFrame :: "'b Graph \<Rightarrow> UUID \<Rightarrow> UUID \<Rightarrow> bool" where
  "HasRunForNodeInFrame g node frame = list_ex (\<lambda>r. NodeID r = node \<and> FrameID r = frame) (node_rows g)"

definition advanced :: "NodeState \<Rightarrow> bool" where
  "advanced st \<longleftrightarrow> st \<in> set [NodeStateStale, NodeStateRunning, NodeStateHeld, NodeStateParked]"

definition HasAdvancedSiblingInScope :: "'b Graph \<Rightarrow> UUID \<Rightarrow> UUID \<Rightarrow> UUID \<Rightarrow> bool" where
  "HasAdvancedSiblingInScope g node scope excluding =
     list_ex (\<lambda>r. NodeID r = node \<and> RunScopeID r = scope \<and> NodeRunID r \<noteq> excluding \<and> advanced (State r)) (node_rows g)"

definition ListPendingSiblingRunsInScope :: "'b Graph \<Rightarrow> UUID \<Rightarrow> UUID list" where
  "ListPendingSiblingRunsInScope g senderRun =
     (case runGetByID (runs g) senderRun of
        None \<Rightarrow> []
      | Some s \<Rightarrow> map NodeRunID (sort_key sequence (filter (\<lambda>r. siblings s r \<and> State r = NodeStatePending) (node_rows g))))"

definition ListPendingRunsInScopeForNodes :: "'b Graph \<Rightarrow> UUID \<Rightarrow> UUID list \<Rightarrow> UUID list" where
  "ListPendingRunsInScopeForNodes g scope nodeIDs =
     map NodeRunID (sort_key sequence
       (filter (\<lambda>r. RunScopeID r = scope \<and> State r = NodeStatePending \<and> NodeID r \<in> set nodeIDs) (node_rows g)))"

text \<open>\<open>ORDER BY in-flight first, enqueued_at DESC, sequence DESC, id DESC LIMIT 1\<close>.\<close>

definition GetLatestRunForNode :: "'b Graph \<Rightarrow> UUID \<Rightarrow> NodeRunRow option" where
  "GetLatestRunForNode g node =
     (let byID = sort_key (\<lambda>r. - int (NodeRunID r)) (filter (\<lambda>r. NodeID r = node) (node_rows g));
          ordered = sort_key (\<lambda>r. - enqueued_at r) (sort_key (\<lambda>r. - sequence r) byID)
      in firstDesc (\<lambda>r. if IsInFlight (State r) then 1 else 0) ordered)"

definition GetCascadeMode :: "'b Env \<Rightarrow> UUID \<Rightarrow> string" where
  "GetCascadeMode env node =
     (case nodesGet env node of
        None \<Rightarrow> ''most-recent''
      | Some n \<Rightarrow> if nr_cascade_mode n = [] then ''most-recent'' else nr_cascade_mode n)"

definition CountByState :: "'b Graph \<Rightarrow> NodeState \<Rightarrow> nat" where
  "CountByState g st = length (filter (\<lambda>r. State r = st) (node_rows g))"

definition CountRunningForSupervisor :: "'b Graph \<Rightarrow> string \<Rightarrow> nat" where
  "CountRunningForSupervisor g supervisor = length (filter (\<lambda>r. State r = NodeStateRunning \<and> claimed_by r = Some supervisor) (node_rows g))"

subsection \<open>Creating runs\<close>

definition scopeOpen :: "'b Graph \<Rightarrow> UUID \<Rightarrow> bool" where
  "scopeOpen g scope = list_ex (\<lambda>rs. ScopeID rs = scope \<and> ClosedAt rs = None) (run_scopes (runs g))"

definition frameExists :: "'b Graph \<Rightarrow> UUID \<Rightarrow> bool" where
  "frameExists g frame = list_ex (\<lambda>f. fr_frame_id f = frame) (frames g)"

text \<open>The lookup that explains why an \<open>INSERT .. SELECT\<close> wrote no row.\<close>

definition scopeFailure :: "UUID \<Rightarrow> settle_error \<Rightarrow> 'b Graph \<Rightarrow> settle_error" where
  "scopeFailure scope otherwise g =
     (case scopeGetByID (runs g) scope of
        None \<Rightarrow> RunScopeNotFound scope
      | Some rs \<Rightarrow> if ClosedAt rs \<noteq> None then ErrRunScopeClosed else otherwise)"

definition baseRow :: "UUID \<Rightarrow> UUID \<Rightarrow> UUID \<Rightarrow> UUID \<Rightarrow> NodeState \<Rightarrow> CreationReason \<Rightarrow> time \<Rightarrow> 'b Graph \<Rightarrow> NodeRunRow" where
  "baseRow newID node scope frame st reason enq g =
     \<lparr>NodeRunID = newID, NodeID = node, FrameID = frame, RunScopeID = scope, State = st, SettlingSignalType = None,
      Policy = \<lparr>Kind = AggregationKindUnset, MaxFailures = 0\<rparr>, Changed = False, executor_name = None,
      required_claim_producers = [], enqueued_at = enq, sequence = nextSequence (node_rows g) node scope,
      creation_reason = reason, claimed_by = None, claimed_at = None, active_terminal_at = None, progress_at = None,
      parked_at = None, resume_at = None, retry_counter = 0, prior_dispatch_id = None, prior_dispatch_disposition = None,
      scratch = noScratch, ack = noAck\<rparr>"

definition nullableString :: "string \<Rightarrow> string option" where
  "nullableString s = (if s = [] then None else Some s)"

text \<open>The row is appended under a new identifier.\<close>

definition insertRow :: "NodeRunRow \<Rightarrow> 'b Graph \<Rightarrow> 'b Graph" where
  "insertRow row g = (withRows (node_rows g @ [row]) g)\<lparr>next_id := next_id g + 1\<rparr>"

definition CreateCascadePending ::
  "'b Env \<Rightarrow> UUID \<Rightarrow> UUID \<Rightarrow> UUID \<Rightarrow> 'b Graph \<Rightarrow> settle_error + UUID \<times> 'b Graph" where
  "CreateCascadePending env node scope frame g =
     (case nodesGet env node of
        None \<Rightarrow> Inl (scopeFailure scope (NodeNotFound node) g)
      | Some n \<Rightarrow>
          if \<not> scopeOpen g scope then Inl (scopeFailure scope (NodeNotFound node) g)
          else if \<not> frameExists g frame then Inl ForeignKeyFailed
          else Inr (next_id g, insertRow
                 ((baseRow (next_id g) node scope frame NodeStatePending CreationReasonCascade (dbNow env) g)
                    \<lparr>executor_name := nullableString (nr_executor n)\<rparr>) g))"

text \<open>A failing bag snapshot rolls the insert back with the transaction.\<close>

definition snapshotNewRun :: "'b Env \<Rightarrow> UUID \<Rightarrow> UUID \<Rightarrow> UUID \<Rightarrow> 'b Graph \<Rightarrow> settle_error + UUID \<times> 'b Graph" where
  "snapshotNewRun env newID node scope g =
     (case SnapshotBagForNewRun (attrConfig env) (dbNow env) (node_rows g) newID node scope (attrs g) of
        (Some e, s) \<Rightarrow> Inl (AttrError e)
      | (None, s) \<Rightarrow> Inr (newID, g\<lparr>attrs := s\<rparr>))"

record NonCascadeStaleInput =
  nsNodeID :: UUID
  nsRunScopeID :: UUID
  nsFrameID :: UUID
  nsExecutorName :: string
  nsRequiredClaimProducers :: "string list"
  nsEnqueuedAt :: time
  nsCreationReason :: "CreationReason option"
  nsPriorNodeRunID :: "UUID option"
  nsPriorDispatchDisposition :: string
  nsInitialScratchInline :: string
  nsInitialScratchHandle :: string
  nsInitialScratchHandleBackend :: string

definition staleRow :: "NonCascadeStaleInput \<Rightarrow> CreationReason \<Rightarrow> 'b Graph \<Rightarrow> NodeRunRow" where
  "staleRow inp reason g =
     (baseRow (next_id g) (nsNodeID inp) (nsRunScopeID inp) (nsFrameID inp) NodeStateStale reason (nsEnqueuedAt inp) g)
       \<lparr>executor_name := nullableString (nsExecutorName inp), required_claim_producers := nsRequiredClaimProducers inp,
        prior_dispatch_id := nsPriorNodeRunID inp, prior_dispatch_disposition := nullableString (nsPriorDispatchDisposition inp),
        scratch := \<lparr>scratch_inline = nullableString (nsInitialScratchInline inp), scratch_handle = nullableString (nsInitialScratchHandle inp),
          scratch_handle_backend = nullableString (nsInitialScratchHandleBackend inp)\<rparr>\<rparr>"

text \<open>The foreign keys of the row: the node, the frame and the prior run exist.\<close>

definition staleKeysExist :: "'b Env \<Rightarrow> NonCascadeStaleInput \<Rightarrow> 'b Graph \<Rightarrow> bool" where
  "staleKeysExist env inp g \<longleftrightarrow> nodesGet env (nsNodeID inp) \<noteq> None \<and> frameExists g (nsFrameID inp) \<and>
     (case nsPriorNodeRunID inp of None \<Rightarrow> True | Some p \<Rightarrow> runGetByID (runs g) p \<noteq> None)"

definition insertStale :: "'b Env \<Rightarrow> NonCascadeStaleInput \<Rightarrow> CreationReason \<Rightarrow> settle_error \<Rightarrow> 'b Graph \<Rightarrow> settle_error + UUID \<times> 'b Graph" where
  "insertStale env inp reason otherwise g =
     (if \<not> scopeOpen g (nsRunScopeID inp) then Inl (scopeFailure (nsRunScopeID inp) otherwise g)
      else if \<not> staleKeysExist env inp g then Inl ForeignKeyFailed
      else snapshotNewRun env (next_id g) (nsNodeID inp) (nsRunScopeID inp) (insertRow (staleRow inp reason g) g))"

definition CreateNonCascadeStale :: "'b Env \<Rightarrow> NonCascadeStaleInput \<Rightarrow> 'b Graph \<Rightarrow> settle_error + UUID \<times> 'b Graph" where
  "CreateNonCascadeStale env inp g =
     (if nsFrameID inp = zero_uuid then Inl (FieldRequired ''frame_id'')
      else if nsRunScopeID inp = zero_uuid then Inl (FieldRequired ''run_scope_id'')
      else case nsCreationReason inp of
        None \<Rightarrow> Inl (FieldRequired ''creation_reason'')
      | Some reason \<Rightarrow> insertStale env inp reason (RunScopeNotFound (nsRunScopeID inp)) g)"

subsection \<open>Dropping runs\<close>

text \<open>Deleting a run deletes its attribute row and every wait-set row that names it, and clears the
  references of later dispatches to it. A run that was not dispatched has opened no run scope.\<close>

definition clearPrior :: "UUID list \<Rightarrow> NodeRunRow \<Rightarrow> NodeRunRow" where
  "clearPrior gone r =
     (case prior_dispatch_id r of None \<Rightarrow> r | Some p \<Rightarrow> if p \<in> set gone then r\<lparr>prior_dispatch_id := None\<rparr> else r)"

definition purgeRuns :: "(NodeRunRow \<Rightarrow> bool) \<Rightarrow> 'b Graph \<Rightarrow> 'b Graph" where
  "purgeRuns p g =
     (let gone = map NodeRunID (filter p (node_rows g)) in
      (withRows (map (clearPrior gone) (delete_where p (node_rows g))) g)
        \<lparr>attrs := (attrs g)\<lparr>attr_rows := delete_where (\<lambda>a. at_node_run_id a \<in> set gone) (attr_rows (attrs g))\<rparr>,
         wait_set := delete_where (\<lambda>w. wsReceiver w \<in> set gone \<or> wsSender w \<in> set gone) (wait_set g)\<rparr>)"

definition scratchHandles :: "NodeRunRow list \<Rightarrow> (string \<times> string) list" where
  "scratchHandles rows =
     concat (map (\<lambda>r. case scratch_handle (scratch r) of
         None \<Rightarrow> []
       | Some h \<Rightarrow> if h = [] then [] else [(h, case scratch_handle_backend (scratch r) of None \<Rightarrow> [] | Some b \<Rightarrow> b)]) rows)"

definition enrollScratchOrphans :: "'b Env \<Rightarrow> (string \<times> string) list \<Rightarrow> 'b Graph \<Rightarrow> 'b Graph" where
  "enrollScratchOrphans env handles g =
     g\<lparr>attrs := (attrs g)\<lparr>blob_orphans :=
        fold (\<lambda>(h, b). QueueBlobOrphan h b (dbNow env) (blobRetention (attrConfig env))) handles (blob_orphans (attrs g))\<rparr>\<rparr>"

definition deleteRuns :: "'b Env \<Rightarrow> (NodeRunRow \<Rightarrow> bool) \<Rightarrow> 'b Graph \<Rightarrow> 'b Graph" where
  "deleteRuns env p g = enrollScratchOrphans env (scratchHandles (filter p (node_rows g))) (purgeRuns p g)"

definition supersededBy :: "UUID \<Rightarrow> UUID \<Rightarrow> int \<Rightarrow> NodeRunRow \<Rightarrow> bool" where
  "supersededBy node scope beforeSeq r \<longleftrightarrow> NodeID r = node \<and> RunScopeID r = scope \<and> sequence r < beforeSeq \<and>
     State r = NodeStateStale \<and> creation_reason r = CreationReasonCascade \<and> claimed_by r = None"

definition DeletePriorCascadeStales :: "'b Env \<Rightarrow> UUID \<Rightarrow> UUID \<Rightarrow> int \<Rightarrow> 'b Graph \<Rightarrow> 'b Graph" where
  "DeletePriorCascadeStales env node scope beforeSeq g = deleteRuns env (supersededBy node scope beforeSeq) g"

definition DropPendingRun :: "'b Env \<Rightarrow> UUID \<Rightarrow> 'b Graph \<Rightarrow> settle_error + 'b Graph" where
  "DropPendingRun env runID g =
     (let p = (\<lambda>r. NodeRunID r = runID \<and> State r = NodeStatePending) in
      if affected p (node_rows g) = 0 then Inl (RunNotPending runID) else Inr (deleteRuns env p g))"

subsection \<open>An example environment\<close>

definition exampleCascadeLib :: CascadeLib where
  "exampleCascadeLib = \<lparr>libraries = \<lparr>codec = \<lparr>Marshal = (\<lambda>_. []), Unmarshal = (\<lambda>_. None), DecodeFirst = (\<lambda>_. None), inFloat64Range = (\<lambda>_. True)\<rparr>,
       AddResource = (\<lambda>_. True), CompileSchema = (\<lambda>_. True), SchemaAccepts = (\<lambda>_ _. True), celCheck = (\<lambda>_. Some ([], [])),
       celProgram = (\<lambda>_. True), schemaFields = (\<lambda>_. []), ParseDuration = (\<lambda>_. None)\<rparr>,
     evalWhen = (\<lambda>_ _. Some True), ExpectedAttributesSchemaFor = (\<lambda>_. None), canonicalTransform = Some, LookupEnv = (\<lambda>_. None),
     randFloat = 0, deliveredMessages = (\<lambda>_. []), errorText = (\<lambda>_ _. [])\<rparr>"

definition exampleEnv :: "unit Env" where
  "exampleEnv = \<lparr>SupervisorID = ''sup1'', Clock = Some 5, dbNow = 5, hasVerbOutbox = True, hasVerbKick = True,
     hasFanOutSemaphores = False, resolveProducer = (\<lambda>p i. Inr (Some p)), dataProcessor = (\<lambda>_. None),
     nodes = [\<lparr>nr_id = 7, nr_instance_id = 8, nr_node_type = ''load'', nr_executor = ''py'', nr_cascade_mode = []\<rparr>],
     instances = [\<lparr>in_id = 8, in_template_hash = ''t'', in_params = [], in_paused = False, in_terminated_at = None\<rparr>], templates = [],
     HashBytes = (\<lambda>x. x), uuidString = (\<lambda>_. []),
     attrConfig = \<lparr>blob = None, blobThreshold = 0, blobRetention = 0, jsonLen = (\<lambda>_. 0), fk = (\<lambda>_ _. True)\<rparr>,
     lib = exampleCascadeLib, emitSignal = (\<lambda>_ g. Inr g), drainWaitSet = (\<lambda>_ _ g. Inr g)\<rparr>"

definition exampleGraph :: "NodeRunRow list \<Rightarrow> unit Graph" where
  "exampleGraph rows =
     \<lparr>runs = \<lparr>node_runs = rows, run_scopes = [\<lparr>ScopeID = 3, ParentRunScopeID = None, ParentNodeRunID = None, GraphName = [],
          PartitionKey = [], InstanceID = 8, CreatedAt = 0, ClosedAt = None\<rparr>], bag_snapshots = []\<rparr>,
      attrs = \<lparr>attr_rows = [], blob_orphans = [], blob_state = ()\<rparr>,
      frames = [\<lparr>fr_frame_id = 4, last_progress_at = 0, ended_at = None\<rparr>], wait_set = [], next_id = 10, audit = []\<rparr>"

end
