(* ===== verification/Claim_Settlement.thy ===== *)
theory Claim_Settlement
  imports Run_Rows
begin

text \<open>
  Settlement of claims, one definition per Go function. The functions call each other recursively:
  resolving a handle cancels its descendants and settles its fan-out parent, which cancels siblings and
  may resolve the parent. Every function takes the resolver it calls as an argument \<open>rsv\<close>;
  \<open>ResolveClaimHandleTerminal\<close> ties the knot with fuel.
\<close>

subsection \<open>Producer verbs and forensics\<close>

definition dispatchDataProcessingTerminal :: "'b Env \<Rightarrow> TerminalDecision \<Rightarrow> 'b World \<Rightarrow> (string \<times> 'b World) outcome" where
  "dispatchDataProcessingTerminal env td w =
     (if tdCandidateHandle td = [] \<or> tdProducerName td = [] then Done ([], w)
      else case dataProcessor env (tdProducerName td) of
        None \<Rightarrow> Done ([], w)
      | Some dp \<Rightarrow>
          if tdOutcome td = OutcomeCommit then
            (case dpCommitCandidate dp (tdProducerName td) (tdClaimHandleID td) (tdCandidateHandle td) of
               None \<Rightarrow> Fail (CandidateError (tdProducerName td))
             | Some metadata \<Rightarrow> Done (metadata, w\<lparr>effects := effects w @
                 [CommitCandidate (tdProducerName td) (tdClaimHandleID td) (tdCandidateHandle td)]\<rparr>))
          else if IsAbandon (tdOutcome td) then
            (if dpAbandonCandidate dp (tdProducerName td) (tdClaimHandleID td) (tdCandidateHandle td)
             then Done ([], w\<lparr>effects := effects w @
                 [AbandonCandidate (tdProducerName td) (tdClaimHandleID td) (tdCandidateHandle td)]\<rparr>)
             else Fail (CandidateError (tdProducerName td)))
          else Done ([], w))"

definition producerVerbForOutcome :: "TerminalOutcome \<Rightarrow> ProducerVerb option" where
  "producerVerbForOutcome ot =
     (if ot = OutcomeCommit then Some ProducerVerbCommit
      else if IsAbandon ot then Some ProducerVerbAbandon else None)"

definition enqueueProducerVerb :: "'b Env \<Rightarrow> TerminalDecision \<Rightarrow> 'b World \<Rightarrow> 'b World outcome" where
  "enqueueProducerVerb env td w =
     (if \<not> hasVerbOutbox env then Done w
      else case Clock env of
        None \<Rightarrow> Fail (ClockRequired (tdClaimHandleID td))
      | Some now \<Rightarrow>
          (case producerVerbForOutcome (tdOutcome td) of
             None \<Rightarrow> Fail (UnknownTerminalOutcome (tdClaimHandleID td))
           | Some vb \<Rightarrow>
               let producerName = (if tdProducerName td = [] then (case tdProducer td of None \<Rightarrow> [] | Some p \<Rightarrow> p) else tdProducerName td);
                   instanceID = (if hintInstanceID (tdLineageHint td) \<noteq> zero_uuid then Some (hintInstanceID (tdLineageHint td)) else None) in
               Done (w\<lparr>claims := Enqueue \<lparr>oiClaimHandleID = tdClaimHandleID td, oiProducerName = producerName, oiVerb = vb,
                 oiClaimScopeData = tdScope td, oiAddress = tdAddress td, oiLeaseToken = tdLeaseToken td,
                 oiSupervisorID = tdSupervisorID td, oiInstanceID = instanceID,
                 oiParentClaimHandleID = tdParentClaimHandleID td, oiNextAttemptAt = now, oiEnqueuedAt = now\<rparr> (claims w)\<rparr>)))"

definition kickProducerVerbDispatch :: "'b Env \<Rightarrow> postCommitFn" where
  "kickProducerVerbDispatch env = (if hasVerbKick env then [KickProducerVerbs] else [])"

definition outcomeVerbName :: "TerminalOutcome \<Rightarrow> string" where
  "outcomeVerbName ot = (if ot = OutcomeCommit then ''Commit'' else if IsAbandon ot then ''Abandon'' else ''Unknown'')"

definition terminalOutcomeKey :: "TerminalDecision \<Rightarrow> string" where
  "terminalOutcomeKey td =
     (case tdOutcome td of
        OutcomeCommit \<Rightarrow> ''committed''
      | OutcomeAbandonSiblingCancel \<Rightarrow> ''force_cancelled''
      | OutcomeAbandonDescendantCancel \<Rightarrow> ''force_cancelled''
      | _ \<Rightarrow> ''abandoned'')"

text \<open>Failures of the lineage and event writes are logged and ignored; the model does not have them.\<close>

definition emitTerminalForensics :: "'b Env \<Rightarrow> TerminalDecision \<Rightarrow> 'b World \<Rightarrow> 'b World" where
  "emitTerminalForensics env td w =
     (case Clock env of
        None \<Rightarrow> w
      | Some now \<Rightarrow>
          if tdLineageHint td = zeroHint then w
          else let hint = tdLineageHint td;
                   lineageParent = (if tdLineageParentClaimHandleID td \<noteq> None then tdLineageParentClaimHandleID td
                                    else tdParentClaimHandleID td);
                   rec = \<lparr>recClaimHandleID = tdClaimHandleID td, recNodeRunID = hintNodeRunID hint, recNodeID = hintNodeID hint,
                     recFrameID = hintFrameID hint, recParentClaimHandleID = lineageParent,
                     recSubClaimHandleIDs = map ch_id (ListChildClaimHandles (claims w) (tdClaimHandleID td)),
                     recCommittedAt = now, recProducerName = hintProducerName hint,
                     recClaimScopeDataHash = HashBytes env (tdScope td), recVersionID = hintVersionID hint,
                     recOutcome = terminalOutcomeKey td,
                     recCause = (if tdOutcome td = OutcomeAbandonSiblingCancel \<or> tdOutcome td = OutcomeAbandonDescendantCancel
                                 then CauseString (tdOutcome td) else []),
                     recTerminatingSupervisorID = tdSupervisorID td\<rparr> in
            w\<lparr>lineage := lineage w @ [\<lparr>linInstanceID = hintInstanceID hint, linFrameID = hintFrameID hint,
                 linObservedAt = now, linRecord = rec, linOutcome = recOutcome rec\<rparr>],
              events := events w @ [\<lparr>evNodeID = hintNodeID hint, evInstanceID = hintInstanceID hint,
                 evKind = (if IsAbandon (tdOutcome td) then KindClaimResolutionAbandon else KindClaimResolutionCommit),
                 evClaimHandleID = tdClaimHandleID td, evRunID = hintNodeRunID hint, evFrameID = hintFrameID hint,
                 evProducerName = hintProducerName hint, evClaimScopeDataHash = recClaimScopeDataHash rec,
                 evVersionID = recVersionID rec, evParentClaimHandleID = lineageParent,
                 evCause = (if IsAbandon (tdOutcome td) then CauseString (tdOutcome td) else [])\<rparr>]\<rparr>)"

text \<open>A promotion that lost a race only warns.\<close>

definition promoteHandleState :: "'b Env \<Rightarrow> TerminalDecision \<Rightarrow> 'b World \<Rightarrow> 'b World outcome" where
  "promoteHandleState env td w =
     (let promoteState = (if IsAbandon (tdOutcome td) then ClaimHandleStateAbandoned else ClaimHandleStateCommitted) in
      case Promote (dbNow env) (tdClaimHandleID td) (tdSupervisorID td) promoteState (claims w) of
        Inr c \<Rightarrow> Done (w\<lparr>claims := c\<rparr>)
      | Inl e \<Rightarrow> if e = ErrIllegalClaimHandleTransition then Done w else Fail (StoreError e))"

subsection \<open>Held runs\<close>

definition listActiveHeldClaimHandleIDsForRun :: "ClaimStore \<Rightarrow> UUID \<Rightarrow> UUID list" where
  "listActiveHeldClaimHandleIDsForRun s runID =
     (let own = map ch_id (filter (\<lambda>h. ch_state h = ClaimHandleStateActive) (ListByNodeRun s runID));
          held = concat (map (\<lambda>h. case handleGet s (claim_handle_id h) of
                   None \<Rightarrow> [] | Some ch \<Rightarrow> if ch_state ch = ClaimHandleStateActive then [ch_id ch] else [])
                 (filter (\<lambda>h. holder_state h = ClaimHolderStateActive) (ListByHolderRun s runID))) in
      dedup_loop [] [] (own @ held))"

definition runHasActiveHeldClaims :: "ClaimStore \<Rightarrow> UUID \<Rightarrow> bool" where
  "runHasActiveHeldClaims s runID \<longleftrightarrow> listActiveHeldClaimHandleIDsForRun s runID \<noteq> []"

record holderPortfolioStatus =
  FullyResolved :: bool
  Poisoned :: bool

definition portfolioStep :: "holderPortfolioStatus \<Rightarrow> ClaimHandleRow \<Rightarrow> holderPortfolioStatus" where
  "portfolioStep st h =
     (case ch_state h of
        ClaimHandleStateActive \<Rightarrow> st\<lparr>FullyResolved := False\<rparr>
      | ClaimHandleStateAbandoned \<Rightarrow> st\<lparr>Poisoned := True\<rparr>
      | ClaimHandleStateCommitted \<Rightarrow> st)"

text \<open>The claims of a run: those it acquired and those it co-holds.\<close>

definition portfolio :: "ClaimStore \<Rightarrow> UUID \<Rightarrow> ClaimHandleRow list" where
  "portfolio s runID = ListByNodeRun s runID @
     concat (map (\<lambda>h. case handleGet s (claim_handle_id h) of None \<Rightarrow> [] | Some ch \<Rightarrow> [ch]) (ListByHolderRun s runID))"

definition evaluateHolderPortfolio :: "ClaimStore \<Rightarrow> UUID \<Rightarrow> holderPortfolioStatus" where
  "evaluateHolderPortfolio s runID = foldl portfolioStep \<lparr>FullyResolved = True, Poisoned = False\<rparr> (portfolio s runID)"

definition holderIsAggregatingParent :: "RunStore \<Rightarrow> UUID \<Rightarrow> bool" where
  "holderIsAggregatingParent s runID \<longleftrightarrow> ListChildren s runID \<noteq> []"

definition holderSettlementAttributes :: "'b Env \<Rightarrow> 'b Graph \<Rightarrow> UUID \<Rightarrow> bag option outcome" where
  "holderSettlementAttributes env g runID =
     out_bind (out_lift AttrError (GetByRun (attrConfig env) (attrs g) runID)) (\<lambda>row.
       Done (case row of None \<Rightarrow> None | Some r \<Rightarrow> if narData r = [] then None else Some (narData r)))"

text \<open>What \<open>transitionHolderIfFullyResolved\<close> does once the holder's portfolio is resolved.\<close>

definition settleHolder :: "'b Env \<Rightarrow> NodeRunRow \<Rightarrow> bool \<Rightarrow> 'b Graph \<Rightarrow> (postCommitFn \<times> 'b Graph) outcome" where
  "settleHolder env holderRun poisoned g =
     (let runID = NodeRunID holderRun;
          newState = (if poisoned then NodeStateFailed else NodeStateFresh);
          reason = (if poisoned then ReasonAutoTerminalAbandon else ReasonAutoTerminalCommit);
          sigType = (if poisoned then ''terminal/error/abandoned'' else ''terminal/success'');
          changeSummary = ''auto-terminal/'' @ outcomeVerbName (if poisoned then OutcomeAbandon else OutcomeCommit) in
      out_bind (if poisoned then Done (BuildTerminalErrorSignal ''abandoned'' None 0 0 None [])
                else out_bind (holderSettlementAttributes env g runID) (\<lambda>delta. Done (BuildTerminalSuccessSignal False delta changeSummary [])))
        (\<lambda>sig.
        case nodesUpdateState (dbNow env) runID newState reason (Some sigType) g of
          Inl (StateError (ErrIllegalTransition st rs)) \<Rightarrow> Done ([], g)
        | Inl e \<Rightarrow> Fail e
        | Inr g1 \<Rightarrow>
            out_bind (out_lift RunTreeError (recordRunTreeChanged runID newState (Some sigType) False (runs g1))) (\<lambda>rs.
            let g2 = g1\<lparr>runs := rs\<rparr> in
            case nodesGet env (NodeID holderRun) of
              None \<Rightarrow> Done ([], g2)
            | Some holderNode \<Rightarrow>
                out_bind (loadTemplateSpec env (nr_instance_id holderNode)) (\<lambda>tmplSpec.
                out_bind (out_lift id (emitSignal env
                    \<lparr>emSenderID = NodeID holderRun, emSenderNodeType = nr_node_type holderNode, emSenderNodeRunID = runID,
                     emInstanceID = nr_instance_id holderNode, emFrameID = FrameID holderRun, emSignal = sig,
                     emFilter = subgraphNonMemberFilter tmplSpec (nr_node_type holderNode)\<rparr> g2)) (\<lambda>g3.
                out_bind (out_lift id (drainWaitSet env (FrameID holderRun) runID g3)) (\<lambda>g4.
                Done ([PropagateIfChild runID], g4)))))))"

definition transitionHolderIfFullyResolved :: "'b Env \<Rightarrow> UUID \<Rightarrow> 'b World \<Rightarrow> 'b settled" where
  "transitionHolderIfFullyResolved env runID w =
     (if runID = zero_uuid then Done ([], w)
      else case runGetByID (runs (graph w)) runID of
        None \<Rightarrow> Done ([], w)
      | Some holderRun \<Rightarrow>
          if State holderRun \<noteq> NodeStateHeld then Done ([], w)
          else if holderIsAggregatingParent (runs (graph w)) runID then Done ([], w)
          else let status = evaluateHolderPortfolio (claims w) runID in
            if \<not> FullyResolved status then Done ([], w)
            else out_bind (settleHolder env holderRun (Poisoned status) (graph w)) (\<lambda>(post, g). Done (post, w\<lparr>graph := g\<rparr>)))"

fun transitionHolders :: "'b Env \<Rightarrow> UUID list \<Rightarrow> postCommitFn \<Rightarrow> 'b World \<Rightarrow> 'b settled" where
  "transitionHolders env [] post w = Done (post, w)"
| "transitionHolders env (runID # rest) post w =
     out_bind (transitionHolderIfFullyResolved env runID w) (\<lambda>(pc, w'). transitionHolders env rest (chainPostCommit post pc) w')"

definition emitDeferredHeldCascade :: "'b Env \<Rightarrow> TerminalDecision \<Rightarrow> 'b World \<Rightarrow> 'b settled" where
  "emitDeferredHeldCascade env td w =
     (if tdSource td \<noteq> HeldTerminal then Done ([], w)
      else let visited = map holder_run_id (ListByClaimHandleID (claims w) (tdClaimHandleID td));
               acquirer = hintNodeRunID (tdLineageHint td) in
        transitionHolders env (visited @ (if acquirer \<noteq> zero_uuid \<and> acquirer \<notin> set visited then [acquirer] else [])) [] w)"

subsection \<open>Fan-out parents\<close>

record FanoutChildSettlementInput =
  fiParentClaimHandleID :: UUID
  fiChildClaimHandleID :: UUID
  fiChildOutcome :: TerminalOutcome
  fiChildProducerMetadata :: string

text \<open>\<open>base64.StdEncoding\<close>.\<close>

definition base64Char :: "nat \<Rightarrow> char" where
  "base64Char n =
     (if n < 26 then char_of (65 + n) else if n < 52 then char_of (97 + (n - 26))
      else if n < 62 then char_of (48 + (n - 52)) else if n = 62 then CHR ''+'' else CHR ''/'')"

fun EncodeToString :: "string \<Rightarrow> string" where
  "EncodeToString (a # b # c # rest) =
     (let n = 65536 * of_char a + 256 * of_char b + (of_char c :: nat) in
      [base64Char (n div 262144), base64Char (n div 4096 mod 64), base64Char (n div 64 mod 64), base64Char (n mod 64)] @
      EncodeToString rest)"
| "EncodeToString [a, b] =
     (let n = 256 * of_char a + (of_char b :: nat) in
      [base64Char (n div 1024), base64Char (n div 16 mod 64), base64Char (4 * (n mod 16)), CHR ''='']) "
| "EncodeToString [a] =
     (let n = (of_char a :: nat) in [base64Char (n div 4), base64Char (16 * (n mod 4)), CHR ''='', CHR ''=''])"
| "EncodeToString [] = []"

definition childPartitionWritebackKey :: "'b Env \<Rightarrow> UUID \<Rightarrow> 'b World \<Rightarrow> string" where
  "childPartitionWritebackKey env childID w =
     (let fallback = uuidString env childID in
      case handleGet (claims w) childID of
        None \<Rightarrow> fallback
      | Some child \<Rightarrow>
          (case node_run_id child of
             None \<Rightarrow> fallback
           | Some run \<Rightarrow>
               (case runGetByID (runs (graph w)) run of
                  None \<Rightarrow> fallback
                | Some childRun \<Rightarrow>
                    (case scopeGetByID (runs (graph w)) (RunScopeID childRun) of
                       None \<Rightarrow> fallback
                     | Some scope \<Rightarrow> if PartitionKey scope = [] then fallback else PartitionKey scope))))"

definition recordChildCommitMetadata ::
  "'b Env \<Rightarrow> FanoutChildSettlementInput \<Rightarrow> ClaimHandleRow \<Rightarrow> 'b World \<Rightarrow> 'b World outcome" where
  "recordChildCommitMetadata env inp parent w =
     (if fiChildOutcome inp \<noteq> OutcomeCommit \<or> fiChildProducerMetadata inp = [] then Done w
      else case node_run_id parent of
        None \<Rightarrow> Done w
      | Some parentRun \<Rightarrow>
          let key = childPartitionWritebackKey env (fiChildClaimHandleID inp) w in
          out_bind (out_lift AttrError (GetByRun (attrConfig env) (attrs (graph w)) parentRun)) (\<lambda>existing.
          let merged = (case existing of None \<Rightarrow> [] | Some r \<Rightarrow> narData r);
              meta = (case map_of merged ''producer_metadata'' of Some (VObj m) \<Rightarrow> m | _ \<Rightarrow> []);
              meta' = AList.update key (VStr (EncodeToString (fiChildProducerMetadata inp))) meta in
          case Upsert (attrConfig env) (dbNow env) parentRun (holder_node_id parent)
                 (Some (AList.update ''producer_metadata'' (VObj meta') merged)) (attrs (graph w)) of
            (Some e, _) \<Rightarrow> Fail (AttrError e)
          | (None, a) \<Rightarrow> Done (w\<lparr>graph := (graph w)\<lparr>attrs := a\<rparr>\<rparr>)))"

definition aggregateParentOutcome :: "ClaimHandleRow option \<Rightarrow> TerminalOutcome \<Rightarrow> TerminalOutcome" where
  "aggregateParentOutcome parent seedOutcome =
     (case parent of
        None \<Rightarrow> seedOutcome
      | Some p \<Rightarrow>
          if expected_children_count p = 0 then seedOutcome
          else let policy = (case UnmarshalAggregationPolicy (aggregation_policy p) of
                     Inl _ \<Rightarrow> \<lparr>Kind = AggregationKindStrict, MaxFailures = 0\<rparr> | Inr q \<Rightarrow> q);
                   committed = committed_children_count p;
                   abandoned = abandoned_children_count p in
            (case Kind policy of
               AggregationKindStrict \<Rightarrow> if abandoned > 0 then OutcomeAbandon else OutcomeCommit
             | AggregationKindThreshold \<Rightarrow>
                 (let mx = (if MaxFailures policy \<le> 0 then 1 else MaxFailures policy) in
                  if abandoned \<ge> mx then OutcomeAbandon else OutcomeCommit)
             | AggregationKindBestEffort \<Rightarrow> if committed > 0 then OutcomeCommit else OutcomeAbandon
             | AggregationKindFirst \<Rightarrow> if committed > 0 then OutcomeCommit else OutcomeAbandon
             | _ \<Rightarrow> if abandoned > 0 then OutcomeAbandon else OutcomeCommit))"

text \<open>The lineage hint and the decision every internal caller builds from a handle row.\<close>

definition rowHint :: "ClaimHandleRow \<Rightarrow> UUID \<Rightarrow> ClaimLineageHint" where
  "rowHint row instID =
     \<lparr>hintInstanceID = instID,
      hintFrameID = (case ch_frame_id row of None \<Rightarrow> zero_uuid | Some f \<Rightarrow> f),
      hintNodeRunID = (case node_run_id row of None \<Rightarrow> zero_uuid | Some r \<Rightarrow> r),
      hintNodeID = holder_node_id row,
      hintProducerName = (case producer_name row of None \<Rightarrow> [] | Some n \<Rightarrow> n),
      hintVersionID = (case version_id row of None \<Rightarrow> [] | Some v \<Rightarrow> v)\<rparr>"

definition rowDecision ::
  "'b Env \<Rightarrow> ClaimHandleRow \<Rightarrow> TerminalOutcome \<Rightarrow> string \<Rightarrow> UUID \<Rightarrow> UUID option \<Rightarrow> UUID option \<Rightarrow> TerminalDecision" where
  "rowDecision env row outcome producer instID parent lineageParent =
     \<lparr>tdClaimHandleID = ch_id row, tdSupervisorID = SupervisorID env, tdSource = HeldTerminal, tdOutcome = outcome,
      tdProducer = Some producer,
      tdScope = (case claim_scope_data row of None \<Rightarrow> [] | Some d \<Rightarrow> d),
      tdAddress = (case address row of None \<Rightarrow> [] | Some a \<Rightarrow> a),
      tdLeaseToken = producer_lease_token row, tdLifetime = lifetime row,
      tdCandidateHandle = producer_candidate_handle row,
      tdProducerName = (case producer_name row of None \<Rightarrow> [] | Some n \<Rightarrow> n),
      tdLineageHint = rowHint row instID, tdParentClaimHandleID = parent, tdLineageParentClaimHandleID = lineageParent\<rparr>"

abbreviation rowProducerName :: "ClaimHandleRow \<Rightarrow> string" where
  "rowProducerName row \<equiv> (case producer_name row of None \<Rightarrow> [] | Some n \<Rightarrow> n)"

type_synonym 'b resolver = "TerminalDecision \<Rightarrow> 'b World \<Rightarrow> 'b settled"

subsection \<open>Cancel walks\<close>

record cancelWalkOpts =
  optOutcome :: TerminalOutcome
  optSkip :: "ClaimHandleRow \<Rightarrow> bool"
  optParentClaimHandleID :: "ClaimHandleRow \<Rightarrow> UUID option"
  optLineageParentClaimHandleID :: "UUID option"

fun cancelClaimHandleWalk ::
  "'b Env \<Rightarrow> 'b resolver \<Rightarrow> cancelWalkOpts \<Rightarrow> ClaimHandleRow list \<Rightarrow> postCommitFn \<Rightarrow> 'b World \<Rightarrow> 'b settled" where
  "cancelClaimHandleWalk env rsv opts [] post w = Done (post, w)"
| "cancelClaimHandleWalk env rsv opts (row # rows) post w =
     (if optSkip opts row \<or> ch_state row \<noteq> ClaimHandleStateActive \<or> \<not> heldBy (SupervisorID env) row
        then cancelClaimHandleWalk env rsv opts rows post w
      else case LockForUpdate (claims w) (ch_id row) of
        None \<Rightarrow> cancelClaimHandleWalk env rsv opts rows post w
      | Some current \<Rightarrow>
          if ch_state current \<noteq> ClaimHandleStateActive then cancelClaimHandleWalk env rsv opts rows post w
          else out_bind (resolveProducerOrFail env (rowProducerName row) []) (\<lambda>producer.
               out_bind (acquirerInstanceID env (holder_node_id row)) (\<lambda>instID.
               out_bind (rsv (rowDecision env row (optOutcome opts) producer instID
                   (optParentClaimHandleID opts row) (optLineageParentClaimHandleID opts)) w) (\<lambda>(pc, w').
               cancelClaimHandleWalk env rsv opts rows (chainPostCommit post pc) w'))))"

definition cancelInFlightSiblings :: "'b Env \<Rightarrow> 'b resolver \<Rightarrow> UUID \<Rightarrow> UUID \<Rightarrow> 'b World \<Rightarrow> 'b settled" where
  "cancelInFlightSiblings env rsv parentID triggerID w =
     (case handleGet (claims w) parentID of
        None \<Rightarrow> Done ([], w)
      | Some parent \<Rightarrow>
          if ch_state parent \<noteq> ClaimHandleStateActive then Done ([], w)
          else case UnmarshalAggregationPolicy (aggregation_policy parent) of
            Inl _ \<Rightarrow> Done ([], w)
          | Inr policy \<Rightarrow>
              if Kind policy \<noteq> AggregationKindStrict then Done ([], w)
              else cancelClaimHandleWalk env rsv
                \<lparr>optOutcome = OutcomeAbandonSiblingCancel, optSkip = (\<lambda>row. ch_id row = triggerID),
                 optParentClaimHandleID = parent_claim_handle_id, optLineageParentClaimHandleID = None\<rparr>
                (ListChildClaimHandles (claims w) parentID) [] w)"

definition cancelDescendantClaims :: "'b Env \<Rightarrow> 'b resolver \<Rightarrow> UUID \<Rightarrow> 'b World \<Rightarrow> 'b settled" where
  "cancelDescendantClaims env rsv rowID w =
     cancelClaimHandleWalk env rsv
       \<lparr>optOutcome = OutcomeAbandonDescendantCancel, optSkip = (\<lambda>_. False),
        optParentClaimHandleID = (\<lambda>_. None), optLineageParentClaimHandleID = Some rowID\<rparr>
       (ListChildClaimHandles (claims w) rowID) [] w"

subsection \<open>Settling a fan-out parent\<close>

text \<open>The loop that closes the partition scopes of the children.\<close>

fun closePartitionScopes :: "'b Env \<Rightarrow> ClaimHandleRow list \<Rightarrow> postCommitFn \<Rightarrow> RunStore \<Rightarrow> postCommitFn \<times> RunStore" where
  "closePartitionScopes env [] post rs = (post, rs)"
| "closePartitionScopes env (c # cs) post rs =
     (case node_run_id c of
        None \<Rightarrow> closePartitionScopes env cs post rs
      | Some run \<Rightarrow>
          (case runGetByID rs run of
             None \<Rightarrow> closePartitionScopes env cs post rs
           | Some childRun \<Rightarrow>
               (case scopeGetByID rs (RunScopeID childRun) of
                  None \<Rightarrow> closePartitionScopes env cs post rs
                | Some childScope \<Rightarrow>
                    if PartitionKey childScope = [] then closePartitionScopes env cs post rs
                    else let pc = (case instancesGet env (InstanceID childScope) of
                               None \<Rightarrow> []
                             | Some inst \<Rightarrow>
                                 (case templatesGetByHash env (in_template_hash inst) of
                                    None \<Rightarrow> []
                                  | Some tpl \<Rightarrow> [FanOutRunScopeEvent tpl (RunScopeID childRun) (InstanceID childScope)
                                                    ''fanout_partition_terminal''])) in
                      closePartitionScopes env cs (chainPostCommit post pc) (scopeClose (dbNow env) (RunScopeID childRun) rs))))"

text \<open>The part after the parent was found settled: \<open>parent\<close> is the re-read row, held by \<open>holder\<close>.\<close>

definition settleParent ::
  "'b Env \<Rightarrow> 'b resolver \<Rightarrow> FanoutChildSettlementInput \<Rightarrow> ClaimHandleRow \<Rightarrow> string \<Rightarrow> postCommitFn \<Rightarrow> 'b World \<Rightarrow> 'b settled" where
  "settleParent env rsv inp parent holder post w =
     (let children = ListChildClaimHandles (claims w) (fiParentClaimHandleID inp);
          (post1, rs) = closePartitionScopes env children post (runs (graph w));
          w1 = w\<lparr>graph := (graph w)\<lparr>runs := rs\<rparr>\<rparr>;
          outcome = aggregateParentOutcome (Some parent) (fiChildOutcome inp) in
      out_bind (acquirerInstanceID env (holder_node_id parent)) (\<lambda>instID.
      out_bind (resolveProducerOrFail env (rowProducerName parent) (uuidString env instID)) (\<lambda>producer.
      out_bind (if holder = SupervisorID env then Done w1
                else out_bind (out_lift StoreError
                       (ReassignHolderSupervisor (fiParentClaimHandleID inp) holder (SupervisorID env) (claims w1)))
                       (\<lambda>c. Done (w1\<lparr>claims := c\<rparr>))) (\<lambda>w2.
      out_bind (rsv (rowDecision env parent outcome producer instID (parent_claim_handle_id parent) None) w2) (\<lambda>(pc, w3).
      Done (chainPostCommit post1 pc,
            (case node_run_id parent of
               Some run \<Rightarrow> if hasFanOutSemaphores env then w3\<lparr>effects := effects w3 @ [SemaphoreDrop run]\<rparr> else w3
             | None \<Rightarrow> w3)))))))"

definition SettleFromFanoutChild :: "'b Env \<Rightarrow> 'b resolver \<Rightarrow> FanoutChildSettlementInput \<Rightarrow> 'b World \<Rightarrow> 'b settled" where
  "SettleFromFanoutChild env rsv inp w =
     (case LockForUpdate (claims w) (fiParentClaimHandleID inp) of
        None \<Rightarrow> Done ([], w)
      | Some parent \<Rightarrow>
          out_bind (recordChildCommitMetadata env inp parent w) (\<lambda>w1.
          case holder_supervisor_id parent of
            None \<Rightarrow> Done ([], w1)
          | Some holder \<Rightarrow>
              if ch_state parent \<noteq> ClaimHandleStateActive then Done ([], w1)
              else
                out_bind (out_lift StoreError (BumpChildOutcomeCount (fiParentClaimHandleID inp) holder
                    (if IsAbandon (fiChildOutcome inp) then ''abandon'' else ''commit'') 1 (claims w1))) (\<lambda>c.
                out_bind (if IsAbandon (fiChildOutcome inp)
                          then cancelInFlightSiblings env rsv (fiParentClaimHandleID inp) (fiChildClaimHandleID inp) (w1\<lparr>claims := c\<rparr>)
                          else Done ([], w1\<lparr>claims := c\<rparr>)) (\<lambda>(post, w2).
                case handleGet (claims w2) (fiParentClaimHandleID inp) of
                  None \<Rightarrow> Done (post, w2)
                | Some refreshed \<Rightarrow>
                    (case holder_supervisor_id refreshed of
                       None \<Rightarrow> Done (post, w2)
                     | Some holder' \<Rightarrow>
                         if ch_state refreshed \<noteq> ClaimHandleStateActive then Done (post, w2)
                         else if list_ex (\<lambda>h. holder_state h = ClaimHolderStateActive)
                                   (ListByClaimHandleID (claims w2) (fiParentClaimHandleID inp)) then Done (post, w2)
                         else if list_ex (\<lambda>c. ch_state c = ClaimHandleStateActive)
                                   (ListChildClaimHandles (claims w2) (fiParentClaimHandleID inp)) then Done (post, w2)
                         else settleParent env rsv inp refreshed holder' post w2)))))"

subsection \<open>Resolving a handle\<close>

definition resolveBody :: "'b Env \<Rightarrow> 'b resolver \<Rightarrow> TerminalDecision \<Rightarrow> 'b World \<Rightarrow> 'b settled" where
  "resolveBody env rsv td w =
     (if tdProducer td = None then Fail (NilProducer (tdClaimHandleID td))
      else if \<not> valid (tdOutcome td) then Fail (UnknownTerminalOutcome (tdClaimHandleID td))
      else
        out_bind (dispatchDataProcessingTerminal env td w) (\<lambda>(candidateMetadata, w1).
        out_bind (enqueueProducerVerb env td w1) (\<lambda>w2.
        let w3 = emitTerminalForensics env td w2;
            post0 = kickProducerVerbDispatch env in
        out_bind (if IsAbandon (tdOutcome td) then cancelDescendantClaims env rsv (tdClaimHandleID td) w3 else Done ([], w3))
          (\<lambda>(pc, w4).
        out_bind (if tdSource td = OwnershipBail
                  then (case handleDelete (tdClaimHandleID td) (tdSupervisorID td) (claims w4) of
                          Inl e \<Rightarrow> Fail (StoreError e) | Inr c \<Rightarrow> Done (w4\<lparr>claims := c\<rparr>))
                  else promoteHandleState env td w4) (\<lambda>w5.
        out_bind (emitDeferredHeldCascade env td w5) (\<lambda>(heldPC, w6).
        let post = chainPostCommit (chainPostCommit post0 pc) heldPC in
        case tdParentClaimHandleID td of
          None \<Rightarrow> Done (post, w6)
        | Some parent \<Rightarrow>
            out_bind (SettleFromFanoutChild env rsv
                \<lparr>fiParentClaimHandleID = parent, fiChildClaimHandleID = tdClaimHandleID td,
                 fiChildOutcome = tdOutcome td, fiChildProducerMetadata = candidateMetadata\<rparr> w6) (\<lambda>(settlePC, w7).
            Done (chainPostCommit post settlePC, w7))))))))"

fun ResolveClaimHandleTerminal :: "nat \<Rightarrow> 'b Env \<Rightarrow> TerminalDecision \<Rightarrow> 'b World \<Rightarrow> 'b settled" where
  "ResolveClaimHandleTerminal 0 env td w = OutOfFuel"
| "ResolveClaimHandleTerminal (Suc n) env td w = resolveBody env (ResolveClaimHandleTerminal n env) td w"

subsection \<open>The automatic terminal\<close>

definition holderNodeTypes :: "'b Env \<Rightarrow> RunStore \<Rightarrow> ClaimHolderRow list \<Rightarrow> string list" where
  "holderNodeTypes env rs holders =
     concat (map (\<lambda>h. case runGetByID rs (holder_run_id h) of
         None \<Rightarrow> []
       | Some r \<Rightarrow> if NodeID r = zero_uuid then []
                   else (case nodesGet env (NodeID r) of None \<Rightarrow> [] | Some n \<Rightarrow> [nr_node_type n])) holders)"

definition expectedInheritorsMissing :: "'b Env \<Rightarrow> ClaimHandleRow \<Rightarrow> ClaimHolderRow list \<Rightarrow> 'b World \<Rightarrow> bool" where
  "expectedInheritorsMissing env row holders w =
     (case nodesGet env (holder_node_id row) of
        None \<Rightarrow> False
      | Some acquirer \<Rightarrow>
          (case instancesGet env (nr_instance_id acquirer) of
             None \<Rightarrow> False
           | Some inst \<Rightarrow>
               (case templatesGetByHash env (in_template_hash inst) of
                  None \<Rightarrow> False
                | Some tmpl \<Rightarrow>
                    (case LookupNodeDef tmpl (nr_node_type acquirer) of
                       None \<Rightarrow> False
                     | Some acqDef \<Rightarrow>
                         let alias = (case List.find (\<lambda>sref. refName sref = rowProducerName row) (ClaimProducers acqDef) of
                               None \<Rightarrow> [] | Some sref \<Rightarrow> AliasOf sref) in
                         if alias = [] then False
                         else (case findHoldingSubgraph (HoldingSubgraphsForTemplate tmpl) (nr_node_type acquirer) alias of
                                 None \<Rightarrow> False
                               | Some sg \<Rightarrow>
                                   if length (Members sg) \<le> 1 then False
                                   else list_ex (\<lambda>m. m \<notin> set (holderNodeTypes env (runs (graph w)) holders)) (Members sg))))))"

text \<open>The test hook \<open>CheckAndFireHook\<close> is not set outside tests and left out.\<close>

definition CheckAndFireResolution :: "nat \<Rightarrow> 'b Env \<Rightarrow> UUID \<Rightarrow> 'b World \<Rightarrow> 'b settled" where
  "CheckAndFireResolution n env claimHandleID w =
     (case LockForUpdate (claims w) claimHandleID of
        None \<Rightarrow> Done ([], w)
      | Some row \<Rightarrow>
          if \<not> heldBy (SupervisorID env) row then Done ([], w)
          else if ch_state row \<noteq> ClaimHandleStateActive then Done ([], w)
          else let holders = ListByClaimHandleID (claims w) claimHandleID;
                   anyActive = list_ex (\<lambda>h. holder_state h = ClaimHolderStateActive) holders;
                   anyFailed = list_ex (\<lambda>h. holder_state h = ClaimHolderStateFailed) holders in
            if holders = [] then Done ([], w)
            else if anyActive then Done ([], w)
            else if \<not> anyFailed \<and> expectedInheritorsMissing env row holders w then Done ([], w)
            else out_bind (resolveProducerOrFail env (rowProducerName row) []) (\<lambda>producer.
              let outcome = (if anyFailed then OutcomeAbandon else OutcomeCommit) in
              if expected_children_count row > 0 \<and> \<not> anyFailed \<and>
                 committed_children_count row + abandoned_children_count row < expected_children_count row
              then Done ([], w)
              else let outcome' = (if expected_children_count row > 0 \<and> \<not> anyFailed
                                   then aggregateParentOutcome (Some row) outcome else outcome) in
                out_bind (acquirerInstanceID env (holder_node_id row)) (\<lambda>instID.
                ResolveClaimHandleTerminal n env
                  (rowDecision env row outcome' producer instID (parent_claim_handle_id row) None) w)))"

end
