(* ===== verification/Settlement_Evolution.thy ===== *)
theory Settlement_Evolution
  imports Claim_Settlement
begin

text \<open>
  What settlement does to the claim tables, as a relation on stores. \<open>evolves env s s'\<close> says that
  \<open>s'\<close> came from \<open>s\<close> by resolving, taking over and counting on active handles only, that the outbox
  gained exactly one verb per resolved handle, matching its state, and that abandoning a handle resolved
  every child this supervisor held. The relation is reflexive and transitive; the steps of settlement
  are instances of it.
\<close>

subsection \<open>The relation\<close>

abbreviation active :: "ClaimHandleRow \<Rightarrow> bool" where
  "active r \<equiv> ch_state r = ClaimHandleStateActive"

definition row_evo :: "string \<Rightarrow> ClaimHandleRow \<Rightarrow> ClaimHandleRow \<Rightarrow> bool" where
  "row_evo supv r r' \<longleftrightarrow> ch_id r' = ch_id r \<and> parent_claim_handle_id r' = parent_claim_handle_id r \<and>
     (\<not> active r \<longrightarrow> r' = r) \<and> (heldBy supv r \<and> active r' \<longrightarrow> heldBy supv r')"

fun verbOf :: "ClaimHandleState \<Rightarrow> ProducerVerb" where
  "verbOf ClaimHandleStateCommitted = ProducerVerbCommit"
| "verbOf ClaimHandleStateAbandoned = ProducerVerbAbandon"
| "verbOf ClaimHandleStateActive = ProducerVerbRelease"

definition resolved_between :: "ClaimStore \<Rightarrow> ClaimStore \<Rightarrow> (UUID \<times> ProducerVerb) set" where
  "resolved_between s s' = {(i, v). \<exists>r r'. handleGet s i = Some r \<and> active r \<and>
     handleGet s' i = Some r' \<and> \<not> active r' \<and> v = verbOf (ch_state r')}"

definition verb_pairs :: "ProducerVerbOutboxRow list \<Rightarrow> (UUID \<times> ProducerVerb) list" where
  "verb_pairs obs = map (\<lambda>ob. (ob_claim_handle_id ob, verb ob)) obs"

definition owned_children_done :: "string \<Rightarrow> ClaimStore \<Rightarrow> ClaimStore \<Rightarrow> UUID \<Rightarrow> bool" where
  "owned_children_done supv s s' i \<longleftrightarrow>
     (\<forall>j q. handleGet s j = Some q \<and> parent_claim_handle_id q = Some i \<and> active q \<and> heldBy supv q \<longrightarrow>
        (\<exists>q'. handleGet s' j = Some q' \<and> \<not> active q'))"

definition evolves :: "'b Env \<Rightarrow> ClaimStore \<Rightarrow> ClaimStore \<Rightarrow> bool" where
  "evolves env s s' \<longleftrightarrow>
     list_all2 (row_evo (SupervisorID env)) (claim_handles s) (claim_handles s') \<and>
     claim_holders s' = claim_holders s \<and>
     (hasVerbOutbox env \<longrightarrow> (\<exists>new. verb_outbox s' = verb_outbox s @ new \<and> distinct (verb_pairs new) \<and>
        set (verb_pairs new) = resolved_between s s')) \<and>
     (\<forall>i r r'. handleGet s i = Some r \<and> active r \<and> handleGet s' i = Some r' \<and> ch_state r' = ClaimHandleStateAbandoned \<longrightarrow>
        owned_children_done (SupervisorID env) s s' i)"

lemma row_evo_refl: "row_evo supv r r"
  by (simp add: row_evo_def)

lemma row_evo_trans: "row_evo supv r r' \<Longrightarrow> row_evo supv r' r'' \<Longrightarrow> row_evo supv r r''"
  unfolding row_evo_def by (metis)

lemma all2_row_of:
  assumes "list_all2 (row_evo supv) rs rs'"
  shows "row_of ch_id i rs = None \<and> row_of ch_id i rs' = None \<or>
    (\<exists>r r'. row_of ch_id i rs = Some r \<and> row_of ch_id i rs' = Some r' \<and> row_evo supv r r')"
  using assms
proof (induction rule: list_all2_induct)
  case (Cons x xs y ys)
  then have "ch_id y = ch_id x" by (simp add: row_evo_def)
  with Cons show ?case by (cases "ch_id x = i") (simp_all add: row_of_def)
qed (simp add: row_of_def)

lemma evolves_get:
  assumes "evolves env s s'" and "handleGet s i = Some r"
  obtains r' where "handleGet s' i = Some r'" and "row_evo (SupervisorID env) r r'"
  using assms all2_row_of [of "SupervisorID env" "claim_handles s" "claim_handles s'" i]
  unfolding evolves_def handleGet_def by auto

lemma evolves_get_back:
  assumes "evolves env s s'" and "handleGet s' i = Some r'"
  obtains r where "handleGet s i = Some r" and "row_evo (SupervisorID env) r r'"
  using assms all2_row_of [of "SupervisorID env" "claim_handles s" "claim_handles s'" i]
  unfolding evolves_def handleGet_def by auto

lemma evolves_ids:
  assumes "evolves env s s'"
  shows "map ch_id (claim_handles s') = map ch_id (claim_handles s)"
    and "map parent_claim_handle_id (claim_handles s') = map parent_claim_handle_id (claim_handles s)"
proof -
  have "list_all2 (row_evo (SupervisorID env)) (claim_handles s) (claim_handles s')" using assms by (simp add: evolves_def)
  then show "map ch_id (claim_handles s') = map ch_id (claim_handles s)"
    and "map parent_claim_handle_id (claim_handles s') = map parent_claim_handle_id (claim_handles s)"
    by (induction rule: list_all2_induct) (simp_all add: row_evo_def)
qed

lemma evolves_inactive:
  assumes "evolves env s s'" and "handleGet s i = Some r" and "\<not> active r"
  shows "handleGet s' i = Some r"
  using assms(1,2) by (rule evolves_get) (use assms(3) in \<open>auto simp: row_evo_def\<close>)

lemma evolves_refl: "evolves env s s"
proof -
  have "list_all2 (row_evo (SupervisorID env)) (claim_handles s) (claim_handles s)"
    by (rule list_all2_refl) (rule row_evo_refl)
  then show ?thesis by (auto simp: evolves_def resolved_between_def verb_pairs_def)
qed

lemma resolved_between_trans:
  assumes "evolves env s s'" and "evolves env s' s''"
  shows "resolved_between s s'' = resolved_between s s' \<union> resolved_between s' s''"
    and "resolved_between s s' \<inter> resolved_between s' s'' = {}"
proof -
  have "(i, v) \<in> resolved_between s s' \<union> resolved_between s' s''" if iv: "(i, v) \<in> resolved_between s s''" for i v
  proof -
    from iv obtain r r'' where r: "handleGet s i = Some r" "active r" "handleGet s'' i = Some r''" "\<not> active r''" "v = verbOf (ch_state r'')"
      by (auto simp: resolved_between_def)
    obtain r' where r': "handleGet s' i = Some r'" using evolves_get [OF assms(1) r(1)] by blast
    show ?thesis
    proof (cases "active r'")
      case True
      with r r' show ?thesis by (auto simp: resolved_between_def)
    next
      case False
      with evolves_inactive [OF assms(2) r'] r r' show ?thesis by (auto simp: resolved_between_def)
    qed
  qed
  moreover have "(i, v) \<in> resolved_between s s''" if iv: "(i, v) \<in> resolved_between s s'" for i v
  proof -
    from iv obtain r r' where r: "handleGet s i = Some r" "active r" "handleGet s' i = Some r'" "\<not> active r'" "v = verbOf (ch_state r')"
      by (auto simp: resolved_between_def)
    with evolves_inactive [OF assms(2) r(3,4)] show ?thesis by (auto simp: resolved_between_def)
  qed
  moreover have "(i, v) \<in> resolved_between s s''" if iv: "(i, v) \<in> resolved_between s' s''" for i v
  proof -
    from iv obtain r' r'' where r: "handleGet s' i = Some r'" "active r'" "handleGet s'' i = Some r''" "\<not> active r''" "v = verbOf (ch_state r'')"
      by (auto simp: resolved_between_def)
    obtain q where q: "handleGet s i = Some q" "row_evo (SupervisorID env) q r'" by (rule evolves_get_back [OF assms(1) r(1)])
    then have "active q" using r(2) by (auto simp: row_evo_def)
    with q r show ?thesis by (auto simp: resolved_between_def)
  qed
  ultimately show "resolved_between s s'' = resolved_between s s' \<union> resolved_between s' s''" by auto
  show "resolved_between s s' \<inter> resolved_between s' s'' = {}" by (auto simp: resolved_between_def)
qed

lemma owned_children_trans:
  assumes "evolves env s s'" and "evolves env s' s''"
  shows "owned_children_done (SupervisorID env) s s' i \<Longrightarrow> owned_children_done (SupervisorID env) s s'' i"
    and "owned_children_done (SupervisorID env) s' s'' i \<Longrightarrow> owned_children_done (SupervisorID env) s s'' i"
proof -
  have "\<exists>q''. handleGet s'' j = Some q'' \<and> \<not> active q''"
    if q: "handleGet s j = Some q" "parent_claim_handle_id q = Some i" "active q" "heldBy (SupervisorID env) q"
      and d: "owned_children_done (SupervisorID env) s s' i \<or> owned_children_done (SupervisorID env) s' s'' i" for j q
  proof -
    obtain q' where q': "handleGet s' j = Some q'" "row_evo (SupervisorID env) q q'" by (rule evolves_get [OF assms(1) q(1)])
    show ?thesis
    proof (cases "active q'")
      case True
      have p: "parent_claim_handle_id q' = Some i" and h: "heldBy (SupervisorID env) q'"
        using q' q True by (auto simp: row_evo_def)
      from d show ?thesis
      proof
        assume "owned_children_done (SupervisorID env) s s' i"
        with q q' True show ?thesis unfolding owned_children_done_def by fastforce
      next
        assume "owned_children_done (SupervisorID env) s' s'' i"
        with q'(1) True p h show ?thesis unfolding owned_children_done_def by blast
      qed
    next
      case False
      with evolves_inactive [OF assms(2) q'(1)] show ?thesis by blast
    qed
  qed
  then show "owned_children_done (SupervisorID env) s s' i \<Longrightarrow> owned_children_done (SupervisorID env) s s'' i"
    and "owned_children_done (SupervisorID env) s' s'' i \<Longrightarrow> owned_children_done (SupervisorID env) s s'' i"
    unfolding owned_children_done_def by blast+
qed

lemma evolves_trans:
  assumes "evolves env s s'" and "evolves env s' s''"
  shows "evolves env s s''"
proof -
  have rows: "list_all2 (row_evo (SupervisorID env)) (claim_handles s) (claim_handles s'')"
    using assms by (auto simp: evolves_def intro: list_all2_trans [rotated] row_evo_trans)
  have verbs: "\<exists>new. verb_outbox s'' = verb_outbox s @ new \<and> distinct (verb_pairs new) \<and> set (verb_pairs new) = resolved_between s s''"
    if "hasVerbOutbox env"
  proof -
    from assms that obtain n1 n2 where n: "verb_outbox s' = verb_outbox s @ n1" "distinct (verb_pairs n1)" "set (verb_pairs n1) = resolved_between s s'"
      "verb_outbox s'' = verb_outbox s' @ n2" "distinct (verb_pairs n2)" "set (verb_pairs n2) = resolved_between s' s''"
      unfolding evolves_def by blast
    then have "verb_outbox s'' = verb_outbox s @ (n1 @ n2)" "distinct (verb_pairs (n1 @ n2))" "set (verb_pairs (n1 @ n2)) = resolved_between s s''"
      using resolved_between_trans [OF assms] by (simp_all add: verb_pairs_def)
    then show ?thesis by blast
  qed
  have "owned_children_done (SupervisorID env) s s'' i"
    if r: "handleGet s i = Some r" "active r" "handleGet s'' i = Some r''" "ch_state r'' = ClaimHandleStateAbandoned" for i r r''
  proof -
    obtain r' where r': "handleGet s' i = Some r'" "row_evo (SupervisorID env) r r'" by (rule evolves_get [OF assms(1) r(1)])
    show ?thesis
    proof (cases "active r'")
      case True
      with assms(2) r' r have "owned_children_done (SupervisorID env) s' s'' i" unfolding evolves_def by blast
      then show ?thesis by (rule owned_children_trans(2) [OF assms])
    next
      case False
      with evolves_inactive [OF assms(2) r'(1)] r have "r' = r''" by simp
      with assms(1) r r' have "owned_children_done (SupervisorID env) s s' i" unfolding evolves_def by blast
      then show ?thesis by (rule owned_children_trans(1) [OF assms])
    qed
  qed
  with rows verbs assms show ?thesis unfolding evolves_def by auto
qed

subsection \<open>Steps that keep every handle's state\<close>

lemma guarded_get:
  assumes "guarded_update g f s = Inr s'" and "\<And>r. ch_id (f r) = ch_id r"
  shows "handleGet s' i = map_option (\<lambda>r. if g r then f r else r) (handleGet s i)"
    and "claim_handles s' = update_where g f (claim_handles s)"
    and "claim_holders s' = claim_holders s" and "verb_outbox s' = verb_outbox s"
  using assms by (auto simp: guarded_update_def handleGet_def row_of_update_where split: if_splits)

lemma all2_update_where:
  "(\<And>r. r \<in> set rs \<Longrightarrow> g r \<Longrightarrow> P r (f r)) \<Longrightarrow> (\<And>r. P r r) \<Longrightarrow> list_all2 P rs (update_where g f rs)"
  by (induction rs) (auto simp: update_where_def)

lemma guarded_evolves:
  assumes up: "guarded_update g f s = Inr s'"
    and id: "\<And>r. ch_id (f r) = ch_id r" and st: "\<And>r. ch_state (f r) = ch_state r"
    and evo: "\<And>r. r \<in> set (claim_handles s) \<Longrightarrow> g r \<Longrightarrow> row_evo (SupervisorID env) r (f r)"
  shows "evolves env s s'"
proof -
  note gt = guarded_get [OF up id]
  have rows: "list_all2 (row_evo (SupervisorID env)) (claim_handles s) (claim_handles s')"
    unfolding gt(2) by (rule all2_update_where) (use evo row_evo_refl in auto)
  have st': "\<exists>r. handleGet s i = Some r \<and> ch_state r' = ch_state r" if "handleGet s' i = Some r'" for i r'
    using that gt(1) [of i] st by (auto split: if_splits)
  have "resolved_between s s' = {}"
    using st' by (auto simp: resolved_between_def) (metis option.inject)
  moreover have "\<not> (handleGet s i = Some r \<and> active r \<and> handleGet s' i = Some r' \<and> ch_state r' = ClaimHandleStateAbandoned)" for i r r'
    using st' by (metis ClaimHandleState.distinct(3) option.inject)
  ultimately show ?thesis using rows gt(3,4) by (auto simp: evolves_def verb_pairs_def)
qed

lemma inv_row: "claim_inv s \<Longrightarrow> r \<in> set (claim_handles s) \<Longrightarrow> row_inv r"
  by (simp add: claim_inv_def)

lemma inv_get: "claim_inv s \<Longrightarrow> handleGet s i = Some r \<longleftrightarrow> r \<in> set (claim_handles s) \<and> ch_id r = i"
  by (simp add: claim_inv_def handleGet_def row_of_Some_iff)

lemma held_active: "row_inv r \<Longrightarrow> heldBy v r \<Longrightarrow> active r"
  by (auto simp: row_inv_def handle_check_def heldBy_def)

lemma bump_evolves:
  assumes "BumpChildOutcomeCount i v k d s = Inr s'" and "claim_inv s"
  shows "evolves env s s'" and "claim_inv s'"
proof -
  from assms(1) consider
      "guarded_update (\<lambda>r. ch_id r = i \<and> heldBy v r) (\<lambda>r. r\<lparr>committed_children_count := committed_children_count r + d\<rparr>) s = Inr s'"
    | "guarded_update (\<lambda>r. ch_id r = i \<and> heldBy v r) (\<lambda>r. r\<lparr>abandoned_children_count := abandoned_children_count r + d\<rparr>) s = Inr s'"
    unfolding BumpChildOutcomeCount_def by (auto split: if_splits)
  then show "evolves env s s'"
  proof cases
    case 1
    then show ?thesis
      by (rule guarded_evolves) (use inv_row [OF assms(2)] held_active in \<open>auto simp: row_evo_def heldBy_def\<close>)
  next
    case 2
    then show ?thesis
      by (rule guarded_evolves) (use inv_row [OF assms(2)] held_active in \<open>auto simp: row_evo_def heldBy_def\<close>)
  qed
  show "claim_inv s'" using outcome_inv assms by blast
qed

lemma reassign_evolves:
  assumes "ReassignHolderSupervisor i v (SupervisorID env) s = Inr s'" and "claim_inv s"
    and "handleGet s i = Some r" "active r" "heldBy v r"
  shows "evolves env s s'" and "claim_inv s'" and "handleGet s' i = Some (r\<lparr>holder_supervisor_id := Some (SupervisorID env)\<rparr>)"
proof -
  from assms(1) have g: "guarded_update (\<lambda>r. ch_id r = i \<and> active r \<and> heldBy v r)
      (\<lambda>r. r\<lparr>holder_supervisor_id := Some (SupervisorID env)\<rparr>) s = Inr s'"
    by (auto simp: ReassignHolderSupervisor_def split: if_splits)
  then show "evolves env s s'" by (rule guarded_evolves) (auto simp: row_evo_def heldBy_def)
  show "claim_inv s'" using reassign_inv assms(1,2) by blast
  have "ch_id r = i" using assms(2,3) by (simp add: inv_get)
  with guarded_get(1) [OF g, of i] assms(3-5)
  show "handleGet s' i = Some (r\<lparr>holder_supervisor_id := Some (SupervisorID env)\<rparr>)" by simp
qed

subsection \<open>Resolving one handle\<close>

definition unqueued :: "ClaimStore \<Rightarrow> UUID \<Rightarrow> bool" where
  "unqueued s i \<longleftrightarrow> (\<forall>ob \<in> set (verb_outbox s). ob_claim_handle_id ob \<noteq> i)"

definition promoted :: "time \<Rightarrow> ClaimHandleState \<Rightarrow> ClaimHandleRow \<Rightarrow> ClaimHandleRow" where
  "promoted now st r = r\<lparr>ch_state := st, holder_supervisor_id := None, resolved_at := Some now\<rparr>"

lemma promote_ok:
  assumes "claim_inv s" and "handleGet s i = Some r" "active r" "heldBy v r" and "st \<noteq> ClaimHandleStateActive"
  obtains s' where "Promote now i v st s = Inr s'" "claim_inv s'"
    "claim_handles s' = update_where (\<lambda>r. ch_id r = i \<and> active r \<and> heldBy v r) (promoted now st) (claim_handles s)"
    "claim_holders s' = claim_holders s" "verb_outbox s' = verb_outbox s"
    "\<forall>j. j \<noteq> i \<longrightarrow> handleGet s' j = handleGet s j" "handleGet s' i = Some (promoted now st r)"
proof -
  let ?g = "\<lambda>r. ch_id r = i \<and> active r \<and> heldBy v r"
  have r: "r \<in> set (claim_handles s)" "ch_id r = i" using assms(1,2) by (simp_all add: inv_get)
  have some: "affected ?g (claim_handles s) \<noteq> 0" unfolding affected_0_iff using r assms(3,4) by blast
  have ok: "\<not> list_ex (\<lambda>r. ?g r \<and> \<not> handle_check (promoted now st r)) (claim_handles s)"
    using inv_row [OF assms(1)] assms(5) by (auto simp: list_ex_iff row_inv_def handle_check_def promoted_def)
  have pr: "Promote now i v st s = guarded_update ?g (promoted now st) s"
    by (simp add: Promote_def promoted_def [abs_def])
  then obtain s' where s': "Promote now i v st s = Inr s'" "guarded_update ?g (promoted now st) s = Inr s'"
    using some ok by (simp add: guarded_update_def)
  note gt = guarded_get [OF s'(2)]
  have inv': "claim_inv s'" using promote_write.keeps_invariant s'(1) assms(1) unfolding Promote_def by blast
  have other: "handleGet s' j = handleGet s j" if "j \<noteq> i" for j
  proof (cases "handleGet s j")
    case (Some q)
    then have "ch_id q = j" using assms(1) by (simp add: inv_get)
    with Some that gt(1) [of j] show ?thesis by (simp add: promoted_def)
  qed (use gt(1) [of j] in \<open>simp add: promoted_def\<close>)
  show ?thesis
    by (rule that [OF s'(1) inv']) (use gt other r assms(2-4) in \<open>simp_all add: promoted_def\<close>)
qed

text \<open>The verb is queued first, the handle is promoted last; in between other handles evolve.\<close>

definition queued :: "'b Env \<Rightarrow> ProducerVerbOutboxInsertInput \<Rightarrow> ClaimStore \<Rightarrow> ClaimStore" where
  "queued env inp s = (if hasVerbOutbox env then Enqueue inp s else s)"

lemma queued_handles: "claim_handles (queued env inp s) = claim_handles s" "claim_holders (queued env inp s) = claim_holders s"
  by (simp_all add: queued_def Enqueue_def)

lemma queued_get [simp]: "handleGet (queued env inp s) i = handleGet s i"
  by (simp add: handleGet_def queued_handles)

lemma queued_inv: "claim_inv s \<Longrightarrow> claim_inv (queued env inp s)"
  by (simp add: queued_def Enqueue_inv)

lemma queued_outbox:
  assumes "hasVerbOutbox env" and "unqueued s (oiClaimHandleID inp)"
  obtains n where "verb_outbox (queued env inp s) = verb_outbox s @ [outboxRow n inp]"
  using assms by (auto simp: queued_def Enqueue_def unqueued_def list_ex_iff)

lemma unqueued_queued:
  "i \<noteq> oiClaimHandleID inp \<Longrightarrow> unqueued (queued env inp s) i = unqueued s i"
  by (auto simp: queued_def Enqueue_def unqueued_def)

lemma owned_children_queued: "owned_children_done v (queued env inp s) s' i = owned_children_done v s s' i"
  by (simp add: owned_children_done_def)

lemma resolved_between_queued: "resolved_between (queued env inp s) s' = resolved_between s s'"
  by (simp add: resolved_between_def)

lemma resolved_between_one:
  assumes "handleGet s X = Some r" "active r" "handleGet s2 X = Some r" "handleGet s3 X = Some r'" "\<not> active r'"
    and oth: "\<And>j. j \<noteq> X \<Longrightarrow> handleGet s3 j = handleGet s2 j"
  shows "resolved_between s s3 = insert (X, verbOf (ch_state r')) (resolved_between s s2)"
    and "(X, v) \<notin> resolved_between s s2"
proof -
  have "(i, v) \<in> resolved_between s s3 \<longleftrightarrow> (i, v) \<in> insert (X, verbOf (ch_state r')) (resolved_between s s2)" for i v
  proof (cases "i = X")
    case True
    with assms(1-5) show ?thesis by (auto simp: resolved_between_def)
  next
    case False
    with oth [OF False] show ?thesis by (simp add: resolved_between_def)
  qed
  then show "resolved_between s s3 = insert (X, verbOf (ch_state r')) (resolved_between s s2)" by auto
  show "(X, v) \<notin> resolved_between s s2" using assms(2,3) by (auto simp: resolved_between_def)
qed

lemma owned_children_one:
  assumes d: "owned_children_done v s s2 i" and X: "handleGet s3 X = Some r'" "\<not> active r'"
    and oth: "\<And>j. j \<noteq> X \<Longrightarrow> handleGet s3 j = handleGet s2 j"
  shows "owned_children_done v s s3 i"
  unfolding owned_children_done_def
proof (intro allI impI, elim conjE)
  fix j q assume q: "handleGet s j = Some q" "parent_claim_handle_id q = Some i" "active q" "heldBy v q"
  show "\<exists>q'. handleGet s3 j = Some q' \<and> \<not> active q'"
  proof (cases "j = X")
    case True
    with X show ?thesis by blast
  next
    case False
    with oth [OF False] d q show ?thesis unfolding owned_children_done_def by simp
  qed
qed

lemma queued_verbs:
  assumes "hasVerbOutbox env" and "unqueued s (oiClaimHandleID inp)" and ev: "evolves env (queued env inp s) s2"
    and new: "(oiClaimHandleID inp, oiVerb inp) \<notin> resolved_between s s2"
  obtains n where "verb_outbox s2 = verb_outbox s @ n" "distinct (verb_pairs n)"
    "set (verb_pairs n) = insert (oiClaimHandleID inp, oiVerb inp) (resolved_between s s2)"
proof -
  obtain n where q: "verb_outbox (queued env inp s) = verb_outbox s @ [outboxRow n inp]"
    by (rule queued_outbox [OF assms(1,2)])
  from ev assms(1) obtain n2 where n2: "verb_outbox s2 = verb_outbox (queued env inp s) @ n2" "distinct (verb_pairs n2)"
    "set (verb_pairs n2) = resolved_between s s2"
    unfolding evolves_def resolved_between_queued by blast
  have p: "verb_pairs (outboxRow n inp # n2) = (oiClaimHandleID inp, oiVerb inp) # verb_pairs n2"
    by (simp add: verb_pairs_def)
  show ?thesis
    by (rule that [of "outboxRow n inp # n2"]) (use q n2 p new in simp_all)
qed

lemma resolve_core:
  assumes inv2: "claim_inv s2" and X: "handleGet s X = Some r" "active r" "heldBy (SupervisorID env) r"
    and unq: "hasVerbOutbox env \<Longrightarrow> unqueued s X" and inp: "oiClaimHandleID inp = X" "oiVerb inp = verbOf st"
    and ev: "evolves env (queued env inp s) s2" and X2: "handleGet s2 X = Some r"
    and kids: "st = ClaimHandleStateAbandoned \<Longrightarrow> owned_children_done (SupervisorID env) s s2 X"
    and st: "st \<noteq> ClaimHandleStateActive" and p: "Promote now X (SupervisorID env) st s2 = Inr s3"
  shows "evolves env s s3"
proof -
  let ?v = "SupervisorID env"
  obtain s3' where s3': "Promote now X ?v st s2 = Inr s3'" "claim_inv s3'"
    "claim_handles s3' = update_where (\<lambda>r. ch_id r = X \<and> active r \<and> heldBy ?v r) (promoted now st) (claim_handles s2)"
    "claim_holders s3' = claim_holders s2" "verb_outbox s3' = verb_outbox s2"
    "\<forall>j. j \<noteq> X \<longrightarrow> handleGet s3' j = handleGet s2 j" "handleGet s3' X = Some (promoted now st r)"
    by (rule promote_ok [OF inv2 X2 X(2,3) st, where now = now], rule that)
  have eq: "s3' = s3" using p s3'(1) by simp
  note s3 = s3' [unfolded eq]
  have X3: "\<not> active (promoted now st r)" "ch_state (promoted now st r) = st" using st by (simp_all add: promoted_def)
  have "list_all2 (row_evo ?v) (claim_handles s2) (claim_handles s3)"
    unfolding s3(3) by (rule all2_update_where) (use st in \<open>simp_all add: row_evo_def promoted_def\<close>)
  then have rows: "list_all2 (row_evo ?v) (claim_handles s) (claim_handles s3)"
    using ev unfolding evolves_def queued_handles by (blast intro: list_all2_trans [rotated] row_evo_trans)
  note N = resolved_between_one [OF X(1,2) X2 s3(7) X3(1) s3(6) [rule_format], unfolded X3(2)]
  have verbs: "\<exists>new. verb_outbox s3 = verb_outbox s @ new \<and> distinct (verb_pairs new) \<and> set (verb_pairs new) = resolved_between s s3"
    if vo: "hasVerbOutbox env"
    using queued_verbs [OF vo _ ev] unq [OF vo] N s3(5) inp by metis
  have "owned_children_done ?v s s3 i"
    if q: "handleGet s i = Some a" "active a" "handleGet s3 i = Some b" "ch_state b = ClaimHandleStateAbandoned" for i a b
  proof (cases "i = X")
    case True
    with q s3(7) X3 have "st = ClaimHandleStateAbandoned" by simp
    with kids True show ?thesis using owned_children_one [OF _ s3(7) X3(1) s3(6) [rule_format]] by simp
  next
    case False
    with q s3(6) [rule_format, OF False] have "handleGet s2 i = Some b" by simp
    with ev q have "owned_children_done ?v s s2 i" unfolding evolves_def queued_get owned_children_queued by blast
    then show ?thesis using s3(7) X3(1) s3(6) [rule_format] by (rule owned_children_one)
  qed
  moreover have "claim_holders s3 = claim_holders s" using ev s3(4) by (simp add: evolves_def queued_handles)
  ultimately show "evolves env s s3" using rows verbs unfolding evolves_def by blast
qed

subsection \<open>Positions\<close>

text \<open>Settlement never moves a handle in the table. Below a position nothing changes when only
  handles at or after it are touched.\<close>

definition same_below :: "nat \<Rightarrow> ClaimStore \<Rightarrow> ClaimStore \<Rightarrow> bool" where
  "same_below k s s' \<longleftrightarrow> take k (claim_handles s') = take k (claim_handles s)"

lemma position_ids: "map ch_id rs = map ch_id rs' \<Longrightarrow> position rs i = position rs' i"
proof (induction rs arbitrary: rs')
  case (Cons r rs)
  then obtain q qs where "rs' = q # qs" by (cases rs') auto
  with Cons.IH [of qs] Cons.prems show ?case by (simp add: position_def)
qed simp

lemma position_lt: "i \<in> ch_id ` set rs \<Longrightarrow> position rs i < length rs"
  using position_append [of i rs "[]"] by simp

lemma row_of_take: "position rs i < k \<Longrightarrow> row_of ch_id i rs = row_of ch_id i (take k rs)"
proof (induction rs arbitrary: k)
  case (Cons r rs)
  then show ?case by (cases k) (auto simp: position_def row_of_def)
qed simp

lemma take_update_where:
  "k \<le> position rs i \<Longrightarrow> (\<And>r. g r \<Longrightarrow> ch_id r = i) \<Longrightarrow> take k (update_where g f rs) = take k rs"
proof (induction rs arbitrary: k)
  case (Cons r rs)
  then show ?case by (cases k) (auto simp: position_def update_where_def split: if_splits)
qed (simp add: update_where_def)

lemma evolves_position: "evolves env s s' \<Longrightarrow> position (claim_handles s') i = position (claim_handles s) i"
  by (rule position_ids) (rule evolves_ids(1))

lemma evolves_length: "evolves env s s' \<Longrightarrow> length (claim_handles s') = length (claim_handles s)"
  using evolves_ids(1) [of env s s'] map_eq_imp_length_eq by blast

lemma same_below_get:
  assumes "same_below k s s'" and "evolves env s s'" and "position (claim_handles s) i < k"
  shows "handleGet s' i = handleGet s i"
  using assms(1) row_of_take [OF assms(3)] row_of_take [of "claim_handles s'" i k] assms(3) evolves_position [OF assms(2)]
  by (simp add: handleGet_def same_below_def)

lemma same_below_mono: "same_below k s s' \<Longrightarrow> j \<le> k \<Longrightarrow> same_below j s s'"
  unfolding same_below_def by (metis min.absorb1 take_take)

lemma same_below_0 [simp]: "same_below 0 s s'"
  by (simp add: same_below_def)

lemma handle_position: "handleGet s i = Some r \<Longrightarrow> position (claim_handles s) i < length (claim_handles s)"
  by (rule position_lt) (auto simp: handleGet_def dest: row_of_SomeD)

lemma child_position:
  assumes "claim_inv s" and "handleGet s j = Some q" and "parent_claim_handle_id q = Some i"
  shows "position (claim_handles s) i < position (claim_handles s) j"
  using parent_position(2) [of "claim_handles s" q i] assms by (simp add: claim_inv_def inv_get)

subsection \<open>What a settlement keeps\<close>

definition kept :: "'b Env \<Rightarrow> nat \<Rightarrow> ClaimStore \<Rightarrow> ClaimStore \<Rightarrow> bool" where
  "kept env k s s' \<longleftrightarrow> evolves env s s' \<and> claim_inv s' \<and> same_below k s s'"

definition resolved :: "ClaimStore \<Rightarrow> UUID \<Rightarrow> bool" where
  "resolved s i \<longleftrightarrow> (\<exists>r. handleGet s i = Some r \<and> \<not> active r)"

text \<open>No verb is queued for an active handle at position \<open>k\<close> or later.\<close>

definition fresh :: "'b Env \<Rightarrow> nat \<Rightarrow> ClaimStore \<Rightarrow> bool" where
  "fresh env k s \<longleftrightarrow> (hasVerbOutbox env \<longrightarrow> (\<forall>i r. handleGet s i = Some r \<and> active r \<and>
     k \<le> position (claim_handles s) i \<longrightarrow> unqueued s i))"

definition actives :: "ClaimStore \<Rightarrow> nat" where
  "actives s = length (filter active (claim_handles s))"

lemma kept_refl: "claim_inv s \<Longrightarrow> kept env k s s"
  by (simp add: kept_def evolves_refl same_below_def)

lemma kept_trans: "kept env k s s' \<Longrightarrow> kept env k s' s'' \<Longrightarrow> kept env k s s''"
  by (auto simp: kept_def same_below_def intro: evolves_trans)

lemma kept_mono: "kept env k s s' \<Longrightarrow> j \<le> k \<Longrightarrow> kept env j s s'"
  by (auto simp: kept_def intro: same_below_mono)

lemma resolved_evolves: "resolved s i \<Longrightarrow> evolves env s s' \<Longrightarrow> resolved s' i"
  by (auto simp: resolved_def dest: evolves_inactive)

lemma fresh_mono: "fresh env k s \<Longrightarrow> k \<le> j \<Longrightarrow> fresh env j s"
  by (auto simp: fresh_def)

lemma fresh_evolves:
  assumes "fresh env k s" and ev: "evolves env s s'"
  shows "fresh env k s'"
  unfolding fresh_def
proof (intro impI allI, elim conjE)
  fix i r' assume vo: "hasVerbOutbox env" and r': "handleGet s' i = Some r'" "active r'" "k \<le> position (claim_handles s') i"
  obtain r where r: "handleGet s i = Some r" "row_evo (SupervisorID env) r r'" by (rule evolves_get_back [OF ev r'(1)])
  with r'(2) have "active r" by (auto simp: row_evo_def)
  with assms(1) vo r r'(3) evolves_position [OF ev] have u: "unqueued s i" by (simp add: fresh_def)
  from ev vo obtain n where n: "verb_outbox s' = verb_outbox s @ n" "set (verb_pairs n) = resolved_between s s'"
    unfolding evolves_def by blast
  have "ob_claim_handle_id ob \<noteq> i" if "ob \<in> set n" for ob
  proof
    assume "ob_claim_handle_id ob = i"
    with that have "(i, verb ob) \<in> set (verb_pairs n)" by (auto simp: verb_pairs_def)
    with n(2) r' show False by (auto simp: resolved_between_def)
  qed
  with n(1) u show "unqueued s' i" by (auto simp: unqueued_def)
qed

lemma actives_all2:
  "list_all2 (row_evo v) rs rs' \<Longrightarrow> length (filter active rs') \<le> length (filter active rs)"
  by (induction rule: list_all2_induct) (auto simp: row_evo_def)

lemma actives_all2_less:
  "list_all2 (row_evo v) rs rs' \<Longrightarrow> \<exists>r \<in> set rs. active r \<and> (\<forall>r' \<in> set rs'. ch_id r' = ch_id r \<longrightarrow> \<not> active r') \<Longrightarrow>
   length (filter active rs') < length (filter active rs)"
proof (induction rule: list_all2_induct)
  case (Cons x xs y ys)
  from Cons.hyps actives_all2 have le: "length (filter active ys) \<le> length (filter active xs)" by blast
  from Cons.hyps(1) have xy: "ch_id y = ch_id x" "active y \<Longrightarrow> active x" by (auto simp: row_evo_def)
  from Cons.prems obtain r where r: "r \<in> set (x # xs)" "active r" "\<forall>r' \<in> set (y # ys). ch_id r' = ch_id r \<longrightarrow> \<not> active r'" by blast
  show ?case
  proof (cases "r = x")
    case True
    with r xy le show ?thesis by simp
  next
    case False
    with r Cons.IH have "length (filter active ys) < length (filter active xs)" by auto
    with xy show ?thesis by simp
  qed
qed simp

lemma actives_mono: "evolves env s s' \<Longrightarrow> actives s' \<le> actives s"
  unfolding actives_def evolves_def using actives_all2 by blast

lemma actives_less:
  assumes "evolves env s s'" and "claim_inv s" and "claim_inv s'" and "handleGet s i = Some r" "active r" and "resolved s' i"
  shows "actives s' < actives s"
proof -
  have "r \<in> set (claim_handles s)" "ch_id r = i" using assms(2,4) by (simp_all add: inv_get)
  moreover have "\<forall>r' \<in> set (claim_handles s'). ch_id r' = i \<longrightarrow> \<not> active r'"
    using assms(6) inv_get [OF assms(3)] by (metis option.inject resolved_def)
  ultimately show ?thesis unfolding actives_def using assms(1,5) actives_all2_less unfolding evolves_def by blast
qed

end
