(* ===== verification/Claim_Settlement_Props.thy ===== *)
theory Claim_Settlement_Props
  imports Settlement_Evolution
begin

text \<open>
  Correctness of settlement. \<open>out_ok t Q x\<close> says of an outcome \<open>x\<close> that it did not run out of fuel if \<open>t\<close>
  holds and that a result satisfies \<open>Q\<close>; its rules follow the sequencing of the definitions. The
  lemmas go through the functions in the order of Claim\_Settlement and end in one induction on the
  fuel, which gives termination and the effect of a settlement on the claim tables together.
\<close>

subsection \<open>Outcomes\<close>

definition out_ok :: "bool \<Rightarrow> ('a \<Rightarrow> bool) \<Rightarrow> 'a outcome \<Rightarrow> bool" where
  "out_ok t Q x = (case x of OutOfFuel \<Rightarrow> \<not> t | Fail _ \<Rightarrow> True | Done a \<Rightarrow> Q a)"

lemma out_ok_simps [simp]:
  "out_ok t Q OutOfFuel \<longleftrightarrow> \<not> t" "out_ok t Q (Fail e)" "out_ok t Q (Done a) \<longleftrightarrow> Q a"
  by (simp_all add: out_ok_def)

lemma out_ok_bind: "out_ok t (\<lambda>a. out_ok t Q (f a)) x \<Longrightarrow> out_ok t Q (out_bind x f)"
  by (cases x) simp_all

lemma out_ok_lift: "(\<And>a. x = Inr a \<Longrightarrow> Q a) \<Longrightarrow> out_ok t Q (out_lift k x)"
  by (cases x) simp_all

lemma out_ok_mono: "out_ok t Q x \<Longrightarrow> (t' \<Longrightarrow> t) \<Longrightarrow> (\<And>a. Q a \<Longrightarrow> Q' a) \<Longrightarrow> out_ok t' Q' x"
  by (cases x) auto

lemma out_ok_seq: "out_ok t P x \<Longrightarrow> (\<And>a. P a \<Longrightarrow> out_ok t Q (f a)) \<Longrightarrow> out_ok t Q (out_bind x f)"
  by (rule out_ok_bind) (rule out_ok_mono)

lemma out_ok_seqT: "out_ok True P x \<Longrightarrow> (\<And>a. P a \<Longrightarrow> out_ok t Q (f a)) \<Longrightarrow> out_ok t Q (out_bind x f)"
  by (cases x) simp_all

lemma out_okI: "(x = OutOfFuel \<Longrightarrow> \<not> t) \<Longrightarrow> (\<And>a. x = Done a \<Longrightarrow> Q a) \<Longrightarrow> out_ok t Q x"
  by (cases x) auto

subsection \<open>Steps that leave the claims alone\<close>

abbreviation same_claims :: "'b World \<Rightarrow> 'b World \<Rightarrow> bool" where
  "same_claims w w' \<equiv> claims w' = claims w"

lemma acquirer_ok: "out_ok t (\<lambda>_. True) (acquirerInstanceID env i)"
  by (simp add: acquirerInstanceID_def split: option.splits)

lemma producer_ok: "out_ok t (\<lambda>_. True) (resolveProducerOrFail env p i)"
  by (simp add: resolveProducerOrFail_def split: option.splits sum.splits)

lemma template_ok: "out_ok t (\<lambda>_. True) (loadTemplateSpec env i)"
  by (simp add: loadTemplateSpec_def split: option.splits)

lemma dispatch_ok: "out_ok t (\<lambda>(m, w'). same_claims w w') (dispatchDataProcessingTerminal env td w)"
  by (simp add: dispatchDataProcessingTerminal_def split: option.splits)

lemma forensics_claims: "same_claims w (emitTerminalForensics env td w)"
  by (simp add: emitTerminalForensics_def Let_def split: option.splits)

lemma out_ok_True: "out_ok t (\<lambda>_. True) x \<longleftrightarrow> t \<longrightarrow> x \<noteq> OutOfFuel"
  by (cases x) simp_all

lemma out_bind_fuel: "out_bind x f = OutOfFuel \<longleftrightarrow> x = OutOfFuel \<or> (\<exists>a. x = Done a \<and> f a = OutOfFuel)"
  by (cases x) simp_all

lemma out_lift_fuel [simp]: "out_lift k x \<noteq> OutOfFuel"
  by (cases x) simp_all

lemma settleHolder_ok: "out_ok t (\<lambda>_. True) (settleHolder env r p g)"
proof -
  have "loadTemplateSpec env i \<noteq> OutOfFuel" "holderSettlementAttributes env g j \<noteq> OutOfFuel" for i j
    using template_ok [of True env i] by (simp_all add: out_ok_True holderSettlementAttributes_def out_bind_fuel)
  then show ?thesis
    unfolding settleHolder_def out_ok_True Let_def
    by (cases p) (simp_all add: out_bind_fuel split: sum.splits settle_error.splits cascade_error.splits option.splits)
qed

lemma transition_ok: "out_ok t (\<lambda>(pc, w'). same_claims w w') (transitionHolderIfFullyResolved env i w)"
  unfolding transitionHolderIfFullyResolved_def Let_def
  by (auto split: option.splits intro!: out_ok_seq [OF settleHolder_ok])

lemma transitionHolders_ok: "out_ok t (\<lambda>(pc, w'). same_claims w w') (transitionHolders env is post w)"
proof (induction env "is" post w rule: transitionHolders.induct)
  case (2 env i rest post w)
  show ?case
    unfolding transitionHolders.simps
    by (rule out_ok_seq [OF transition_ok]) (use 2 in \<open>fastforce intro: out_ok_mono\<close>)
qed simp

lemma cascade_ok: "out_ok t (\<lambda>(pc, w'). same_claims w w') (emitDeferredHeldCascade env td w)"
  by (simp add: emitDeferredHeldCascade_def Let_def transitionHolders_ok)

lemma recordChild_ok: "out_ok t (same_claims w) (recordChildCommitMetadata env inp parent w)"
  unfolding recordChildCommitMetadata_def Let_def
  by (auto split: option.splits prod.splits intro!: out_ok_bind out_ok_lift)

subsection \<open>The verb and the promotion\<close>

abbreviation stateFor :: "TerminalOutcome \<Rightarrow> ClaimHandleState" where
  "stateFor ot \<equiv> (if IsAbandon ot then ClaimHandleStateAbandoned else ClaimHandleStateCommitted)"

lemma enqueue_ok:
  assumes "valid (tdOutcome td)"
  shows "out_ok t (\<lambda>w'. \<exists>inp. claims w' = queued env inp (claims w) \<and> oiClaimHandleID inp = tdClaimHandleID td \<and>
      oiVerb inp = verbOf (stateFor (tdOutcome td))) (enqueueProducerVerb env td w)"
proof (cases "hasVerbOutbox env")
  case False
  have "\<exists>inp. oiClaimHandleID inp = tdClaimHandleID td \<and> oiVerb inp = verbOf (stateFor (tdOutcome td))"
    by (meson ProducerVerbOutboxInsertInput.select_convs(1,3))
  with False show ?thesis by (simp add: enqueueProducerVerb_def queued_def)
next
  case True
  have "producerVerbForOutcome (tdOutcome td) = Some (verbOf (stateFor (tdOutcome td)))"
    by (auto simp: producerVerbForOutcome_def IsAbandon_def)
  with True show ?thesis
    by (cases "Clock env") (auto simp: enqueueProducerVerb_def queued_def Let_def intro!: exI)
qed

lemma promote_done:
  assumes "claim_inv (claims w)" and "handleGet (claims w) (tdClaimHandleID td) = Some r" "active r" "heldBy (tdSupervisorID td) r"
  obtains c where "promoteHandleState env td w = Done (w\<lparr>claims := c\<rparr>)"
    "Promote (dbNow env) (tdClaimHandleID td) (tdSupervisorID td) (stateFor (tdOutcome td)) (claims w) = Inr c" "claim_inv c"
    "claim_handles c = update_where (\<lambda>r. ch_id r = tdClaimHandleID td \<and> active r \<and> heldBy (tdSupervisorID td) r)
       (promoted (dbNow env) (stateFor (tdOutcome td))) (claim_handles (claims w))"
    "handleGet c (tdClaimHandleID td) = Some (promoted (dbNow env) (stateFor (tdOutcome td)) r)"
proof -
  have ne: "stateFor (tdOutcome td) \<noteq> ClaimHandleStateActive" by simp
  obtain c where c: "Promote (dbNow env) (tdClaimHandleID td) (tdSupervisorID td) (stateFor (tdOutcome td)) (claims w) = Inr c" "claim_inv c"
    "claim_handles c = update_where (\<lambda>r. ch_id r = tdClaimHandleID td \<and> active r \<and> heldBy (tdSupervisorID td) r)
       (promoted (dbNow env) (stateFor (tdOutcome td))) (claim_handles (claims w))"
    "handleGet c (tdClaimHandleID td) = Some (promoted (dbNow env) (stateFor (tdOutcome td)) r)"
    by (rule promote_ok [OF assms ne, where now = "dbNow env"], rule that)
  then have "promoteHandleState env td w = Done (w\<lparr>claims := c\<rparr>)" by (simp add: promoteHandleState_def)
  then show ?thesis using c by (rule that)
qed

subsection \<open>Walks\<close>

definition walked :: "'b Env \<Rightarrow> nat \<Rightarrow> cancelWalkOpts \<Rightarrow> ClaimHandleRow list \<Rightarrow> 'b World \<Rightarrow> postCommitFn \<times> 'b World \<Rightarrow> bool" where
  "walked env k opts rows w res \<longleftrightarrow> kept env k (claims w) (claims (snd res)) \<and>
     (\<forall>row \<in> set rows. \<not> optSkip opts row \<and> active row \<and> heldBy (SupervisorID env) row \<longrightarrow> resolved (claims (snd res)) (ch_id row))"

lemma walked_Cons:
  assumes "kept env k (claims w) (claims w1)" and "walked env k opts rows w1 res"
    and "optSkip opts row \<or> \<not> active row \<or> \<not> heldBy (SupervisorID env) row \<or> resolved (claims w1) (ch_id row)"
  shows "walked env k opts (row # rows) w res"
  using assms kept_trans resolved_evolves unfolding walked_def kept_def by (metis same_below_def set_ConsD evolves_trans)

lemma walk_ok:
  assumes rows: "\<And>row. row \<in> set rows \<Longrightarrow> handleGet sx (ch_id row) = Some row"
    and call: "\<And>row w p i r. row \<in> set rows \<Longrightarrow> kept env k sx (claims w) \<Longrightarrow>
      handleGet (claims w) (ch_id row) = Some r \<Longrightarrow> active r \<Longrightarrow> heldBy (SupervisorID env) r \<Longrightarrow>
      out_ok t (\<lambda>(pc, w'). kept env k (claims w) (claims w') \<and> resolved (claims w') (ch_id row))
        (rsv (rowDecision env row (optOutcome opts) p i (optParentClaimHandleID opts row) (optLineageParentClaimHandleID opts)) w)"
    and cur: "kept env k sx (claims w)"
  shows "out_ok t (walked env k opts rows w) (cancelClaimHandleWalk env rsv opts rows post w)"
  using assms
proof (induction rows arbitrary: post w)
  case Nil
  then show ?case by (simp add: walked_def kept_def evolves_refl same_below_def)
next
  case (Cons row rows)
  have IH: "out_ok t (walked env k opts rows w') (cancelClaimHandleWalk env rsv opts rows post' w')"
    if "kept env k sx (claims w')" for post' w'
    by (rule Cons.IH) (simp_all only: that Cons.prems(1,2) list.set_intros)
  have inv: "kept env k (claims w) (claims w)" using Cons.prems(3) by (simp add: kept_def evolves_refl same_below_def)
  let ?skip = "optSkip opts row \<or> \<not> active row \<or> \<not> heldBy (SupervisorID env) row"
  obtain cr where cr: "handleGet (claims w) (ch_id row) = Some cr" "row_evo (SupervisorID env) row cr"
    using evolves_get Cons.prems(1) [of row] Cons.prems(3) by (metis kept_def list.set_intros(1))
  have lock: "LockForUpdate (claims w) (ch_id row) = Some cr" using cr(1) by (simp add: LockForUpdate_def handleGet_def)
  consider (skip) "?skip \<or> \<not> active cr" | (go) "\<not> ?skip" "active cr" by blast
  then show ?case
  proof cases
    case skip
    then have "?skip \<or> resolved (claims w) (ch_id row)" using cr by (auto simp: resolved_def)
    then have "out_ok t (walked env k opts (row # rows) w) (cancelClaimHandleWalk env rsv opts rows post w)"
      by (intro out_ok_mono [OF IH [OF Cons.prems(3)]] walked_Cons [OF inv]) auto
    with skip lock show ?thesis by auto
  next
    case go
    then have held: "heldBy (SupervisorID env) cr" using cr(2) by (auto simp: row_evo_def)
    have rest: "out_ok t (walked env k opts (row # rows) w) (cancelClaimHandleWalk env rsv opts rows post' w1)"
      if "kept env k (claims w) (claims w1)" "resolved (claims w1) (ch_id row)" for post' w1
      by (rule out_ok_mono [OF IH]) (use that kept_trans [OF Cons.prems(3)] in \<open>auto intro: walked_Cons\<close>)
    have "out_ok t (walked env k opts (row # rows) w)
        (out_bind (rsv (rowDecision env row (optOutcome opts) p i (optParentClaimHandleID opts row)
          (optLineageParentClaimHandleID opts)) w) (\<lambda>(pc, w'). cancelClaimHandleWalk env rsv opts rows (chainPostCommit post pc) w'))" for p i
      by (rule out_ok_seq [OF Cons.prems(2) [OF _ Cons.prems(3) cr(1) go(2) held]]) (use rest in auto)
    with go lock show ?thesis
      by (auto intro!: out_ok_seq [OF producer_ok] out_ok_seq [OF acquirer_ok])
  qed
qed

subsection \<open>The contract of a resolver\<close>

text \<open>A call for a handle without a fan-out parent only touches the handle and its descendants, which lie
  after it in the table; a call with a parent may touch any handle, and settles one active handle before it
  calls on.\<close>

definition cost :: "TerminalDecision \<Rightarrow> ClaimStore \<Rightarrow> nat" where
  "cost td s = (if tdParentClaimHandleID td = None
     then length (claim_handles s) - position (claim_handles s) (tdClaimHandleID td)
     else length (claim_handles s) + actives s)"

definition ready :: "'b Env \<Rightarrow> nat \<Rightarrow> TerminalDecision \<Rightarrow> ClaimStore \<Rightarrow> ClaimHandleRow \<Rightarrow> bool" where
  "ready env k td s r \<longleftrightarrow> claim_inv s \<and> fresh env k s \<and> k \<le> position (claim_handles s) (tdClaimHandleID td) \<and>
     (tdParentClaimHandleID td = None \<or> k = 0) \<and> tdSource td \<noteq> OwnershipBail \<and> tdSupervisorID td = SupervisorID env \<and>
     handleGet s (tdClaimHandleID td) = Some r \<and> active r \<and> heldBy (SupervisorID env) r"

lemma rowDecision_sel [simp]:
  "tdClaimHandleID (rowDecision env row ot p i par lp) = ch_id row" "tdSource (rowDecision env row ot p i par lp) = HeldTerminal"
  "tdSupervisorID (rowDecision env row ot p i par lp) = SupervisorID env" "tdOutcome (rowDecision env row ot p i par lp) = ot"
  "tdParentClaimHandleID (rowDecision env row ot p i par lp) = par" "tdProducer (rowDecision env row ot p i par lp) = Some p"
  by (simp_all add: rowDecision_def)

lemma children_rows:
  assumes "claim_inv s" and "row \<in> set (ListChildClaimHandles s X)"
  shows "handleGet s (ch_id row) = Some row" and "parent_claim_handle_id row = Some X"
    and "position (claim_handles s) X < position (claim_handles s) (ch_id row)"
    and "position (claim_handles s) (ch_id row) < length (claim_handles s)"
proof -
  show g: "handleGet s (ch_id row) = Some row" and p: "parent_claim_handle_id row = Some X"
    using assms by (simp_all add: ListChildClaimHandles_def inv_get)
  show "position (claim_handles s) X < position (claim_handles s) (ch_id row)" by (rule child_position [OF assms(1) g p])
  show "position (claim_handles s) (ch_id row) < length (claim_handles s)" by (rule handle_position [OF g])
qed

text \<open>The parent is taken over by this supervisor when another one held it.\<close>

lemma take_over_ok:
  assumes "claim_inv (claims w)" and "handleGet (claims w) p = Some r" "active r" "holder_supervisor_id r = Some h"
  shows "out_ok t (\<lambda>w'. kept env 0 (claims w) (claims w') \<and> (\<exists>r'. handleGet (claims w') p = Some r' \<and> active r' \<and> heldBy (SupervisorID env) r'))
    (if h = SupervisorID env then Done w
     else out_bind (out_lift StoreError (ReassignHolderSupervisor p h (SupervisorID env) (claims w))) (\<lambda>c. Done (w\<lparr>claims := c\<rparr>)))"
proof (cases "h = SupervisorID env")
  case True
  with assms show ?thesis by (auto simp: kept_refl heldBy_def)
next
  case False
  have held: "heldBy h r" using assms(4) by (simp add: heldBy_def)
  have "kept env 0 (claims w) c \<and> (\<exists>r'. handleGet c p = Some r' \<and> active r' \<and> heldBy (SupervisorID env) r')"
    if "ReassignHolderSupervisor p h (SupervisorID env) (claims w) = Inr c" for c
    using reassign_evolves [OF that assms(1-3) held] assms(3) by (simp add: kept_def heldBy_def)
  with False show ?thesis by (auto intro!: out_ok_bind out_ok_lift)
qed

lemma fresh_queued:
  assumes "fresh env k s" and "oiClaimHandleID inp = X" and "k \<le> position (claim_handles s) X"
  shows "fresh env (Suc (position (claim_handles s) X)) (queued env inp s)"
  unfolding fresh_def queued_get queued_handles
proof (intro impI allI, elim conjE)
  fix i r assume "hasVerbOutbox env" "handleGet s i = Some r" "active r" and i: "Suc (position (claim_handles s) X) \<le> position (claim_handles s) i"
  then have "unqueued s i" using assms(1,3) unfolding fresh_def by (meson Suc_leD le_trans)
  moreover have "i \<noteq> oiClaimHandleID inp" using i assms(2) by auto
  ultimately show "unqueued (queued env inp s) i" by (simp add: unqueued_queued)
qed

definition settledAs :: "'b Env \<Rightarrow> TerminalDecision \<Rightarrow> ClaimHandleRow \<Rightarrow> ClaimStore \<Rightarrow> bool" where
  "settledAs env td r s \<longleftrightarrow> handleGet s (tdClaimHandleID td) = Some (promoted (dbNow env) (stateFor (tdOutcome td)) r)"

lemma settledAs_resolved: "settledAs env td r s \<Longrightarrow> resolved s (tdClaimHandleID td)"
  by (simp add: settledAs_def resolved_def promoted_def)

lemma settledAs_stays: "settledAs env td r s \<Longrightarrow> kept env k s s' \<Longrightarrow> settledAs env td r s'"
  using evolves_inactive [of env s s'] by (simp add: settledAs_def kept_def promoted_def)

text \<open>What the walks and the parent settlement rely on when they call back.\<close>

locale claim_resolver =
  fixes env :: "'b Env" and n :: nat and rsv :: "'b resolver"
  assumes resolves: "ready env k td (claims w) r \<Longrightarrow> out_ok (cost td (claims w) < n)
     (\<lambda>(pc, w'). kept env k (claims w) (claims w') \<and> settledAs env td r (claims w')) (rsv td w)"
begin

lemma resolver_call:
  assumes "ready env k td (claims w) r" and "t \<Longrightarrow> cost td (claims w) < n"
  shows "out_ok t (\<lambda>(pc, w'). kept env k (claims w) (claims w') \<and> resolved (claims w') (tdClaimHandleID td)) (rsv td w)"
  by (rule out_ok_mono [OF resolves [OF assms(1)]]) (use assms(2) settledAs_resolved in auto)

lemma descendants_ok:
  assumes inv: "claim_inv (claims w)"
    and fr: "fresh env (Suc (position (claim_handles (claims w)) X)) (claims w)"
  shows "out_ok (length (claim_handles (claims w)) - position (claim_handles (claims w)) X \<le> n)
    (\<lambda>(pc, w'). kept env (Suc (position (claim_handles (claims w)) X)) (claims w) (claims w') \<and>
       owned_children_done (SupervisorID env) (claims w) (claims w') X)
    (cancelDescendantClaims env rsv X w)"
proof -
  let ?s = "claims w" and ?k = "Suc (position (claim_handles (claims w)) X)"
  have call: "out_ok (length (claim_handles ?s) - position (claim_handles ?s) X \<le> n)
      (\<lambda>(pc, w'). kept env ?k (claims w1) (claims w') \<and> resolved (claims w') (ch_id row))
      (rsv (rowDecision env row ot p i None lp) w1)"
    if row: "row \<in> set (ListChildClaimHandles ?s X)" and kp: "kept env ?k ?s (claims w1)"
      and r: "handleGet (claims w1) (ch_id row) = Some r" "active r" "heldBy (SupervisorID env) r" for row w1 p i r ot lp
  proof -
    note cr = children_rows [OF inv row]
    have ev: "evolves env ?s (claims w1)" "claim_inv (claims w1)" using kp by (simp_all add: kept_def)
    have "ready env ?k (rowDecision env row ot p i None lp) (claims w1) r"
      using r ev(2) fresh_evolves [OF fr ev(1)] evolves_position [OF ev(1)] cr(3) by (simp add: ready_def)
    from resolver_call [OF this] show ?thesis
      using cr(3,4) evolves_position [OF ev(1)] evolves_length [OF ev(1)] by (simp add: cost_def)
  qed
  show ?thesis
    unfolding cancelDescendantClaims_def
  proof (rule out_ok_mono [OF walk_ok [where sx = ?s and k = ?k and t = "length (claim_handles ?s) - position (claim_handles ?s) X \<le> n"]])
    show "kept env ?k ?s ?s" using inv by (rule kept_refl)
  next
    fix a assume "walked env ?k \<lparr>optOutcome = OutcomeAbandonDescendantCancel, optSkip = \<lambda>_. False,
        optParentClaimHandleID = \<lambda>_. None, optLineageParentClaimHandleID = Some X\<rparr> (ListChildClaimHandles ?s X) w a"
    then show "case a of (pc, w') \<Rightarrow> kept env ?k ?s (claims w') \<and> owned_children_done (SupervisorID env) ?s (claims w') X"
      by (auto simp: walked_def owned_children_done_def ListChildClaimHandles_def inv_get [OF inv] resolved_def)
  qed (use call children_rows(1) [OF inv] in auto)
qed

lemma siblings_ok:
  assumes inv: "claim_inv (claims w)" and fr: "fresh env 0 (claims w)"
  shows "out_ok (length (claim_handles (claims w)) + actives (claims w) < n) (\<lambda>(pc, w'). kept env 0 (claims w) (claims w'))
    (cancelInFlightSiblings env rsv p trig w)"
proof -
  let ?s = "claims w"
  have call: "out_ok (length (claim_handles ?s) + actives ?s < n)
      (\<lambda>(pc, w'). kept env 0 (claims w1) (claims w') \<and> resolved (claims w') (ch_id row))
      (rsv (rowDecision env row ot pn i (parent_claim_handle_id row) lp) w1)"
    if row: "row \<in> set (ListChildClaimHandles ?s p)" and kp: "kept env 0 ?s (claims w1)"
      and r: "handleGet (claims w1) (ch_id row) = Some r" "active r" "heldBy (SupervisorID env) r" for row w1 pn i r ot lp
  proof -
    have ev: "evolves env ?s (claims w1)" "claim_inv (claims w1)" using kp by (simp_all add: kept_def)
    have "ready env 0 (rowDecision env row ot pn i (parent_claim_handle_id row) lp) (claims w1) r"
      using r ev(2) fresh_evolves [OF fr ev(1)] by (simp add: ready_def)
    from resolver_call [OF this] show ?thesis
      using children_rows(2) [OF inv row] actives_mono [OF ev(1)] evolves_length [OF ev(1)] by (simp add: cost_def)
  qed
  have walk: "out_ok (length (claim_handles ?s) + actives ?s < n) (\<lambda>(pc, w'). kept env 0 ?s (claims w'))
      (cancelClaimHandleWalk env rsv \<lparr>optOutcome = OutcomeAbandonSiblingCancel, optSkip = (\<lambda>row. ch_id row = trig),
         optParentClaimHandleID = parent_claim_handle_id, optLineageParentClaimHandleID = None\<rparr>
        (ListChildClaimHandles ?s p) [] w)"
    by (rule out_ok_mono [OF walk_ok [where sx = ?s and k = 0 and t = "length (claim_handles ?s) + actives ?s < n"]])
      (use call children_rows(1) [OF inv] kept_refl [OF inv] in \<open>auto simp: walked_def\<close>)
  show ?thesis
    using walk kept_refl [OF inv, of env] by (simp add: cancelInFlightSiblings_def split: option.splits sum.splits)
qed

subsection \<open>Settling the parent\<close>

lemma settleParent_ok:
  assumes inv: "claim_inv (claims w)" and fr: "fresh env 0 (claims w)"
    and parent: "handleGet (claims w) (fiParentClaimHandleID inp) = Some r" "active r" "holder_supervisor_id r = Some h"
  shows "out_ok (length (claim_handles (claims w)) + actives (claims w) < n) (\<lambda>(pc, w'). kept env 0 (claims w) (claims w'))
    (settleParent env rsv inp r h post w)"
proof -
  let ?t = "length (claim_handles (claims w)) + actives (claims w) < n"
  have id: "ch_id r = fiParentClaimHandleID inp" using parent(1) inv by (simp add: inv_get)
  have call: "out_ok ?t (\<lambda>(pc, w'). kept env 0 (claims w) (claims w'))
      (rsv (rowDecision env r ot p i (parent_claim_handle_id r) None) w2)"
    if kp: "kept env 0 (claims w) (claims w2)" and r': "handleGet (claims w2) (fiParentClaimHandleID inp) = Some r'" "active r'" "heldBy (SupervisorID env) r'"
    for ot p i w2 r'
  proof -
    have ev: "evolves env (claims w) (claims w2)" "claim_inv (claims w2)" using kp by (simp_all add: kept_def)
    have "ready env 0 (rowDecision env r ot p i (parent_claim_handle_id r) None) (claims w2) r'"
      using r' ev(2) fresh_evolves [OF fr ev(1)] by (simp add: ready_def id)
    then show ?thesis
      by (rule out_ok_mono [OF resolver_call [where t = ?t]])
        (use actives_mono [OF ev(1)] evolves_length [OF ev(1)] kept_trans [OF kp] in \<open>auto simp: cost_def\<close>)
  qed
  obtain post1 rs where cp: "closePartitionScopes env (ListChildClaimHandles (claims w) (fiParentClaimHandleID inp)) post (runs (graph w)) = (post1, rs)"
    by (rule prod.exhaust)
  let ?w1 = "w\<lparr>graph := (graph w)\<lparr>runs := rs\<rparr>\<rparr>"
  have take: "out_ok ?t (\<lambda>w'. kept env 0 (claims w) (claims w') \<and> (\<exists>r'. handleGet (claims w') (fiParentClaimHandleID inp) = Some r' \<and> active r' \<and> heldBy (SupervisorID env) r'))
    (if h = SupervisorID env then Done ?w1
     else out_bind (out_lift StoreError (ReassignHolderSupervisor (fiParentClaimHandleID inp) h (SupervisorID env) (claims ?w1))) (\<lambda>c. Done (?w1\<lparr>claims := c\<rparr>)))"
    using take_over_ok [of ?w1 "fiParentClaimHandleID inp" r h ?t env] inv parent by simp
  show ?thesis
    unfolding settleParent_def Let_def cp prod.case
    by (intro out_ok_seq [OF acquirer_ok] out_ok_seq [OF producer_ok] out_ok_seq [OF take], elim conjE exE, rule out_ok_seq [OF call])
      (auto split: option.splits)
qed

lemma settle_ok:
  assumes inv: "claim_inv (claims w)" and fr: "fresh env 0 (claims w)"
  shows "out_ok (length (claim_handles (claims w)) + actives (claims w) < n) (\<lambda>(pc, w'). kept env 0 (claims w) (claims w'))
    (SettleFromFanoutChild env rsv inp w)"
proof -
  let ?t = "length (claim_handles (claims w)) + actives (claims w) < n" and ?K = "kept env 0 (claims w)"
  have step: "claim_inv (claims w')" "fresh env 0 (claims w')"
      "?t \<Longrightarrow> length (claim_handles (claims w')) + actives (claims w') < n" if "?K (claims w')" for w' :: "'b World"
    using that fresh_evolves [OF fr] actives_mono [of env "claims w" "claims w'"] evolves_length [of env "claims w" "claims w'"]
    by (auto simp: kept_def)
  have bump: "out_ok ?t (\<lambda>c. ?K c) (out_lift StoreError (BumpChildOutcomeCount p h k 1 (claims w)))" for p h k
    by (rule out_ok_lift) (use bump_evolves inv in \<open>auto simp: kept_def\<close>)
  have cancel: "out_ok ?t (\<lambda>(post, w2). ?K (claims w2))
      (cancelInFlightSiblings env rsv p c w')" if "?K (claims w')" for p c w'
    using step [OF that] kept_trans [OF that] by (auto intro!: out_ok_mono [OF siblings_ok ])
  have last: "out_ok ?t (\<lambda>(post, w2). ?K (claims w2)) (settleParent env rsv inp r h post w')"
    if "?K (claims w')" "handleGet (claims w') (fiParentClaimHandleID inp) = Some r" "active r" "holder_supervisor_id r = Some h" for r h post w'
    using step [OF that(1)] kept_trans [OF that(1)] by (auto intro!: out_ok_mono [OF settleParent_ok [OF _ _ that(2-4)]])
  have refl: "?K (claims w)" using inv by (rule kept_refl)
  show ?thesis
    unfolding SettleFromFanoutChild_def
    by (auto split: option.splits simp: refl intro!: out_ok_seq [OF recordChild_ok] out_ok_seq [OF bump] out_ok_seq [OF cancel] last)
qed

subsection \<open>Resolving a handle\<close>

text \<open>Up to the promotion: the verb is queued, the descendants are cancelled, the handle is resolved.\<close>

lemma promotion_ok:
  assumes rd: "ready env k td (claims w) r"
    and q: "claims w3 = queued env inp (claims w)" "oiClaimHandleID inp = tdClaimHandleID td" "oiVerb inp = verbOf (stateFor (tdOutcome td))"
  shows "out_ok (length (claim_handles (claims w)) - position (claim_handles (claims w)) (tdClaimHandleID td) \<le> n)
    (\<lambda>(pc, w4). out_ok True (\<lambda>w5. kept env k (claims w) (claims w5) \<and>
        handleGet (claims w5) (tdClaimHandleID td) = Some (promoted (dbNow env) (stateFor (tdOutcome td)) r)) (promoteHandleState env td w4))
    (if IsAbandon (tdOutcome td) then cancelDescendantClaims env rsv (tdClaimHandleID td) w3 else Done ([], w3))"
proof -
  let ?X = "tdClaimHandleID td" and ?s = "claims w" and ?p = "position (claim_handles (claims w)) (tdClaimHandleID td)"
  from rd have r: "claim_inv ?s" "fresh env k ?s" "k \<le> ?p" "tdSupervisorID td = SupervisorID env"
    "handleGet ?s ?X = Some r" "active r" "heldBy (SupervisorID env) r" by (simp_all add: ready_def)
  have inv3: "claim_inv (claims w3)" and pos3: "claim_handles (claims w3) = claim_handles ?s"
    using q(1) queued_inv [OF r(1)] queued_handles(1) by metis+
  have fr3: "fresh env (Suc ?p) (claims w3)" unfolding q(1) using fresh_queued [OF r(2) q(2) r(3)] .
  have fin: "out_ok True (\<lambda>w5. kept env k ?s (claims w5) \<and> handleGet (claims w5) ?X = Some (promoted (dbNow env) (stateFor (tdOutcome td)) r))
      (promoteHandleState env td w4)"
    if k4: "kept env (Suc ?p) (claims w3) (claims w4)"
      and kids: "IsAbandon (tdOutcome td) \<Longrightarrow> owned_children_done (SupervisorID env) (claims w3) (claims w4) ?X" for w4
  proof -
    have ev: "evolves env (queued env inp ?s) (claims w4)" and inv4: "claim_inv (claims w4)" and sb: "same_below (Suc ?p) (claims w3) (claims w4)"
      using k4 q(1) by (simp_all add: kept_def)
    have X4: "handleGet (claims w4) ?X = Some r"
      using same_below_get [OF sb ev [folded q(1)]] pos3 r(5) q(1) by simp
    obtain c where c: "promoteHandleState env td w4 = Done (w4\<lparr>claims := c\<rparr>)"
      "Promote (dbNow env) ?X (tdSupervisorID td) (stateFor (tdOutcome td)) (claims w4) = Inr c" "claim_inv c"
      "claim_handles c = update_where (\<lambda>r. ch_id r = ?X \<and> active r \<and> heldBy (tdSupervisorID td) r)
         (promoted (dbNow env) (stateFor (tdOutcome td))) (claim_handles (claims w4))"
      "handleGet c ?X = Some (promoted (dbNow env) (stateFor (tdOutcome td)) r)"
      by (rule promote_done [OF inv4 X4 r(6), of env]) (use r(4,7) in \<open>simp_all\<close>)
    have "evolves env ?s c"
    proof (rule resolve_core [OF inv4 r(5-7) _ q(2,3) ev X4])
      show "unqueued ?s ?X" if "hasVerbOutbox env" using r(2,3,5,6) that by (simp add: fresh_def)
    qed (use kids c(2) q(1) r(4) in \<open>auto simp: owned_children_queued split: if_splits\<close>)
    moreover have "take k (claim_handles c) = take k (claim_handles (claims w4))"
      unfolding c(4) by (rule take_update_where [where i = ?X]) (use r(3) evolves_position [OF ev] in \<open>simp_all add: queued_handles\<close>)
    then have "same_below k ?s c" using same_below_mono [OF sb, of k] r(3) pos3 by (simp add: same_below_def)
    ultimately show ?thesis using c by (simp add: kept_def)
  qed
  show ?thesis
  proof (cases "IsAbandon (tdOutcome td)")
    case True
    have "out_ok (length (claim_handles ?s) - ?p \<le> n) (\<lambda>(pc, w'). kept env (Suc ?p) (claims w3) (claims w') \<and>
        owned_children_done (SupervisorID env) (claims w3) (claims w') ?X) (cancelDescendantClaims env rsv ?X w3)"
      using descendants_ok [OF inv3, of ?X] fr3 pos3 by simp
    then show ?thesis using True fin by (auto elim!: out_ok_mono)
  next
    case False
    then show ?thesis using fin [OF kept_refl [OF inv3]] by simp
  qed
qed

text \<open>From the promotion on.\<close>

lemma settle_after_ok:
  assumes rd: "ready env k td (claims w) r" and p: "tdParentClaimHandleID td = Some p"
    and k6: "kept env k (claims w) (claims w6)" "settledAs env td r (claims w6)"
  shows "out_ok (cost td (claims w) < Suc n) (\<lambda>(pc, w'). kept env k (claims w) (claims w') \<and> settledAs env td r (claims w'))
    (SettleFromFanoutChild env rsv inp w6)"
proof -
  from rd p have k0: "k = 0" and inv: "claim_inv (claims w)" and fr: "fresh env 0 (claims w)"
    and X: "handleGet (claims w) (tdClaimHandleID td) = Some r" "active r" by (auto simp: ready_def)
  have ev: "evolves env (claims w) (claims w6)" "claim_inv (claims w6)" using k6(1) by (simp_all add: kept_def)
  have less: "actives (claims w6) < actives (claims w)"
    by (rule actives_less [OF ev(1) inv ev(2) X settledAs_resolved [OF k6(2)]])
  show ?thesis
    by (rule out_ok_mono [OF settle_ok [OF ev(2) fresh_evolves [OF fr ev(1)]]])
      (use k0 k6 p less evolves_length [OF ev(1)] in \<open>auto simp: cost_def intro: kept_trans settledAs_stays\<close>)
qed

lemma finish_ok:
  assumes rd: "ready env k td (claims w) r" and k5: "kept env k (claims w) (claims w5)" "settledAs env td r (claims w5)"
  shows "out_ok (cost td (claims w) < Suc n) (\<lambda>(pc, w'). kept env k (claims w) (claims w') \<and> settledAs env td r (claims w'))
    (out_bind (emitDeferredHeldCascade env td w5) (\<lambda>(heldPC, w6).
      case tdParentClaimHandleID td of None \<Rightarrow> Done (g heldPC, w6)
      | Some p \<Rightarrow> out_bind (SettleFromFanoutChild env rsv (h p) w6) (\<lambda>(pc, w7). Done (chainPostCommit (g heldPC) pc, w7))))"
  by (rule out_ok_seq [OF cascade_ok]) (use k5 in \<open>auto split: option.splits intro!: out_ok_seq [OF settle_after_ok [OF rd]]\<close>)

lemma upto_promotion_ok:
  assumes rd: "ready env k td (claims w) r" and w1: "claims w1 = claims w" and v: "valid (tdOutcome td)"
    and F: "\<And>pc w5. kept env k (claims w) (claims w5) \<Longrightarrow> settledAs env td r (claims w5) \<Longrightarrow> out_ok (cost td (claims w) < Suc n) Q (F pc w5)"
  shows "out_ok (cost td (claims w) < Suc n) Q (out_bind (enqueueProducerVerb env td w1) (\<lambda>w2.
      out_bind (if IsAbandon (tdOutcome td) then cancelDescendantClaims env rsv (tdClaimHandleID td) (emitTerminalForensics env td w2)
                else Done ([], emitTerminalForensics env td w2)) (\<lambda>(pc, w4).
      out_bind (promoteHandleState env td w4) (\<lambda>w5. F pc w5))))"
proof (rule out_ok_seq [OF enqueue_ok [OF v]], elim exE conjE, rule out_ok_seq)
  let ?P = "\<lambda>(pc :: postCommitFn, w4). out_ok True (\<lambda>w5. kept env k (claims w) (claims w5) \<and> settledAs env td r (claims w5)) (promoteHandleState env td w4)"
  fix w2 :: "'b World" and inp
  assume q: "claims w2 = queued env inp (claims w1)" "oiClaimHandleID inp = tdClaimHandleID td" "oiVerb inp = verbOf (stateFor (tdOutcome td))"
  show "out_ok (cost td (claims w) < Suc n) ?P
      (if IsAbandon (tdOutcome td) then cancelDescendantClaims env rsv (tdClaimHandleID td) (emitTerminalForensics env td w2)
       else Done ([], emitTerminalForensics env td w2))"
    by (rule out_ok_mono [OF promotion_ok [OF rd _ q(2,3)]])
      (use q(1) w1 in \<open>auto simp: forensics_claims cost_def settledAs_def split: if_splits elim!: out_ok_mono\<close>)
  show "out_ok (cost td (claims w) < Suc n) Q (case a of (pc, w4) \<Rightarrow> out_bind (promoteHandleState env td w4) (\<lambda>w5. F pc w5))" if "?P a" for a
    using that by (auto split: prod.splits elim!: out_ok_seqT intro!: F)
qed

lemma resolveBody_ok: "claim_resolver env (Suc n) (resolveBody env rsv)"
proof
  fix td and w :: "'b World" and k r assume rd: "ready env k td (claims w) r"
  then have "tdSource td \<noteq> OwnershipBail" by (simp add: ready_def)
  then show "out_ok (cost td (claims w) < Suc n)
      (\<lambda>(pc, w'). kept env k (claims w) (claims w') \<and> settledAs env td r (claims w')) (resolveBody env rsv td w)"
    unfolding resolveBody_def Let_def
    by (auto intro!: out_ok_seq [OF dispatch_ok] upto_promotion_ok [OF rd] finish_ok [OF rd])
qed

end

lemma resolve_ok: "claim_resolver env n (ResolveClaimHandleTerminal n env)"
proof (induction n)
  case 0
  show ?case by unfold_locales simp
next
  case (Suc n)
  have "ResolveClaimHandleTerminal (Suc n) env = resolveBody env (ResolveClaimHandleTerminal n env)" by (intro ext) simp
  with claim_resolver.resolveBody_ok [OF Suc] show ?case by simp
qed

interpretation settlement: claim_resolver env n "ResolveClaimHandleTerminal n env" for env n
  by (rule resolve_ok)

subsection \<open>The automatic terminal\<close>

definition autoOutcome :: "ClaimStore \<Rightarrow> ClaimHandleRow \<Rightarrow> TerminalOutcome" where
  "autoOutcome s row =
     (if \<exists>h \<in> set (claim_holders s). claim_handle_id h = ch_id row \<and> holder_state h = ClaimHolderStateFailed then OutcomeAbandon
      else if expected_children_count row > 0 then aggregateParentOutcome (Some row) OutcomeCommit else OutcomeCommit)"

definition may_resolve :: "'b Env \<Rightarrow> ClaimStore \<Rightarrow> ClaimHandleRow \<Rightarrow> bool" where
  "may_resolve env s row \<longleftrightarrow> active row \<and> heldBy (SupervisorID env) row \<and>
     (\<exists>h \<in> set (claim_holders s). claim_handle_id h = ch_id row) \<and>
     (\<forall>h \<in> set (claim_holders s). claim_handle_id h = ch_id row \<longrightarrow> holder_state h \<noteq> ClaimHolderStateActive) \<and>
     ((\<exists>h \<in> set (claim_holders s). claim_handle_id h = ch_id row \<and> holder_state h = ClaimHolderStateFailed) \<or>
      expected_children_count row \<le> committed_children_count row + abandoned_children_count row \<or> expected_children_count row \<le> 0)"

text \<open>Either nothing happens, or the guards hold and the decision built from the row is resolved.\<close>

lemma check_and_fire_cases:
  assumes inv: "claim_inv (claims w)"
  obtains (skip) "CheckAndFireResolution n env i w = Done ([], w)"
  | (failed) e where "CheckAndFireResolution n env i w = Fail e"
  | (fire) row p inst where "handleGet (claims w) i = Some row" "may_resolve env (claims w) row"
      "CheckAndFireResolution n env i w = ResolveClaimHandleTerminal n env
         (rowDecision env row (autoOutcome (claims w) row) p inst (parent_claim_handle_id row) None) w"
proof (cases "LockForUpdate (claims w) i")
  case None
  then show thesis by (intro skip) (simp add: CheckAndFireResolution_def)
next
  case (Some row)
  then have g: "handleGet (claims w) i = Some row" by (simp add: LockForUpdate_def handleGet_def)
  then have id: "ch_id row = i" using inv by (simp add: inv_get)
  let ?H = "ListByClaimHandleID (claims w) i"
  let ?active = "list_ex (\<lambda>h. holder_state h = ClaimHolderStateActive) ?H" and ?failed = "list_ex (\<lambda>h. holder_state h = ClaimHolderStateFailed) ?H"
  have H: "set ?H = {h \<in> set (claim_holders (claims w)). claim_handle_id h = i}" by (auto simp: ListByClaimHandleID_def)
  have ne: "?H \<noteq> [] \<longleftrightarrow> (\<exists>h \<in> set (claim_holders (claims w)). claim_handle_id h = i)" using H by (auto simp flip: set_empty)
  have outc: "autoOutcome (claims w) row = (if ?failed then OutcomeAbandon
      else if expected_children_count row > 0 then aggregateParentOutcome (Some row) OutcomeCommit else OutcomeCommit)"
    by (auto simp: autoOutcome_def list_ex_iff H id)
  let ?wait = "expected_children_count row > 0 \<and> \<not> ?failed \<and>
     committed_children_count row + abandoned_children_count row < expected_children_count row"
  consider (no) "\<not> heldBy (SupervisorID env) row \<or> \<not> active row \<or> ?H = [] \<or> ?active \<or> \<not> ?failed \<and> expectedInheritorsMissing env row ?H w"
    | (yes) "heldBy (SupervisorID env) row" "active row" "?H \<noteq> []" "\<not> ?active" "?failed \<or> \<not> expectedInheritorsMissing env row ?H w" by blast
  then show thesis
  proof cases
    case no
    then show thesis by (intro skip) (auto simp: CheckAndFireResolution_def Some Let_def)
  next
    case yes
    then have may: "\<not> ?wait \<Longrightarrow> may_resolve env (claims w) row" using ne by (auto simp: may_resolve_def id list_ex_iff H not_less)
    have eq: "CheckAndFireResolution n env i w = out_bind (resolveProducerOrFail env (rowProducerName row) []) (\<lambda>p.
        if ?wait then Done ([], w) else out_bind (acquirerInstanceID env (holder_node_id row)) (\<lambda>inst.
          ResolveClaimHandleTerminal n env (rowDecision env row (autoOutcome (claims w) row) p inst (parent_claim_handle_id row) None) w))"
      unfolding CheckAndFireResolution_def Some option.case Let_def outc using yes by auto
    have nf: "resolveProducerOrFail env (rowProducerName row) [] \<noteq> OutOfFuel" "acquirerInstanceID env (holder_node_id row) \<noteq> OutOfFuel"
      using producer_ok [of True env] acquirer_ok [of True env] by (simp_all only: out_ok_True) blast+
    show thesis
      using eq nf skip failed fire [OF g may]
      by (cases "resolveProducerOrFail env (rowProducerName row) []"; cases "acquirerInstanceID env (holder_node_id row)"; cases ?wait) auto
  qed
qed

lemma fire_ready:
  assumes "claim_inv (claims w)" and "fresh env 0 (claims w)" and "handleGet (claims w) i = Some row" and "may_resolve env (claims w) row"
  shows "ready env 0 (rowDecision env row ot p inst par None) (claims w) row"
proof -
  have "ch_id row = i" using assms(1,3) by (simp add: inv_get)
  with assms show ?thesis by (simp add: ready_def may_resolve_def)
qed

lemma fire_ok:
  assumes inv: "claim_inv (claims w)" and fr: "fresh env 0 (claims w)"
  shows "out_ok (length (claim_handles (claims w)) + actives (claims w) < n)
    (\<lambda>(pc, w'). kept env 0 (claims w) (claims w') \<and> (w' = w \<or> (\<exists>row. handleGet (claims w) i = Some row \<and> may_resolve env (claims w) row \<and>
       handleGet (claims w') i = Some (promoted (dbNow env) (stateFor (autoOutcome (claims w) row)) row))))
    (CheckAndFireResolution n env i w)"
  using inv
proof (cases rule: check_and_fire_cases [where n = n and env = env and i = i])
  case (fire row p inst)
  let ?td = "rowDecision env row (autoOutcome (claims w) row) p inst (parent_claim_handle_id row) None"
  have id: "ch_id row = i" using fire(1) inv by (simp add: inv_get)
  have c: "cost ?td (claims w) \<le> length (claim_handles (claims w)) + actives (claims w)" by (simp add: cost_def trans_le_add1)
  show ?thesis
    unfolding fire(3) by (rule out_ok_mono [OF settlement.resolves [OF fire_ready [OF inv fr fire(1,2)]]])
      (use c fire(1,2) id in \<open>auto simp: settledAs_def\<close>)
qed (simp_all add: kept_refl [OF inv])

subsection \<open>An example\<close>

text \<open>Claim 1 was partitioned into claims 2 and 3 under the strict policy; the run holding claim 2 failed.\<close>

definition fanClaims :: ClaimStore where
  "fanClaims =
     \<lparr>claim_handles = [(insertedRow 1 (exampleHandle 1 None))\<lparr>expected_children_count := 2,
          aggregation_policy := PolicyJSON \<lparr>Kind = AggregationKindStrict, MaxFailures = 0\<rparr>\<rparr>,
        insertedRow 2 (exampleHandle 2 (Some 1)), insertedRow 3 (exampleHandle 3 (Some 1))],
      claim_holders = [\<lparr>holder_id = 1, claim_handle_id = 2, holder_run_id = 5, holder_state = ClaimHolderStateFailed, completed_at = Some 1\<rparr>],
      verb_outbox = [], last_seq = 0\<rparr>"

definition fanWorld :: "unit World" where
  "fanWorld = \<lparr>claims = fanClaims,
     graph = \<lparr>runs = \<lparr>node_runs = [], run_scopes = [], bag_snapshots = []\<rparr>,
       attrs = \<lparr>attr_rows = [], blob_orphans = [], blob_state = ()\<rparr>, frames = [], wait_set = [], next_id = 100, audit = []\<rparr>,
     lineage = [], events = [], effects = []\<rparr>"

definition fanEnv :: "unit Env" where
  "fanEnv = \<lparr>SupervisorID = ''sup1'', Clock = Some 5, dbNow = 5, hasVerbOutbox = True, hasVerbKick = True,
     hasFanOutSemaphores = False, resolveProducer = (\<lambda>p i. Inr (Some p)), dataProcessor = (\<lambda>_. None),
     nodes = [\<lparr>nr_id = 7, nr_instance_id = 8, nr_node_type = ''load'', nr_executor = [], nr_cascade_mode = []\<rparr>], instances = [], templates = [],
     HashBytes = (\<lambda>x. x), uuidString = itoa,
     attrConfig = \<lparr>blob = None, blobThreshold = 0, blobRetention = 0, jsonLen = (\<lambda>_. 0), fk = (\<lambda>_ _. True)\<rparr>,
     lib = exampleCascadeLib, emitSignal = (\<lambda>_ g. Inr g), drainWaitSet = (\<lambda>_ _ g. Inr g)\<rparr>"

lemma fan_inv: "claim_inv (claims fanWorld)" "fresh fanEnv 0 (claims fanWorld)"
  by (simp_all add: claim_inv_def fresh_def unqueued_def fanWorld_def fanClaims_def insertedRow_def exampleHandle_def
      keyed_def row_inv_def handle_check_def)

lemma fan_run:
  "map_outcome (\<lambda>(pc, w). (map (\<lambda>i. map_option ch_state (handleGet (claims w) i)) [1, 2, 3], verb_pairs (verb_outbox (claims w))))
     (CheckAndFireResolution 8 fanEnv 2 fanWorld) =
   Done (replicate 3 (Some ClaimHandleStateAbandoned), [(2, ProducerVerbAbandon), (3, ProducerVerbAbandon), (1, ProducerVerbAbandon)])"
  by code_simp

lemma fan_done:
  obtains post w' r where "CheckAndFireResolution 8 fanEnv 2 fanWorld = Done (post, w')" "handleGet (claims w') 1 = Some r"
    "ch_state r = ClaimHandleStateAbandoned" "verb_pairs (verb_outbox (claims w')) = [(2, ProducerVerbAbandon), (3, ProducerVerbAbandon), (1, ProducerVerbAbandon)]"
  using fan_run by (cases "CheckAndFireResolution 8 fanEnv 2 fanWorld") (auto simp: numeral_3_eq_3 split: prod.splits)

lemma fan_rows:
  "handleGet (claims fanWorld) 1 = Some ((insertedRow 1 (exampleHandle 1 None))\<lparr>expected_children_count := 2,
     aggregation_policy := PolicyJSON \<lparr>Kind = AggregationKindStrict, MaxFailures = 0\<rparr>\<rparr>)"
  "handleGet (claims fanWorld) 3 = Some (insertedRow 3 (exampleHandle 3 (Some 1)))"
  "ch_state (insertedRow t (exampleHandle i p)) = ClaimHandleStateActive" "heldBy (SupervisorID fanEnv) (insertedRow t (exampleHandle i p))"
  "parent_claim_handle_id (insertedRow t (exampleHandle i p)) = p"
  by (simp_all add: handleGet_def row_of_def fanWorld_def fanClaims_def insertedRow_def exampleHandle_def heldBy_def fanEnv_def)

text \<open>C5: Settling a claim terminates. \<open>CheckAndFireResolution\<close> resolves the claim, cancels its descendants,
  settles its fan-out parent, cancels siblings and may resolve the parent in turn, all through mutual
  recursion; a recursion depth of one more than the number of handles plus the number of active handles is
  always enough, whatever the handle forest, the policies and the answers of the producers.\<close>

theorem settlement_terminates:
  assumes "claim_inv (claims w)" and "fresh env 0 (claims w)"
    and "length (claim_handles (claims w)) + actives (claims w) < n"
  shows "CheckAndFireResolution n env i w \<noteq> OutOfFuel"
  using fire_ok [OF assms(1,2), of n i] assms(3) by auto

theorem settlement_terminates_witness: "CheckAndFireResolution 7 fanEnv 2 fanWorld \<noteq> OutOfFuel"
  by (rule settlement_terminates [OF fan_inv]) (simp add: actives_def fanWorld_def fanClaims_def fan_rows)

text \<open>C4: A settlement that succeeds queues exactly one verb for every claim it resolved, anywhere in the tree,
  and no other verb: Commit for a committed claim, Abandon for an abandoned one, appended to the outbox in
  order and without touching the queued ones; the tables stay consistent, and no active claim has a verb
  queued, so the next settlement can be run on the result.\<close>

theorem settlement_queues_one_verb_per_claim:
  assumes "claim_inv (claims w)" and "fresh env 0 (claims w)" and "hasVerbOutbox env"
    and "CheckAndFireResolution n env i w = Done (post, w')"
  shows "claim_inv (claims w') \<and> fresh env 0 (claims w') \<and>
    (\<exists>new. verb_outbox (claims w') = verb_outbox (claims w) @ new \<and> distinct (verb_pairs new) \<and>
       set (verb_pairs new) = resolved_between (claims w) (claims w'))"
proof -
  have "kept env 0 (claims w) (claims w')" using fire_ok [OF assms(1,2), of n i] assms(4) by simp
  then have ev: "evolves env (claims w) (claims w')" and inv: "claim_inv (claims w')" by (simp_all add: kept_def)
  from ev assms(3) have "\<exists>new. verb_outbox (claims w') = verb_outbox (claims w) @ new \<and> distinct (verb_pairs new) \<and>
      set (verb_pairs new) = resolved_between (claims w) (claims w')" by (simp add: evolves_def)
  with inv fresh_evolves [OF assms(2) ev] show ?thesis by blast
qed

theorem settlement_queues_one_verb_per_claim_witness:
  "\<exists>post w'. CheckAndFireResolution 8 fanEnv 2 fanWorld = Done (post, w') \<and>
     resolved_between (claims fanWorld) (claims w') = {(2, ProducerVerbAbandon), (3, ProducerVerbAbandon), (1, ProducerVerbAbandon)}"
proof -
  obtain post w' r where d: "CheckAndFireResolution 8 fanEnv 2 fanWorld = Done (post, w')"
    "verb_pairs (verb_outbox (claims w')) = [(2, ProducerVerbAbandon), (3, ProducerVerbAbandon), (1, ProducerVerbAbandon)]"
    by (rule fan_done)
  have "verb_outbox (claims fanWorld) = []" "hasVerbOutbox fanEnv" by (simp_all add: fanWorld_def fanClaims_def fanEnv_def)
  with settlement_queues_one_verb_per_claim [OF fan_inv _ d(1)] d show ?thesis by auto
qed



text \<open>C7: What the automatic terminal decides. If it changes anything, the claim was active and held by this
  supervisor, had holders, none of them active, and either a failed one or all expected children resolved;
  the claim then ends abandoned exactly if a holder failed or the children's counts abandon under the
  aggregation policy, committed otherwise, stamped with the store's time and with the holder cleared.\<close>

theorem auto_terminal_decides:
  assumes "claim_inv (claims w)" and "fresh env 0 (claims w)"
    and "CheckAndFireResolution n env i w = Done (post, w')" and "w' \<noteq> w"
  shows "\<exists>row. handleGet (claims w) i = Some row \<and> may_resolve env (claims w) row \<and>
    handleGet (claims w') i = Some (row\<lparr>ch_state :=
        (if IsAbandon (autoOutcome (claims w) row) then ClaimHandleStateAbandoned else ClaimHandleStateCommitted),
      holder_supervisor_id := None, resolved_at := Some (dbNow env)\<rparr>)"
  using fire_ok [OF assms(1,2), of n i] assms(3,4) by (auto simp: promoted_def)

theorem auto_terminal_decides_witness:
  "\<exists>post w' row. CheckAndFireResolution 8 fanEnv 2 fanWorld = Done (post, w') \<and>
     handleGet (claims fanWorld) 2 = Some row \<and> may_resolve fanEnv (claims fanWorld) row"
proof -
  obtain post w' r where d: "CheckAndFireResolution 8 fanEnv 2 fanWorld = Done (post, w')" "handleGet (claims w') 1 = Some r"
    "ch_state r = ClaimHandleStateAbandoned" by (rule fan_done)
  then have "w' \<noteq> fanWorld" using fan_rows(1,3) by auto
  from auto_terminal_decides [OF fan_inv d(1) this] d(1) show ?thesis by blast
qed

subsection \<open>Held runs\<close>

text \<open>The claims a run acquired or co-holds.\<close>

definition claims_of :: "ClaimStore \<Rightarrow> UUID \<Rightarrow> ClaimHandleRow set" where
  "claims_of s run = {h \<in> set (claim_handles s). node_run_id h = Some run \<or>
     (\<exists>ho \<in> set (claim_holders s). holder_run_id ho = run \<and> claim_handle_id ho = ch_id h)}"

lemma set_portfolio: "claim_inv s \<Longrightarrow> set (portfolio s run) = claims_of s run"
  by (auto simp: portfolio_def claims_of_def ListByNodeRun_def ListByHolderRun_def inv_get
      eq_commute [of "Some _" "handleGet s _"] split: option.splits)

lemma portfolio_fold:
  "FullyResolved (foldl portfolioStep st hs) \<longleftrightarrow> FullyResolved st \<and> (\<forall>h \<in> set hs. \<not> active h)"
  "Poisoned (foldl portfolioStep st hs) \<longleftrightarrow> Poisoned st \<or> (\<exists>h \<in> set hs. ch_state h = ClaimHandleStateAbandoned)"
  by (induction hs arbitrary: st) (auto simp: portfolioStep_def split: ClaimHandleState.splits)


definition heldRun :: NodeRunRow where
  "heldRun = \<lparr>NodeRunID = 5, NodeID = 7, FrameID = 1, RunScopeID = 2, State = NodeStateHeld, SettlingSignalType = None,
     Policy = \<lparr>Kind = AggregationKindStrict, MaxFailures = 0\<rparr>, Changed = False, executor_name = None,
     required_claim_producers = [], enqueued_at = 0, sequence = 1, creation_reason = CreationReasonCascade, claimed_by = None,
      claimed_at = None, active_terminal_at = None, progress_at = None, parked_at = None, resume_at = None, retry_counter = 0,
      prior_dispatch_id = None, prior_dispatch_disposition = None, scratch = noScratch, ack = noAck\<rparr>"

definition heldWorld :: "unit World" where
  "heldWorld = fanWorld\<lparr>graph := (graph fanWorld)\<lparr>runs := \<lparr>node_runs = [heldRun],
     run_scopes = [], bag_snapshots = []\<rparr>\<rparr>\<rparr>"


subsection \<open>Agreement with the run tree\<close>



end
