(* ===== verification/Producer_Verb_Dispatch.thy ===== *)
theory Producer_Verb_Dispatch
  imports Claim_Settlement_Props
begin

text \<open>
  Delivery of the queued producer verbs: the retry backoff, one pass of the dispatcher over the outbox,
  the application of a deferred commit result and the barrier that flushes conflicting verbs before a
  claim is opened (lib/runtime/producer\_verb\_outbox.go). Claim producers are services: their answers are
  parameters that may depend on every call made so far.
\<close>

subsection \<open>Backoff\<close>

text \<open>Durations are int64 nanoseconds.\<close>

definition defaultProducerVerbBaseBackoff :: int where
  "defaultProducerVerbBaseBackoff = 1000000000"

definition defaultProducerVerbMaxBackoff :: int where
  "defaultProducerVerbMaxBackoff = 60000000000"

text \<open>The loop doubles until the cap; the first argument is the number of iterations left.\<close>

fun backoffLoop :: "nat \<Rightarrow> int \<Rightarrow> int \<Rightarrow> int" where
  "backoffLoop 0 mx backoff = (if backoff > mx then mx else backoff)"
| "backoffLoop (Suc k) mx backoff =
     (let backoff' = wrap64 (backoff * 2) in if backoff' \<ge> mx then mx else backoffLoop k mx backoff')"

definition producerVerbBackoff :: "int \<Rightarrow> int \<Rightarrow> int \<Rightarrow> int" where
  "producerVerbBackoff attemptCount base mx =
     (let base' = (if base \<le> 0 then defaultProducerVerbBaseBackoff else base);
          mx' = (if mx \<le> 0 then defaultProducerVerbMaxBackoff else mx) in
      backoffLoop (nat (attemptCount - 1)) mx' base')"

subsection \<open>Producers\<close>

record CommitResult =
  crVersionID :: string
  crProducerMetadata :: string

record ProducerCall =
  pcProducer :: string
  pcVerb :: ProducerVerb
  pcClaimID :: UUID
  pcScope :: string
  pcAddress :: string
  pcLeaseToken :: string

text \<open>\<open>quoted\<close> is the \<open>%q\<close> verb of the formatter.\<close>

record Producers =
  prCommit :: "ProducerCall list \<Rightarrow> ProducerCall \<Rightarrow> string + CommitResult"
  prAbandon :: "ProducerCall list \<Rightarrow> ProducerCall \<Rightarrow> string option"
  prRelease :: "ProducerCall list \<Rightarrow> ProducerCall \<Rightarrow> string option"
  prCapabilities :: "string \<Rightarrow> string + bool"
  prScopesConflict :: "string \<Rightarrow> string \<Rightarrow> string \<Rightarrow> string + bool"
  quoted :: "string \<Rightarrow> string"

record 'b VerbState =
  vworld :: "'b World"
  calls :: "ProducerCall list"

definition verbCall :: "string \<Rightarrow> ProducerVerbOutboxRow \<Rightarrow> ProducerCall" where
  "verbCall producer row = \<lparr>pcProducer = producer, pcVerb = verb row, pcClaimID = ob_claim_handle_id row,
     pcScope = ob_claim_scope_data row, pcAddress = ob_address row, pcLeaseToken = ob_lease_token row\<rparr>"

subsection \<open>Delivery\<close>

text \<open>The closure \<open>apply\<close> of \<open>applyDeferredCommitResult\<close>: whether it succeeded, and the world it left. A
  metadata write that fails leaves no row behind.\<close>

definition applyCommitResult :: "'b Env \<Rightarrow> ProducerVerbOutboxRow \<Rightarrow> CommitResult \<Rightarrow> 'b World \<Rightarrow> bool \<times> 'b World" where
  "applyCommitResult env row res w =
     (let needsVersion = (crVersionID res \<noteq> []);
          needsMetadata = (ob_parent_claim_handle_id row \<noteq> None \<and> crProducerMetadata res \<noteq> []) in
      case (if needsVersion
            then SetVersionID (ob_claim_handle_id row) (ob_supervisor_id row) (crVersionID res) (claims w)
            else Inr (claims w)) of
        Inl e \<Rightarrow> (False, w)
      | Inr c \<Rightarrow>
          let w1 = w\<lparr>claims := c\<rparr> in
          if \<not> needsMetadata then (True, w1)
          else case ob_parent_claim_handle_id row of
            None \<Rightarrow> (True, w1)
          | Some parentID \<Rightarrow>
              (case handleGet (claims w1) parentID of
                 None \<Rightarrow> (True, w1)
               | Some parent \<Rightarrow>
                   (case recordChildCommitMetadata env
                           \<lparr>fiParentClaimHandleID = parentID, fiChildClaimHandleID = ob_claim_handle_id row,
                            fiChildOutcome = OutcomeCommit, fiChildProducerMetadata = crProducerMetadata res\<rparr> parent w1 of
                      Done w2 \<Rightarrow> (True, w2)
                    | _ \<Rightarrow> (False, w1))))"

text \<open>Inside a caller's transaction a failure keeps what was written; otherwise the closure runs in a
  transaction of its own, which rolls back. Failures are only logged.\<close>

definition applyDeferredCommitResult :: "'b Env \<Rightarrow> bool \<Rightarrow> ProducerVerbOutboxRow \<Rightarrow> CommitResult \<Rightarrow> 'b World \<Rightarrow> 'b World" where
  "applyDeferredCommitResult env inTx row res w =
     (if crVersionID res = [] \<and> (ob_parent_claim_handle_id row = None \<or> crProducerMetadata res = []) then w
      else let (ok, w') = applyCommitResult env row res w in if inTx \<or> ok then w' else w)"

definition deliverProducerVerb ::
  "'b Env \<Rightarrow> Producers \<Rightarrow> bool \<Rightarrow> string \<Rightarrow> ProducerVerbOutboxRow \<Rightarrow> 'b VerbState \<Rightarrow> string option \<times> 'b VerbState" where
  "deliverProducerVerb env prs inTx producer row st =
     (let call = verbCall producer row; st' = st\<lparr>calls := calls st @ [call]\<rparr> in
      case verb row of
        ProducerVerbCommit \<Rightarrow>
          (case prCommit prs (calls st) call of
             Inl e \<Rightarrow> (Some e, st')
           | Inr res \<Rightarrow> (None, st'\<lparr>vworld := applyDeferredCommitResult env inTx row res (vworld st)\<rparr>))
      | ProducerVerbAbandon \<Rightarrow> (prAbandon prs (calls st) call, st')
      | ProducerVerbRelease \<Rightarrow> (prRelease prs (calls st) call, st'))"

definition deliverRow :: "'b Env \<Rightarrow> Producers \<Rightarrow> ProducerVerbOutboxRow \<Rightarrow> 'b VerbState \<Rightarrow> string option \<times> 'b VerbState" where
  "deliverRow env prs row st =
     (let instanceID = (case ob_instance_id row of None \<Rightarrow> [] | Some i \<Rightarrow> uuidString env i) in
      case resolveProducer env (ob_producer_name row) instanceID of
        Inl e \<Rightarrow> (Some (''resolving producer '' @ quoted prs (ob_producer_name row) @ '' (transient): '' @ e), st)
      | Inr None \<Rightarrow> (Some (''producer '' @ quoted prs (ob_producer_name row) @ '' not registered''), st)
      | Inr (Some producer) \<Rightarrow> deliverProducerVerb env prs False producer row st)"

subsection \<open>A dispatch pass\<close>

definition producerVerbScopeKey :: "string \<Rightarrow> string \<Rightarrow> string" where
  "producerVerbScopeKey producerName scope = producerName @ CHR 0x00 # scope"

abbreviation rowKey :: "ProducerVerbOutboxRow \<Rightarrow> string" where
  "rowKey row \<equiv> producerVerbScopeKey (ob_producer_name row) (ob_claim_scope_data row)"

record DispatchConfig =
  BaseBackoff :: int
  MaxBackoff :: int

abbreviation onOutbox :: "(ClaimStore \<Rightarrow> ClaimStore) \<Rightarrow> 'b VerbState \<Rightarrow> 'b VerbState" where
  "onOutbox f st \<equiv> st\<lparr>vworld := (vworld st)\<lparr>claims := f (claims (vworld st))\<rparr>\<rparr>"

fun dispatchLoop ::
  "'b Env \<Rightarrow> Producers \<Rightarrow> DispatchConfig \<Rightarrow> time \<Rightarrow> ProducerVerbOutboxRow list \<Rightarrow> string list \<Rightarrow> nat \<Rightarrow> 'b VerbState \<Rightarrow> nat \<times> 'b VerbState" where
  "dispatchLoop env prs cfg now [] blocked delivered st = (delivered, st)"
| "dispatchLoop env prs cfg now (row # rows) blocked delivered st =
     (let key = rowKey row in
      if key \<in> set blocked then dispatchLoop env prs cfg now rows blocked delivered st
      else if next_attempt_at row > now then dispatchLoop env prs cfg now rows (key # blocked) delivered st
      else case deliverRow env prs row st of
        (Some e, st') \<Rightarrow>
          let backoff = producerVerbBackoff (attempt_count row + 1) (BaseBackoff cfg) (MaxBackoff cfg) in
          dispatchLoop env prs cfg now rows (key # blocked) delivered (onOutbox (RecordAttempt (seq row) (now + backoff) e) st')
      | (None, st') \<Rightarrow> dispatchLoop env prs cfg now rows blocked (delivered + 1) (onOutbox (outboxDelete (seq row)) st'))"

definition DispatchOnce :: "'b Env \<Rightarrow> Producers \<Rightarrow> DispatchConfig \<Rightarrow> time \<Rightarrow> 'b VerbState \<Rightarrow> nat \<times> 'b VerbState" where
  "DispatchOnce env prs cfg now st = dispatchLoop env prs cfg now (outboxListAll (claims (vworld st))) [] 0 st"

definition NewProducerVerbDispatcher :: DispatchConfig where
  "NewProducerVerbDispatcher = \<lparr>BaseBackoff = defaultProducerVerbBaseBackoff, MaxBackoff = defaultProducerVerbMaxBackoff\<rparr>"

text \<open>\<open>sysNow\<close> is the time of the system clock, used when no clock is configured.\<close>

definition FlushProducerVerbOutbox :: "'b Env \<Rightarrow> Producers \<Rightarrow> time \<Rightarrow> 'b VerbState \<Rightarrow> nat \<times> 'b VerbState" where
  "FlushProducerVerbOutbox env prs sysNow st =
     (if \<not> hasVerbOutbox env then (0, st)
      else DispatchOnce env prs NewProducerVerbDispatcher (case Clock env of None \<Rightarrow> sysNow | Some now \<Rightarrow> now) st)"

subsection \<open>The barrier before opening a claim\<close>

datatype barrier_error =
  CapabilitiesFailed string
| ConflictCheckFailed string
| UndeliveredBlocks nat string

text \<open>\<open>locks.ClaimScopesByteEqual\<close>: an empty scope conflicts with nothing.\<close>

definition ClaimScopesByteEqual :: "string \<Rightarrow> string \<Rightarrow> bool" where
  "ClaimScopesByteEqual a b \<longleftrightarrow> a \<noteq> [] \<and> b \<noteq> [] \<and> length a = length b \<and> list_all2 (=) a b"

definition scopesConflict :: "Producers \<Rightarrow> string \<Rightarrow> bool \<Rightarrow> string \<Rightarrow> string \<Rightarrow> string + bool" where
  "scopesConflict prs producer supportsScopesConflict a b =
     (if \<not> supportsScopesConflict then Inr (ClaimScopesByteEqual a b) else prScopesConflict prs producer a b)"

fun barrierLoop ::
  "'b Env \<Rightarrow> Producers \<Rightarrow> string \<Rightarrow> bool \<Rightarrow> string \<Rightarrow> ProducerVerbOutboxRow list \<Rightarrow> 'b VerbState \<Rightarrow> barrier_error option \<times> 'b VerbState" where
  "barrierLoop env prs producer caps candidateScope [] st = (None, st)"
| "barrierLoop env prs producer caps candidateScope (row # rows) st =
     (case scopesConflict prs producer caps candidateScope (ob_claim_scope_data row) of
        Inl e \<Rightarrow> (Some (ConflictCheckFailed e), st)
      | Inr conflicts \<Rightarrow>
          if \<not> conflicts then barrierLoop env prs producer caps candidateScope rows st
          else case deliverProducerVerb env prs True producer row st of
            (Some e, st') \<Rightarrow> (Some (UndeliveredBlocks (seq row) e), st')
          | (None, st') \<Rightarrow> barrierLoop env prs producer caps candidateScope rows (onOutbox (outboxDelete (seq row)) st'))"

definition producerVerbOutboxBarrier ::
  "'b Env \<Rightarrow> Producers \<Rightarrow> string \<Rightarrow> string \<Rightarrow> string \<Rightarrow> 'b VerbState \<Rightarrow> barrier_error option \<times> 'b VerbState" where
  "producerVerbOutboxBarrier env prs producer producerName candidateScope st =
     (if \<not> hasVerbOutbox env then (None, st)
      else let rows = ListByProducer (claims (vworld st)) producerName in
        if rows = [] then (None, st)
        else case prCapabilities prs producer of
          Inl e \<Rightarrow> (Some (CapabilitiesFailed e), st)
        | Inr caps \<Rightarrow> barrierLoop env prs producer caps candidateScope rows st)"

section \<open>Backoff\<close>

lemma backoffLoop_value:
  assumes "0 < b" and "b < 2 ^ 62" and "0 < mx" and "mx \<le> 2 ^ 62"
  shows "backoffLoop k mx b = min mx (b * 2 ^ k)"
  using assms(1,2)
proof (induction k arbitrary: b)
  case (Suc k)
  have w: "wrap64 (b * 2) = b * 2" by (rule wrap64_id) (use Suc.prems in auto)
  show ?case
  proof (cases "b * 2 \<ge> mx")
    case True
    moreover have "b * 2 * 1 \<le> b * 2 * 2 ^ k" by (rule mult_left_mono) (use Suc.prems in auto)
    ultimately show ?thesis by (simp add: w)
  next
    case False
    then have "backoffLoop k mx (b * 2) = min mx (b * 2 * 2 ^ k)"
      using Suc.prems assms(4) by (intro Suc.IH) auto
    with False show ?thesis by (simp add: w mult.assoc)
  qed
qed auto

text \<open>C31: The retry backoff of the verb dispatcher stays within bounds and does not wrap around: for a base
  below and a cap up to \<open>2 ^ 62\<close> nanoseconds it is the base doubled once per attempt after the first, capped,
  so it is positive, never above the cap and never shorter after a further failure; a base or cap that is not
  positive stands for one second and one minute.\<close>

theorem backoff_is_capped_doubling:
  assumes "base < 2 ^ 62" and "mx \<le> 2 ^ 62"
  shows "let b = (if base \<le> 0 then 1000000000 else base); m = (if mx \<le> 0 then 60000000000 else mx) in
    producerVerbBackoff n base mx = min m (b * 2 ^ nat (n - 1)) \<and>
    0 < producerVerbBackoff n base mx \<and> producerVerbBackoff n base mx \<le> m \<and>
    producerVerbBackoff n base mx \<le> producerVerbBackoff (n + 1) base mx"
proof -
  define b m where bm_def: "b = (if base \<le> 0 then 1000000000 else base)" "m = (if mx \<le> 0 then 60000000000 else mx)"
  have bm: "0 < b" "b < 2 ^ 62" "0 < m" "m \<le> 2 ^ 62" using assms by (auto simp: bm_def)
  have v: "producerVerbBackoff k base mx = min m (b * 2 ^ nat (k - 1))" for k
    unfolding producerVerbBackoff_def Let_def defaultProducerVerbBaseBackoff_def defaultProducerVerbMaxBackoff_def bm_def [symmetric]
    by (rule backoffLoop_value [OF bm])
  have mono: "min m (b * 2 ^ nat (n - 1)) \<le> min m (b * 2 ^ nat (n + 1 - 1))"
    using bm by (intro min.mono mult_left_mono power_increasing) auto
  show ?thesis unfolding Let_def bm_def [symmetric] v by (intro conjI mono refl) (use bm in simp_all)
qed

theorem backoff_is_capped_doubling_witness:
  "producerVerbBackoff 4 0 0 = 8000000000 \<and> producerVerbBackoff 10 0 0 = 60000000000"
  using backoff_is_capped_doubling [of 0 0 4] backoff_is_capped_doubling [of 0 0 10] by simp

text \<open>Beyond those bounds the doubling wraps: the delay becomes negative.\<close>

lemma backoff_wraps: "producerVerbBackoff 2 (2 ^ 62) (2 ^ 63 - 1) = - (2 ^ 63)"
  by code_simp

section \<open>Delivery\<close>

subsection \<open>One delivery\<close>

text \<open>The producer accepted the call: after the calls \<open>h\<close> it answered without an error.\<close>

definition accepts :: "Producers \<Rightarrow> ProducerCall list \<Rightarrow> ProducerCall \<Rightarrow> bool" where
  "accepts prs h c = (case pcVerb c of
     ProducerVerbCommit \<Rightarrow> (case prCommit prs h c of Inl _ \<Rightarrow> False | Inr _ \<Rightarrow> True)
   | ProducerVerbAbandon \<Rightarrow> prAbandon prs h c = None
   | ProducerVerbRelease \<Rightarrow> prRelease prs h c = None)"

definition acknowledged :: "Producers \<Rightarrow> ProducerVerbOutboxRow \<Rightarrow> ProducerCall list \<Rightarrow> bool" where
  "acknowledged prs row cs \<longleftrightarrow> (\<exists>p h t. cs = h @ verbCall p row # t \<and> accepts prs h (verbCall p row))"

lemma acknowledged_append: "acknowledged prs row cs \<Longrightarrow> acknowledged prs row (cs @ later)"
  unfolding acknowledged_def by (metis append.assoc append_Cons)

abbreviation outbox :: "'b VerbState \<Rightarrow> ProducerVerbOutboxRow list" where
  "outbox st \<equiv> verb_outbox (claims (vworld st))"

lemma apply_result_outbox: "verb_outbox (claims (applyDeferredCommitResult env inTx row res w)) = verb_outbox (claims w)"
proof -
  have v: "verb_outbox c' = verb_outbox c" if "SetVersionID i v n c = Inr c'" for i v n c c'
    using that by (auto simp: SetVersionID_def guarded_update_def split: if_splits)
  have r: "claims w' = claims w1" if "recordChildCommitMetadata env inp p w1 = Done w'" for inp p w1 w'
    using recordChild_ok [of True w1 env inp p] that by simp
  have "verb_outbox (claims (snd (applyCommitResult env row res w))) = verb_outbox (claims w)"
    using v r by (auto simp: applyCommitResult_def Let_def split: sum.splits option.splits outcome.splits)
  then show ?thesis by (auto simp: applyDeferredCommitResult_def split: prod.splits)
qed

lemma deliver_verb:
  assumes "deliverProducerVerb env prs inTx p row st = (e, st')"
  shows "outbox st' = outbox st" and "\<exists>later. calls st' = calls st @ later" and "e = None \<Longrightarrow> acknowledged prs row (calls st')"
proof -
  from assms show "outbox st' = outbox st"
    by (auto simp: deliverProducerVerb_def Let_def apply_result_outbox split: ProducerVerb.splits sum.splits)
  have c: "calls st' = calls st @ [verbCall p row]" using assms
    by (auto simp: deliverProducerVerb_def Let_def split: ProducerVerb.splits sum.splits)
  then show "\<exists>later. calls st' = calls st @ later" by blast
  assume "e = None"
  with assms have "accepts prs (calls st) (verbCall p row)"
    by (auto simp: deliverProducerVerb_def accepts_def verbCall_def Let_def split: ProducerVerb.splits sum.splits)
  with c show "acknowledged prs row (calls st')" by (auto simp: acknowledged_def)
qed

lemma deliver_row:
  assumes "deliverRow env prs row st = (e, st')"
  shows "outbox st' = outbox st" and "\<exists>later. calls st' = calls st @ later" and "e = None \<Longrightarrow> acknowledged prs row (calls st')"
  using assms deliver_verb [of env prs False _ row st e st']
  by (auto simp: deliverRow_def Let_def split: sum.splits option.splits)

subsection \<open>One pass\<close>

text \<open>What a row carries besides its retry bookkeeping.\<close>

definition strip :: "ProducerVerbOutboxRow \<Rightarrow> ProducerVerbOutboxRow" where
  "strip r = r\<lparr>attempt_count := 0, next_attempt_at := 0, last_error := []\<rparr>"

text \<open>\<open>gone\<close> are the sequence numbers the pass removed.\<close>

definition passed :: "Producers \<Rightarrow> ProducerVerbOutboxRow list \<Rightarrow> string list \<Rightarrow> 'b VerbState \<Rightarrow> nat set \<Rightarrow> nat \<times> 'b VerbState \<Rightarrow> nat \<Rightarrow> bool" where
  "passed prs rows blocked st gone res d \<longleftrightarrow>
     gone \<subseteq> seq ` set rows \<and> finite gone \<and> fst res = d + card gone \<and>
     (\<exists>later. calls (snd res) = calls st @ later) \<and>
     map strip (outbox (snd res)) = map strip (filter (\<lambda>r. seq r \<notin> gone) (outbox st)) \<and>
     (\<forall>r \<in> set rows. seq r \<in> gone \<longrightarrow> acknowledged prs r (calls (snd res))) \<and>
     (\<forall>K. \<exists>n. filter (\<lambda>r. seq r \<in> gone) (filter (\<lambda>r. rowKey r = K) rows) = take n (filter (\<lambda>r. rowKey r = K) rows) \<and>
        (K \<in> set blocked \<longrightarrow> n = 0))"

lemma strip_filter: "(\<And>r. P (strip r) = P r) \<Longrightarrow> map strip xs = map strip ys \<Longrightarrow> map strip (filter P xs) = map strip (filter P ys)"
  by (metis (no_types, lifting) filter_cong filter_map comp_apply)

lemma passed_skip:
  assumes "passed prs rows blocked' st gone res d" and "set blocked \<subseteq> set blocked'" and "rowKey row \<in> set blocked'"
    and "seq row \<notin> seq ` set rows"
  shows "passed prs (row # rows) blocked st gone res d"
proof -
  have n: "seq row \<notin> gone" using assms(1,4) by (auto simp: passed_def)
  have "\<exists>n. filter (\<lambda>r. seq r \<in> gone) (filter (\<lambda>r. rowKey r = K) (row # rows)) = take n (filter (\<lambda>r. rowKey r = K) (row # rows)) \<and>
      (K \<in> set blocked \<longrightarrow> n = 0)" for K
  proof -
    from assms(1) obtain n where n': "filter (\<lambda>r. seq r \<in> gone) (filter (\<lambda>r. rowKey r = K) rows) = take n (filter (\<lambda>r. rowKey r = K) rows)"
      "K \<in> set blocked' \<longrightarrow> n = 0" unfolding passed_def by blast
    show ?thesis
    proof (cases "rowKey row = K")
      case True
      with n' assms(3) have "n = 0" by blast
      with n' n True show ?thesis by (intro exI [of _ 0]) simp
    next
      case False
      with n' assms(2) show ?thesis by (intro exI [of _ n]) auto
    qed
  qed
  with assms(1) n show ?thesis by (auto simp: passed_def)
qed

lemma passed_state:
  assumes p: "passed prs rows blocked st1 gone res d" and "map strip (outbox st1) = map strip (outbox st)"
    and "\<exists>later. calls st1 = calls st @ later"
  shows "passed prs rows blocked st gone res d"
proof -
  have "map strip (filter (\<lambda>r. seq r \<notin> gone) (outbox st1)) = map strip (filter (\<lambda>r. seq r \<notin> gone) (outbox st))"
    by (rule strip_filter) (simp_all add: strip_def assms(2))
  moreover have "\<exists>later. calls (snd res) = calls st @ later" using p assms(3) by (force simp: passed_def)
  ultimately show ?thesis using p by (simp add: passed_def)
qed

lemma strip_attempt: "map strip (verb_outbox (RecordAttempt q t e s)) = map strip (verb_outbox s)"
  by (auto simp: RecordAttempt_def update_where_def strip_def)

lemma passed_delivered:
  assumes p: "passed prs rows blocked (onOutbox (outboxDelete (seq row)) st1) gone res (Suc d)"
    and st1: "outbox st1 = outbox st" "\<exists>later. calls st1 = calls st @ later" "acknowledged prs row (calls st1)"
    and free: "rowKey row \<notin> set blocked" and new: "seq row \<notin> seq ` set rows"
  shows "passed prs (row # rows) blocked st (insert (seq row) gone) res d"
proof -
  from p have g: "seq row \<notin> gone" "finite gone" using new by (auto simp: passed_def)
  obtain c1 c2 where c: "calls st1 = calls st @ c1" "calls (snd res) = calls st1 @ c2"
    using st1(2) p by (auto simp: passed_def)
  have "\<exists>n. filter (\<lambda>r. seq r \<in> insert (seq row) gone) (filter (\<lambda>r. rowKey r = K) (row # rows)) = take n (filter (\<lambda>r. rowKey r = K) (row # rows)) \<and>
      (K \<in> set blocked \<longrightarrow> n = 0)" for K
  proof -
    from p obtain n where n: "filter (\<lambda>r. seq r \<in> gone) (filter (\<lambda>r. rowKey r = K) rows) = take n (filter (\<lambda>r. rowKey r = K) rows)"
      "K \<in> set blocked \<longrightarrow> n = 0" unfolding passed_def by blast
    have "filter (\<lambda>r. seq r \<in> insert (seq row) gone) (filter (\<lambda>r. rowKey r = K) rows) = filter (\<lambda>r. seq r \<in> gone) (filter (\<lambda>r. rowKey r = K) rows)"
      using new by (intro filter_cong) (auto simp: image_iff)
    with n free show ?thesis by (intro exI [of _ "if rowKey row = K then Suc n else n"]) auto
  qed
  moreover have "map strip (outbox (snd res)) = map strip (filter (\<lambda>r. seq r \<notin> insert (seq row) gone) (outbox st))"
    using p st1(1) by (simp add: passed_def outboxDelete_def delete_where_def conj_commute)
  moreover have "\<forall>r \<in> set (row # rows). seq r \<in> insert (seq row) gone \<longrightarrow> acknowledged prs r (calls (snd res))"
    using p acknowledged_append [OF st1(3), of c2] c(2) new by (auto simp: passed_def image_iff)
  moreover have "insert (seq row) gone \<subseteq> seq ` set (row # rows)" "fst res = d + card (insert (seq row) gone)"
    "\<exists>later. calls (snd res) = calls st @ later" using p g c by (auto simp: passed_def)
  ultimately show ?thesis using g(2) unfolding passed_def by blast
qed

lemma dispatchLoop_passed:
  "distinct (map seq rows) \<Longrightarrow> \<exists>gone. passed prs rows blocked st gone (dispatchLoop env prs cfg now rows blocked d st) d"
proof (induction rows arbitrary: blocked d st)
  case Nil
  show ?case by (intro exI [of _ "{}"]) (simp add: passed_def)
next
  case (Cons row rows)
  then have new: "seq row \<notin> seq ` set rows" and dist: "distinct (map seq rows)" by auto
  obtain e st' where del: "deliverRow env prs row st = (e, st')" by (rule prod.exhaust)
  consider (blocked) "rowKey row \<in> set blocked" | (early) "rowKey row \<notin> set blocked" "next_attempt_at row > now"
    | (failed) er where "rowKey row \<notin> set blocked" "\<not> next_attempt_at row > now" "e = Some er"
    | (ok) "rowKey row \<notin> set blocked" "\<not> next_attempt_at row > now" "e = None" by (cases e) auto
  then show ?case
  proof cases
    case blocked
    obtain gone where "passed prs rows blocked st gone (dispatchLoop env prs cfg now rows blocked d st) d"
      using Cons.IH [OF dist] by blast
    then have "passed prs (row # rows) blocked st gone (dispatchLoop env prs cfg now rows blocked d st) d"
      by (rule passed_skip) (use new blocked in auto)
    with blocked show ?thesis by (auto simp: Let_def)
  next
    case early
    obtain gone where "passed prs rows (rowKey row # blocked) st gone (dispatchLoop env prs cfg now rows (rowKey row # blocked) d st) d"
      using Cons.IH [OF dist] by blast
    then have "passed prs (row # rows) blocked st gone (dispatchLoop env prs cfg now rows (rowKey row # blocked) d st) d"
      by (rule passed_skip) (use new in auto)
    with early show ?thesis by (auto simp: Let_def)
  next
    case failed
    let ?st = "onOutbox (RecordAttempt (seq row) (now + producerVerbBackoff (attempt_count row + 1) (BaseBackoff cfg) (MaxBackoff cfg)) er) st'"
    let ?res = "dispatchLoop env prs cfg now rows (rowKey row # blocked) d ?st"
    obtain gone where "passed prs rows (rowKey row # blocked) ?st gone ?res d" using Cons.IH [OF dist] by blast
    then have "passed prs rows (rowKey row # blocked) st gone ?res d"
      by (rule passed_state) (use deliver_row [OF del] strip_attempt in simp_all)
    then have "passed prs (row # rows) blocked st gone ?res d"
      by (rule passed_skip) (use new in auto)
    with failed del show ?thesis by (auto simp: Let_def)
  next
    case ok
    let ?res = "dispatchLoop env prs cfg now rows blocked (d + 1) (onOutbox (outboxDelete (seq row)) st')"
    obtain gone where "passed prs rows blocked (onOutbox (outboxDelete (seq row)) st') gone ?res (Suc d)"
      using Cons.IH [OF dist, of blocked "onOutbox (outboxDelete (seq row)) st'" "d + 1"] by auto
    then have "passed prs (row # rows) blocked st (insert (seq row) gone) ?res d"
      by (rule passed_delivered) (use deliver_row [OF del] ok new in simp_all)
    with ok del show ?thesis by (auto simp: Let_def)
  qed
qed

lemma map_sort_strip: "map strip (sort_key seq xs) = sort_key seq (map strip xs)"
proof (induction xs)
  case (Cons x xs)
  have "map strip (insort_key seq x ys) = insort_key seq (strip x) (map strip ys)" for ys
    by (induction ys) (auto simp: strip_def)
  with Cons show ?case by simp
qed simp

lemma filter_complement_drop:
  assumes "filter P q = take n q"
  shows "filter (\<lambda>x. \<not> P x) q = drop n q"
proof -
  have all: "\<forall>x \<in> set (take n q). P x" unfolding assms [symmetric] by simp
  have "filter P q = filter P (take n q) @ filter P (drop n q)" by (metis append_take_drop_id filter_append)
  with all assms have "filter P (drop n q) = []" by (metis append_self_conv filter_True)
  then have "\<forall>x \<in> set (drop n q). \<not> P x" by (simp add: filter_empty_conv)
  with all have "filter (\<lambda>x. \<not> P x) (take n q @ drop n q) = drop n q" by (simp add: filter_empty_conv del: append_take_drop_id)
  then show ?thesis by simp
qed

lemma inv_outbox: "claim_inv s \<Longrightarrow> distinct (map seq (verb_outbox s))"
  by (simp add: claim_inv_def keyed_def)

lemma removed_count:
  assumes "distinct (map seq xs)" and "gone \<subseteq> seq ` set xs"
  shows "card gone = length xs - length (filter (\<lambda>r. seq r \<notin> gone) xs)"
proof -
  have "gone = set (map seq (filter (\<lambda>r. seq r \<in> gone) xs))" using assms(2) by auto
  moreover have "distinct (map seq (filter (\<lambda>r. seq r \<in> gone) xs))" using assms(1) by (simp add: distinct_map_filter)
  ultimately have "card gone = length (filter (\<lambda>r. seq r \<in> gone) xs)" by (metis distinct_card length_map)
  moreover have "length (filter (\<lambda>r. seq r \<in> gone) xs) + length (filter (\<lambda>r. seq r \<notin> gone) xs) = length xs"
    by (rule sum_length_filter_compl)
  ultimately show ?thesis by simp
qed


definition exampleProducers :: Producers where
  "exampleProducers = \<lparr>prCommit = (\<lambda>_ _. Inr \<lparr>crVersionID = [], crProducerMetadata = []\<rparr>),
     prAbandon = (\<lambda>_ c. if pcClaimID c = 1 then Some ''down'' else None), prRelease = (\<lambda>_ _. None),
     prCapabilities = (\<lambda>_. Inr False), prScopesConflict = (\<lambda>_ _ _. Inr True), quoted = (\<lambda>x. x)\<rparr>"

definition exampleVerb :: "UUID \<Rightarrow> string \<Rightarrow> ProducerVerbOutboxInsertInput" where
  "exampleVerb i scope = \<lparr>oiClaimHandleID = i, oiProducerName = ''fs'', oiVerb = ProducerVerbAbandon, oiClaimScopeData = scope,
     oiAddress = [], oiLeaseToken = [], oiSupervisorID = ''sup1'', oiInstanceID = None, oiParentClaimHandleID = None,
     oiNextAttemptAt = 5, oiEnqueuedAt = 5\<rparr>"

text \<open>Claims 1 and 3 share a scope; the producer refuses the verb of claim 1.\<close>

definition exampleVerbState :: "unit VerbState" where
  "exampleVerbState = \<lparr>vworld = fanWorld\<lparr>claims := fanClaims\<lparr>
       verb_outbox := [outboxRow 1 (exampleVerb 1 ''a''), outboxRow 2 (exampleVerb 2 ''b''), outboxRow 3 (exampleVerb 3 ''a'')],
       last_seq := 3\<rparr>\<rparr>, calls = []\<rparr>"

lemma exampleVerb_inv: "claim_inv (claims (vworld exampleVerbState))"
  using fan_inv(1) by (simp add: claim_inv_def exampleVerbState_def fanWorld_def keyed_def outboxRow_def exampleVerb_def)

lemma exampleVerb_pass:
  "map seq (outbox (snd (DispatchOnce fanEnv exampleProducers NewProducerVerbDispatcher 10 exampleVerbState))) = [1, 3]"
  by code_simp


subsection \<open>The barrier\<close>

abbreviation conflicting :: "Producers \<Rightarrow> string \<Rightarrow> bool \<Rightarrow> string \<Rightarrow> ProducerVerbOutboxRow \<Rightarrow> bool" where
  "conflicting prs producer caps scope r \<equiv> scopesConflict prs producer caps scope (ob_claim_scope_data r) = Inr True"

definition cleared :: "Producers \<Rightarrow> string \<Rightarrow> bool \<Rightarrow> string \<Rightarrow> ProducerVerbOutboxRow list \<Rightarrow> 'b VerbState \<Rightarrow> 'b VerbState \<Rightarrow> bool" where
  "cleared prs p caps scope rows st st' \<longleftrightarrow>
     outbox st' = filter (\<lambda>r. \<forall>q \<in> set rows. conflicting prs p caps scope q \<longrightarrow> seq q \<noteq> seq r) (outbox st) \<and>
     (\<exists>later. calls st' = calls st @ later) \<and>
     (\<forall>r \<in> set rows. conflicting prs p caps scope r \<and> acknowledged prs r (calls st') \<or>
        scopesConflict prs p caps scope (ob_claim_scope_data r) = Inr False)"

lemma cleared_Cons:
  assumes c: "cleared prs p caps scope rows (onOutbox (outboxDelete (seq row)) st1) st'" and "conflicting prs p caps scope row"
    and st1: "outbox st1 = outbox st" "\<exists>later. calls st1 = calls st @ later" "acknowledged prs row (calls st1)"
  shows "cleared prs p caps scope (row # rows) st st'"
proof -
  from c obtain c2 where c2: "calls st' = calls st1 @ c2" by (auto simp: cleared_def)
  have "outbox st' = filter (\<lambda>r. \<forall>q \<in> set (row # rows). conflicting prs p caps scope q \<longrightarrow> seq q \<noteq> seq r) (outbox st)"
    using c assms(2) st1(1) by (auto simp: cleared_def outboxDelete_def delete_where_def intro!: filter_cong)
  moreover have "\<exists>later. calls st' = calls st @ later" using st1(2) c2 by auto
  moreover have "acknowledged prs row (calls st')" using acknowledged_append [OF st1(3), of c2] c2 by simp
  ultimately show ?thesis using c assms(2) by (auto simp: cleared_def)
qed

lemma barrierLoop_clears:
  "barrierLoop env prs p caps scope rows st = (None, st') \<Longrightarrow> cleared prs p caps scope rows st st'"
proof (induction rows arbitrary: st)
  case Nil
  then show ?case by (simp add: cleared_def)
next
  case (Cons row rows)
  show ?case
  proof (cases "scopesConflict prs p caps scope (ob_claim_scope_data row)")
    case (Inl e)
    with Cons.prems show ?thesis by simp
  next
    case (Inr conflict)
    show ?thesis
    proof (cases conflict)
      case False
      with Inr Cons.IH [of st] Cons.prems show ?thesis by (auto simp: cleared_def)
    next
      case True
      obtain e st1 where del: "deliverProducerVerb env prs True p row st = (e, st1)" by (rule prod.exhaust)
      have none: "e = None" and rest: "barrierLoop env prs p caps scope rows (onOutbox (outboxDelete (seq row)) st1) = (None, st')"
        using Cons.prems Inr True del by (auto split: option.splits)
      note d = deliver_verb [OF del]
      show ?thesis by (rule cleared_Cons [OF Cons.IH [OF rest]]) (use Inr True d none in auto)
    qed
  qed
qed

text \<open>C30: A claim is opened only on a scope whose earlier verbs are delivered: when the barrier succeeds, every
  queued verb of the producer whose scope conflicts with the candidate's was acknowledged and removed, in
  particular none is left, and all other queued verbs are untouched.\<close>

theorem barrier_clears_conflicts:
  assumes "claim_inv (claims (vworld st))" and "hasVerbOutbox env" and "prCapabilities prs producer = Inr caps"
    and "producerVerbOutboxBarrier env prs producer name scope st = (None, st')"
  shows "outbox st' = filter (\<lambda>r. \<not> (ob_producer_name r = name \<and> conflicting prs producer caps scope r)) (outbox st) \<and>
    (\<forall>r \<in> set (outbox st). ob_producer_name r = name \<longrightarrow>
       conflicting prs producer caps scope r \<and> acknowledged prs r (calls st') \<or>
       scopesConflict prs producer caps scope (ob_claim_scope_data r) = Inr False)"
proof (cases "ListByProducer (claims (vworld st)) name = []")
  case True
  have "{r \<in> set (outbox st). ob_producer_name r = name} = set (ListByProducer (claims (vworld st)) name)"
    by (auto simp: ListByProducer_def)
  then have none: "\<And>r. r \<in> set (outbox st) \<Longrightarrow> ob_producer_name r \<noteq> name" using True by auto
  have "st' = st" using assms(2,4) True by (simp add: producerVerbOutboxBarrier_def)
  with none show ?thesis by (auto intro!: filter_True [symmetric])
next
  case False
  have c: "cleared prs producer caps scope (ListByProducer (claims (vworld st)) name) st st'"
    using assms(2-4) False by (intro barrierLoop_clears) (simp add: producerVerbOutboxBarrier_def Let_def)
  have rows: "set (ListByProducer (claims (vworld st)) name) = {r \<in> set (outbox st). ob_producer_name r = name}"
    by (auto simp: ListByProducer_def)
  have inj: "q = r" if "q \<in> set (outbox st)" "r \<in> set (outbox st)" "seq q = seq r" for q r
    using inv_outbox [OF assms(1)] that by (metis (no_types) distinct_map inj_on_eq_iff)
  have "filter (\<lambda>r. \<forall>q \<in> {r \<in> set (outbox st). ob_producer_name r = name}. conflicting prs producer caps scope q \<longrightarrow> seq q \<noteq> seq r) (outbox st) =
      filter (\<lambda>r. \<not> (ob_producer_name r = name \<and> conflicting prs producer caps scope r)) (outbox st)"
    by (rule filter_cong [OF refl]) (use inj in blast)
  with c show ?thesis unfolding cleared_def rows by simp
qed

theorem barrier_clears_conflicts_witness:
  "map seq (outbox (snd (producerVerbOutboxBarrier fanEnv exampleProducers ''fs'' ''fs'' ''b'' exampleVerbState))) = [1, 3]"
proof -
  have "producerVerbOutboxBarrier fanEnv exampleProducers ''fs'' ''fs'' ''b'' exampleVerbState =
      (None, snd (producerVerbOutboxBarrier fanEnv exampleProducers ''fs'' ''fs'' ''b'' exampleVerbState))"
    (is "?b = (None, snd ?b)")
  proof -
    have "fst ?b = None" by code_simp
    then show ?thesis by (metis prod.collapse)
  qed
  from barrier_clears_conflicts [OF exampleVerb_inv _ _ this, of False]
  have "outbox (snd ?b) = filter (\<lambda>r. \<not> (ob_producer_name r = ''fs'' \<and> conflicting exampleProducers ''fs'' False ''b'' r)) (outbox exampleVerbState)"
    by (simp add: fanEnv_def exampleProducers_def)
  then show ?thesis
    by (simp add: exampleVerbState_def outboxRow_def exampleVerb_def scopesConflict_def ClaimScopesByteEqual_def)
qed

end
