(* ===== verification/Claim_Acquisition.thy ===== *)
theory Claim_Acquisition
  imports Producer_Verb_Dispatch Directives
begin

text \<open>
  Acquisition of the locks a run needs before it is dispatched: named locks with a limit, claims on a
  producer's scope with the conflict check, and reuse of locks a parked run still holds
  (lib/runtime/runner\_acquire\_claims.go, runner\_acquire\_named\_locks.go, runner\_acquire\_reuse.go,
  runner\_acquire\_holders.go, lib/foundation/locks/conflict.go).
  Metrics are left out. Fresh identifiers are arguments.
\<close>

subsection \<open>Coexistence of modes\<close>

datatype WriteSemantics =
  WriteSemanticsSync | WriteSemanticsStagedAsync | WriteSemanticsBlockingAsync | WriteSemanticsReadOnly

definition ParseWriteSemantics :: "string \<Rightarrow> WriteSemantics option" where
  "ParseWriteSemantics s =
     (if s = ''sync'' then Some WriteSemanticsSync
      else if s = ''staged_async'' then Some WriteSemanticsStagedAsync
      else if s = ''blocking_async'' then Some WriteSemanticsBlockingAsync
      else if s = ''read_only'' then Some WriteSemanticsReadOnly
      else None)"

definition IntentReadWrite :: string where
  "IntentReadWrite = ''rw''"

fun mvccPassThrough :: "WriteSemantics \<Rightarrow> bool" where
  "mvccPassThrough WriteSemanticsStagedAsync = True"
| "mvccPassThrough WriteSemanticsSync = False"
| "mvccPassThrough WriteSemanticsBlockingAsync = False"
| "mvccPassThrough WriteSemanticsReadOnly = False"

definition ModeCoexists :: "string \<Rightarrow> string \<Rightarrow> WriteSemantics \<Rightarrow> bool" where
  "ModeCoexists intentA intentB sem =
     (let rwA = (intentA = IntentReadWrite); rwB = (intentB = IntentReadWrite) in
      if mvccPassThrough sem then \<not> (rwA \<and> rwB) else \<not> rwA \<and> \<not> rwB)"

subsection \<open>Specifications and results\<close>

record NamedLockSpec =
  nlName :: string
  nlTemplateName :: string

record ClaimSpec =
  csProducerName :: string
  csSelector :: string
  csIntent :: string
  csAlias :: string
  csTemplateID :: string
  csInstanceID :: string
  csRunScopeID :: string
  csLifetime :: "ClaimLifetime option"
  csData :: string

datatype LockSpec = NamedSpec NamedLockSpec | ScopeSpec ClaimSpec

record Candidate =
  candNodeRunID :: UUID
  candNodeID :: UUID
  candNodeType :: string
  candFrameID :: UUID

record OpenOutcome =
  Available :: bool
  Result :: ClaimResult
  ooUnavailableClass :: string

record AcquiredLock =
  alSpec :: "LockSpec option"
  alClaimHandleID :: UUID
  alClaimResult :: ClaimResult
  alProducer :: "string option"
  alAlias :: string
  alIsHeld :: bool
  alProducerCandidateHandle :: string
  alProducerLeaseToken :: string
  alUnavailableClass :: string

definition noResult :: ClaimResult where
  "noResult = \<lparr>resAddress = [], resPayload = [], resClaimScope = [], resRealizedWriteSemantics = []\<rparr>"

definition noLock :: AcquiredLock where
  "noLock = \<lparr>alSpec = None, alClaimHandleID = zero_uuid, alClaimResult = noResult, alProducer = None, alAlias = [],
     alIsHeld = False, alProducerCandidateHandle = [], alProducerLeaseToken = [], alUnavailableClass = []\<rparr>"

datatype openResult = openResultAcquired | openResultUnavailable | openResultErrored | openResultBail

datatype acquire_error =
  ResolveFailed string
| UnresolvedProducer string
| ScopeLockFailed string
| CapabilitiesError string
| ScopesConflictError string
| NoRealizedSemantics UUID
| AcquireStoreError claim_error
| BarrierError barrier_error
| OpenError string

text \<open>What acquisition takes from outside: the advisory locks, the producers' \<open>Open\<close>, the limits of the
  named locks and the clock. \<open>isProducerCallError\<close> says of an error a producer client returned
  whether it is a \<open>peer.ProducerCallError\<close>; \<open>jsonString\<close> is the JSON encoding of a string.\<close>

record AcquireEnv =
  jsonString :: "string \<Rightarrow> string"
  takeClaimScopeLock :: "string \<Rightarrow> string \<Rightarrow> string option"
  prOpen :: "ProducerCall list \<Rightarrow> string \<Rightarrow> UUID \<Rightarrow> ClaimSpec \<Rightarrow> string + OpenOutcome"
  isProducerCallError :: "string \<Rightarrow> bool"
  namedLimit :: "string \<Rightarrow> int option"
  acqNow :: time

type_synonym acquisition = "AcquiredLock \<times> openResult \<times> acquire_error option"

abbreviation bail :: "acquire_error \<Rightarrow> acquisition" where
  "bail e \<equiv> (noLock, openResultBail, Some e)"

abbreviation theClaims :: "'b VerbState \<Rightarrow> ClaimStore" where
  "theClaims st \<equiv> claims (vworld st)"

abbreviation setClaims :: "ClaimStore \<Rightarrow> 'b VerbState \<Rightarrow> 'b VerbState" where
  "setClaims c st \<equiv> st\<lparr>vworld := (vworld st)\<lparr>claims := c\<rparr>\<rparr>"

text \<open>How the table writes JSON bytes.\<close>

definition nullableJSONB :: "string \<Rightarrow> string option" where
  "nullableJSONB b = (if b = [] then None else Some b)"

definition claimExpiryFromLiveness :: "time \<Rightarrow> int \<Rightarrow> time" where
  "claimExpiryFromLiveness now livenessInterval = now + 5 * livenessInterval"

subsection \<open>Reuse\<close>

definition lockAlreadyReused :: "AcquiredLock list \<Rightarrow> UUID \<Rightarrow> bool" where
  "lockAlreadyReused acquired i = list_ex (\<lambda>a. alClaimHandleID a = i) acquired"

definition renewReusedRunExpiry :: "AcquireEnv \<Rightarrow> UUID \<Rightarrow> int \<Rightarrow> ClaimStore \<Rightarrow> ClaimStore" where
  "renewReusedRunExpiry ae nodeRunID livenessInterval = RenewExpiryForHolderRun nodeRunID (acqNow ae + 5 * livenessInterval)"

definition reuseHeldNamedLock ::
  "AcquireEnv \<Rightarrow> NamedLockSpec \<Rightarrow> Candidate \<Rightarrow> AcquiredLock list \<Rightarrow> int \<Rightarrow> ClaimStore \<Rightarrow> (AcquiredLock \<times> ClaimStore) option" where
  "reuseHeldNamedLock ae spec cand acquired livenessInterval s =
     (case List.find (\<lambda>row. ch_state row = ClaimHandleStateActive \<and> lock_kind row = LockKindNamed \<and>
             lock_name row = Some (nlName spec) \<and> \<not> lockAlreadyReused acquired (ch_id row)) (ListByNodeRun s (candNodeRunID cand)) of
        None \<Rightarrow> None
      | Some row \<Rightarrow> Some (noLock\<lparr>alSpec := Some (NamedSpec spec), alClaimHandleID := ch_id row\<rparr>,
                          renewReusedRunExpiry ae (candNodeRunID cand) livenessInterval s))"

abbreviation bytesOf :: "string option \<Rightarrow> string" where
  "bytesOf x \<equiv> (case x of None \<Rightarrow> [] | Some b \<Rightarrow> b)"

fun pickLoop :: "Producers \<Rightarrow> string \<Rightarrow> bool \<Rightarrow> string \<Rightarrow> ClaimHandleRow list \<Rightarrow> acquire_error + ClaimHandleRow option" where
  "pickLoop prs producer caps scopeInitial [] = Inr None"
| "pickLoop prs producer caps scopeInitial (c # cs) =
     (case scopesConflict prs producer caps scopeInitial (bytesOf (claim_scope_data c)) of
        Inl e \<Rightarrow> Inl (ScopesConflictError e)
      | Inr conflicts \<Rightarrow> if conflicts then Inr (Some c) else pickLoop prs producer caps scopeInitial cs)"

definition pickScopeMatch :: "Producers \<Rightarrow> string \<Rightarrow> string \<Rightarrow> ClaimHandleRow list \<Rightarrow> acquire_error + ClaimHandleRow option" where
  "pickScopeMatch prs producer scopeInitial candidates =
     (case candidates of
        [] \<Rightarrow> Inr None
      | [c] \<Rightarrow> Inr (Some c)
      | _ \<Rightarrow> (case prCapabilities prs producer of
               Inl e \<Rightarrow> Inl (CapabilitiesError e)
             | Inr caps \<Rightarrow> pickLoop prs producer caps scopeInitial candidates))"

definition rowResult :: "ClaimHandleRow \<Rightarrow> ClaimResult" where
  "rowResult row = \<lparr>resAddress = bytesOf (address row), resPayload = bytesOf (payload row),
     resClaimScope = bytesOf (claim_scope_data row), resRealizedWriteSemantics = bytesOf (realized_write_semantics row)\<rparr>"

text \<open>The loop collects candidates until an exact match.\<close>

definition reusable :: "ClaimSpec \<Rightarrow> AcquiredLock list \<Rightarrow> ClaimHandleRow \<Rightarrow> bool" where
  "reusable spec acquired row \<longleftrightarrow> ch_state row = ClaimHandleStateActive \<and> lock_kind row = LockKindScope \<and>
     parent_claim_handle_id row = None \<and> producer_name row = Some (csProducerName spec) \<and> \<not> lockAlreadyReused acquired (ch_id row)"

definition reuseHeldRunClaim ::
  "AcquireEnv \<Rightarrow> Producers \<Rightarrow> ClaimSpec \<Rightarrow> Candidate \<Rightarrow> string \<Rightarrow> string \<Rightarrow> AcquiredLock list \<Rightarrow> int \<Rightarrow> ClaimStore \<Rightarrow>
   acquire_error + (AcquiredLock \<times> ClaimStore) option" where
  "reuseHeldRunClaim ae prs spec cand scopeInitial producer acquired livenessInterval s =
     (let candidates = filter (reusable spec acquired) (ListByNodeRun s (candNodeRunID cand)) in
      case (case List.find (\<lambda>row. bytesOf (claim_scope_data row) = scopeInitial) candidates of
              Some exact \<Rightarrow> Inr (Some exact)
            | None \<Rightarrow> pickScopeMatch prs producer scopeInitial candidates) of
        Inl e \<Rightarrow> Inl e
      | Inr None \<Rightarrow> Inr None
      | Inr (Some chosen) \<Rightarrow>
          Inr (Some (noLock\<lparr>alSpec := Some (ScopeSpec spec), alClaimHandleID := ch_id chosen, alClaimResult := rowResult chosen,
                       alProducer := Some producer, alAlias := csAlias spec, alIsHeld := is_held chosen\<rparr>,
                     renewReusedRunExpiry ae (candNodeRunID cand) livenessInterval s)))"

definition reuseLinkedSubClaim ::
  "AcquireEnv \<Rightarrow> ClaimSpec \<Rightarrow> Candidate \<Rightarrow> string \<Rightarrow> AcquiredLock list \<Rightarrow> int \<Rightarrow> ClaimStore \<Rightarrow> (AcquiredLock \<times> ClaimStore) option" where
  "reuseLinkedSubClaim ae spec cand producer acquired livenessInterval s =
     (let rows = ListByNodeRun s (candNodeRunID cand); inRun = map ch_id rows in
      case List.find (\<lambda>row. (case parent_claim_handle_id row of None \<Rightarrow> False | Some p \<Rightarrow> p \<notin> set inRun) \<and>
             ch_state row = ClaimHandleStateActive \<and> lock_kind row = LockKindScope \<and>
             producer_name row = Some (csProducerName spec) \<and> \<not> lockAlreadyReused acquired (ch_id row)) rows of
        None \<Rightarrow> None
      | Some row \<Rightarrow>
          Some (noLock\<lparr>alSpec := Some (ScopeSpec spec), alClaimHandleID := ch_id row, alClaimResult := rowResult row,
                  alProducer := Some producer, alAlias := csAlias spec, alIsHeld := is_held row,
                  alProducerCandidateHandle := producer_candidate_handle row, alProducerLeaseToken := producer_lease_token row\<rparr>,
                renewReusedRunExpiry ae (candNodeRunID cand) livenessInterval s))"

subsection \<open>The conflict check\<close>

fun conflictLoop ::
  "Producers \<Rightarrow> string \<Rightarrow> bool \<Rightarrow> string \<Rightarrow> ClaimSpec \<Rightarrow> Candidate \<Rightarrow> ClaimHandleRow list \<Rightarrow> bool \<Rightarrow> bool \<Rightarrow> acquire_error + bool \<times> bool" where
  "conflictLoop prs producer caps candidateScope spec cand [] saw sawDurable = Inr (saw, sawDurable)"
| "conflictLoop prs producer caps candidateScope spec cand (h # hs) saw sawDurable =
     (if node_run_id h = Some (candNodeRunID cand) then conflictLoop prs producer caps candidateScope spec cand hs saw sawDurable
      else if holder_node_id h = candNodeID cand \<and> ch_state h = ClaimHandleStateCommitted \<and> lifetime h = ClaimLifetimeDurable
        then conflictLoop prs producer caps candidateScope spec cand hs saw sawDurable
      else case scopesConflict prs producer caps candidateScope (bytesOf (claim_scope_data h)) of
        Inl e \<Rightarrow> Inl (ScopesConflictError e)
      | Inr conflicts \<Rightarrow>
          if \<not> conflicts then conflictLoop prs producer caps candidateScope spec cand hs saw sawDurable
          else case ParseWriteSemantics (bytesOf (realized_write_semantics h)) of
            None \<Rightarrow> Inl (NoRealizedSemantics (ch_id h))
          | Some holderRWS \<Rightarrow>
              if \<not> ModeCoexists (csIntent spec) (bytesOf (intent h)) holderRWS
              then conflictLoop prs producer caps candidateScope spec cand hs True
                     (if ch_state h = ClaimHandleStateCommitted \<and> lifetime h = ClaimLifetimeDurable then True else sawDurable)
              else conflictLoop prs producer caps candidateScope spec cand hs saw sawDurable)"

definition evaluateClaimScopeConflict ::
  "AcquireEnv \<Rightarrow> Producers \<Rightarrow> string \<Rightarrow> ClaimSpec \<Rightarrow> Candidate \<Rightarrow> ClaimStore \<Rightarrow> acquire_error + bool \<times> bool" where
  "evaluateClaimScopeConflict ae prs producer spec cand s =
     (let holders = ListByProducerClaimScope s (csProducerName spec) in
      case prCapabilities prs producer of
        Inl e \<Rightarrow> Inl (CapabilitiesError e)
      | Inr caps \<Rightarrow> conflictLoop prs producer caps (jsonString ae (csSelector spec)) spec cand holders False False)"

subsection \<open>Acquiring\<close>

definition insertHeldClaimHoldersAtAcquire ::
  "UUID \<Rightarrow> UUID \<Rightarrow> Candidate \<Rightarrow> bool \<Rightarrow> ClaimStore \<Rightarrow> claim_error + ClaimStore" where
  "insertHeldClaimHoldersAtAcquire holderID claimHandleID cand isHeld s =
     (if \<not> isHeld then Inr s
      else holderInsert \<lparr>hiID = holderID, hiClaimHandleID = claimHandleID, hiHolderNodeRunID = candNodeRunID cand\<rparr> s)"

definition claimInsertInput ::
  "'b Env \<Rightarrow> AcquireEnv \<Rightarrow> ClaimSpec \<Rightarrow> Candidate \<Rightarrow> int \<Rightarrow> bool \<Rightarrow> string \<Rightarrow> UUID \<Rightarrow> ClaimHandleInsertInput" where
  "claimInsertInput env ae spec cand livenessInterval isHeld scopeInitial rowID =
     \<lparr>inID = rowID, inNodeRunID = Some (candNodeRunID cand), inLockKind = LockKindScope, inLockName = None,
      inProducerName = Some (csProducerName spec), inClaimScopeData = nullableJSONB scopeInitial, inAddress = None, inPayload = None,
      inIntent = Some (csIntent spec), inHolderSupervisorID = SupervisorID env, inHolderNodeID = candNodeID cand,
      inExpiresAt = claimExpiryFromLiveness (acqNow ae) livenessInterval, inClaimedAtOverride = 0,
      inFrameID = Some (candFrameID cand), inRealizedWriteSemantics = [], inIsHeld = isHeld, inParentClaimHandleID = None,
      inLifetime = csLifetime spec, inProducerCandidateHandle = [], inProducerLeaseToken = [], inAggregationPolicy = PolicyNull\<rparr>"

text \<open>The writes after a successful \<open>Open\<close>.\<close>

definition recordOpenResult :: "'b Env \<Rightarrow> UUID \<Rightarrow> string \<Rightarrow> ClaimResult \<Rightarrow> ClaimStore \<Rightarrow> claim_error + ClaimStore" where
  "recordOpenResult env rowID scopeInitial cr s =
     (let supv = SupervisorID env in
      case UpdateAddress rowID supv (nullableJSONB (resAddress cr)) s of
        Inl e \<Rightarrow> Inl e
      | Inr s1 \<Rightarrow>
          (case (if resClaimScope cr \<noteq> [] \<and> resClaimScope cr \<noteq> scopeInitial
                 then UpdateClaimScope rowID supv (nullableJSONB (resClaimScope cr)) s1 else Inr s1) of
             Inl e \<Rightarrow> Inl e
           | Inr s2 \<Rightarrow>
               (case (if resPayload cr \<noteq> [] then UpdatePayload rowID supv (nullableJSONB (resPayload cr)) s2 else Inr s2) of
                  Inl e \<Rightarrow> Inl e
                | Inr s3 \<Rightarrow>
                    if resRealizedWriteSemantics cr \<noteq> []
                    then UpdateRealizedWriteSemantics rowID supv (resRealizedWriteSemantics cr) s3 else Inr s3)))"

text \<open>The part of \<open>acquireClaim\<close> from the insertion on.\<close>

definition openClaim ::
  "'b Env \<Rightarrow> Producers \<Rightarrow> AcquireEnv \<Rightarrow> ClaimSpec \<Rightarrow> Candidate \<Rightarrow> int \<Rightarrow> bool \<Rightarrow> string \<Rightarrow> string \<Rightarrow> UUID \<Rightarrow> UUID \<Rightarrow>
   'b VerbState \<Rightarrow> acquisition \<times> 'b VerbState" where
  "openClaim env prs ae spec cand livenessInterval isHeld producer scopeInitial rowID holderID st =
     (case handleInsert (dbNow env) (claimInsertInput env ae spec cand livenessInterval isHeld scopeInitial rowID) (theClaims st) of
        Inl e \<Rightarrow> (bail (AcquireStoreError e), st)
      | Inr c1 \<Rightarrow>
          (case producerVerbOutboxBarrier env prs producer (csProducerName spec) scopeInitial (setClaims c1 st) of
             (Some e, st2) \<Rightarrow>
               (case e of
                  UndeliveredBlocks q m \<Rightarrow> if isProducerCallError ae m then ((noLock, openResultErrored, Some (BarrierError e)), st2)
                                           else (bail (BarrierError e), st2)
                | CapabilitiesFailed m \<Rightarrow> if isProducerCallError ae m then ((noLock, openResultErrored, Some (BarrierError e)), st2)
                                           else (bail (BarrierError e), st2)
                | ConflictCheckFailed m \<Rightarrow> if isProducerCallError ae m then ((noLock, openResultErrored, Some (BarrierError e)), st2)
                                           else (bail (BarrierError e), st2))
           | (None, st2) \<Rightarrow>
               (case prOpen ae (calls st2) producer rowID spec of
                  Inl e \<Rightarrow> (if isProducerCallError ae e then (noLock, openResultErrored, Some (OpenError e)) else bail (OpenError e), st2)
                | Inr outcome \<Rightarrow>
                    if \<not> Available outcome
                    then ((noLock\<lparr>alUnavailableClass := ooUnavailableClass outcome\<rparr>, openResultUnavailable, None), st2)
                    else case recordOpenResult env rowID scopeInitial (Result outcome) (theClaims st2) of
                      Inl e \<Rightarrow> (bail (AcquireStoreError e), st2)
                    | Inr c3 \<Rightarrow>
                        (case insertHeldClaimHoldersAtAcquire holderID rowID cand isHeld c3 of
                           Inl e \<Rightarrow> (bail (AcquireStoreError e), setClaims c3 st2)
                         | Inr c4 \<Rightarrow>
                             ((noLock\<lparr>alSpec := Some (ScopeSpec spec), alClaimHandleID := rowID, alClaimResult := Result outcome,
                                 alProducer := Some producer, alAlias := csAlias spec, alIsHeld := isHeld\<rparr>,
                               openResultAcquired, None), setClaims c4 st2)))))"

definition acquireClaim ::
  "'b Env \<Rightarrow> Producers \<Rightarrow> AcquireEnv \<Rightarrow> UUID \<Rightarrow> ClaimSpec \<Rightarrow> Candidate \<Rightarrow> int \<Rightarrow> HoldingSubgraph list \<Rightarrow> AcquiredLock list \<Rightarrow>
   UUID \<Rightarrow> UUID \<Rightarrow> 'b VerbState \<Rightarrow> acquisition \<times> 'b VerbState" where
  "acquireClaim env prs ae instanceID spec cand livenessInterval heldSubgraphs acquired rowID holderID st =
     (case resolveProducer env (csProducerName spec) (uuidString env instanceID) of
        Inl e \<Rightarrow> (bail (ResolveFailed e), st)
      | Inr None \<Rightarrow> ((noLock, openResultErrored, Some (UnresolvedProducer (csProducerName spec))), st)
      | Inr (Some producer) \<Rightarrow>
          let scopeInitial = jsonString ae (csSelector spec) in
          case takeClaimScopeLock ae (csProducerName spec) scopeInitial of
            Some e \<Rightarrow> (bail (ScopeLockFailed e), st)
          | None \<Rightarrow>
              (case reuseHeldRunClaim ae prs spec cand scopeInitial producer acquired livenessInterval (theClaims st) of
                 Inl e \<Rightarrow> (bail e, st)
               | Inr (Some (al, c)) \<Rightarrow> ((al, openResultAcquired, None), setClaims c st)
               | Inr None \<Rightarrow>
                   (case reuseLinkedSubClaim ae spec cand producer acquired livenessInterval (theClaims st) of
                      Some (al, c) \<Rightarrow> ((al, openResultAcquired, None), setClaims c st)
                    | None \<Rightarrow>
                        (case evaluateClaimScopeConflict ae prs producer spec cand (theClaims st) of
                           Inl e \<Rightarrow> (bail e, st)
                         | Inr (conflicted, persistent) \<Rightarrow>
                             if conflicted then
                               ((noLock, if persistent then openResultUnavailable else openResultBail, None), st)
                             else openClaim env prs ae spec cand livenessInterval
                               (isAliasHeld heldSubgraphs (candNodeType cand) (csAlias spec)) producer scopeInitial rowID holderID st))))"

subsection \<open>Named locks\<close>

definition acquireNamedLock ::
  "'b Env \<Rightarrow> AcquireEnv \<Rightarrow> NamedLockSpec \<Rightarrow> Candidate \<Rightarrow> int \<Rightarrow> UUID \<Rightarrow> ClaimStore \<Rightarrow> claim_error + (AcquiredLock \<times> ClaimStore) option" where
  "acquireNamedLock env ae spec cand livenessInterval rowID s =
     (if (case namedLimit ae (nlName spec) of None \<Rightarrow> False | Some limit \<Rightarrow> int (CountByNamedLock s (nlName spec)) \<ge> limit) then Inr None
      else case handleInsert (dbNow env)
          \<lparr>inID = rowID, inNodeRunID = Some (candNodeRunID cand), inLockKind = LockKindNamed, inLockName = Some (nlName spec),
           inProducerName = None, inClaimScopeData = None, inAddress = None, inPayload = None, inIntent = None,
           inHolderSupervisorID = SupervisorID env, inHolderNodeID = candNodeID cand,
           inExpiresAt = claimExpiryFromLiveness (acqNow ae) livenessInterval, inClaimedAtOverride = 0,
           inFrameID = Some (candFrameID cand), inRealizedWriteSemantics = [], inIsHeld = False, inParentClaimHandleID = None,
           inLifetime = None, inProducerCandidateHandle = [], inProducerLeaseToken = [], inAggregationPolicy = PolicyNull\<rparr> s of
        Inl e \<Rightarrow> Inl e
      | Inr s' \<Rightarrow> Inr (Some (noLock\<lparr>alSpec := Some (NamedSpec spec), alClaimHandleID := rowID\<rparr>, s')))"

definition acquireOneLock ::
  "'b Env \<Rightarrow> Producers \<Rightarrow> AcquireEnv \<Rightarrow> UUID \<Rightarrow> LockSpec \<Rightarrow> Candidate \<Rightarrow> int \<Rightarrow> HoldingSubgraph list \<Rightarrow> AcquiredLock list \<Rightarrow>
   UUID \<Rightarrow> UUID \<Rightarrow> 'b VerbState \<Rightarrow> acquisition \<times> 'b VerbState" where
  "acquireOneLock env prs ae instanceID sp cand livenessInterval heldSubgraphs acquired rowID holderID st =
     (case sp of
        NamedSpec spec \<Rightarrow>
          (case reuseHeldNamedLock ae spec cand acquired livenessInterval (theClaims st) of
             Some (al, c) \<Rightarrow> ((al, openResultAcquired, None), setClaims c st)
           | None \<Rightarrow>
               (case acquireNamedLock env ae spec cand livenessInterval rowID (theClaims st) of
                  Inl e \<Rightarrow> (bail (AcquireStoreError e), st)
                | Inr None \<Rightarrow> ((noLock, openResultBail, None), st)
                | Inr (Some (al, c)) \<Rightarrow> ((al, openResultAcquired, None), setClaims c st)))
      | ScopeSpec spec \<Rightarrow> acquireClaim env prs ae instanceID spec cand livenessInterval heldSubgraphs acquired rowID holderID st)"

end
