(* ===== verification/Sub_Claims.thy ===== *)
theory Sub_Claims
  imports Claim_Acquisition
begin

text \<open>
  Partition of a held claim into sub-claims, one per partition of a fan-out
  (lib/runtime/runner\_subclaim.go). External calls and best-effort events are recorded as effects.
\<close>

subsection \<open>Types\<close>

record AcquireSubClaimsInput =
  siParentClaimHandleID :: UUID
  siProducerName :: string
  siNodeRunID :: UUID
  siHolderNodeID :: UUID
  siHolderSupervisorID :: string
  siInstanceID :: UUID
  siFrameID :: "UUID option"
  siLivenessInterval :: int
  siPartitionRequest :: string
  siLifetime :: "ClaimLifetime option"
  siParentIsHeld :: bool
  siAggregationPolicy :: AggregationPolicy
  siParentIntent :: string
  siParentRealizedWriteSemantics :: string

record SubClaimScopeDescriptor =
  scdClaimScopeData :: string
  scdPartitionKey :: string
  scdProducerMetadata :: string
  scdAddress :: string
  scdPayload :: string
  scdLeaseToken :: string

record SubClaim =
  scClaimHandleID :: UUID
  scPartitionKey :: string
  scClaimScope :: string
  scProducerCandidateHandle :: string
  scProducerLeaseToken :: string

datatype split_error =
  ParentIntentMissing
| SplitResolveFailed string
| SplitUnknownProducer string
| SplitScopeFailed string
| SplitCapabilitiesFailed string
| EmptyPartitionKey
| NonJSONAddress string
| NonJSONPayload string
| SplitConflictFailed string
| OverlappingScopes string
| BeginCandidateFailed string
| SplitStoreError claim_error

text \<open>The producer's \<open>SplitScope\<close>, the validity test of \<open>encoding/json\<close> and the clock.\<close>

record SplitEnv =
  prSplitScope :: "string \<Rightarrow> UUID \<Rightarrow> string \<Rightarrow> string + SubClaimScopeDescriptor list"
  jsonValid :: "string \<Rightarrow> bool"
  splitNow :: time

definition subClaimIdempotencyKey :: "'b Env \<Rightarrow> UUID \<Rightarrow> string \<Rightarrow> string" where
  "subClaimIdempotencyKey env nodeRunID partitionKey = ''subclaim:'' @ uuidString env nodeRunID @ '':'' @ partitionKey"

subsection \<open>The loop over the descriptors\<close>

text \<open>Whether a scope overlaps one of the accepted ones.\<close>

fun overlapLoop :: "Producers \<Rightarrow> string \<Rightarrow> bool \<Rightarrow> string \<Rightarrow> string list \<Rightarrow> string + bool" where
  "overlapLoop prs producer caps subScope [] = Inr False"
| "overlapLoop prs producer caps subScope (prior # priors) =
     (case scopesConflict prs producer caps subScope prior of
        Inl e \<Rightarrow> Inl e
      | Inr conflicts \<Rightarrow> if conflicts then Inr True else overlapLoop prs producer caps subScope priors)"

definition checkDescriptor ::
  "Producers \<Rightarrow> SplitEnv \<Rightarrow> string \<Rightarrow> bool \<Rightarrow> string list \<Rightarrow> SubClaimScopeDescriptor \<Rightarrow> split_error option" where
  "checkDescriptor prs se producer caps accepted desc =
     (if scdPartitionKey desc = [] then Some EmptyPartitionKey
      else if scdAddress desc \<noteq> [] \<and> \<not> jsonValid se (scdAddress desc) then Some (NonJSONAddress (scdPartitionKey desc))
      else if scdPayload desc \<noteq> [] \<and> \<not> jsonValid se (scdPayload desc) then Some (NonJSONPayload (scdPartitionKey desc))
      else case overlapLoop prs producer caps (scdClaimScopeData desc) accepted of
        Inl e \<Rightarrow> Some (SplitConflictFailed e)
      | Inr conflicts \<Rightarrow> if conflicts then Some (OverlappingScopes (scdPartitionKey desc)) else None)"

definition subClaimInput ::
  "SplitEnv \<Rightarrow> AcquireSubClaimsInput \<Rightarrow> SubClaimScopeDescriptor \<Rightarrow> UUID \<Rightarrow> string \<Rightarrow> ClaimHandleInsertInput" where
  "subClaimInput se inp desc subID candidateHandle =
     \<lparr>inID = subID, inNodeRunID = Some (siNodeRunID inp), inLockKind = LockKindScope, inLockName = None,
      inProducerName = Some (siProducerName inp), inClaimScopeData = nullableJSONB (scdClaimScopeData desc),
      inAddress = nullableJSONB (scdAddress desc), inPayload = nullableJSONB (scdPayload desc), inIntent = Some (siParentIntent inp),
      inHolderSupervisorID = siHolderSupervisorID inp, inHolderNodeID = siHolderNodeID inp,
      inExpiresAt = claimExpiryFromLiveness (splitNow se) (siLivenessInterval inp), inClaimedAtOverride = 0,
      inFrameID = siFrameID inp, inRealizedWriteSemantics = siParentRealizedWriteSemantics inp, inIsHeld = siParentIsHeld inp,
      inParentClaimHandleID = Some (siParentClaimHandleID inp),
      inLifetime = Some (case siLifetime inp of None \<Rightarrow> ClaimLifetimeSubgraph | Some l \<Rightarrow> l),
      inProducerCandidateHandle = candidateHandle, inProducerLeaseToken = scdLeaseToken desc, inAggregationPolicy = PolicyNull\<rparr>"

text \<open>\<open>fresh\<close> supplies the identifiers; \<open>begun\<close> are the candidates started so far.\<close>

fun subClaimLoop ::
  "'b Env \<Rightarrow> Producers \<Rightarrow> SplitEnv \<Rightarrow> AcquireSubClaimsInput \<Rightarrow> string \<Rightarrow> bool \<Rightarrow> (nat \<Rightarrow> UUID) \<Rightarrow> SubClaimScopeDescriptor list \<Rightarrow>
   SubClaim list \<Rightarrow> (UUID \<times> string) list \<Rightarrow> 'b World \<Rightarrow> (split_error + SubClaim list) \<times> (UUID \<times> string) list \<times> 'b World" where
  "subClaimLoop env prs se inp producer caps newID [] out begun w = (Inr out, begun, w)"
| "subClaimLoop env prs se inp producer caps newID (desc # descs) out begun w =
     (case checkDescriptor prs se producer caps (map scClaimScope out) desc of
        Some e \<Rightarrow> (Inl e, begun, w)
      | None \<Rightarrow>
          let subID = newID (length out) in
          case (case dataProcessor env (siProducerName inp) of
                  None \<Rightarrow> Inr ([], begun, w)
                | Some dp \<Rightarrow>
                    (case dpBeginCandidate dp (siProducerName inp) subID (scdClaimScopeData desc)
                            (subClaimIdempotencyKey env (siNodeRunID inp) (scdPartitionKey desc)) of
                       Inl e \<Rightarrow> Inl (BeginCandidateFailed e)
                     | Inr handle \<Rightarrow> Inr (handle, begun @ [(subID, handle)],
                         w\<lparr>effects := effects w @ [BeginCandidate (siProducerName inp) subID handle,
                             SubclaimBeginCandidateEvent (siParentClaimHandleID inp) subID (siProducerName inp) (length handle)]\<rparr>))) of
            Inl e \<Rightarrow> (Inl e, begun, w)
          | Inr (handle, begun1, w1) \<Rightarrow>
              (case handleInsert (dbNow env) (subClaimInput se inp desc subID handle) (claims w1) of
                 Inl e \<Rightarrow> (Inl (SplitStoreError e), begun1, w1)
               | Inr c1 \<Rightarrow>
                   (case BumpExpectedChildrenCount (siParentClaimHandleID inp) (siHolderSupervisorID inp) 1 c1 of
                      Inl e \<Rightarrow> (Inl (SplitStoreError e), begun1, w1\<lparr>claims := c1\<rparr>)
                    | Inr c2 \<Rightarrow>
                        subClaimLoop env prs se inp producer caps newID descs
                          (out @ [\<lparr>scClaimHandleID = subID, scPartitionKey = scdPartitionKey desc, scClaimScope = scdClaimScopeData desc,
                             scProducerCandidateHandle = handle, scProducerLeaseToken = scdLeaseToken desc\<rparr>])
                          begun1 (w1\<lparr>claims := c2\<rparr>))))"

subsection \<open>The partition\<close>

text \<open>The deferred function: on an error every candidate begun is abandoned, whatever the answers.\<close>

definition unwindCandidates :: "'b Env \<Rightarrow> AcquireSubClaimsInput \<Rightarrow> (UUID \<times> string) list \<Rightarrow> 'b World \<Rightarrow> 'b World" where
  "unwindCandidates env inp begun w =
     (if dataProcessor env (siProducerName inp) = None then w
      else w\<lparr>effects := effects w @ map (\<lambda>(i, h). AbandonCandidate (siProducerName inp) i h) begun\<rparr>)"

text \<open>The zero policy marshals to no bytes, but its kind is empty, so the write is skipped before.\<close>

definition setParentPolicy :: "AcquireSubClaimsInput \<Rightarrow> ClaimStore \<Rightarrow> claim_error + ClaimStore" where
  "setParentPolicy inp s =
     (if Kind (siAggregationPolicy inp) = AggregationKindUnset then Inr s
      else SetAggregationPolicy (siParentClaimHandleID inp) (siHolderSupervisorID inp) (PolicyJSON (siAggregationPolicy inp)) s)"

definition AcquireSubClaims ::
  "'b Env \<Rightarrow> Producers \<Rightarrow> SplitEnv \<Rightarrow> AcquireSubClaimsInput \<Rightarrow> (nat \<Rightarrow> UUID) \<Rightarrow> 'b World \<Rightarrow> (split_error + SubClaim list) \<times> 'b World" where
  "AcquireSubClaims env prs se inp newID w =
     (if siParentIntent inp = [] then (Inl ParentIntentMissing, w)
      else case resolveProducer env (siProducerName inp) (uuidString env (siInstanceID inp)) of
        Inl e \<Rightarrow> (Inl (SplitResolveFailed e), w)
      | Inr None \<Rightarrow> (Inl (SplitUnknownProducer (siProducerName inp)), w)
      | Inr (Some producer) \<Rightarrow>
          (case prSplitScope se producer (siParentClaimHandleID inp) (siPartitionRequest inp) of
             Inl e \<Rightarrow> (Inl (SplitScopeFailed e), w)
           | Inr descs \<Rightarrow>
               (case prCapabilities prs producer of
                  Inl e \<Rightarrow> (Inl (SplitCapabilitiesFailed e), w)
                | Inr caps \<Rightarrow>
                    (case setParentPolicy inp (claims w) of
                       Inl e \<Rightarrow> (Inl (SplitStoreError e), w)
                     | Inr c \<Rightarrow>
                         (case subClaimLoop env prs se inp producer caps newID descs [] [] (w\<lparr>claims := c\<rparr>) of
                            (Inl e, begun, w') \<Rightarrow> (Inl e, unwindCandidates env inp begun w')
                          | (Inr out, begun, w') \<Rightarrow>
                              (Inr out, if out = [] then w'
                                 else w'\<lparr>effects := effects w' @
                                   [SubclaimAcquiredEvent (siParentClaimHandleID inp) (siProducerName inp) (length out)]\<rparr>))))))"

end
