(* ===== verification/Claim_Acquisition_Props.thy ===== *)
theory Claim_Acquisition_Props
  imports Sub_Claims
begin

text \<open>
  Correctness of acquisition: two writers never hold conflicting scopes, and named locks respect their limit.
\<close>

subsection \<open>What the rules read of a handle\<close>

text \<open>The columns that decide about conflicts and limits.\<close>

definition sig :: "ClaimHandleRow \<Rightarrow>
    (UUID \<times> LockKind \<times> string option \<times> string option) \<times> (string option \<times> string option \<times> UUID option \<times> UUID) \<times> ClaimHandleState \<times> ClaimLifetime" where
  "sig r = ((ch_id r, lock_kind r, lock_name r, producer_name r),
     (claim_scope_data r, intent r, node_run_id r, holder_node_id r), ch_state r, lifetime r)"

definition same_sigs :: "ClaimStore \<Rightarrow> ClaimStore \<Rightarrow> bool" where
  "same_sigs s s' \<longleftrightarrow> map sig (claim_handles s') = map sig (claim_handles s)"

lemma same_sigs_refl: "same_sigs s s"
  by (simp add: same_sigs_def)

lemma same_sigs_trans: "same_sigs s s' \<Longrightarrow> same_sigs s' s'' \<Longrightarrow> same_sigs s s''"
  by (simp add: same_sigs_def)

lemma sigs_update_where: "(\<And>r. sig (f r) = sig r) \<Longrightarrow> map sig (update_where g f rs) = map sig rs"
  by (induction rs) (auto simp: update_where_def)

lemma guarded_update_sigs: "guarded_update g f s = Inr s' \<Longrightarrow> (\<And>r. sig (f r) = sig r) \<Longrightarrow> same_sigs s s'"
  by (auto simp: guarded_update_def same_sigs_def sigs_update_where split: if_splits)

lemma write_sigs:
  "SetVersionID i v x s = Inr s' \<Longrightarrow> same_sigs s s'"
  "UpdateAddress i v y s = Inr s' \<Longrightarrow> same_sigs s s'"
  "UpdatePayload i v y s = Inr s' \<Longrightarrow> same_sigs s s'"
  "UpdateRealizedWriteSemantics i v x s = Inr s' \<Longrightarrow> same_sigs s s'"
  "SetAggregationPolicy i v p s = Inr s' \<Longrightarrow> same_sigs s s'"
  "BumpExpectedChildrenCount i v d s = Inr s' \<Longrightarrow> same_sigs s s'"
  by (auto simp: SetVersionID_def UpdateAddress_def UpdatePayload_def UpdateRealizedWriteSemantics_def SetAggregationPolicy_def
      BumpExpectedChildrenCount_def sig_def elim!: guarded_update_sigs)

lemma renew_sigs: "same_sigs s (RenewExpiryForHolderRun run t s)"
  by (simp add: same_sigs_def RenewExpiryForHolderRun_def sigs_update_where sig_def)

lemma outbox_sigs: "same_sigs s (outboxDelete q s)"
  by (simp add: same_sigs_def outboxDelete_def)

lemma holderInsert_sigs: "holderInsert i s = Inr s' \<Longrightarrow> same_sigs s s'"
  by (auto simp: holderInsert_def same_sigs_def split: if_splits)

subsection \<open>The barrier keeps them\<close>

lemma applyCommitResult_sigs: "same_sigs (claims w) (claims (snd (applyCommitResult env row res w)))"
proof -
  have r: "claims w' = claims w1" if "recordChildCommitMetadata env inp p w1 = Done w'" for inp p w1 w'
    using recordChild_ok [of True w1 env inp p] that by simp
  show ?thesis
    using r write_sigs(1) by (auto simp: applyCommitResult_def Let_def same_sigs_refl split: sum.splits option.splits outcome.splits)
qed

lemma deliver_sigs:
  assumes "deliverProducerVerb env prs inTx p row st = (e, st')"
  shows "same_sigs (theClaims st) (theClaims st')"
proof -
  have "same_sigs (claims w) (claims (applyDeferredCommitResult env inTx row res w))" for res w
    using applyCommitResult_sigs [of w env row res]
    by (auto simp: applyDeferredCommitResult_def same_sigs_refl split: prod.splits)
  with assms show ?thesis
    by (auto simp: deliverProducerVerb_def Let_def same_sigs_refl split: ProducerVerb.splits sum.splits)
qed

lemma barrierLoop_sigs:
  "barrierLoop env prs p caps scope rows st = (e, st') \<Longrightarrow> same_sigs (theClaims st) (theClaims st')"
proof (induction rows arbitrary: st)
  case Nil
  then show ?case by (simp add: same_sigs_refl)
next
  case (Cons row rows)
  obtain er st1 where del: "deliverProducerVerb env prs True p row st = (er, st1)" by (rule prod.exhaust)
  have d: "same_sigs (theClaims st) (outboxDelete (seq row) (theClaims st1))"
    using deliver_sigs [OF del] outbox_sigs by (rule same_sigs_trans)
  have "same_sigs (theClaims st) (theClaims st')" if "barrierLoop env prs p caps scope rows (onOutbox (outboxDelete (seq row)) st1) = (e, st')"
    using same_sigs_trans [OF d] Cons.IH [OF that] by simp
  with Cons.prems Cons.IH del deliver_sigs [OF del] show ?case
    by (auto simp: same_sigs_refl split: sum.splits if_splits option.splits)
qed

lemma barrier_sigs:
  "producerVerbOutboxBarrier env prs p name scope st = (e, st') \<Longrightarrow> same_sigs (theClaims st) (theClaims st')"
  by (auto simp: producerVerbOutboxBarrier_def Let_def same_sigs_refl split: if_splits sum.splits dest: barrierLoop_sigs)

subsection \<open>Mutual exclusion\<close>

text \<open>Live handles: active ones and committed durable ones. \<open>conf\<close> is the producers' conflict relation on
  scopes.\<close>

definition live :: "ClaimHandleRow \<Rightarrow> bool" where
  "live r \<longleftrightarrow> lock_kind r = LockKindScope \<and>
     (ch_state r = ClaimHandleStateActive \<or> ch_state r = ClaimHandleStateCommitted \<and> lifetime r = ClaimLifetimeDurable)"

definition rival :: "(string \<Rightarrow> string \<Rightarrow> string \<Rightarrow> bool) \<Rightarrow> ClaimHandleRow \<Rightarrow> ClaimHandleRow \<Rightarrow> bool" where
  "rival conf r1 r2 \<longleftrightarrow> live r1 \<and> live r2 \<and> ch_id r1 \<noteq> ch_id r2 \<and> intent r1 = Some ''rw'' \<and> intent r2 = Some ''rw'' \<and>
     (\<exists>n. producer_name r1 = Some n \<and> producer_name r2 = Some n \<and> conf n (bytesOf (claim_scope_data r1)) (bytesOf (claim_scope_data r2))) \<and>
     node_run_id r1 \<noteq> node_run_id r2 \<and> holder_node_id r1 \<noteq> holder_node_id r2"

definition exclusive :: "(string \<Rightarrow> string \<Rightarrow> string \<Rightarrow> bool) \<Rightarrow> ClaimStore \<Rightarrow> bool" where
  "exclusive conf s \<longleftrightarrow> (\<forall>r1 \<in> set (claim_handles s). \<forall>r2 \<in> set (claim_handles s). \<not> rival conf r1 r2)"

lemma rival_sig: "sig r1 = sig q1 \<Longrightarrow> sig r2 = sig q2 \<Longrightarrow> rival conf r1 r2 = rival conf q1 q2"
  by (simp add: sig_def rival_def live_def)

lemma sigs_back:
  assumes "same_sigs s s'" and "r' \<in> set (claim_handles s')"
  obtains r where "r \<in> set (claim_handles s)" and "sig r' = sig r"
proof -
  have "sig r' \<in> set (map sig (claim_handles s'))" using assms(2) by simp
  then have "sig r' \<in> set (map sig (claim_handles s))" using assms(1) by (simp only: same_sigs_def)
  then show ?thesis using that by auto
qed

lemma exclusive_sigs:
  assumes "same_sigs s s'" and "exclusive conf s"
  shows "exclusive conf s'"
  unfolding exclusive_def
proof (intro ballI)
  fix r1 r2 assume "r1 \<in> set (claim_handles s')" "r2 \<in> set (claim_handles s')"
  then obtain q1 q2 where "q1 \<in> set (claim_handles s)" "sig r1 = sig q1" "q2 \<in> set (claim_handles s)" "sig r2 = sig q2"
    using sigs_back [OF assms(1)] by metis
  with assms(2) rival_sig show "\<not> rival conf r1 r2" unfolding exclusive_def by blast
qed

lemma conflictLoop_none:
  "conflictLoop prs p caps scope spec cand hs saw sd = Inr (False, d) \<Longrightarrow> \<not> saw \<and> (\<forall>h \<in> set hs.
     node_run_id h = Some (candNodeRunID cand) \<or> holder_node_id h = candNodeID cand \<or>
     scopesConflict prs p caps scope (bytesOf (claim_scope_data h)) = Inr False \<or>
     (\<exists>ws. ParseWriteSemantics (bytesOf (realized_write_semantics h)) = Some ws \<and> ModeCoexists (csIntent spec) (bytesOf (intent h)) ws))"
proof (induction hs arbitrary: saw sd)
  case (Cons h hs)
  show ?case
  proof (cases "node_run_id h = Some (candNodeRunID cand) \<or>
      holder_node_id h = candNodeID cand \<and> ch_state h = ClaimHandleStateCommitted \<and> lifetime h = ClaimLifetimeDurable")
    case True
    with Cons.prems have "conflictLoop prs p caps scope spec cand hs saw sd = Inr (False, d)" by (auto split: if_splits)
    from Cons.IH [OF this] True show ?thesis by auto
  next
    case False
    show ?thesis
    proof (cases "scopesConflict prs p caps scope (bytesOf (claim_scope_data h))")
      case (Inl e)
      with False Cons.prems show ?thesis by auto
    next
      case (Inr c)
      show ?thesis
      proof (cases "c \<and> ParseWriteSemantics (bytesOf (realized_write_semantics h)) = None")
        case True
        with False Inr Cons.prems show ?thesis by auto
      next
        case ok: False
        with False Inr Cons.prems obtain saw' sd' where rest: "conflictLoop prs p caps scope spec cand hs saw' sd' = Inr (False, d)"
          and saw: "saw \<Longrightarrow> saw'" and c: "c \<Longrightarrow> \<exists>ws. ParseWriteSemantics (bytesOf (realized_write_semantics h)) = Some ws \<and>
            (saw' \<or> ModeCoexists (csIntent spec) (bytesOf (intent h)) ws)"
          by (cases c) (auto split: if_splits)
        from Cons.IH [OF rest] saw c Inr show ?thesis by (cases c) auto
      qed
    qed
  qed
qed simp

lemma writers_never_coexist: "\<not> ModeCoexists ''rw'' ''rw'' ws"
  by (simp add: ModeCoexists_def IntentReadWrite_def)

lemma insert_handles: "handleInsert now i s = Inr s' \<Longrightarrow> claim_handles s' = claim_handles s @ [insertedRow now i]"
  by (auto simp: handleInsert_def split: if_splits option.splits)

lemma recordOpenResult_sigs:
  assumes "recordOpenResult env i sc cr s = Inr s'" and "resClaimScope cr = [] \<or> resClaimScope cr = sc"
  shows "same_sigs s s'"
  using assms by (auto simp: recordOpenResult_def Let_def split: sum.splits if_splits dest!: write_sigs intro: same_sigs_trans)

lemma openClaim_acquired:
  assumes "openClaim env prs ae spec cand lv isHeld p sc rowID holderID st = ((al, openResultAcquired, e), st')"
    and scope: "\<And>h i o'. prOpen ae h p i spec = Inr o' \<Longrightarrow> resClaimScope (Result o') = [] \<or> resClaimScope (Result o') = sc"
  obtains c1 where "handleInsert (dbNow env) (claimInsertInput env ae spec cand lv isHeld sc rowID) (theClaims st) = Inr c1"
    and "same_sigs c1 (theClaims st')"
proof -
  from assms(1) obtain c1 where c1: "handleInsert (dbNow env) (claimInsertInput env ae spec cand lv isHeld sc rowID) (theClaims st) = Inr c1"
    by (auto simp: openClaim_def split: sum.splits)
  obtain be st2 where b: "producerVerbOutboxBarrier env prs p (csProducerName spec) sc (setClaims c1 st) = (be, st2)" by (rule prod.exhaust)
  with assms(1) c1 have "be = None" by (auto simp: openClaim_def split: option.splits barrier_error.splits if_splits)
  with assms(1) c1 b obtain o' where o': "prOpen ae (calls st2) p rowID spec = Inr o'" and av: "Available o'"
    by (auto simp: openClaim_def split: sum.splits if_splits)
  with assms(1) c1 b \<open>be = None\<close> obtain c3 where c3: "recordOpenResult env rowID sc (Result o') (theClaims st2) = Inr c3"
    by (auto simp: openClaim_def split: sum.splits)
  with assms(1) c1 b \<open>be = None\<close> o' av obtain c4 where c4: "insertHeldClaimHoldersAtAcquire holderID rowID cand isHeld c3 = Inr c4" "theClaims st' = c4"
    by (auto simp: openClaim_def split: sum.splits)
  have "same_sigs c1 (theClaims st2)" using barrier_sigs [OF b] by simp
  moreover have "same_sigs (theClaims st2) c3" using recordOpenResult_sigs [OF c3 scope [OF o']] .
  moreover have "same_sigs c3 c4"
    using c4(1) holderInsert_sigs by (auto simp: insertHeldClaimHoldersAtAcquire_def same_sigs_refl split: if_splits)
  ultimately show ?thesis using that [OF c1] c4(2) by (blast intro: same_sigs_trans)
qed

lemma exclusive_insert:
  assumes ex: "exclusive conf s" and sym: "\<And>n a b. conf n a b = conf n b a"
    and c1: "handleInsert now inp s = Inr c1" and inp: "inProducerName inp = Some name" "ClaimHandleInsertInput.inNodeRunID inp = Some run" "inHolderNodeID inp = node"
    and ok: "\<And>h. h \<in> set (claim_handles s) \<Longrightarrow> live h \<Longrightarrow> producer_name h = Some name \<Longrightarrow> intent h = Some ''rw'' \<Longrightarrow> inIntent inp = Some ''rw'' \<Longrightarrow>
      node_run_id h = Some run \<or> holder_node_id h = node \<or> \<not> conf name (bytesOf (inClaimScopeData inp)) (bytesOf (claim_scope_data h))"
  shows "exclusive conf c1"
proof -
  let ?r = "insertedRow now inp"
  have r: "producer_name ?r = Some name" "node_run_id ?r = Some run" "holder_node_id ?r = node" "intent ?r = inIntent inp"
    "claim_scope_data ?r = inClaimScopeData inp" using inp by (simp_all add: insertedRow_def)
  have new: "\<not> rival conf ?r h" if "h \<in> set (claim_handles s)" for h
    using ok [OF that] r by (auto simp: rival_def)
  moreover have "rival conf b a" if "rival conf a b" for a b using that sym unfolding rival_def by metis
  moreover have "\<not> rival conf ?r ?r" by (simp add: rival_def)
  ultimately show ?thesis using ex unfolding exclusive_def insert_handles [OF c1] by (metis UnE empty_iff list.set(1,2) insertE set_append)
qed


definition exampleAcquire :: AcquireEnv where
  "exampleAcquire = \<lparr>jsonString = (\<lambda>x. CHR 0x22 # x @ [CHR 0x22]), takeClaimScopeLock = (\<lambda>_ _. None),
     prOpen = (\<lambda>_ _ _ _. Inr \<lparr>Available = True, Result = noResult\<lparr>resRealizedWriteSemantics := ''sync''\<rparr>, ooUnavailableClass = []\<rparr>),
     isProducerCallError = (\<lambda>_. False), namedLimit = (\<lambda>_. Some 1), acqNow = 10\<rparr>"

definition exampleSpec :: "string \<Rightarrow> ClaimSpec" where
  "exampleSpec sel = \<lparr>csProducerName = ''fs'', csSelector = sel, csIntent = ''rw'', csAlias = ''data'', csTemplateID = [],
     csInstanceID = [], csRunScopeID = [], csLifetime = None, csData = []\<rparr>"

definition exampleCandidate :: Candidate where
  "exampleCandidate = \<lparr>candNodeRunID = 21, candNodeID = 22, candNodeType = ''load'', candFrameID = 23\<rparr>"

definition exampleState :: "unit VerbState" where
  "exampleState = \<lparr>vworld = fanWorld\<lparr>claims := fanClaims\<lparr>claim_handles :=
     [(insertedRow 1 (exampleHandle 1 None))\<lparr>node_run_id := Some 6, realized_write_semantics := Some ''sync'',
        claim_scope_data := Some (jsonString exampleAcquire ''a'')\<rparr>], claim_holders := []\<rparr>\<rparr>, calls = []\<rparr>"

abbreviation exampleRunAcquire :: "string \<Rightarrow> acquisition \<times> unit VerbState" where
  "exampleRunAcquire sel \<equiv> acquireClaim fanEnv exampleProducers exampleAcquire 8 (exampleSpec sel) exampleCandidate 60 [] [] 31 32 exampleState"

lemma exampleAcquire_runs:
  "fst (snd (fst (exampleRunAcquire ''b''))) = openResultAcquired" "length (claim_handles (theClaims (snd (exampleRunAcquire ''b'')))) = 2"
  "fst (snd (fst (exampleRunAcquire ''a''))) = openResultBail"
  by code_simp+


subsection \<open>Named locks\<close>

definition nsig :: "ClaimHandleRow \<Rightarrow> LockKind \<times> string option \<times> ClaimHandleState" where
  "nsig r = (lock_kind r, lock_name r, ch_state r)"

definition named_within :: "AcquireEnv \<Rightarrow> ClaimStore \<Rightarrow> bool" where
  "named_within ae s \<longleftrightarrow> (\<forall>n limit. namedLimit ae n = Some limit \<longrightarrow> int (CountByNamedLock s n) \<le> limit)"

lemma count_nsig: "map nsig (claim_handles s') = map nsig (claim_handles s) \<Longrightarrow> CountByNamedLock s' n = CountByNamedLock s n"
proof -
  have c: "CountByNamedLock t n = length (filter (\<lambda>x. x = (LockKindNamed, Some n, ClaimHandleStateActive)) (map nsig (claim_handles t)))" for t
    unfolding CountByNamedLock_def filter_map length_map by (rule arg_cong [where f = length], rule filter_cong) (auto simp: nsig_def)
  show "map nsig (claim_handles s') = map nsig (claim_handles s) \<Longrightarrow> CountByNamedLock s' n = CountByNamedLock s n"
    by (simp only: c)
qed

lemma sigs_nsigs:
  assumes "same_sigs s s'"
  shows "map nsig (claim_handles s') = map nsig (claim_handles s)"
proof -
  have n: "nsig = (\<lambda>((i, k, l, p), x, st, lf). (k, l, st)) \<circ> sig" by (rule ext) (simp add: nsig_def sig_def)
  show ?thesis using assms by (simp only: n map_map [symmetric] same_sigs_def)
qed

lemma named_within_sigs: "named_within ae s \<Longrightarrow> same_sigs s s' \<Longrightarrow> named_within ae s'"
  by (simp add: named_within_def count_nsig [OF sigs_nsigs])

lemma recordOpenResult_nsigs:
  assumes "recordOpenResult env i sc cr s = Inr s'"
  shows "map nsig (claim_handles s') = map nsig (claim_handles s)"
proof -
  have scope: "map nsig (claim_handles t') = map nsig (claim_handles t)" if "UpdateClaimScope i v x t = Inr t'" for i v x t t'
    using that by (auto simp: UpdateClaimScope_def guarded_update_def update_where_def nsig_def split: if_splits)
  note w = write_sigs [THEN sigs_nsigs]
  show ?thesis
    using assms by (auto simp: recordOpenResult_def Let_def split: sum.splits if_splits dest!: scope w)
qed

lemma named_insert_other:
  "handleInsert now i s = Inr s' \<Longrightarrow> inLockKind i = LockKindScope \<Longrightarrow> CountByNamedLock s' n = CountByNamedLock s n"
  by (drule insert_handles) (simp add: CountByNamedLock_def insertedRow_def)

lemma openClaim_counts:
  assumes "openClaim env prs ae spec cand lv isHeld p sc rowID holderID st = (res, st')"
  shows "CountByNamedLock (theClaims st') n = CountByNamedLock (theClaims st) n"
proof (cases "handleInsert (dbNow env) (claimInsertInput env ae spec cand lv isHeld sc rowID) (theClaims st)")
  case (Inl e)
  with assms show ?thesis by (auto simp: openClaim_def)
next
  case (Inr c1)
  obtain be st2 where b: "producerVerbOutboxBarrier env prs p (csProducerName spec) sc (setClaims c1 st) = (be, st2)" by (rule prod.exhaust)
  have c2: "CountByNamedLock (theClaims st2) n = CountByNamedLock (theClaims st) n"
    using count_nsig [OF sigs_nsigs [OF barrier_sigs [OF b]]] named_insert_other [OF Inr] by (simp add: claimInsertInput_def)
  have held: "CountByNamedLock c' n = CountByNamedLock c n" if "insertHeldClaimHoldersAtAcquire holderID rowID cand isHeld c = Inr c'" for c c'
    using that count_nsig [OF sigs_nsigs [OF holderInsert_sigs]] by (auto simp: insertHeldClaimHoldersAtAcquire_def split: if_splits)
  have rec: "CountByNamedLock c' n = CountByNamedLock c n" if "recordOpenResult env rowID sc cr c = Inr c'" for cr c c'
    using count_nsig [OF recordOpenResult_nsigs [OF that]] .
  from assms Inr b c2 show ?thesis
    by (auto simp: openClaim_def split: option.splits sum.splits if_splits barrier_error.splits dest!: held rec)
qed

lemma reuse_counts:
  "CountByNamedLock (RenewExpiryForHolderRun run t s) n = CountByNamedLock s n"
  by (rule count_nsig [OF sigs_nsigs [OF renew_sigs]])

lemma acquireNamedLock_counts:
  assumes "acquireNamedLock env ae spec cand lv rowID s = Inr (Some (al, c))"
  shows "CountByNamedLock c n = CountByNamedLock s n + (if n = nlName spec then 1 else 0)"
    and "namedLimit ae (nlName spec) = Some l \<Longrightarrow> int (CountByNamedLock s (nlName spec)) < l"
  using assms by (auto simp: acquireNamedLock_def CountByNamedLock_def insertedRow_def split: if_splits sum.splits dest!: insert_handles)

lemma acquireNamedLock_within:
  "acquireNamedLock env ae spec cand lv rowID s = Inr (Some (al, c)) \<Longrightarrow> named_within ae s \<Longrightarrow> named_within ae c"
  using acquireNamedLock_counts [of env ae spec cand lv rowID s al c] by (auto simp: named_within_def)

lemma renew_within: "named_within ae s \<Longrightarrow> named_within ae (RenewExpiryForHolderRun run t s)"
  by (simp add: named_within_def reuse_counts)

text \<open>C11: A named lock is never held more often than its limit: whatever lock or claim is requested next, and
  whatever becomes of the request, the number of active handles of every limited lock stays within its limit.\<close>

theorem named_locks_within_limit:
  assumes "named_within ae (theClaims st)"
    and "acquireOneLock env prs ae inst sp cand lv subgraphs acquired rowID holderID st = (res, st')"
  shows "named_within ae (theClaims st')"
proof (cases sp)
  case (ScopeSpec spec)
  have "CountByNamedLock (theClaims st') n = CountByNamedLock (theClaims st) n" for n
    using assms(2)
    by (auto simp: reuse_counts ScopeSpec acquireOneLock_def acquireClaim_def Let_def reuseHeldRunClaim_def reuseLinkedSubClaim_def renewReusedRunExpiry_def
        split: option.splits sum.splits if_splits dest!: openClaim_counts)
  with assms(1) show ?thesis by (simp add: named_within_def)
next
  case (NamedSpec spec)
  with assms renew_within acquireNamedLock_within show ?thesis
    by (auto simp: acquireOneLock_def reuseHeldNamedLock_def renewReusedRunExpiry_def split: option.splits sum.splits prod.splits)
qed

lemma exampleNamed_runs:
  "fst (snd (fst (acquireOneLock fanEnv exampleProducers exampleAcquire 5 (NamedSpec \<lparr>nlName = ''l'', nlTemplateName = ''l''\<rparr>)
      exampleCandidate 1 [] [] 41 42 exampleState))) = openResultAcquired"
  "CountByNamedLock (theClaims (snd (acquireOneLock fanEnv exampleProducers exampleAcquire 5 (NamedSpec \<lparr>nlName = ''l'', nlTemplateName = ''l''\<rparr>)
      exampleCandidate 1 [] [] 41 42 exampleState))) ''l'' = 1"
  by code_simp+

theorem named_locks_within_limit_witness:
  "named_within exampleAcquire (theClaims (snd (acquireOneLock fanEnv exampleProducers exampleAcquire 5
     (NamedSpec \<lparr>nlName = ''l'', nlTemplateName = ''l''\<rparr>) exampleCandidate 1 [] [] 41 42 exampleState)))"
proof -
  have "named_within exampleAcquire (theClaims exampleState)"
    by (simp add: named_within_def exampleAcquire_def exampleState_def CountByNamedLock_def insertedRow_def exampleHandle_def)
  from named_locks_within_limit [OF this prod.collapse [symmetric]] show ?thesis .
qed

end
