(* ===== verification/Sub_Claims_Props.thy ===== *)
theory Sub_Claims_Props
  imports Claim_Acquisition_Props Sub_Claims
begin

text \<open>
  What a fan-out's partition of a held claim leaves behind. A partition that succeeds adds one child per
  descriptor and counts it at the parent; the accepted scopes are pairwise free of conflicts. A partition that
  fails abandons exactly the candidates it began.
\<close>

subsection \<open>The rows\<close>

abbreviation isParent :: "AcquireSubClaimsInput \<Rightarrow> ClaimHandleRow \<Rightarrow> bool" where
  "isParent inp r \<equiv> ch_id r = siParentClaimHandleID inp \<and> heldBy (siHolderSupervisorID inp) r"

definition expectMore :: "nat \<Rightarrow> ClaimHandleRow \<Rightarrow> ClaimHandleRow" where
  "expectMore k r = r\<lparr>expected_children_count := expected_children_count r + int k\<rparr>"

definition childRow :: "time \<Rightarrow> SplitEnv \<Rightarrow> AcquireSubClaimsInput \<Rightarrow> SubClaimScopeDescriptor \<times> SubClaim \<Rightarrow> ClaimHandleRow" where
  "childRow now se inp = (\<lambda>(d, s). insertedRow now (subClaimInput se inp d (scClaimHandleID s) (scProducerCandidateHandle s)))"

definition matches :: "SubClaimScopeDescriptor \<Rightarrow> SubClaim \<Rightarrow> bool" where
  "matches d s \<longleftrightarrow> scPartitionKey s = scdPartitionKey d \<and> scClaimScope s = scdClaimScopeData d \<and>
     scProducerLeaseToken s = scdLeaseToken d \<and> scdPartitionKey d \<noteq> []"

lemma expectMore_simps [simp]:
  "heldBy v (expectMore k r) = heldBy v r" "ch_id (expectMore k r) = ch_id r"
  "expectMore 0 r = r" "expectMore k (expectMore l r) = expectMore (l + k) r"
  by (simp_all add: expectMore_def heldBy_def)

lemma update_expectMore:
  "update_where (isParent inp) (expectMore k) (update_where (isParent inp) (expectMore l) rs) = update_where (isParent inp) (expectMore (l + k)) rs"
  by (simp add: update_where_def)

lemma bump_handles:
  "BumpExpectedChildrenCount (siParentClaimHandleID inp) (siHolderSupervisorID inp) 1 s = Inr s' \<Longrightarrow>
   claim_handles s' = update_where (isParent inp) (expectMore 1) (claim_handles s)"
  by (auto simp: BumpExpectedChildrenCount_def guarded_update_def expectMore_def [abs_def] Let_def split: if_splits)

lemma insert_child:
  assumes "handleInsert now (subClaimInput se inp d i h) s = Inr s'"
  shows "claim_handles s' = claim_handles s @ [insertedRow now (subClaimInput se inp d i h)]" and "i \<noteq> siParentClaimHandleID inp"
  using assms by (auto simp: handleInsert_def subClaimInput_def split: if_splits)

lemma overlapLoop_none:
  "overlapLoop prs p caps sc priors = Inr False \<longleftrightarrow> (\<forall>x \<in> set priors. scopesConflict prs p caps sc x = Inr False)"
  by (induction priors) (auto split: sum.splits)

abbreviation clear :: "Producers \<Rightarrow> string \<Rightarrow> bool \<Rightarrow> SubClaim list \<Rightarrow> bool" where
  "clear prs p caps out \<equiv> sorted_wrt (\<lambda>a b. scopesConflict prs p caps (scClaimScope b) (scClaimScope a) = Inr False) out"

lemma checkDescriptor_none:
  "checkDescriptor prs se p caps (map scClaimScope out) d = None \<Longrightarrow>
   scdPartitionKey d \<noteq> [] \<and> (\<forall>x \<in> set out. scopesConflict prs p caps (scdClaimScopeData d) (scClaimScope x) = Inr False)"
  using overlapLoop_none [of prs p caps "scdClaimScopeData d" "map scClaimScope out"]
  by (auto simp: checkDescriptor_def split: if_splits sum.splits)

lemma subClaimLoop_rows:
  assumes "subClaimLoop env prs se inp p caps newID descs out begun w = (Inr out', begun', w')" and "clear prs p caps out"
  shows "\<exists>new. out' = out @ new \<and> list_all2 matches descs new \<and> clear prs p caps out' \<and>
    claim_handles (claims w') = update_where (isParent inp) (expectMore (length new)) (claim_handles (claims w)) @
      map (childRow (dbNow env) se inp) (zip descs new)"
  using assms
proof (induction descs arbitrary: out begun w)
  case Nil
  then show ?case by (auto simp: update_where_def intro: map_idI [symmetric])
next
  case (Cons d ds)
  let ?i = "newID (length out)"
  from Cons.prems(1) obtain h begun1 w1 c1 c2 where
    ck: "checkDescriptor prs se p caps (map scClaimScope out) d = None"
    and ins: "handleInsert (dbNow env) (subClaimInput se inp d ?i h) (claims w) = Inr c1"
    and bump: "BumpExpectedChildrenCount (siParentClaimHandleID inp) (siHolderSupervisorID inp) 1 c1 = Inr c2"
    and rest: "subClaimLoop env prs se inp p caps newID ds
      (out @ [\<lparr>scClaimHandleID = ?i, scPartitionKey = scdPartitionKey d, scClaimScope = scdClaimScopeData d,
         scProducerCandidateHandle = h, scProducerLeaseToken = scdLeaseToken d\<rparr>]) begun1 (w1\<lparr>claims := c2\<rparr>) = (Inr out', begun', w')"
    by (auto simp: Let_def split: option.splits sum.splits)
  let ?s = "\<lparr>scClaimHandleID = ?i, scPartitionKey = scdPartitionKey d, scClaimScope = scdClaimScopeData d,
         scProducerCandidateHandle = h, scProducerLeaseToken = scdLeaseToken d\<rparr>"
  have cl: "clear prs p caps (out @ [?s])" using Cons.prems(2) checkDescriptor_none [OF ck] by (auto simp: sorted_wrt_append)
  from Cons.IH [OF rest cl] obtain new where new: "out' = (out @ [?s]) @ new" "list_all2 matches ds new" "clear prs p caps out'"
    "claim_handles (claims w') = update_where (isParent inp) (expectMore (length new)) (claim_handles c2) @ map (childRow (dbNow env) se inp) (zip ds new)"
    by auto
  have row: "insertedRow (dbNow env) (subClaimInput se inp d ?i h) = childRow (dbNow env) se inp (d, ?s)" by (simp add: childRow_def)
  have no: "ch_id (childRow (dbNow env) se inp (d, ?s)) \<noteq> siParentClaimHandleID inp"
    using insert_child(2) [OF ins] by (simp add: childRow_def insertedRow_def subClaimInput_def)
  have "claim_handles c2 = update_where (isParent inp) (expectMore 1) (claim_handles (claims w)) @ [childRow (dbNow env) se inp (d, ?s)]"
    using no unfolding bump_handles [OF bump] insert_child(1) [OF ins] row by (simp add: update_where_def)
  then have "claim_handles (claims w') = update_where (isParent inp) (expectMore (length (?s # new))) (claim_handles (claims w)) @
      map (childRow (dbNow env) se inp) (zip (d # ds) (?s # new))"
    using no new(4) update_expectMore [of inp "length new" 1] by (simp add: update_where_def)
  moreover have "list_all2 matches (d # ds) (?s # new)" using new(2) checkDescriptor_none [OF ck] by (simp add: matches_def)
  ultimately show ?case using new(1,3) by (intro exI [of _ "?s # new"]) simp
qed

definition withPolicy :: "AcquireSubClaimsInput \<Rightarrow> ClaimHandleRow \<Rightarrow> ClaimHandleRow" where
  "withPolicy inp r = (if Kind (siAggregationPolicy inp) = AggregationKindUnset then r
     else r\<lparr>aggregation_policy := PolicyJSON (siAggregationPolicy inp)\<rparr>)"

lemma setParentPolicy_handles:
  "setParentPolicy inp s = Inr s' \<Longrightarrow> claim_handles s' = update_where (isParent inp) (withPolicy inp) (claim_handles s)"
  by (auto simp: setParentPolicy_def SetAggregationPolicy_def guarded_update_def withPolicy_def [abs_def] update_where_def Let_def
      intro: map_idI [symmetric] split: if_splits)

lemma update_policy:
  "update_where (isParent inp) (expectMore k) (update_where (isParent inp) (withPolicy inp) rs) =
   update_where (isParent inp) (expectMore k \<circ> withPolicy inp) rs"
  by (auto simp: update_where_def withPolicy_def heldBy_def)

text \<open>C12: A partition that succeeds returns one sub-claim per descriptor of the producer, in order, with its
  key and scope. The table gains exactly one row per sub-claim, a child of the partitioned claim, and the
  parent expects as many children more and carries the requested aggregation policy. No two of the returned
  scopes conflict according to the producer.\<close>

theorem split_adds_disjoint_children:
  assumes "AcquireSubClaims env prs se inp newID w = (Inr out, w')"
  shows "\<exists>p descs caps. resolveProducer env (siProducerName inp) (uuidString env (siInstanceID inp)) = Inr (Some p) \<and>
    prSplitScope se p (siParentClaimHandleID inp) (siPartitionRequest inp) = Inr descs \<and> prCapabilities prs p = Inr caps \<and>
    list_all2 matches descs out \<and>
    sorted_wrt (\<lambda>a b. scopesConflict prs p caps (scClaimScope b) (scClaimScope a) = Inr False) out \<and>
    claim_handles (claims w') = update_where (isParent inp) (expectMore (length out) \<circ> withPolicy inp) (claim_handles (claims w)) @
      map (childRow (dbNow env) se inp) (zip descs out)"
proof -
  from assms obtain p descs caps c begun w1 where
    p: "resolveProducer env (siProducerName inp) (uuidString env (siInstanceID inp)) = Inr (Some p)"
    and d: "prSplitScope se p (siParentClaimHandleID inp) (siPartitionRequest inp) = Inr descs" and caps: "prCapabilities prs p = Inr caps"
    and c: "setParentPolicy inp (claims w) = Inr c"
    and loop: "subClaimLoop env prs se inp p caps newID descs [] [] (w\<lparr>claims := c\<rparr>) = (Inr out, begun, w1)" and w': "claims w' = claims w1"
    by (auto simp: AcquireSubClaims_def split: if_splits sum.splits option.splits prod.splits)
  from subClaimLoop_rows [OF loop] have "list_all2 matches descs out" "clear prs p caps out"
    "claim_handles (claims w1) = update_where (isParent inp) (expectMore (length out)) (claim_handles c) @ map (childRow (dbNow env) se inp) (zip descs out)"
    by auto
  with p d caps w' show ?thesis unfolding setParentPolicy_handles [OF c] update_policy by auto
qed

subsection \<open>The candidates\<close>

fun begins :: "effect \<Rightarrow> (UUID \<times> string) list" where
  "begins (BeginCandidate p i h) = [(i, h)]"
| "begins _ = []"

fun abandons :: "effect \<Rightarrow> (UUID \<times> string) list" where
  "abandons (AbandonCandidate p i h) = [(i, h)]"
| "abandons _ = []"

definition candidatesBegun :: "effect list \<Rightarrow> (UUID \<times> string) list" where
  "candidatesBegun es = concat (map begins es)"

definition candidatesAbandoned :: "effect list \<Rightarrow> (UUID \<times> string) list" where
  "candidatesAbandoned es = concat (map abandons es)"

abbreviation candidateOf :: "SubClaim \<Rightarrow> UUID \<times> string" where
  "candidateOf s \<equiv> (scClaimHandleID s, scProducerCandidateHandle s)"

lemma candidates_simps [simp]:
  "candidatesBegun [] = []" "candidatesBegun (e # es) = begins e @ candidatesBegun es"
  "candidatesBegun (es @ fs) = candidatesBegun es @ candidatesBegun fs"
  "candidatesAbandoned [] = []" "candidatesAbandoned (e # es) = abandons e @ candidatesAbandoned es"
  "candidatesAbandoned (es @ fs) = candidatesAbandoned es @ candidatesAbandoned fs"
  by (simp_all add: candidatesBegun_def candidatesAbandoned_def)

lemma abandon_effects:
  "candidatesAbandoned (map (\<lambda>(i, h). AbandonCandidate q i h) xs) = xs"
  "candidatesBegun (map (\<lambda>(i, h). AbandonCandidate q i h) xs) = []"
  by (induction xs) auto

lemma subClaimLoop_candidates:
  assumes "subClaimLoop env prs se inp p caps newID descs out begun w = (res, begun', w')"
    and "dataProcessor env (siProducerName inp) \<noteq> None \<Longrightarrow> begun = map candidateOf out"
  shows "\<exists>es new. effects w' = effects w @ es \<and> candidatesAbandoned es = [] \<and> candidatesBegun es = new \<and> begun' = begun @ new \<and>
    (dataProcessor env (siProducerName inp) = None \<longrightarrow> new = []) \<and>
    (\<forall>out'. res = Inr out' \<longrightarrow> dataProcessor env (siProducerName inp) \<noteq> None \<longrightarrow> begun' = map candidateOf out')"
  using assms
proof (induction descs arbitrary: out begun w)
  case Nil
  then show ?case by auto
next
  case (Cons d ds)
  show ?case
  proof (cases "checkDescriptor prs se p caps (map scClaimScope out) d")
    case (Some e)
    with Cons.prems(1) show ?thesis by auto
  next
    case None
    note ck = this
    show ?thesis
    proof (cases "dataProcessor env (siProducerName inp)")
      case None
      with ck Cons.prems(1) Cons.IH show ?thesis by (auto simp: Let_def split: sum.splits dest!: Cons.IH)
    next
      case (Some dp)
      with ck Cons.prems show ?thesis
        by (auto simp: Let_def split: sum.splits dest!: Cons.IH)
    qed
  qed
qed

text \<open>C13: A partition that fails leaves no candidate open at the data processor: on every error it abandons the
  candidates it began, each once and in the order they were begun. A partition that succeeds abandons none,
  and where the producer has a data processor it returns exactly the candidates begun.\<close>

theorem failed_split_abandons_its_candidates:
  assumes "AcquireSubClaims env prs se inp newID w = (res, w')"
  shows "\<exists>es. effects w' = effects w @ es \<and>
    (case res of
       Inl e \<Rightarrow> candidatesAbandoned es = candidatesBegun es
     | Inr out \<Rightarrow> candidatesAbandoned es = [] \<and>
         (dataProcessor env (siProducerName inp) \<noteq> None \<longrightarrow> candidatesBegun es = map candidateOf out))"
proof (cases "\<exists>p descs caps c. resolveProducer env (siProducerName inp) (uuidString env (siInstanceID inp)) = Inr (Some p) \<and>
    prSplitScope se p (siParentClaimHandleID inp) (siPartitionRequest inp) = Inr descs \<and> prCapabilities prs p = Inr caps \<and>
    setParentPolicy inp (claims w) = Inr c \<and> siParentIntent inp \<noteq> []")
  case False
  with assms have "w' = w \<and> (\<exists>e. res = Inl e)"
    by (auto simp: AcquireSubClaims_def split: if_splits sum.splits option.splits)
  then show ?thesis by auto
next
  case True
  then obtain p descs caps c where pre: "resolveProducer env (siProducerName inp) (uuidString env (siInstanceID inp)) = Inr (Some p)"
    "prSplitScope se p (siParentClaimHandleID inp) (siPartitionRequest inp) = Inr descs" "prCapabilities prs p = Inr caps"
    "setParentPolicy inp (claims w) = Inr c" "siParentIntent inp \<noteq> []" by blast
  obtain r begun w1 where loop: "subClaimLoop env prs se inp p caps newID descs [] [] (w\<lparr>claims := c\<rparr>) = (r, begun, w1)"
    by (rule prod_cases3)
  from subClaimLoop_candidates [OF loop] obtain es where es: "effects w1 = effects w @ es" "candidatesAbandoned es = []"
    "begun = candidatesBegun es" "dataProcessor env (siProducerName inp) = None \<longrightarrow> candidatesBegun es = []"
    "\<And>out. r = Inr out \<Longrightarrow> dataProcessor env (siProducerName inp) \<noteq> None \<Longrightarrow> begun = map candidateOf out" by auto
  show ?thesis
  proof (cases r)
    case (Inl e)
    with assms pre loop have "res = Inl e" "w' = unwindCandidates env inp begun w1" by (auto simp: AcquireSubClaims_def)
    with es abandon_effects show ?thesis by (auto simp: unwindCandidates_def)
  next
    case (Inr out)
    with assms pre loop have "res = Inr out" "effects w' = effects w @ es @ (if out = [] then [] else
        [SubclaimAcquiredEvent (siParentClaimHandleID inp) (siProducerName inp) (length out)])"
      using es(1) by (auto simp: AcquireSubClaims_def)
    with es Inr show ?thesis by auto
  qed
qed

subsection \<open>An example\<close>

definition exampleSplit :: SplitEnv where
  "exampleSplit = \<lparr>prSplitScope = (\<lambda>_ _ r. Inr (map (\<lambda>c. \<lparr>scdClaimScopeData = [c], scdPartitionKey = [c], scdProducerMetadata = [], scdAddress = [], scdPayload = [],
     scdLeaseToken = []\<rparr>) r)), jsonValid = (\<lambda>_. True), splitNow = 5\<rparr>"

definition exampleSplitEnv :: "unit Env" where
  "exampleSplitEnv = fanEnv\<lparr>dataProcessor := (\<lambda>_. Some \<lparr>dpBeginCandidate = (\<lambda>_ i _ k. Inr k), dpCommitCandidate = (\<lambda>_ _ _. None),
     dpAbandonCandidate = (\<lambda>_ _ _. True)\<rparr>)\<rparr>"

definition exampleSplitInput :: "string \<Rightarrow> AcquireSubClaimsInput" where
  "exampleSplitInput req = \<lparr>siParentClaimHandleID = 1, siProducerName = ''fs'', siNodeRunID = 6, siHolderNodeID = 7,
     siHolderSupervisorID = ''sup1'', siInstanceID = 5, siFrameID = None, siLivenessInterval = 1, siPartitionRequest = req,
     siLifetime = None, siParentIsHeld = True, siAggregationPolicy = \<lparr>Kind = AggregationKindStrict, MaxFailures = 0\<rparr>,
     siParentIntent = ''rw'', siParentRealizedWriteSemantics = ''sync''\<rparr>"

abbreviation exampleSplitRun :: "string \<Rightarrow> (split_error + SubClaim list) \<times> unit World" where
  "exampleSplitRun req \<equiv> AcquireSubClaims exampleSplitEnv exampleProducers exampleSplit (exampleSplitInput req) (\<lambda>n. 50 + n) fanWorld"

lemma exampleSplit_runs:
  "map_sum id (map scPartitionKey) (fst (exampleSplitRun ''ab'')) = Inr [''a'', ''b'']"
  "fst (exampleSplitRun ''aa'') = Inl (OverlappingScopes ''a'')"
  "candidatesBegun (effects (snd (exampleSplitRun ''aa''))) = [(50, ''subclaim:6:a'')]"
  "effects fanWorld = []"
  by code_simp+

theorem split_adds_disjoint_children_witness:
  "\<exists>out. fst (exampleSplitRun ''ab'') = Inr out \<and> map scPartitionKey out = [''a'', ''b''] \<and>
     length (claim_handles (claims (snd (exampleSplitRun ''ab'')))) = 5"
proof -
  obtain out where out: "fst (exampleSplitRun ''ab'') = Inr out" "map scPartitionKey out = [''a'', ''b'']"
    using exampleSplit_runs(1) by (cases "fst (exampleSplitRun ''ab'')") auto
  have "exampleSplitRun ''ab'' = (Inr out, snd (exampleSplitRun ''ab''))" using out(1) by (metis prod.collapse)
  from split_adds_disjoint_children [OF this] obtain descs where l: "list_all2 matches descs out"
    and r: "claim_handles (claims (snd (exampleSplitRun ''ab''))) =
      update_where (isParent (exampleSplitInput ''ab'')) (expectMore (length out) \<circ> withPolicy (exampleSplitInput ''ab'')) (claim_handles (claims fanWorld)) @
      map (childRow (dbNow exampleSplitEnv) exampleSplit (exampleSplitInput ''ab'')) (zip descs out)" by (elim exE conjE) (rule that)
  have "length out = 2" using arg_cong [OF out(2), of length] by simp
  moreover have "length descs = length out" using l by (rule list_all2_lengthD)
  moreover have "length (claim_handles (claims fanWorld)) = 3" by (simp add: fanWorld_def fanClaims_def)
  ultimately have "length (claim_handles (claims (snd (exampleSplitRun ''ab'')))) = 5"
    unfolding r length_append length_map length_zip length_update_where by simp
  with out show ?thesis by (intro exI [of _ out] conjI)
qed

theorem failed_split_abandons_its_candidates_witness:
  "fst (exampleSplitRun ''aa'') = Inl (OverlappingScopes ''a'') \<and>
   candidatesAbandoned (effects (snd (exampleSplitRun ''aa''))) = [(50, ''subclaim:6:a'')]"
proof -
  have "exampleSplitRun ''aa'' = (Inl (OverlappingScopes ''a''), snd (exampleSplitRun ''aa''))"
    using exampleSplit_runs(2) by (metis prod.collapse)
  from failed_split_abandons_its_candidates [OF this] exampleSplit_runs show ?thesis by auto
qed

end
