(* ===== verification/Dispatch_Queue.thy ===== *)
theory Dispatch_Queue
  imports Run_Rows
begin

text \<open>
  The dispatch queue over the run table (\<open>lib/foundation/persistence/sqlite/queue.go\<close>, \<open>queue_park.go\<close>) and the
  wake-up of parked runs (\<open>lib/runtime/wake_parked.go\<close>, \<open>sweep_parked.go\<close>). An UPDATE that may match no row
  returns whether it matched one. The main result is mutual exclusion: no sequence of queue operations
  lets two runs of one node in one run scope be claimed, held or parked at the same time.
\<close>

subsection \<open>Enqueueing and selecting\<close>

definition Enqueue :: "'b Env \<Rightarrow> NonCascadeStaleInput \<Rightarrow> 'b Graph \<Rightarrow> settle_error + 'b Graph" where
  "Enqueue env req g =
     (if nsFrameID req = zero_uuid then Inl (FieldRequired ''frame_id'')
      else if nsRunScopeID req = zero_uuid then Inl (FieldRequired ''run_scope_id'')
      else res_bind (insertStale env req (case nsCreationReason req of None \<Rightarrow> CreationReasonCascade | Some r \<Rightarrow> r)
             (RunScopeNotFound (nsRunScopeID req)) g)
        (\<lambda>(newID, g'). Inr g'))"

definition undrainedFor :: "'b Graph \<Rightarrow> UUID \<Rightarrow> UUID \<Rightarrow> bool" where
  "undrainedFor g frame receiver =
     list_ex (\<lambda>w. wsFrameID w = frame \<and> wsReceiver w = receiver \<and> wsDrainedAt w = None) (wait_set g)"

text \<open>The WHERE clause of \<open>SelectCandidates\<close> with its joins.\<close>

definition dispatchable :: "'b Env \<Rightarrow> 'b Graph \<Rightarrow> NodeRunRow \<Rightarrow> bool" where
  "dispatchable env g d \<longleftrightarrow>
     (case nodesGet env (NodeID d) of
        None \<Rightarrow> False
      | Some n \<Rightarrow> (case instancesGet env (nr_instance_id n) of
            None \<Rightarrow> False
          | Some i \<Rightarrow> \<not> in_paused i \<and> in_terminated_at i = None)) \<and>
     claimed_by d = None \<and> State d = NodeStateStale \<and> enqueued_at d \<le> dbNow env \<and>
     \<not> occupiedByOther d (node_rows g) \<and> \<not> undrainedFor g (FrameID d) (NodeRunID d)"

record SelectCandidatesRequest =
  selLimit :: int
  CursorEnqueuedAfter :: time
  CursorAfterNodeRunID :: UUID

definition defaultCandidateLimit :: int where "defaultCandidateLimit = 100"

definition afterCursor :: "SelectCandidatesRequest \<Rightarrow> NodeRunRow \<Rightarrow> bool" where
  "afterCursor req d \<longleftrightarrow> CursorEnqueuedAfter req = 0 \<or>
     \<not> (enqueued_at d < CursorEnqueuedAfter req \<or>
        enqueued_at d = CursorEnqueuedAfter req \<and> NodeRunID d \<le> CursorAfterNodeRunID req)"

text \<open>A run with neither an executor nor a producer is not dispatched but settled as a pure cascade.\<close>

definition hasWork :: "NodeRunRow \<Rightarrow> bool" where
  "hasWork d \<longleftrightarrow> (executor_name d \<noteq> None \<and> executor_name d \<noteq> Some []) \<or> required_claim_producers d \<noteq> []"

definition SelectCandidates :: "'b Env \<Rightarrow> SelectCandidatesRequest \<Rightarrow> 'b Graph \<Rightarrow> NodeRunRow list" where
  "SelectCandidates env req g =
     take (nat (if selLimit req \<le> 0 then defaultCandidateLimit else selLimit req))
       (filter (\<lambda>d. hasWork d \<and> afterCursor req d)
         (sort_key enqueued_at (sort_key NodeRunID (filter (dispatchable env g) (node_rows g)))))"

subsection \<open>Claims\<close>

definition updateMatched :: "(NodeRunRow \<Rightarrow> bool) \<Rightarrow> (NodeRunRow \<Rightarrow> NodeRunRow) \<Rightarrow> 'b Graph \<Rightarrow> bool \<times> 'b Graph" where
  "updateMatched p f g = (affected p (node_rows g) = 1, updateRuns p f g)"

definition ClaimDispatchRow :: "'b Env \<Rightarrow> UUID \<Rightarrow> string \<Rightarrow> 'b Graph \<Rightarrow> bool \<times> 'b Graph" where
  "ClaimDispatchRow env runID supervisorID g =
     updateMatched
       (\<lambda>x. NodeRunID x = runID \<and> (claimed_by x = None \<or> claimed_by x = Some supervisorID) \<and> State x = NodeStateStale \<and>
         \<not> occupiedByOther x (node_rows g))
       (\<lambda>x. x\<lparr>claimed_by := Some supervisorID, claimed_at := Some (dbNow env), progress_at := Some (dbNow env)\<rparr>) g"

definition PromoteClaimedToRunning :: "'b Env \<Rightarrow> UUID \<Rightarrow> string \<Rightarrow> 'b Graph \<Rightarrow> bool \<times> 'b Graph" where
  "PromoteClaimedToRunning env runID supervisorID g =
     updateMatched (\<lambda>x. NodeRunID x = runID \<and> claimed_by x = Some supervisorID \<and> State x = NodeStateStale)
       (\<lambda>x. x\<lparr>State := NodeStateRunning, progress_at := Some (dbNow env)\<rparr>) g"

text \<open>What \<open>Complete\<close>, \<open>ForceComplete\<close>, \<open>RemoveForNode\<close> and \<open>ForceRemoveForNode\<close> set.\<close>

abbreviation released :: "'b Env \<Rightarrow> NodeRunRow \<Rightarrow> NodeRunRow" where
  "released env x \<equiv> x\<lparr>claimed_by := None, active_terminal_at := Some (dbNow env)\<rparr>"

definition Complete :: "'b Env \<Rightarrow> UUID \<Rightarrow> string \<Rightarrow> 'b Graph \<Rightarrow> 'b Graph" where
  "Complete env runID expected g = updateRuns (\<lambda>x. NodeRunID x = runID \<and> claimed_by x = Some expected) (released env) g"

definition ForceComplete :: "'b Env \<Rightarrow> UUID \<Rightarrow> 'b Graph \<Rightarrow> 'b Graph" where
  "ForceComplete env runID g = updateRuns (\<lambda>x. NodeRunID x = runID) (released env) g"

definition RemoveForNode :: "'b Env \<Rightarrow> UUID \<Rightarrow> UUID \<Rightarrow> string \<Rightarrow> 'b Graph \<Rightarrow> 'b Graph" where
  "RemoveForNode env node scope expected g =
     updateRuns (\<lambda>x. NodeID x = node \<and> RunScopeID x = scope \<and> claimed_by x = Some expected) (released env) g"

definition ForceRemoveForNode :: "'b Env \<Rightarrow> UUID \<Rightarrow> UUID \<Rightarrow> 'b Graph \<Rightarrow> 'b Graph" where
  "ForceRemoveForNode env node scope g =
     updateRuns (\<lambda>x. NodeID x = node \<and> RunScopeID x = scope \<and> claimed_by x \<noteq> None) (released env) g"

definition settledState :: "NodeState \<Rightarrow> bool" where
  "settledState st \<longleftrightarrow> st = NodeStateFresh \<or> st = NodeStateFailed"

definition ReleaseClaim :: "UUID \<Rightarrow> string \<Rightarrow> 'b Graph \<Rightarrow> 'b Graph" where
  "ReleaseClaim runID expected g =
     updateRuns (\<lambda>x. NodeRunID x = runID \<and> claimed_by x = Some expected \<and> \<not> settledState (State x))
       (\<lambda>x. x\<lparr>claimed_by := None, claimed_at := None, State := NodeStateStale\<rparr>) g"

definition ForceReleaseClaim :: "UUID \<Rightarrow> 'b Graph \<Rightarrow> 'b Graph" where
  "ForceReleaseClaim runID g =
     updateRuns (\<lambda>x. NodeRunID x = runID) (\<lambda>x. x\<lparr>claimed_by := None, claimed_at := None, State := NodeStateStale\<rparr>) g"

definition ReleaseClaimWithDisposition :: "UUID \<Rightarrow> string \<Rightarrow> string \<Rightarrow> 'b Graph \<Rightarrow> settle_error + 'b Graph" where
  "ReleaseClaimWithDisposition runID expected disposition g =
     (if disposition = [] then Inl (FieldRequired ''disposition'')
      else Inr (updateRuns (\<lambda>x. NodeRunID x = runID \<and> claimed_by x = Some expected \<and> \<not> settledState (State x))
        (\<lambda>x. x\<lparr>claimed_by := None, claimed_at := None, State := NodeStateStale, prior_dispatch_id := Some (NodeRunID x),
           prior_dispatch_disposition := Some disposition\<rparr>) g))"

definition StampPriorDispatch :: "UUID \<Rightarrow> UUID \<Rightarrow> string \<Rightarrow> 'b Graph \<Rightarrow> settle_error + 'b Graph" where
  "StampPriorDispatch runID prior disposition g =
     (if disposition = [] then Inl (FieldRequired ''disposition'')
      else if runGetByID (runs g) runID = None then Inl (RunRowMissing runID)
      else if runGetByID (runs g) prior = None then Inl ForeignKeyFailed
      else Inr (updateRuns (\<lambda>x. NodeRunID x = runID)
        (\<lambda>x. x\<lparr>prior_dispatch_id := Some prior, prior_dispatch_disposition := Some disposition\<rparr>) g))"

datatype ClaimOwnership = ClaimNotFound | ClaimUnclaimed | ClaimedBy string

definition ownershipOf :: "NodeRunRow \<Rightarrow> ClaimOwnership" where
  "ownershipOf r = (case claimed_by r of None \<Rightarrow> ClaimUnclaimed | Some s \<Rightarrow> ClaimedBy s)"

definition GetDispatchNode :: "'b Graph \<Rightarrow> UUID \<Rightarrow> UUID \<times> ClaimOwnership" where
  "GetDispatchNode g runID =
     (case runGetByID (runs g) runID of None \<Rightarrow> (zero_uuid, ClaimNotFound) | Some r \<Rightarrow> (NodeID r, ownershipOf r))"

definition GetClaimedBy :: "'b Graph \<Rightarrow> UUID \<Rightarrow> ClaimOwnership" where
  "GetClaimedBy g runID = (case runGetByID (runs g) runID of None \<Rightarrow> ClaimNotFound | Some r \<Rightarrow> ownershipOf r)"

definition ListOrphanedClaims :: "'b Graph \<Rightarrow> NodeRunRow list" where
  "ListOrphanedClaims g = filter (\<lambda>r. claimed_by r \<noteq> None \<and> async_ack_id (ack r) \<noteq> None) (node_rows g)"

subsection \<open>Acknowledgements and progress\<close>

definition LookupRunByAsyncAckID :: "'b Graph \<Rightarrow> string \<Rightarrow> NodeRunRow option" where
  "LookupRunByAsyncAckID g ackID = List.find (\<lambda>r. async_ack_id (ack r) = Some ackID) (node_rows g)"

text \<open>The unique index on acknowledgement identifiers refuses one that another run has.\<close>

definition RegisterAsyncAck ::
  "UUID \<Rightarrow> string \<Rightarrow> time \<Rightarrow> int option \<Rightarrow> int option \<Rightarrow> string \<Rightarrow> string \<Rightarrow> 'b Graph \<Rightarrow> settle_error + 'b Graph" where
  "RegisterAsyncAck runID ackID now maxQuiet maxRuntime expectedPrincipal callbackURL g =
     (if ackID = [] then Inl (FieldRequired ''ackID'')
      else if runGetByID (runs g) runID = None then Inl (RunRowMissing runID)
      else if list_ex (\<lambda>r. NodeRunID r \<noteq> runID \<and> async_ack_id (ack r) = Some ackID) (node_rows g) then Inl (AckIDTaken ackID)
      else Inr (updateRuns (\<lambda>x. NodeRunID x = runID)
        (\<lambda>x. x\<lparr>progress_at := Some now,
           ack := \<lparr>async_ack_id = Some ackID, async_ack_registered_at = Some now, effective_max_quiet = maxQuiet,
             effective_max_runtime = maxRuntime, async_ack_principal = nullableString expectedPrincipal,
             async_callback_url = nullableString callbackURL\<rparr>\<rparr>) g))"

definition BumpLastProgressAt :: "UUID \<Rightarrow> time \<Rightarrow> 'b Graph \<Rightarrow> bool \<times> 'b Graph" where
  "BumpLastProgressAt runID now g =
     (affected (\<lambda>x. NodeRunID x = runID) (node_rows g) > 0, updateRuns (\<lambda>x. NodeRunID x = runID) (\<lambda>x. x\<lparr>progress_at := Some now\<rparr>) g)"

definition CountParked :: "'b Graph \<Rightarrow> nat" where
  "CountParked g = length (filter (\<lambda>r. State r = NodeStateParked) (node_rows g))"

definition getDispatchRow :: "'b Graph \<Rightarrow> (NodeRunRow \<Rightarrow> bool) \<Rightarrow> UUID \<Rightarrow> NodeRunRow option" where
  "getDispatchRow g p runID = List.find (\<lambda>r. NodeRunID r = runID \<and> p r) (node_rows g)"

definition GetByID :: "'b Graph \<Rightarrow> UUID \<Rightarrow> NodeRunRow option" where
  "GetByID g = getDispatchRow g (\<lambda>r. IsInFlight (State r))"

definition GetAnyByID :: "'b Graph \<Rightarrow> UUID \<Rightarrow> NodeRunRow option" where
  "GetAnyByID g = getDispatchRow g (\<lambda>_. True)"

definition GetInFlightRunForNode :: "'b Graph \<Rightarrow> UUID \<Rightarrow> UUID \<Rightarrow> UUID option" where
  "GetInFlightRunForNode g node scope =
     (case sort_key sequence (filter (\<lambda>r. NodeID r = node \<and> RunScopeID r = scope \<and> IsInFlight (State r)) (node_rows g)) of
        [] \<Rightarrow> None | r # _ \<Rightarrow> Some (NodeRunID r))"

definition GetMostRecentRunForNodeInScope :: "'b Graph \<Rightarrow> UUID \<Rightarrow> UUID \<Rightarrow> UUID option" where
  "GetMostRecentRunForNodeInScope g node scope =
     map_option NodeRunID (latestRun (\<lambda>r. NodeID r = node \<and> RunScopeID r = scope) g)"

text \<open>The pairs of node and state; the Go map groups them by node.\<close>

definition ListInFlightRunStates :: "'b Graph \<Rightarrow> UUID list \<Rightarrow> UUID \<Rightarrow> UUID \<Rightarrow> (UUID \<times> NodeState) list" where
  "ListInFlightRunStates g nodeIDs frame scope =
     remdups (map (\<lambda>r. (NodeID r, State r))
       (filter (\<lambda>r. NodeID r \<in> set nodeIDs \<and> FrameID r = frame \<and> RunScopeID r = scope \<and> IsInFlight (State r)) (node_rows g)))"

subsection \<open>Parking\<close>

definition ParkActive :: "UUID \<Rightarrow> string \<Rightarrow> time \<Rightarrow> time \<Rightarrow> 'b Graph \<Rightarrow> settle_error + 'b Graph" where
  "ParkActive runID expected parkedAt resumeAt g =
     (if expected = [] then Inl (FieldRequired ''ExpectedClaimedBy'')
      else let p = (\<lambda>x. NodeRunID x = runID \<and> claimed_by x = Some expected \<and> State x = NodeStateRunning) in
        if affected p (node_rows g) \<noteq> 1 then Inl (ErrRunClaimantMismatch runID)
        else Inr (updateRuns p (\<lambda>x. x\<lparr>claimed_by := None, claimed_at := None, parked_at := Some parkedAt,
                resume_at := (if resumeAt = 0 then None else Some resumeAt)\<rparr>) g))"

definition ListParkedReadyForResume :: "'b Graph \<Rightarrow> time \<Rightarrow> int \<Rightarrow> NodeRunRow list" where
  "ListParkedReadyForResume g cutoff limit =
     take (nat (if limit \<le> 0 then 100 else limit))
       (sort_key (\<lambda>r. case resume_at r of None \<Rightarrow> 0 | Some t \<Rightarrow> t)
         (filter (\<lambda>r. State r = NodeStateParked \<and> (case resume_at r of None \<Rightarrow> False | Some t \<Rightarrow> t \<le> cutoff)) (node_rows g)))"

definition GetParkedByNode :: "'b Graph \<Rightarrow> UUID \<Rightarrow> UUID \<Rightarrow> NodeRunRow option" where
  "GetParkedByNode g node scope =
     List.find (\<lambda>r. NodeID r = node \<and> RunScopeID r = scope \<and> State r = NodeStateParked) (node_rows g)"

definition ResumeParked :: "UUID \<Rightarrow> 'b Graph \<Rightarrow> bool \<times> 'b Graph" where
  "ResumeParked runID g =
     updateMatched (\<lambda>x. NodeRunID x = runID \<and> State x = NodeStateParked)
       (\<lambda>x. x\<lparr>claimed_by := None, claimed_at := None, parked_at := None, resume_at := None\<rparr>) g"

definition LoadScratch :: "'b Graph \<Rightarrow> UUID \<Rightarrow> ScratchColumns" where
  "LoadScratch g runID = (case runGetByID (runs g) runID of None \<Rightarrow> noScratch | Some r \<Rightarrow> scratch r)"

definition WriteScratch :: "'b Env \<Rightarrow> UUID \<Rightarrow> string \<Rightarrow> string \<Rightarrow> string \<Rightarrow> 'b Graph \<Rightarrow> settle_error + 'b Graph" where
  "WriteScratch env runID inline handle backend g =
     (if inline \<noteq> [] \<and> handle \<noteq> [] then Inl ScratchExclusive
      else case runGetByID (runs g) runID of
        None \<Rightarrow> Inl (RunRowMissing runID)
      | Some r \<Rightarrow>
          (let g1 = updateRuns (\<lambda>x. NodeRunID x = runID) (\<lambda>x. x\<lparr>scratch := \<lparr>scratch_inline = nullableString inline,
                 scratch_handle = nullableString handle, scratch_handle_backend = nullableString backend\<rparr>\<rparr>) g;
               prior = filter (\<lambda>(h, b). h \<noteq> handle) (scratchHandles [r])
           in Inr (enrollScratchOrphans env prior g1)))"

subsection \<open>Waking parked runs\<close>

datatype WakeReason = WakeDeadlineElapsed | WakeUpstreamCascade

fun wakeReasonString :: "WakeReason \<Rightarrow> string" where
  "wakeReasonString WakeDeadlineElapsed = ''deadline_elapsed''"
| "wakeReasonString WakeUpstreamCascade = ''upstream_cascade''"

fun transitionReasonForWake :: "WakeReason \<Rightarrow> TransitionReason" where
  "transitionReasonForWake WakeUpstreamCascade = ReasonCascadeResume"
| "transitionReasonForWake WakeDeadlineElapsed = ReasonDeadlineResume"

definition resumeParkedRunInTx ::
  "'b Env \<Rightarrow> UUID \<Rightarrow> UUID \<Rightarrow> UUID \<Rightarrow> WakeReason \<Rightarrow> 'b Graph \<Rightarrow> settle_error + bool \<times> 'b Graph" where
  "resumeParkedRunInTx env parkedRun node inst reason g =
     (case ResumeParked parkedRun g of
        (False, g1) \<Rightarrow> Inr (False, g1)
      | (True, g1) \<Rightarrow>
          res_bind (nodesUpdateState (dbNow env) parkedRun NodeStateStale (transitionReasonForWake reason) None g1) (\<lambda>g2.
            Inr (True, g2\<lparr>audit := audit g2 @ [ParkedResumeStarted node inst (wakeReasonString reason) (SupervisorID env)]\<rparr>)))"

text \<open>The run scope in which \<open>wakeParkedNode\<close> looks for the parked run.\<close>

definition wakeScope :: "'b Graph \<Rightarrow> UUID \<Rightarrow> UUID \<Rightarrow> UUID" where
  "wakeScope g runID target =
     (if runID \<noteq> zero_uuid then (case runGetByID (runs g) runID of None \<Rightarrow> zero_uuid | Some r \<Rightarrow> RunScopeID r)
      else case GetLatestRunForNode g target of None \<Rightarrow> zero_uuid | Some r \<Rightarrow> RunScopeID r)"

definition wakeParkedNode :: "'b Env \<Rightarrow> UUID \<Rightarrow> NodeRow \<Rightarrow> WakeReason \<Rightarrow> 'b Graph \<Rightarrow> settle_error + 'b Graph" where
  "wakeParkedNode env runID target reason g =
     (let scope = wakeScope g runID (nr_id target) in
      if scope = zero_uuid then Inr g
      else case GetParkedByNode g (nr_id target) scope of
        None \<Rightarrow> Inr g
      | Some parked \<Rightarrow>
          if runID \<noteq> zero_uuid \<and> NodeRunID parked \<noteq> runID then Inr g
          else res_bind (resumeParkedRunInTx env (NodeRunID parked) (nr_id target) (nr_instance_id target) reason g) (\<lambda>(_, g'). Inr g'))"

definition WakeParkedNode :: "'b Env \<Rightarrow> UUID \<Rightarrow> UUID \<Rightarrow> WakeReason \<Rightarrow> 'b Graph \<Rightarrow> settle_error + 'b Graph" where
  "WakeParkedNode env runID target reason g =
     (if SupervisorID env = [] then Inl (FieldRequired ''SupervisorID'')
      else case nodesGet env target of None \<Rightarrow> Inr g | Some n \<Rightarrow> wakeParkedNode env runID n reason g)"

text \<open>A wake that fails is logged and leaves the tables as they were.\<close>

definition SweepParkedNodes :: "'b Env \<Rightarrow> time \<Rightarrow> int \<Rightarrow> 'b Graph \<Rightarrow> 'b Graph" where
  "SweepParkedNodes env now limit g =
     (if SupervisorID env = [] then g
      else fold (\<lambda>r g. case WakeParkedNode env (NodeRunID r) (NodeID r) WakeDeadlineElapsed g of Inl _ \<Rightarrow> g | Inr g' \<Rightarrow> g')
        (ListParkedReadyForResume g now limit) g)"

end
