(* ===== verification/Dispatch_Queue_Props.thy ===== *)
theory Dispatch_Queue_Props
  imports Dispatch_Queue
begin

text \<open>
  The invariant of the run table under the queue, parking and cascade statements: identifiers and sequence
  numbers are unique, and at most one run of a node in a run scope occupies the serialization gate.
\<close>

subsection \<open>The invariant\<close>

definition serialized :: "NodeRunRow list \<Rightarrow> bool" where
  "serialized rows \<longleftrightarrow> (\<forall>r \<in> set rows. \<forall>x \<in> set rows. siblings r x \<longrightarrow> \<not> (occupies r \<and> occupies x))"

definition sequenced :: "NodeRunRow list \<Rightarrow> bool" where
  "sequenced rows \<longleftrightarrow> (\<forall>r \<in> set rows. \<forall>x \<in> set rows. siblings r x \<longrightarrow> sequence r \<noteq> sequence x)"

definition run_inv :: "'b Graph \<Rightarrow> bool" where
  "run_inv g \<longleftrightarrow> keyed NodeRunID (node_rows g) \<and> serialized (node_rows g) \<and> sequenced (node_rows g) \<and>
     (\<forall>r \<in> set (node_rows g). NodeRunID r < next_id g)"

lemma run_invD:
  assumes "run_inv g"
  shows "keyed NodeRunID (node_rows g)" and "serialized (node_rows g)" and "sequenced (node_rows g)"
    and "r \<in> set (node_rows g) \<Longrightarrow> NodeRunID r < next_id g"
  using assms by (auto simp: run_inv_def)

lemma node_rows_simps [simp]:
  "node_rows (withRows rows g) = rows" "next_id (withRows rows g) = next_id g" "wait_set (withRows rows g) = wait_set g"
  "frames (withRows rows g) = frames g" "attrs (withRows rows g) = attrs g" "audit (withRows rows g) = audit g"
  "run_scopes (runs (withRows rows g)) = run_scopes (runs g)"
  "node_rows (updateRuns p f g) = update_where p f (node_rows g)" "next_id (updateRuns p f g) = next_id g"
  "wait_set (updateRuns p f g) = wait_set g" "frames (updateRuns p f g) = frames g" "attrs (updateRuns p f g) = attrs g"
  "audit (updateRuns p f g) = audit g" "run_scopes (runs (updateRuns p f g)) = run_scopes (runs g)"
  by (simp_all add: withRows_def updateRuns_def)

lemma run_inv_cong:
  "node_rows g' = node_rows g \<Longrightarrow> next_id g' = next_id g \<Longrightarrow> run_inv g' = run_inv g"
  by (simp add: run_inv_def)

subsection \<open>Updates\<close>

text \<open>An update keeps the identity of a run.\<close>

definition keeps_identity :: "(NodeRunRow \<Rightarrow> NodeRunRow) \<Rightarrow> bool" where
  "keeps_identity f \<longleftrightarrow> (\<forall>x. NodeRunID (f x) = NodeRunID x \<and> NodeID (f x) = NodeID x \<and> RunScopeID (f x) = RunScopeID x \<and>
     sequence (f x) = sequence x)"

lemma siblings_update:
  assumes "keeps_identity f"
  shows "siblings (if p x then f x else x) (if p y then f y else y) = siblings x y"
  using assms by (simp add: siblings_def keeps_identity_def)

lemma siblings_sym: "siblings r x = siblings x r"
  by (auto simp: siblings_def)

lemma updateRuns_inv:
  assumes "run_inv g" and "keeps_identity f"
    and grow: "\<And>x y. x \<in> set (node_rows g) \<Longrightarrow> y \<in> set (node_rows g) \<Longrightarrow> siblings x y \<Longrightarrow> p x \<Longrightarrow> occupies (f x) \<Longrightarrow>
      occupies (if p y then f y else y) \<Longrightarrow> occupies x \<and> occupies y"
  shows "run_inv (updateRuns p f g)"
proof -
  have "keyed NodeRunID (update_where p f (node_rows g))"
    using run_invD(1) [OF assms(1)] assms(2) by (simp add: update_where_keyed keeps_identity_def)
  moreover have "\<not> (occupies (if p x then f x else x) \<and> occupies (if p y then f y else y))"
    if xy: "x \<in> set (node_rows g)" "y \<in> set (node_rows g)" "siblings x y" for x y
  proof
    assume both: "occupies (if p x then f x else x) \<and> occupies (if p y then f y else y)"
    have "occupies x \<and> occupies y"
    proof (cases "p x")
      case True
      with grow [OF xy] both show ?thesis by simp
    next
      case False
      with grow [OF xy(2,1)] both xy(3) siblings_sym show ?thesis by (cases "p y") auto
    qed
    with run_invD(2) [OF assms(1)] xy show False by (auto simp: serialized_def)
  qed
  then have "serialized (update_where p f (node_rows g))"
    unfolding serialized_def ball_update_where siblings_update [OF assms(2)] by blast
  moreover have "sequenced (update_where p f (node_rows g))"
    using run_invD(3) [OF assms(1)] assms(2)
    unfolding sequenced_def ball_update_where siblings_update [OF assms(2)] by (simp add: keeps_identity_def)
  moreover have "\<forall>r \<in> set (update_where p f (node_rows g)). NodeRunID r < next_id g"
    using run_invD(4) [OF assms(1)] assms(2) by (simp add: ball_update_where keeps_identity_def)
  ultimately show ?thesis by (simp add: run_inv_def)
qed

text \<open>Most statements release the gate or leave it alone.\<close>

lemma updateRuns_shrink:
  assumes "run_inv g" and "keeps_identity f" and "\<And>x. p x \<Longrightarrow> occupies (f x) \<Longrightarrow> occupies x"
  shows "run_inv (updateRuns p f g)"
proof (rule updateRuns_inv [OF assms(1,2)])
  fix x y assume a: "p x" "occupies (f x)" "occupies (if p y then f y else y)"
  with assms(3) show "occupies x \<and> occupies y" by (cases "p y") auto
qed

text \<open>A single run may take the gate if no sibling has it.\<close>

lemma updateRuns_take:
  assumes "run_inv g" and "keeps_identity f" and "\<And>x. p x \<Longrightarrow> NodeRunID x = i"
    and "\<And>x. x \<in> set (node_rows g) \<Longrightarrow> p x \<Longrightarrow> occupies (f x) \<Longrightarrow> \<not> occupiedByOther x (node_rows g)"
  shows "run_inv (updateRuns p f g)"
proof (rule updateRuns_inv [OF assms(1,2)])
  fix x y assume xy: "x \<in> set (node_rows g)" "y \<in> set (node_rows g)" "siblings x y"
    and a: "p x" "occupies (f x)" "occupies (if p y then f y else y)"
  have "NodeRunID y \<noteq> NodeRunID x" using xy(3) by (simp add: siblings_def)
  then have "\<not> p y" using assms(3) a(1) by metis
  with a(3) have "occupies y" by simp
  with xy have "occupiedByOther x (node_rows g)" by (auto simp: occupiedByOther_def list_ex_iff)
  with assms(4) [OF xy(1) a(1,2)] show "occupies x \<and> occupies y" by blast
qed

lemmas identity_simps = keeps_identity_def occupies_def

lemma nodesUpdateState_inv:
  assumes "nodesUpdateState now i st rs sig g = Inr g'" and "run_inv g"
  shows "run_inv g'"
proof -
  let ?p = "\<lambda>x. NodeRunID x = i"
  let ?f = "\<lambda>x. x\<lparr>State := st, SettlingSignalType := (if sig = None then SettlingSignalType x else sig)\<rparr>"
  obtain r where r: "runGetByID (runs g) i = Some r"
    and ok: "\<not> ((st = NodeStateHeld \<or> st = NodeStateParked) \<and> occupiedByOther r (node_rows g))"
    and g': "node_rows g' = node_rows (updateRuns ?p ?f g)" "next_id g' = next_id g"
    using assms(1) by (auto simp: nodesUpdateState_def split: option.splits sum.splits if_splits)
  have row: "x = r" if "x \<in> set (node_rows g)" "NodeRunID x = i" for x
    using that r row_of_Some_iff [OF run_invD(1) [OF assms(2)], of i x] by (simp add: runGetByID_def)
  have "run_inv (updateRuns ?p ?f g)"
  proof (cases "st = NodeStateHeld \<or> st = NodeStateParked")
    case True
    show ?thesis by (rule updateRuns_take [OF assms(2), where i = i]) (use True ok row in \<open>auto simp: keeps_identity_def\<close>)
  next
    case False
    show ?thesis by (rule updateRuns_shrink [OF assms(2)]) (use False in \<open>auto simp: identity_simps\<close>)
  qed
  with g' show ?thesis by (simp add: run_inv_def)
qed

lemma ClaimDispatchRow_inv: "ClaimDispatchRow env i s g = (b, g') \<Longrightarrow> run_inv g \<Longrightarrow> run_inv g'"
  by (auto simp: ClaimDispatchRow_def updateMatched_def keeps_identity_def intro!: updateRuns_take [where i = i])

subsection \<open>Inserts and deletes\<close>

lemma insertRow_inv:
  assumes "run_inv g" and "NodeRunID row = next_id g" and "\<not> occupies row"
    and "sequence row = nextSequence (node_rows g) (NodeID row) (RunScopeID row)"
  shows "run_inv (insertRow row g)"
proof -
  have new: "NodeRunID r \<noteq> NodeRunID row" if "r \<in> set (node_rows g)" for r
    using run_invD(4) [OF assms(1) that] assms(2) by simp
  have "keyed NodeRunID (node_rows g @ [row])"
    using run_invD(1) [OF assms(1)] new by (force simp: keyed_def)
  moreover have "serialized (node_rows g @ [row])"
    using run_invD(2) [OF assms(1)] assms(3) by (auto simp: serialized_def)
  moreover have later: "sequence r \<noteq> sequence row" if "r \<in> set (node_rows g)" "siblings r row" for r
    using nextSequence_greater [OF that(1) refl refl] that(2) assms(4) by (simp add: siblings_def)
  have "sequence r \<noteq> sequence x" if "r \<in> set (node_rows g @ [row])" "x \<in> set (node_rows g @ [row])" "siblings r x" for r x
  proof (cases "r = row")
    case True
    with that have "x \<in> set (node_rows g)" "siblings x row" by (auto simp: siblings_def)
    with later True show ?thesis by force
  next
    case False
    then have "r \<in> set (node_rows g)" using that(1) by simp
    with that later run_invD(3) [OF assms(1)] show ?thesis by (cases "x = row") (simp_all add: sequenced_def)
  qed
  then have "sequenced (node_rows g @ [row])" by (simp only: sequenced_def) blast
  moreover have "\<forall>r \<in> set (node_rows g @ [row]). NodeRunID r < next_id g + 1"
    using run_invD(4) [OF assms(1)] assms(2) by (auto simp: less_Suc_eq)
  ultimately show ?thesis by (simp add: run_inv_def insertRow_def)
qed

lemma clearPrior_simps [simp]:
  "NodeRunID (clearPrior S r) = NodeRunID r" "NodeID (clearPrior S r) = NodeID r" "RunScopeID (clearPrior S r) = RunScopeID r"
  "sequence (clearPrior S r) = sequence r" "State (clearPrior S r) = State r" "claimed_by (clearPrior S r) = claimed_by r"
  "FrameID (clearPrior S r) = FrameID r" "creation_reason (clearPrior S r) = creation_reason r"
  by (simp_all add: clearPrior_def split: option.split)

lemma purgeRuns_rows:
  "node_rows (purgeRuns p g) = map (clearPrior (map NodeRunID (filter p (node_rows g)))) (filter (\<lambda>r. \<not> p r) (node_rows g))"
  "next_id (purgeRuns p g) = next_id g"
  by (simp_all add: purgeRuns_def delete_where_def Let_def)

lemma purgeRuns_inv:
  assumes "run_inv g"
  shows "run_inv (purgeRuns p g)"
proof -
  have "NodeRunID \<circ> clearPrior S = NodeRunID" for S by (simp add: fun_eq_iff)
  then have "keyed NodeRunID (node_rows (purgeRuns p g))"
    using distinct_map_filter [of NodeRunID "node_rows g"] run_invD(1) [OF assms] by (simp add: purgeRuns_rows keyed_def)
  moreover have "serialized (node_rows (purgeRuns p g))" "sequenced (node_rows (purgeRuns p g))"
    using run_invD(2,3) [OF assms] by (auto simp: purgeRuns_rows serialized_def sequenced_def siblings_def occupies_def)
  moreover have "\<forall>r \<in> set (node_rows (purgeRuns p g)). NodeRunID r < next_id (purgeRuns p g)"
    using run_invD(4) [OF assms] by (auto simp: purgeRuns_rows)
  ultimately show ?thesis by (simp add: run_inv_def)
qed

lemma enroll_rows [simp]:
  "node_rows (enrollScratchOrphans env hs g) = node_rows g" "next_id (enrollScratchOrphans env hs g) = next_id g"
  "wait_set (enrollScratchOrphans env hs g) = wait_set g" "frames (enrollScratchOrphans env hs g) = frames g"
  "runs (enrollScratchOrphans env hs g) = runs g"
  by (simp_all add: enrollScratchOrphans_def)

lemma deleteRuns_inv: "run_inv g \<Longrightarrow> run_inv (deleteRuns env p g)"
  using purgeRuns_inv [of g p] by (simp add: deleteRuns_def run_inv_def)

lemma insertStale_inv:
  assumes "insertStale env inp reason e g = Inr (i, g')" and "run_inv g"
  shows "run_inv g'"
proof -
  have "run_inv (insertRow (staleRow inp reason g) g)"
    by (rule insertRow_inv [OF assms(2)]) (simp_all add: staleRow_def baseRow_def occupies_def)
  with assms(1) show ?thesis
    by (auto simp: insertStale_def snapshotNewRun_def run_inv_def split: if_splits prod.splits option.splits)
qed

lemma CreateCascadePending_inv:
  assumes "CreateCascadePending env node scope frame g = Inr (i, g')" and "run_inv g"
  shows "run_inv g'"
proof (cases "nodesGet env node")
  case (Some n)
  with assms(1) have "g' = insertRow ((baseRow (next_id g) node scope frame NodeStatePending CreationReasonCascade (dbNow env) g)
       \<lparr>executor_name := nullableString (nr_executor n)\<rparr>) g"
    by (auto simp: CreateCascadePending_def split: if_splits)
  then show ?thesis by (auto simp: baseRow_def occupies_def intro!: insertRow_inv [OF assms(2)])
qed (use assms(1) in \<open>simp add: CreateCascadePending_def\<close>)

subsection \<open>The statements of the run table\<close>

text \<open>
  One step is one statement of \<open>nodes.go\<close>, \<open>queue.go\<close> or \<open>queue_park.go\<close> that writes the run table, or one
  wake-up of \<open>wake_parked.go\<close> and \<open>sweep_parked.go\<close>. The environment is another one in each step: the clock advances, nodes
  are created, and several supervisors issue statements on the same tables.
\<close>

inductive queue_step :: "'b Graph \<Rightarrow> 'b Graph \<Rightarrow> bool" where
  step_Enqueue: "Enqueue env req g = Inr g' \<Longrightarrow> queue_step g g'"
| step_CreateNonCascadeStale: "CreateNonCascadeStale env inp g = Inr (i, g') \<Longrightarrow> queue_step g g'"
| step_CreateCascadePending: "CreateCascadePending env node scope frame g = Inr (i, g') \<Longrightarrow> queue_step g g'"
| step_ClaimDispatchRow: "ClaimDispatchRow env i s g = (b, g') \<Longrightarrow> queue_step g g'"
| step_PromoteClaimedToRunning: "PromoteClaimedToRunning env i s g = (b, g') \<Longrightarrow> queue_step g g'"
| step_Complete: "queue_step g (Complete env i s g)"
| step_ForceComplete: "queue_step g (ForceComplete env i g)"
| step_RemoveForNode: "queue_step g (RemoveForNode env node scope s g)"
| step_ForceRemoveForNode: "queue_step g (ForceRemoveForNode env node scope g)"
| step_ReleaseClaim: "queue_step g (ReleaseClaim i s g)"
| step_ForceReleaseClaim: "queue_step g (ForceReleaseClaim i g)"
| step_ReleaseClaimWithDisposition: "ReleaseClaimWithDisposition i s d g = Inr g' \<Longrightarrow> queue_step g g'"
| step_StampPriorDispatch: "StampPriorDispatch i j d g = Inr g' \<Longrightarrow> queue_step g g'"
| step_RegisterAsyncAck: "RegisterAsyncAck i a now q m e u g = Inr g' \<Longrightarrow> queue_step g g'"
| step_BumpLastProgressAt: "BumpLastProgressAt i now g = (b, g') \<Longrightarrow> queue_step g g'"
| step_ParkActive: "ParkActive i s p r g = Inr g' \<Longrightarrow> queue_step g g'"
| step_ResumeParked: "ResumeParked i g = (b, g') \<Longrightarrow> queue_step g g'"
| step_WriteScratch: "WriteScratch env i inl h bk g = Inr g' \<Longrightarrow> queue_step g g'"
| step_UpdateState: "nodesUpdateState now i st rs sig g = Inr g' \<Longrightarrow> queue_step g g'"
| step_UpdateRunEvaluatorState: "UpdateRunEvaluatorState i n g = Inr g' \<Longrightarrow> queue_step g g'"
| step_TransitionPendingToStale: "TransitionPendingToStale i at g = Inr g' \<Longrightarrow> queue_step g g'"
| step_SetRunRequiredClaimProducers: "SetRunRequiredClaimProducers i ps g = (b, g') \<Longrightarrow> queue_step g g'"
| step_ResetFailedTerminalSettlingSignalType: "queue_step g (ResetFailedTerminalSettlingSignalType node scope g)"
| step_DeletePriorCascadeStales: "queue_step g (DeletePriorCascadeStales env node scope sq g)"
| step_DropPendingRun: "DropPendingRun env i g = Inr g' \<Longrightarrow> queue_step g g'"
| step_WakeParkedNode: "WakeParkedNode env i target w g = Inr g' \<Longrightarrow> queue_step g g'"
| step_SweepParkedNodes: "queue_step g (SweepParkedNodes env now limit g)"

lemma resumeParkedRunInTx_inv:
  assumes "resumeParkedRunInTx env i node inst w g = Inr (b, g')" and "run_inv g"
  shows "run_inv g'"
proof -
  obtain b1 g1 where g1: "ResumeParked i g = (b1, g1)" by fastforce
  then have inv: "run_inv g1" unfolding ResumeParked_def updateMatched_def
    by (auto simp: identity_simps intro!: updateRuns_shrink [OF assms(2)])
  show ?thesis
  proof (cases b1)
    case True
    with assms(1) g1 obtain g2 where "nodesUpdateState (dbNow env) i NodeStateStale (transitionReasonForWake w) None g1 = Inr g2"
      and "node_rows g' = node_rows g2" "next_id g' = next_id g2"
      by (auto simp: resumeParkedRunInTx_def res_bind_Inr_iff)
    with nodesUpdateState_inv inv run_inv_cong show ?thesis by blast
  qed (use assms(1) g1 inv in \<open>simp add: resumeParkedRunInTx_def\<close>)
qed

lemma WakeParkedNode_inv: "WakeParkedNode env i target w g = Inr g' \<Longrightarrow> run_inv g \<Longrightarrow> run_inv g'"
  by (auto simp: WakeParkedNode_def wakeParkedNode_def Let_def res_bind_Inr_iff dest: resumeParkedRunInTx_inv
      split: if_splits option.splits)

lemma SweepParkedNodes_inv:
  assumes "run_inv g"
  shows "run_inv (SweepParkedNodes env now limit g)"
proof -
  have sweep: "run_inv (fold (\<lambda>r g. case WakeParkedNode env (NodeRunID r) (NodeID r) WakeDeadlineElapsed g of Inl _ \<Rightarrow> g | Inr g' \<Rightarrow> g') rs g)"
    if "run_inv g" for rs :: "NodeRunRow list" and g
    using that by (induction rs arbitrary: g) (auto split: sum.split dest: WakeParkedNode_inv)
  show ?thesis unfolding SweepParkedNodes_def using assms sweep [OF assms] by simp
qed

lemma WriteScratch_inv: "WriteScratch env i inl h bk g = Inr g' \<Longrightarrow> run_inv g \<Longrightarrow> run_inv g'"
  by (auto simp: WriteScratch_def Let_def run_inv_cong [OF enroll_rows(1,2)] identity_simps
      intro!: updateRuns_shrink split: if_splits option.splits)

lemmas shrinking_statements =
  PromoteClaimedToRunning_def Complete_def ForceComplete_def RemoveForNode_def ForceRemoveForNode_def ReleaseClaim_def
  ForceReleaseClaim_def ReleaseClaimWithDisposition_def StampPriorDispatch_def RegisterAsyncAck_def BumpLastProgressAt_def
  ParkActive_def ResumeParked_def UpdateRunEvaluatorState_def TransitionPendingToStale_def SetRunRequiredClaimProducers_def
  ResetFailedTerminalSettlingSignalType_def updateMatched_def Let_def identity_simps

lemma queue_step_inv: "queue_step g g' \<Longrightarrow> run_inv g \<Longrightarrow> run_inv g'"
proof (induction rule: queue_step.induct)
  case (step_Enqueue env req g g')
  then show ?case by (auto simp: Enqueue_def res_bind_Inr_iff dest: insertStale_inv split: if_splits)
next
  case (step_CreateNonCascadeStale env inp g i g')
  then show ?case by (auto simp: CreateNonCascadeStale_def dest: insertStale_inv split: if_splits option.splits)
next
  case (step_DeletePriorCascadeStales g env node scope sq)
  then show ?case by (simp add: DeletePriorCascadeStales_def deleteRuns_inv)
next
  case (step_DropPendingRun env i g g')
  then show ?case by (auto simp: DropPendingRun_def Let_def deleteRuns_inv split: if_splits)
next
  case (step_CreateCascadePending env node scope frame g i g')
  then show ?case by (rule CreateCascadePending_inv)
next
  case (step_ClaimDispatchRow env i s g b g')
  then show ?case by (rule ClaimDispatchRow_inv)
next
  case (step_WriteScratch env i inl h bk g g')
  then show ?case by (rule WriteScratch_inv)
next
  case (step_UpdateState now i st rs sig g g')
  then show ?case by (rule nodesUpdateState_inv)
next
  case (step_WakeParkedNode env i target w g g')
  then show ?case by (rule WakeParkedNode_inv)
next
  case (step_SweepParkedNodes g env now limit)
  then show ?case by (rule SweepParkedNodes_inv)
qed (auto simp: shrinking_statements intro!: updateRuns_shrink split: if_splits option.splits sum.splits)

subsection \<open>Mutual exclusion\<close>

lemma queue_steps_inv: "queue_step\<^sup>*\<^sup>* g g' \<Longrightarrow> run_inv g \<Longrightarrow> run_inv g'"
  by (induction rule: rtranclp_induct) (auto intro: queue_step_inv)

lemma run_inv_empty: "node_rows g = [] \<Longrightarrow> run_inv g"
  by (simp add: run_inv_def keyed_def serialized_def sequenced_def)

lemma run_inv_exclusive:
  assumes "run_inv g" and "r \<in> set (node_rows g)" "x \<in> set (node_rows g)"
    and "NodeID r = NodeID x" "RunScopeID r = RunScopeID x" "occupies r" "occupies x"
  shows "r = x"
proof (cases "NodeRunID r = NodeRunID x")
  case True
  with row_of_Some_iff [OF run_invD(1) [OF assms(1)], of "NodeRunID x"] assms(2,3)
  have "Some r = Some x" by metis
  then show ?thesis by simp
next
  case False
  then have "siblings r x" using assms(4,5) by (simp add: siblings_def)
  with run_invD(2) [OF assms(1)] assms(2,3,6,7) show ?thesis unfolding serialized_def by blast
qed

text \<open>C14: however the statements of several supervisors interleave, starting from an empty run table, two runs of one node in
  one run scope are never claimed, held or parked at the same time.\<close>

theorem dispatch_mutual_exclusion:
  assumes "queue_step\<^sup>*\<^sup>* g0 g" and "node_rows g0 = []"
    and "r \<in> set (node_rows g)" and "x \<in> set (node_rows g)"
    and "NodeID r = NodeID x" and "RunScopeID r = RunScopeID x"
    and "claimed_by r \<noteq> None \<or> State r \<in> {NodeStateHeld, NodeStateParked}"
    and "claimed_by x \<noteq> None \<or> State x \<in> {NodeStateHeld, NodeStateParked}"
  shows "r = x"
  using run_inv_exclusive [OF queue_steps_inv [OF assms(1) run_inv_empty [OF assms(2)]] assms(3-6)] assms(7,8)
  by (auto simp: occupies_def)

definition exampleQueue :: "unit Graph" where
  "exampleQueue = (case CreateCascadePending exampleEnv 7 3 4 (exampleGraph []) of Inl _ \<Rightarrow> exampleGraph [] | Inr (i, g) \<Rightarrow>
     (case TransitionPendingToStale i 5 g of Inl _ \<Rightarrow> g | Inr g' \<Rightarrow> snd (ClaimDispatchRow exampleEnv i ''sup1'' g')))"

lemma exampleQueue_reached: "queue_step\<^sup>*\<^sup>* (exampleGraph []) exampleQueue"
proof (cases "CreateCascadePending exampleEnv 7 3 4 (exampleGraph [])")
  case (Inr a)
  obtain i g where a: "a = (i, g)" by fastforce
  with Inr have one: "queue_step (exampleGraph []) g" by (auto intro: step_CreateCascadePending)
  show ?thesis
  proof (cases "TransitionPendingToStale i 5 g")
    case (Inr g')
    then have "queue_step g g'" by (rule step_TransitionPendingToStale)
    moreover have "queue_step g' (snd (ClaimDispatchRow exampleEnv i ''sup1'' g'))"
      by (rule step_ClaimDispatchRow [OF surjective_pairing])
    ultimately show ?thesis using one \<open>_ = Inr a\<close> a Inr by (simp add: exampleQueue_def)
  qed (use one Inr a in \<open>simp add: exampleQueue_def\<close>)
qed (simp add: exampleQueue_def)

lemma exampleQueue_rows:
  "map (\<lambda>r. (NodeRunID r, NodeID r, RunScopeID r, State r, claimed_by r)) (node_rows exampleQueue) =
     [(10, 7, 3, NodeStateStale, Some ''sup1'')]"
  by code_simp

theorem dispatch_mutual_exclusion_witness:
  "claimed_by (hd (node_rows exampleQueue)) = Some ''sup1'' \<and> hd (node_rows exampleQueue) = last (node_rows exampleQueue)"
proof -
  obtain r where rows: "node_rows exampleQueue = [r]" and r: "claimed_by r = Some ''sup1''"
    using exampleQueue_rows by auto
  have "hd (node_rows exampleQueue) = last (node_rows exampleQueue)"
    by (rule dispatch_mutual_exclusion [OF exampleQueue_reached]) (use rows r in \<open>simp_all add: exampleGraph_def\<close>)
  with rows r show ?thesis by simp
qed

subsection \<open>Claiming a candidate\<close>

lemma candidate_row:
  assumes "d \<in> set (SelectCandidates env req g)"
  shows "d \<in> set (node_rows g)" and "dispatchable env g d"
  using assms by (auto simp: SelectCandidates_def dest: in_set_takeD)

lemma updateRuns_none: "\<forall>r \<in> set (node_rows g). \<not> p r \<Longrightarrow> updateRuns p f g = g"
  by (simp add: updateRuns_def update_where_none withRows_def)

lemma affected_one:
  assumes "keyed NodeRunID rows" and "r \<in> set rows" and "p r" and "\<And>x. p x \<Longrightarrow> NodeRunID x = NodeRunID r"
  shows "affected p rows = 1"
proof -
  have "filter p rows = filter (\<lambda>x. NodeRunID x = NodeRunID r) rows"
    using assms row_of_Some_iff [OF assms(1), of "NodeRunID r"] by (intro filter_cong refl) (metis option.inject)
  moreover have "length (filter (\<lambda>x. NodeRunID x = NodeRunID r) rows) = 1"
    using assms(1,2) by (induction rows) (auto simp: keyed_def filter_empty_conv image_iff)
  ultimately show ?thesis by (simp add: affected_def)
qed

text \<open>No run of the node in the run scope can be claimed while another supervisor has the gate.\<close>

lemma claim_refused:
  assumes "run_inv g" and "r \<in> set (node_rows g)" and "claimed_by r = Some s" and "s' \<noteq> s"
    and "x \<in> set (node_rows g)" and "NodeID x = NodeID r" and "RunScopeID x = RunScopeID r"
  shows "ClaimDispatchRow env (NodeRunID x) s' g = (False, g)"
proof -
  let ?p = "\<lambda>y. NodeRunID y = NodeRunID x \<and> (claimed_by y = None \<or> claimed_by y = Some s') \<and> State y = NodeStateStale \<and>
         \<not> occupiedByOther y (node_rows g)"
  have "\<not> ?p y" if "y \<in> set (node_rows g)" for y
  proof
    assume p: "?p y"
    then have "y = x" using that assms(5) row_of_Some_iff [OF run_invD(1) [OF assms(1)], of "NodeRunID x"] by (metis option.inject)
    moreover from this p assms(3,4) have "NodeRunID r \<noteq> NodeRunID x"
      using assms(2,5) row_of_Some_iff [OF run_invD(1) [OF assms(1)], of "NodeRunID x"] by (metis option.discI option.inject)
    ultimately show False using p assms(2,3,6,7) by (auto simp: occupiedByOther_def list_ex_iff siblings_def occupies_def)
  qed
  then have none: "\<forall>y \<in> set (node_rows g). \<not> ?p y" by blast
  then have "affected ?p (node_rows g) = 0" unfolding affected_0_iff .
  then show ?thesis
    unfolding ClaimDispatchRow_def updateMatched_def updateRuns_none [OF none] by (simp only: zero_neq_one)
qed

text \<open>C15: a supervisor that claims a selected candidate gets it, and from then on no other supervisor can claim that run or
  another run of its node in the run scope.\<close>

theorem candidate_claim_is_exclusive:
  assumes "run_inv g" and "d \<in> set (SelectCandidates env req g)"
  shows "\<exists>g'. ClaimDispatchRow env (NodeRunID d) s g = (True, g') \<and> GetClaimedBy g' (NodeRunID d) = ClaimedBy s \<and>
    (\<forall>x \<in> set (node_rows g'). \<forall>env' s'. NodeID x = NodeID d \<and> RunScopeID x = RunScopeID d \<and> s' \<noteq> s \<longrightarrow>
      ClaimDispatchRow env' (NodeRunID x) s' g' = (False, g'))"
proof -
  note d = candidate_row [OF assms(2)]
  let ?p = "\<lambda>x. NodeRunID x = NodeRunID d \<and> (claimed_by x = None \<or> claimed_by x = Some s) \<and> State x = NodeStateStale \<and>
         \<not> occupiedByOther x (node_rows g)"
  let ?f = "\<lambda>x. x\<lparr>claimed_by := Some s, claimed_at := Some (dbNow env), progress_at := Some (dbNow env)\<rparr>"
  let ?g = "updateRuns ?p ?f g"
  have pd: "?p d" using d(2) by (simp add: dispatchable_def)
  have claim: "ClaimDispatchRow env (NodeRunID d) s g = (True, ?g)"
    unfolding ClaimDispatchRow_def updateMatched_def using affected_one [OF run_invD(1) [OF assms(1)] d(1), of ?p] pd by simp
  have inv: "run_inv ?g" by (rule ClaimDispatchRow_inv [OF claim assms(1)])
  have row: "?f d \<in> set (node_rows ?g)" using d(1) pd by (force simp: set_update_where)
  have "row_of NodeRunID (NodeRunID d) (node_rows ?g) = Some (?f d)"
    using row_of_Some_iff [OF run_invD(1) [OF inv], of "NodeRunID d" "?f d"] row by simp
  then have "GetClaimedBy ?g (NodeRunID d) = ClaimedBy s" by (simp add: GetClaimedBy_def runGetByID_def ownershipOf_def)
  moreover have "ClaimDispatchRow env' (NodeRunID x) s' ?g = (False, ?g)"
    if "x \<in> set (node_rows ?g)" "NodeID x = NodeID d" "RunScopeID x = RunScopeID d" "s' \<noteq> s" for x env' s'
    by (rule claim_refused [OF inv row _ that(4,1)]) (use that(2,3) in simp_all)
  ultimately show ?thesis using claim by blast
qed

definition exampleRun :: "UUID \<Rightarrow> time \<Rightarrow> int \<Rightarrow> NodeRunRow" where
  "exampleRun i at n = (baseRow i 7 3 4 NodeStateStale CreationReasonCascade at (exampleGraph []))\<lparr>executor_name := Some ''py'', sequence := n\<rparr>"

definition exampleRuns :: "unit Graph" where
  "exampleRuns = exampleGraph [exampleRun 1 4 1, exampleRun 2 3 2, exampleRun 3 4 3]"

definition firstPage :: "SelectCandidatesRequest" where
  "firstPage = \<lparr>selLimit = 2, CursorEnqueuedAfter = 0, CursorAfterNodeRunID = 0\<rparr>"

lemma exampleRuns_inv: "run_inv exampleRuns"
  by (simp add: run_inv_def keyed_def serialized_def sequenced_def exampleRuns_def exampleGraph_def exampleRun_def baseRow_def
      siblings_def occupies_def)

lemma exampleRuns_page: "SelectCandidates exampleEnv firstPage exampleRuns = [exampleRun 2 3 2, exampleRun 1 4 1]"
  by code_simp

theorem candidate_claim_is_exclusive_witness:
  "\<exists>g'. ClaimDispatchRow exampleEnv 2 ''sup1'' exampleRuns = (True, g') \<and> GetClaimedBy g' 2 = ClaimedBy ''sup1''"
proof -
  have "exampleRun 2 3 2 \<in> set (SelectCandidates exampleEnv firstPage exampleRuns)" by (simp add: exampleRuns_page)
  from candidate_claim_is_exclusive [OF exampleRuns_inv this, of "''sup1''"] show ?thesis
    by (auto simp: exampleRun_def baseRow_def)
qed

subsection \<open>Pages of candidates\<close>

text \<open>Sorting by one key after another sorts by the pair of keys.\<close>

lemma sorted_by_pair:
  assumes "sorted (map f ys)" and "\<forall>k. sorted (map h (filter (\<lambda>y. f y = k) ys))"
  shows "sorted_wrt (\<lambda>x y. f x < f y \<or> f x = f y \<and> h x \<le> h y) ys"
  using assms
proof (induction ys)
  case (Cons x ys)
  have "\<forall>k. sorted (map h (filter (\<lambda>y. f y = k) ys))"
  proof
    fix k show "sorted (map h (filter (\<lambda>y. f y = k) ys))" using spec [OF Cons.prems(2), of k] by (cases "f x = k") simp_all
  qed
  moreover have "f x < f y \<or> f x = f y \<and> h x \<le> h y" if "y \<in> set ys" for y
  proof (cases "f y = f x")
    case True
    with spec [OF Cons.prems(2), of "f x"] that show ?thesis by simp
  next
    case False
    moreover from Cons.prems(1) that have "f x \<le> f y" by simp
    ultimately show ?thesis by simp
  qed
  ultimately show ?case using Cons.IH Cons.prems(1) by simp
qed simp

lemma sort_key_twice:
  "sorted_wrt (\<lambda>x y. f x < f y \<or> f x = f y \<and> h x \<le> h y) (sort_key f (sort_key h xs))"
  by (rule sorted_by_pair) (simp_all add: sort_key_stable sorted_filter)

definition precedes :: "NodeRunRow \<Rightarrow> NodeRunRow \<Rightarrow> bool" where
  "precedes d x \<longleftrightarrow> \<not> (enqueued_at x < enqueued_at d \<or> enqueued_at x = enqueued_at d \<and> NodeRunID x \<le> NodeRunID d)"

lemma precedes_trans: "precedes a b \<Longrightarrow> precedes b c \<Longrightarrow> precedes a c"
  by (auto simp: precedes_def)

lemma candidates_sorted:
  assumes "keyed NodeRunID rows"
  shows "sorted_wrt precedes (filter q (sort_key enqueued_at (sort_key NodeRunID (filter p rows))))" (is "sorted_wrt _ (filter q ?xs)")
proof -
  have "distinct (map NodeRunID (filter p rows))" using assms by (simp add: keyed_def distinct_map_filter)
  then have "distinct (map NodeRunID ?xs)" by (simp add: distinct_map)
  moreover have "sorted_wrt precedes ys"
    if "sorted_wrt (\<lambda>x y. enqueued_at x < enqueued_at y \<or> enqueued_at x = enqueued_at y \<and> NodeRunID x \<le> NodeRunID y) ys"
      "distinct (map NodeRunID ys)" for ys
    using that
  proof (induction ys)
    case (Cons x ys)
    have "precedes x y" if "y \<in> set ys" for y
    proof -
      have "NodeRunID x \<noteq> NodeRunID y" using Cons.prems(2) that by auto
      moreover have "enqueued_at x < enqueued_at y \<or> enqueued_at x = enqueued_at y \<and> NodeRunID x \<le> NodeRunID y"
        using Cons.prems(1) that by simp
      ultimately show ?thesis by (auto simp: precedes_def)
    qed
    with Cons show ?case by simp
  qed simp
  ultimately show ?thesis using sort_key_twice by (blast intro: sorted_wrt_filter)
qed

lemma filter_after_last:
  assumes "sorted_wrt precedes xs" and "take n xs \<noteq> []"
  shows "filter (precedes (last (take n xs))) xs = drop n xs"
proof -
  let ?d = "last (take n xs)"
  have parts: "butlast (take n xs) @ ?d # drop n xs = xs"
    using append_butlast_last_id [OF assms(2)] append_take_drop_id [of n xs]
    by (metis append.assoc append_Cons append_Nil)
  have "sorted_wrt precedes (butlast (take n xs) @ ?d # drop n xs)"
    using assms(1) parts by simp
  then have "\<forall>x \<in> set (drop n xs). precedes ?d x" "\<forall>x \<in> set (butlast (take n xs)). precedes x ?d"
    by (simp_all add: sorted_wrt_append)
  moreover have "\<not> precedes ?d ?d" "precedes x ?d \<Longrightarrow> \<not> precedes ?d x" for x by (auto simp: precedes_def)
  ultimately have "filter (precedes ?d) (butlast (take n xs) @ ?d # drop n xs) = drop n xs"
    by (simp add: filter_empty_conv)
  with parts show ?thesis by simp
qed

text \<open>C16: the cursor neither skips nor repeats a candidate: the page after the last row of a page, appended to that page, is one page
  of twice the limit.\<close>

theorem candidate_pages_are_contiguous:
  assumes "run_inv g" and "0 < selLimit req" and "page = SelectCandidates env req g" and "page \<noteq> []"
    and "enqueued_at (last page) \<noteq> 0"
  shows "page @ SelectCandidates env (req\<lparr>CursorEnqueuedAfter := enqueued_at (last page), CursorAfterNodeRunID := NodeRunID (last page)\<rparr>) g =
    SelectCandidates env (req\<lparr>selLimit := 2 * selLimit req\<rparr>) g"
proof -
  let ?xs = "sort_key enqueued_at (sort_key NodeRunID (filter (dispatchable env g) (node_rows g)))"
  let ?F = "filter (\<lambda>d. hasWork d \<and> afterCursor req d) ?xs"
  let ?n = "nat (selLimit req)"
  let ?next = "req\<lparr>CursorEnqueuedAfter := enqueued_at (last page), CursorAfterNodeRunID := NodeRunID (last page)\<rparr>"
  have page: "page = take ?n ?F" using assms(2,3) by (simp add: SelectCandidates_def)
  then have "last page \<in> set ?F" using assms(4) by (metis in_set_takeD last_in_set)
  then have after: "afterCursor req (last page)" by simp
  have cursor: "afterCursor ?next x = precedes (last page) x" for x using assms(5) by (simp add: afterCursor_def precedes_def)
  have "(hasWork x \<and> precedes (last page) x) = (precedes (last page) x \<and> hasWork x \<and> afterCursor req x)" for x
    using after by (auto simp: afterCursor_def precedes_def)
  then have "filter (\<lambda>d. hasWork d \<and> afterCursor ?next d) ?xs = filter (precedes (last page)) ?F"
    unfolding cursor filter_filter by (intro filter_cong refl) blast
  also have "\<dots> = drop ?n ?F"
    unfolding page by (rule filter_after_last [OF candidates_sorted [OF run_invD(1) [OF assms(1)]]]) (use assms(4) page in simp)
  finally have "SelectCandidates env ?next g = take ?n (drop ?n ?F)" using assms(2) by (simp add: SelectCandidates_def)
  moreover have "nat (2 * selLimit req) = ?n + ?n" using assms(2) by simp
  then have "SelectCandidates env (req\<lparr>selLimit := 2 * selLimit req\<rparr>) g = take (?n + ?n) ?F"
    using assms(2) by (simp add: SelectCandidates_def afterCursor_def)
  ultimately show ?thesis using page by (simp add: take_add)
qed

theorem candidate_pages_are_contiguous_witness:
  "SelectCandidates exampleEnv firstPage exampleRuns @
     SelectCandidates exampleEnv (firstPage\<lparr>CursorEnqueuedAfter := 4, CursorAfterNodeRunID := 1\<rparr>) exampleRuns =
   SelectCandidates exampleEnv (firstPage\<lparr>selLimit := 4\<rparr>) exampleRuns"
  using candidate_pages_are_contiguous [OF exampleRuns_inv, of firstPage "[exampleRun 2 3 2, exampleRun 1 4 1]" exampleEnv]
  by (simp add: exampleRuns_page) (simp add: firstPage_def exampleRun_def baseRow_def)

end
