(* ===== verification/Wait_Set.thy ===== *)
theory Wait_Set
  imports Dispatch_Queue
begin

text \<open>
  The wait set (\<open>lib/foundation/persistence/sqlite/wait_set.go\<close>): a row says that a receiver run waits for a sender run
  of the same frame, until the sender settles and the row is drained. The primary key is frame, receiver, sender and topic
  kind; the runs and the frame are foreign keys.
\<close>

definition sameWait :: "WaitSetRow \<Rightarrow> WaitSetRow \<Rightarrow> bool" where
  "sameWait w x \<longleftrightarrow> wsFrameID x = wsFrameID w \<and> wsReceiver x = wsReceiver w \<and> wsSender x = wsSender w \<and> wsTopicKind x = wsTopicKind w"

text \<open>\<open>ON CONFLICT DO NOTHING\<close>; a row that is inserted must satisfy the foreign keys.\<close>

definition waitSetInsert :: "WaitSetRow \<Rightarrow> 'b Graph \<Rightarrow> settle_error + 'b Graph" where
  "waitSetInsert w g =
     (if list_ex (sameWait w) (wait_set g) then Inr g
      else if \<not> frameExists g (wsFrameID w) \<or> runGetByID (runs g) (wsReceiver w) = None \<or> runGetByID (runs g) (wsSender w) = None
        then Inl ForeignKeyFailed
      else Inr (g\<lparr>wait_set := wait_set g @ [w\<lparr>wsDrainedAt := None\<rparr>]\<rparr>))"

definition MarkDrainedBySender :: "'b Env \<Rightarrow> UUID \<Rightarrow> UUID \<Rightarrow> 'b Graph \<Rightarrow> 'b Graph" where
  "MarkDrainedBySender env frame sender g =
     g\<lparr>wait_set := update_where (\<lambda>w. wsFrameID w = frame \<and> wsSender w = sender \<and> wsDrainedAt w = None)
        (\<lambda>w. w\<lparr>wsDrainedAt := Some (dbNow env)\<rparr>) (wait_set g)\<rparr>"

definition ListForReceiver :: "'b Graph \<Rightarrow> UUID \<Rightarrow> UUID \<Rightarrow> WaitSetRow list" where
  "ListForReceiver g frame receiver = filter (\<lambda>w. wsFrameID w = frame \<and> wsReceiver w = receiver) (wait_set g)"

definition ListForFrame :: "'b Graph \<Rightarrow> UUID \<Rightarrow> WaitSetRow list" where
  "ListForFrame g frame = filter (\<lambda>w. wsFrameID w = frame) (wait_set g)"

definition ListSenderNodesForReceiver :: "'b Graph \<Rightarrow> UUID \<Rightarrow> UUID \<Rightarrow> UUID list" where
  "ListSenderNodesForReceiver g frame receiver =
     remdups (concat (map (\<lambda>w. case runGetByID (runs g) (wsSender w) of None \<Rightarrow> [] | Some r \<Rightarrow> [NodeID r]) (ListForReceiver g frame receiver)))"

definition HasRowForSenderRun :: "'b Graph \<Rightarrow> UUID \<Rightarrow> UUID \<Rightarrow> UUID \<Rightarrow> bool" where
  "HasRowForSenderRun g frame receiver sender = list_ex (\<lambda>w. wsSender w = sender) (ListForReceiver g frame receiver)"

definition ListPendingReceiversForDrainedSender :: "'b Graph \<Rightarrow> UUID \<Rightarrow> UUID \<Rightarrow> UUID list" where
  "ListPendingReceiversForDrainedSender g frame sender =
     remdups (map wsReceiver (filter (\<lambda>w. wsFrameID w = frame \<and> wsSender w = sender \<and>
       (case runGetByID (runs g) (wsReceiver w) of
          None \<Rightarrow> False
        | Some r \<Rightarrow> State r = NodeStatePending \<and> creation_reason r = CreationReasonCascade)) (wait_set g)))"

definition HasUndrainedRowsForReceiver :: "'b Graph \<Rightarrow> UUID \<Rightarrow> UUID \<Rightarrow> bool" where
  "HasUndrainedRowsForReceiver g frame receiver = undrainedFor g frame receiver"

end
