(* ===== verification/Attribute_Resolution.thy ===== *)
theory Attribute_Resolution
  imports Wait_Set Attribute_Schema_Checks
begin

text \<open>
  The attribute bag of a run at gate evaluation: the edges of a template (\<open>lib/runtime/subscription_loaders.go\<close>), the attribute
  documents of the senders a run depends on (\<open>lib/runtime/substitution_context.go\<close>), and the substitution of a
  schema's sources (\<open>lib/runtime/runner_dispatch.go\<close>). The caches by template hash are left out: a template
  does not change under its hash. Go ranges over maps in an unspecified order; the model goes through them in list order, which only decides which of several
  errors is returned.
\<close>

subsection \<open>Loaders\<close>

definition codecOf :: "'b Env \<Rightarrow> JsonCodec" where
  "codecOf env = codec (libraries (lib env))"

definition ListByInstance :: "'b Env \<Rightarrow> UUID \<Rightarrow> NodeRow list" where
  "ListByInstance env inst = filter (\<lambda>n. nr_instance_id n = inst) (nodes env)"

definition subscriptionEdgesForTemplate :: "'b Env \<Rightarrow> string \<Rightarrow> settle_error + SubscriptionEdgeMap" where
  "subscriptionEdgesForTemplate env hash =
     (case templatesGetByHash env hash of
        None \<Rightarrow> Inl (TemplateNotFound hash)
      | Some t \<Rightarrow> (case BuildSubscriptionEdges (libraries (lib env)) t (ExtractMessageRefsFromTemplate t) of
            Inl e \<Rightarrow> Inl (EdgesFailed e)
          | Inr em \<Rightarrow> Inr em))"

definition declaredMessageTypesForTemplate :: "'b Env \<Rightarrow> string \<Rightarrow> string list option" where
  "declaredMessageTypesForTemplate env hash =
     (if hash = [] then None
      else case templatesGetByHash env hash of None \<Rightarrow> None | Some t \<Rightarrow> Some (map msgType (Messages t) @ [[]]))"

definition hardDepEdgesForTemplate :: "'b Env \<Rightarrow> string \<Rightarrow> settle_error + adjacency" where
  "hardDepEdgesForTemplate env hash =
     (case templatesGetByHash env hash of
        None \<Rightarrow> Inl (TemplateNotFound hash)
      | Some t \<Rightarrow> (case BuildHardDepEdges t of Inl e \<Rightarrow> Inl (HardDepsFailed e) | Inr em \<Rightarrow> Inr em))"

text \<open>\<open>loadTemplateSpec\<close> with the result type of this theory.\<close>

definition templateSpecOf :: "'b Env \<Rightarrow> UUID \<Rightarrow> settle_error + TemplateSpec" where
  "templateSpecOf env inst =
     (case loadTemplateSpec env inst of OutOfFuel \<Rightarrow> Inl CascadeUnfinished | Fail e \<Rightarrow> Inl e | Done t \<Rightarrow> Inr t)"

definition templateAttributeDefaultsFor :: "TemplateSpec \<Rightarrow> string \<Rightarrow> jmap" where
  "templateAttributeDefaultsFor t exec =
     (case Option.bind (Defaults t) defaultAttributes of
        None \<Rightarrow> []
      | Some a \<Rightarrow> (case map_of (ByExecutor a) exec of None \<Rightarrow> [] | Some m \<Rightarrow> m))"

subsection \<open>Dependencies\<close>

abbreviation liftAttrRead :: "attr_error + 'a \<Rightarrow> settle_error + 'a" where
  "liftAttrRead r \<equiv> (case r of Inl e \<Rightarrow> Inl (AttrError e) | Inr a \<Rightarrow> Inr a)"

definition bagOfRun :: "'b Env \<Rightarrow> 'b Graph \<Rightarrow> UUID \<Rightarrow> settle_error + NodeAttributesRow option" where
  "bagOfRun env g run = liftAttrRead (GetByRun (attrConfig env) (attrs g) run)"

definition senderAttrsRaw :: "'b Env \<Rightarrow> 'b Graph \<Rightarrow> UUID \<Rightarrow> settle_error + string" where
  "senderAttrsRaw env g run =
     res_bind (bagOfRun env g run) (\<lambda>row. Inr (case row of
        None \<Rightarrow> ''{}''
      | Some a \<Rightarrow> Marshal (codecOf env) (VObj (narData a))))"

text \<open>The loop over the wait-set rows; the state is the runs seen and, by node, the pinned run with its sequence.\<close>

fun pinLoop :: "'b Graph \<Rightarrow> UUID list \<Rightarrow> (UUID \<times> UUID \<times> int) list \<Rightarrow> WaitSetRow list \<Rightarrow> (UUID \<times> UUID \<times> int) list" where
  "pinLoop g seen pinned [] = pinned"
| "pinLoop g seen pinned (w # ws) =
     (if wsSender w \<in> set seen then pinLoop g seen pinned ws
      else case GetRunForGate g (wsSender w) of
        None \<Rightarrow> pinLoop g (wsSender w # seen) pinned ws
      | Some r \<Rightarrow>
          pinLoop g (wsSender w # seen)
            (case map_of pinned (NodeID r) of
               None \<Rightarrow> AList.update (NodeID r) (wsSender w, sequence r) pinned
             | Some (run, cur) \<Rightarrow>
                 if sequence r > cur then AList.update (NodeID r) (wsSender w, sequence r) pinned else pinned) ws)"

definition pinnedSenderRunsForReceiver :: "'b Graph \<Rightarrow> UUID \<Rightarrow> UUID \<Rightarrow> (UUID \<times> UUID) list" where
  "pinnedSenderRunsForReceiver g frame receiver =
     map (\<lambda>(n, run, sq). (n, run)) (pinLoop g [] [] (ListForReceiver g frame receiver))"

type_synonym deps = "(string \<times> string) list"

definition populateEntryAliasDepsViaCallingNode ::
  "'b Env \<Rightarrow> 'b Graph \<Rightarrow> NodeRunRow \<Rightarrow> SubscriptionEdgeMap \<Rightarrow> string \<Rightarrow> deps \<Rightarrow> settle_error + deps" where
  "populateEntryAliasDepsViaCallingNode env g rec em receiverNodeType out =
     (let aliasSenders = CallingNodeSenderTypesForReceiver em receiverNodeType in
      if aliasSenders = [] then Inr out
      else case Option.bind (scopeGetByID (runs g) (RunScopeID rec)) ParentNodeRunID of
        None \<Rightarrow> Inr out
      | Some parent \<Rightarrow> (case runGetByID (runs g) parent of
            None \<Rightarrow> Inr out
          | Some caller \<Rightarrow>
              res_foldM (\<lambda>alias out. res_bind (senderAttrsRaw env g (NodeRunID caller)) (\<lambda>raw. Inr (AList.update alias raw out)))
                aliasSenders out))"

text \<open>One iteration of the loop over the nodes of the instance.\<close>

definition senderDep ::
  "'b Env \<Rightarrow> 'b Graph \<Rightarrow> NodeRunRow \<Rightarrow> string list \<Rightarrow> (UUID \<times> UUID) list \<Rightarrow> NodeRow \<Rightarrow> deps \<Rightarrow> settle_error + deps" where
  "senderDep env g rec senderTypes pinned n out =
     (if nr_id n = NodeID rec \<or> nr_node_type n \<notin> set senderTypes then Inr out
      else case (case map_of pinned (nr_id n) of
            Some run \<Rightarrow> Some run
          | None \<Rightarrow> map_option NodeRunID (GetMostRecentSettledRun g (nr_id n) (RunScopeID rec) None)) of
        None \<Rightarrow> Inr out
      | Some run \<Rightarrow> res_bind (senderAttrsRaw env g run) (\<lambda>raw. Inr (AList.update (nr_node_type n) raw out)))"

definition populateSubscribedSenderDeps :: "'b Env \<Rightarrow> 'b Graph \<Rightarrow> UUID \<Rightarrow> deps \<Rightarrow> settle_error + deps" where
  "populateSubscribedSenderDeps env g receiverRun out =
     (case GetRunForGate g receiverRun of
        None \<Rightarrow> Inr out
      | Some rec \<Rightarrow> (case nodesGet env (NodeID rec) of
            None \<Rightarrow> Inr out
          | Some node \<Rightarrow> (case instancesGet env (nr_instance_id node) of
                None \<Rightarrow> Inr out
              | Some inst \<Rightarrow>
                  res_bind (subscriptionEdgesForTemplate env (in_template_hash inst)) (\<lambda>em.
                  let senderTypes = SenderNodeTypesForReceiver em (nr_node_type node) in
                  if senderTypes = [] then Inr out
                  else res_bind (populateEntryAliasDepsViaCallingNode env g rec em (nr_node_type node) out) (\<lambda>out1.
                    res_foldM (senderDep env g rec senderTypes (pinnedSenderRunsForReceiver g (FrameID rec) receiverRun))
                      (ListByInstance env (nr_instance_id node)) out1)))))"

definition addMessageDep :: "string \<times> string \<Rightarrow> deps \<Rightarrow> deps" where
  "addMessageDep m out =
     (case m of (typ, body) \<Rightarrow>
        if typ = [] \<or> map_of out typ \<noteq> None then out
        else AList.update typ (if body = [] then ''{}'' else body) out)"

definition BuildAttributeDeps :: "'b Env \<Rightarrow> 'b Graph \<Rightarrow> UUID \<Rightarrow> UUID \<Rightarrow> settle_error + deps" where
  "BuildAttributeDeps env g receiverRun frame =
     res_bind (if receiverRun \<noteq> zero_uuid then populateSubscribedSenderDeps env g receiverRun [] else Inr []) (\<lambda>out.
       Inr (fold addMessageDep (deliveredMessages (lib env) frame) out))"

subsection \<open>Substitution of a schema\<close>

definition sourceReferencesLateBound :: "string \<Rightarrow> bool" where
  "sourceReferencesLateBound source \<longleftrightarrow> Contains source ''claim.'' \<or> Contains source ''child.''"

fun firstConcreteSchemaType :: "jvalue option \<Rightarrow> string" where
  "firstConcreteSchemaType (Some (VStr t)) = t"
| "firstConcreteSchemaType (Some (VArr items)) =
     (case List.find (\<lambda>v. case v of VStr s \<Rightarrow> s \<noteq> ''null'' | _ \<Rightarrow> False) items of Some (VStr s) \<Rightarrow> s | _ \<Rightarrow> [])"
| "firstConcreteSchemaType _ = []"

definition emptyValueForSchemaType :: "string \<Rightarrow> jvalue" where
  "emptyValueForSchemaType t =
     (if t = ''number'' \<or> t = ''integer'' then VNum ''0''
      else if t = ''boolean'' then VBool False
      else if t = ''array'' then VArr []
      else if t = ''object'' then VObj []
      else VStr [])"

definition emptyValueForSchemaProperty :: "jmap \<Rightarrow> jvalue" where
  "emptyValueForSchemaProperty prop = emptyValueForSchemaType (firstConcreteSchemaType (map_of prop ''type''))"

fun asString :: "jvalue \<Rightarrow> string" where
  "asString (VStr s) = s"
| "asString _ = []"

text \<open>The body of the loop over the properties; an error names the property.\<close>

definition substituteProperty ::
  "JsonCodec \<Rightarrow> ResolveContext \<Rightarrow> bool \<Rightarrow> string \<times> jvalue \<Rightarrow> jmap \<Rightarrow> (string \<times> resolve_error) + jmap" where
  "substituteProperty jc rctx deferClaimRefs np out =
     (case np of (name, propAny) \<Rightarrow> (case asMap propAny of
        None \<Rightarrow> Inr out
      | Some prop \<Rightarrow> (case map_of prop ''source'' of
            Some srcRaw \<Rightarrow>
              (let source = asString srcRaw in
               if source = [] then Inr out
               else case SubstituteValue jc source rctx of
                 Inl e \<Rightarrow> if deferClaimRefs \<and> IsMissingSource e \<and> sourceReferencesLateBound source then Inr out else Inl (name, e)
               | Inr val \<Rightarrow> Inr (AList.update name (if val = VNull then emptyValueForSchemaProperty prop else val) out))
          | None \<Rightarrow> (case map_of prop ''default'' of
                None \<Rightarrow> Inr out
              | Some d \<Rightarrow> Inr (if map_of out name = None then AList.update name d out else out)))))"

definition substituteAttributesSchemaWith ::
  "JsonCodec \<Rightarrow> jmap option \<Rightarrow> ResolveContext \<Rightarrow> jmap \<Rightarrow> bool \<Rightarrow> (string \<times> resolve_error) + jmap" where
  "substituteAttributesSchemaWith jc schema rctx carryForward deferClaimRefs =
     (case Option.bind schema (\<lambda>s. mapAt s ''properties'') of
        None \<Rightarrow> Inr []
      | Some props \<Rightarrow> res_foldM (substituteProperty jc rctx deferClaimRefs) props carryForward)"

definition fillClaimRef :: "JsonCodec \<Rightarrow> ResolveContext \<Rightarrow> string \<times> jvalue \<Rightarrow> jmap \<Rightarrow> (string \<times> resolve_error) + jmap" where
  "fillClaimRef jc rctx np out =
     (case np of (name, propAny) \<Rightarrow>
        if map_of out name \<noteq> None then Inr out
        else case asMap propAny of
          None \<Rightarrow> Inr out
        | Some prop \<Rightarrow> (case map_of prop ''source'' of
              None \<Rightarrow> Inr out
            | Some srcRaw \<Rightarrow>
                (let source = asString srcRaw in
                 if source = [] \<or> \<not> sourceReferencesLateBound source then Inr out
                 else case SubstituteValue jc source rctx of
                   Inl e \<Rightarrow> Inl (name, e)
                 | Inr val \<Rightarrow> Inr (AList.update name (if val = VNull then emptyValueForSchemaProperty prop else val) out))))"

definition fillClaimRefs :: "JsonCodec \<Rightarrow> jmap option \<Rightarrow> ResolveContext \<Rightarrow> jmap \<Rightarrow> (string \<times> resolve_error) + jmap" where
  "fillClaimRefs jc schema rctx partial =
     (case Option.bind schema (\<lambda>s. mapAt s ''properties'') of
        None \<Rightarrow> Inr partial
      | Some props \<Rightarrow> res_foldM (fillClaimRef jc rctx) props partial)"

definition mergeSchemaDefault :: "string \<times> jvalue \<Rightarrow> jmap \<Rightarrow> jmap" where
  "mergeSchemaDefault np out =
     (case np of (name, propAny) \<Rightarrow>
        if map_of out name \<noteq> None then out
        else case Option.bind (asMap propAny) (\<lambda>prop. map_of prop ''default'') of
          None \<Rightarrow> out
        | Some d \<Rightarrow> AList.update name d out)"

definition mergeSchemaDefaultsForDispatch :: "jmap option \<Rightarrow> jmap \<Rightarrow> jmap" where
  "mergeSchemaDefaultsForDispatch schema bag =
     (case Option.bind schema (\<lambda>s. mapAt s ''properties'') of
        None \<Rightarrow> bag
      | Some props \<Rightarrow> fold mergeSchemaDefault props bag)"

definition readOnlyProp :: "jmap option \<Rightarrow> string \<Rightarrow> bool" where
  "readOnlyProp props name \<longleftrightarrow>
     (case Option.bind (Option.bind props (\<lambda>ps. mapAt ps name)) (\<lambda>p. map_of p ''readOnly'') of Some (VBool b) \<Rightarrow> b | _ \<Rightarrow> False)"

definition relaxRequiredForExecutorWritten :: "jmap option \<Rightarrow> jmap option" where
  "relaxRequiredForExecutorWritten schema =
     (case schema of
        None \<Rightarrow> None
      | Some s \<Rightarrow> (case map_of s ''required'' of
            Some (VArr required) \<Rightarrow>
              (let keep = filter (\<lambda>item. case item of VStr name \<Rightarrow> \<not> readOnlyProp (mapAt s ''properties'') name | _ \<Rightarrow> True) required in
               if length keep = length required then Some s
               else if keep = [] then Some (AList.delete ''required'' s)
               else Some (AList.update ''required'' (VArr keep) s))
          | _ \<Rightarrow> Some s))"

end
