(* ===== verification/Gate_Evaluation.thy ===== *)
theory Gate_Evaluation
  imports Attribute_Resolution
begin

text \<open>
  Gate evaluation (\<open>lib/runtime/gate_evaluator.go\<close>): whether a pending run of a cascade may become stale and thereby
  dispatchable. It waits for its wait set and for subscribed upstream runs in flight, resolves its attributes, and applies the
  cascade mode of its node, which may drop it or the runs it supersedes. A failed substitution settles the run by the
  error policy of its node, which emits a signal and may evaluate further gates; here that step is the parameter \<open>route\<close>,
  which \<open>Cascade_Walk\<close> instantiates.
\<close>

type_synonym 'b gateFn = "UUID \<Rightarrow> 'b Graph \<Rightarrow> settle_error + 'b Graph"
type_synonym 'b routeFn = "NodeRunRow \<Rightarrow> string \<times> resolve_error \<Rightarrow> 'b Graph \<Rightarrow> settle_error + 'b Graph"

subsection \<open>Probes\<close>

text \<open>A template is stored as JSON without its empty schemas, so an empty schema is a nil map.\<close>

definition nodeSchemaOf :: "TemplateNodeDef option \<Rightarrow> jmap option" where
  "nodeSchemaOf nodeDef =
     (case Option.bind nodeDef Attributes of None \<Rightarrow> None | Some a \<Rightarrow> if Schema a = [] then None else Some (Schema a))"

definition execSchemaOf :: "'b Env \<Rightarrow> string \<Rightarrow> jmap option" where
  "execSchemaOf env exec =
     (if exec = [] then None
      else case ExpectedAttributesSchemaFor (lib env) exec of
        None \<Rightarrow> None
      | Some bytes \<Rightarrow> if bytes = [] then None else (case decodeMap (codecOf env) bytes of Some m \<Rightarrow> m | None \<Rightarrow> None))"

definition schemaForGateEval :: "'b Env \<Rightarrow> string \<Rightarrow> jmap \<Rightarrow> TemplateNodeDef option \<Rightarrow> jmap option" where
  "schemaForGateEval env exec defaults nodeDef =
     (let nodeSchema = nodeSchemaOf nodeDef; execSchema = execSchemaOf env exec in
      if execSchema = None \<and> nodeSchema = None then None
      else Some (MergeAttributeDefaults (codecOf env) execSchema defaults nodeSchema))"

definition anySubscribedUpstreamInFlight :: "'b Env \<Rightarrow> 'b Graph \<Rightarrow> NodeRunRow \<Rightarrow> settle_error + bool" where
  "anySubscribedUpstreamInFlight env g row =
     (case nodesGet env (NodeID row) of
        None \<Rightarrow> Inr False
      | Some node \<Rightarrow> (case instancesGet env (nr_instance_id node) of
            None \<Rightarrow> Inr False
          | Some inst \<Rightarrow>
              res_bind (subscriptionEdgesForTemplate env (in_template_hash inst)) (\<lambda>em.
              let senderTypes = SenderNodeTypesForReceiver em (nr_node_type node);
                  senders = filter (\<lambda>n. nr_id n \<noteq> NodeID row \<and> nr_node_type n \<in> set senderTypes) (ListByInstance env (nr_instance_id node)) in
              if senderTypes = [] \<or> senders = [] then Inr False
              else res_bind (templateSpecOf env (nr_instance_id node)) (\<lambda>t.
                let coMembers = subgraphMembersIncludingType t (nr_node_type node) in
                Inr (list_ex (\<lambda>(sender, st). \<not> (st = NodeStateHeld \<and> (\<exists>n \<in> set senders. nr_id n = sender \<and> nr_node_type n \<in> set coMembers)) \<and> IsInFlight st)
                  (ListInFlightRunStates g (map nr_id senders) (FrameID row) (RunScopeID row)))))))"

definition loadReceiverCarryForward :: "'b Env \<Rightarrow> 'b Graph \<Rightarrow> NodeRunRow \<Rightarrow> settle_error + jmap" where
  "loadReceiverCarryForward env g row =
     (case GetPriorRunBySequence g (NodeID row) (RunScopeID row) (sequence row) of
        None \<Rightarrow> Inr []
      | Some prior \<Rightarrow>
          res_bind (bagOfRun env g (NodeRunID prior)) (\<lambda>bag. case bag of
            None \<Rightarrow> Inr []
          | Some a \<Rightarrow>
              if narData a = [] then Inr []
              else (case decodeMap (codecOf env) (Marshal (codecOf env) (VObj (narData a))) of
                  None \<Rightarrow> Inl BagCopyFailed
                | Some None \<Rightarrow> Inr []
                | Some (Some m) \<Rightarrow> Inr m)))"

definition resolveContextFor :: "'b Env \<Rightarrow> InstanceRow option \<Rightarrow> deps \<Rightarrow> ResolveContext" where
  "resolveContextFor env inst ds =
     \<lparr>Deps = ds, Claim = [],
      Params = (case inst of None \<Rightarrow> [] | Some i \<Rightarrow> if in_params i = [] then [] else Marshal (codecOf env) (VObj (in_params i))),
      ChildPartitionKey = [],
      RegistryDeclaredTypes = (case inst of None \<Rightarrow> None | Some i \<Rightarrow> declaredMessageTypesForTemplate env (in_template_hash i)),
      EnvLookup = LookupEnv (lib env)\<rparr>"

definition buildResolvedBagAtGateEvalCarry :: "'b Env \<Rightarrow> 'b Graph \<Rightarrow> NodeRunRow \<Rightarrow> jmap \<Rightarrow> settle_error + jmap" where
  "buildResolvedBagAtGateEvalCarry env g row carryForward =
     (case nodesGet env (NodeID row) of
        None \<Rightarrow> Inr carryForward
      | Some node \<Rightarrow>
          res_bind (templateSpecOf env (nr_instance_id node)) (\<lambda>t.
          let nodeDef = LookupNodeDef t (nr_node_type node);
              schema = schemaForGateEval env (nr_executor node) (templateAttributeDefaultsFor t (nr_executor node)) nodeDef in
          if schema = None then Inr []
          else res_bind (BuildAttributeDeps env g (NodeRunID row) (FrameID row)) (\<lambda>ds.
            case substituteAttributesSchemaWith (codecOf env) schema
                   (resolveContextFor env (instancesGet env (nr_instance_id node)) ds) carryForward True of
              Inl (name, e) \<Rightarrow> Inl (Unresolved name e)
            | Inr bag \<Rightarrow> Inr bag)))"

subsection \<open>Cascade modes\<close>

definition canonicalEqual :: "'b Env \<Rightarrow> jmap \<Rightarrow> jmap \<Rightarrow> settle_error + bool" where
  "canonicalEqual env a b =
     (case (canonicalTransform (lib env) (Marshal (codecOf env) (VObj a)), canonicalTransform (lib env) (Marshal (codecOf env) (VObj b))) of
        (Some ac, Some bc) \<Rightarrow> Inr (ac = bc)
      | _ \<Rightarrow> Inl NotCanonical)"

text \<open>The bag a prior run was resolved with: the recorded one, or a resolution on demand; \<open>None\<close> if the run is gone.\<close>

definition priorInputBag :: "'b Env \<Rightarrow> 'b Graph \<Rightarrow> UUID \<Rightarrow> settle_error + jmap option" where
  "priorInputBag env g priorRun =
     res_bind (liftAttrRead (GetDispatchInputBag (attrs g) priorRun)) (\<lambda>bag. case bag of
       Some b \<Rightarrow> Inr (Some b)
     | None \<Rightarrow> (case GetRunForGate g priorRun of
           None \<Rightarrow> Inr None
         | Some row \<Rightarrow>
             res_bind (loadReceiverCarryForward env g row) (\<lambda>carry.
             res_bind (buildResolvedBagAtGateEvalCarry env g row carry) (\<lambda>b. Inr (Some b)))))"

definition bagsEqual :: "'b Env \<Rightarrow> 'b Graph \<Rightarrow> UUID \<Rightarrow> jmap \<Rightarrow> settle_error + bool" where
  "bagsEqual env g priorRun bag =
     res_bind (priorInputBag env g priorRun) (\<lambda>prior. case prior of None \<Rightarrow> Inr False | Some p \<Rightarrow> canonicalEqual env p bag)"

definition modeDropIfPriorEqual :: "'b Env \<Rightarrow> 'b Graph \<Rightarrow> NodeRunRow \<Rightarrow> jmap \<Rightarrow> bool \<Rightarrow> settle_error + bool" where
  "modeDropIfPriorEqual env g row bag includeSettled =
     (case GetPriorCascadeQueuedNotClaimed g (NodeID row) (RunScopeID row) (sequence row) of
        Some prior \<Rightarrow> bagsEqual env g (NodeRunID prior) bag
      | None \<Rightarrow>
          if \<not> includeSettled then Inr False
          else (case GetMostRecentSettledRun g (NodeID row) (RunScopeID row) (Some (sequence row)) of
              None \<Rightarrow> Inr False
            | Some prior \<Rightarrow> bagsEqual env g (NodeRunID prior) bag))"

definition applyCascadeModeRule :: "'b Env \<Rightarrow> NodeRunRow \<Rightarrow> jmap \<Rightarrow> string \<Rightarrow> 'b Graph \<Rightarrow> settle_error + bool \<times> 'b Graph" where
  "applyCascadeModeRule env row bag mode g =
     (if mode = ''most-recent'' \<or> mode = [] then
        (if HasLaterCascadePending g (NodeID row) (RunScopeID row) (sequence row) then Inr (True, g)
         else Inr (False, DeletePriorCascadeStales env (NodeID row) (RunScopeID row) (sequence row) g))
      else if mode = ''sequenced'' then Inr (False, g)
      else if mode = ''idempotent-queue'' then res_bind (modeDropIfPriorEqual env g row bag False) (\<lambda>d. Inr (d, g))
      else if mode = ''idempotent-settled'' then res_bind (modeDropIfPriorEqual env g row bag True) (\<lambda>d. Inr (d, g))
      else Inl (UnknownCascadeMode mode))"

subsection \<open>One gate\<close>

text \<open>\<open>args.Clock.Now()\<close>; a missing clock is a nil dereference.\<close>

definition clockNow :: "'b Env \<Rightarrow> settle_error + time" where
  "clockNow env = (case Clock env of None \<Rightarrow> Inl NilClock | Some now \<Rightarrow> Inr now)"

definition attrWrite :: "('b AttrStore \<Rightarrow> 'b attr_write) \<Rightarrow> 'b Graph \<Rightarrow> settle_error + 'b Graph" where
  "attrWrite f g = (case f (attrs g) of (Some e, s) \<Rightarrow> Inl (AttrError e) | (None, s) \<Rightarrow> Inr (g\<lparr>attrs := s\<rparr>))"

fun isSubstitutionClassifiableError :: "settle_error \<Rightarrow> bool" where
  "isSubstitutionClassifiableError (Unresolved name e) = IsMissingSource e"
| "isSubstitutionClassifiableError _ = False"

text \<open>The part after the bag is resolved.\<close>

definition admitResolved :: "'b Env \<Rightarrow> NodeRunRow \<Rightarrow> jmap \<Rightarrow> 'b Graph \<Rightarrow> settle_error + 'b Graph" where
  "admitResolved env row bag g =
     res_bind (applyCascadeModeRule env row bag (GetCascadeMode env (NodeID row)) g) (\<lambda>(drop, g1).
       if drop then DropPendingRun env (NodeRunID row) g1
       else if HasAdvancedSiblingInScope g1 (NodeID row) (RunScopeID row) (NodeRunID row) then Inr g1
       else res_bind (attrWrite (Upsert (attrConfig env) (dbNow env) (NodeRunID row) (NodeID row) (Some bag)) g1) (\<lambda>g2.
         res_bind (attrWrite (SetDispatchInputBag (attrConfig env) (dbNow env) (NodeRunID row) (NodeID row) (Some bag)) g2) (\<lambda>g3.
         res_bind (clockNow env) (\<lambda>now. TransitionPendingToStale (NodeRunID row) now g3))))"

text \<open>Whether the probes let a run through: it is pending, its wait set is drained and no upstream is in flight.\<close>

definition gateOpen :: "'b Env \<Rightarrow> 'b Graph \<Rightarrow> NodeRunRow \<Rightarrow> settle_error + bool" where
  "gateOpen env g row =
     (if State row \<noteq> NodeStatePending \<or> HasUndrainedRowsForReceiver g (FrameID row) (NodeRunID row) then Inr False
      else res_bind (anySubscribedUpstreamInFlight env g row) (\<lambda>inFlight. Inr (\<not> inFlight)))"

definition evaluateOneGate :: "'b Env \<Rightarrow> 'b routeFn \<Rightarrow> 'b gateFn" where
  "evaluateOneGate env route runID g =
     (case GetRunForGate g runID of
        None \<Rightarrow> Inr g
      | Some row \<Rightarrow>
          res_bind (gateOpen env g row) (\<lambda>open.
          if \<not> open then Inr g
          else res_bind (loadReceiverCarryForward env g row) (\<lambda>carry.
            case buildResolvedBagAtGateEvalCarry env g row carry of
              Inr bag \<Rightarrow> admitResolved env row bag g
            | Inl e \<Rightarrow>
                (case e of
                   Unresolved name err \<Rightarrow> if isSubstitutionClassifiableError e then route row (name, err) g else Inl e
                 | _ \<Rightarrow> Inl e))))"

end
