(* ===== verification/Error_Policy.thy ===== *)
theory Error_Policy
  imports Settlement_World
begin

text \<open>
  The evaluation of an error policy (\<open>lib/graph/node/policy.go\<close>), the backoff of a retry
  (\<open>lib/graph/node/backoff.go\<close>) and the signal a decision emits (\<open>lib/runtime/runner_error_policy.go\<close>). The policy of
  an error class retries up to a budget, gives up, passes or requeues.

  \<open>ComputeDelay\<close> computes in \<open>float64\<close>; the model computes with integers and truncates at the end, as the code does.
  The two agree as long as the products are below \<open>2\<close> to the power \<open>53\<close>. The random number is \<open>r\<close> divided by
  \<open>2\<close> to the power \<open>53\<close>.
\<close>

subsection \<open>Evaluation\<close>

definition ActionRetry :: string where "ActionRetry = ''retry''"
definition ActionGiveUp :: string where "ActionGiveUp = ''give_up''"
definition ActionPass :: string where "ActionPass = ''pass''"
definition ActionReleaseAndRequeue :: string where "ActionReleaseAndRequeue = ''release_and_requeue''"

lemmas action_defs = ActionRetry_def ActionGiveUp_def ActionPass_def ActionReleaseAndRequeue_def

lemma action_distinct [simp]:
  "ActionRetry \<noteq> ActionGiveUp" "ActionGiveUp \<noteq> ActionRetry" "ActionRetry \<noteq> ActionPass" "ActionPass \<noteq> ActionRetry"
  "ActionRetry \<noteq> ActionReleaseAndRequeue" "ActionReleaseAndRequeue \<noteq> ActionRetry" "ActionGiveUp \<noteq> ActionPass"
  "ActionPass \<noteq> ActionGiveUp" "ActionGiveUp \<noteq> ActionReleaseAndRequeue" "ActionReleaseAndRequeue \<noteq> ActionGiveUp"
  "ActionPass \<noteq> ActionReleaseAndRequeue" "ActionReleaseAndRequeue \<noteq> ActionPass"
  by (simp_all add: action_defs)

record BackoffConfig =
  bkKind :: string
  bkBaseDelayMs :: int
  bkJitter :: string
  bkMaxDelayMs :: int

record ResolvedAction =
  raKind :: string
  raDelayMs :: int
  raReason :: string
  raRetryCounter :: int

definition maxInt32 :: int where "maxInt32 = 2147483647"

text \<open>The cases of \<open>ComputeDelay\<close> before the jitter.\<close>

definition baseDelay :: "BackoffConfig \<Rightarrow> nat \<Rightarrow> int" where
  "baseDelay cfg attempt =
     (if bkKind cfg = ''linear'' then bkBaseDelayMs cfg * (int attempt + 1)
      else if bkKind cfg = ''exponential'' then bkBaseDelayMs cfg * 2 ^ attempt
      else bkBaseDelayMs cfg)"

definition ComputeDelay :: "BackoffConfig \<Rightarrow> int \<Rightarrow> int \<Rightarrow> int" where
  "ComputeDelay cfg attemptIndex r =
     (let base = baseDelay cfg (nat attemptIndex);
          jittered = (if bkJitter cfg = ''plus_minus'' then base * (2 ^ 52 + r) div 2 ^ 53 else base);
          maxMs = (if bkMaxDelayMs cfg \<le> 0 then maxInt32 else bkMaxDelayMs cfg)
      in min (max jittered 0) maxMs)"

definition Evaluate :: "ErrorTypePolicy option \<Rightarrow> int \<Rightarrow> int \<Rightarrow> BackoffConfig \<Rightarrow> int \<Rightarrow> ResolvedAction" where
  "Evaluate policy counter maxRetries backoff r =
     (let keep = (\<lambda>kind reason. \<lparr>raKind = kind, raDelayMs = 0, raReason = reason, raRetryCounter = counter\<rparr>) in
      case policy of
        None \<Rightarrow> keep ActionGiveUp ''unknown_error_class''
      | Some p \<Rightarrow>
          if policyAction p = ActionRetry then
            (if maxRetries > 0 \<and> counter \<ge> maxRetries then keep ActionGiveUp ''max_retries_exhausted''
             else \<lparr>raKind = ActionRetry, raDelayMs = ComputeDelay backoff counter r, raReason = [], raRetryCounter = counter + 1\<rparr>)
          else if policyAction p = ActionReleaseAndRequeue then keep ActionReleaseAndRequeue []
          else if policyAction p = ActionPass then keep ActionPass []
          else if policyAction p = ActionGiveUp then
            keep ActionGiveUp (if policyReason p = [] then ActionGiveUp else policyReason p)
          else keep ActionGiveUp ''unknown_action_type'')"

subsection \<open>Lookup and signal\<close>

definition lookupPolicyForNode :: "TemplateNodeDef option \<Rightarrow> string \<Rightarrow> ErrorTypePolicy option" where
  "lookupPolicyForNode nodeDef errorClass = (case nodeDef of None \<Rightarrow> None | Some n \<Rightarrow> map_of (ErrorTypes n) errorClass)"

definition lookupPolicyForNodeWithFallback :: "TemplateNodeDef option \<Rightarrow> string \<Rightarrow> string \<Rightarrow> ErrorTypePolicy option" where
  "lookupPolicyForNodeWithFallback nodeDef primary fallback =
     (case lookupPolicyForNode nodeDef primary of
        Some p \<Rightarrow> Some p
      | None \<Rightarrow> if fallback \<noteq> [] \<and> fallback \<noteq> primary then lookupPolicyForNode nodeDef fallback else None)"

definition zeroBackoff :: BackoffConfig where
  "zeroBackoff = \<lparr>bkKind = [], bkBaseDelayMs = 0, bkJitter = [], bkMaxDelayMs = 0\<rparr>"

definition resolveRetryConfig :: "TemplateNodeDef option \<Rightarrow> int \<times> BackoffConfig" where
  "resolveRetryConfig nd =
     ((case Option.bind nd MaxRetries of None \<Rightarrow> 0 | Some m \<Rightarrow> m),
      (case Option.bind nd RetryBackoff of
         None \<Rightarrow> zeroBackoff
       | Some b \<Rightarrow> \<lparr>bkKind = backoffKind b, bkBaseDelayMs = BaseDelayMs b, bkJitter = backoffJitter b, bkMaxDelayMs = MaxDelayMs b\<rparr>))"

text \<open>The verb \<open>%d\<close>.\<close>

definition itoaInt :: "int \<Rightarrow> string" where
  "itoaInt n = (if n < 0 then ''-'' @ itoa (nat (- n)) else itoa (nat n))"

definition errorPolicySignal ::
  "string \<Rightarrow> jmap option \<Rightarrow> jmap option \<Rightarrow> string list \<Rightarrow> string \<Rightarrow> int \<Rightarrow> int \<Rightarrow> int \<Rightarrow> Signal" where
  "errorPolicySignal errorClass errorPayload attributesDelta tags resolvedKind retriesSoFar retryCap delayMs =
     (if resolvedKind = ActionRetry then
        \<lparr>sigType = ''transient/retry/'' @ itoaInt retriesSoFar @ ''/'' @ errorClass,
         sigPayload = TransientRetryPayload (wrap32 retriesSoFar) (wrap32 retryCap) errorClass (wrap32 delayMs) errorPayload\<rparr>
      else if resolvedKind = ActionReleaseAndRequeue then
        \<lparr>sigType = ''transient/release_and_requeue/'' @ errorClass, sigPayload = TransientReleasePayload errorClass errorPayload\<rparr>
      else BuildTerminalErrorSignal errorClass errorPayload retriesSoFar retriesSoFar attributesDelta tags)"

subsection \<open>The retry budget\<close>

text \<open>The persisted counter after \<open>n\<close> failures of one error class.\<close>

fun counterAfter :: "ErrorTypePolicy \<Rightarrow> int \<Rightarrow> BackoffConfig \<Rightarrow> (nat \<Rightarrow> int) \<Rightarrow> nat \<Rightarrow> int" where
  "counterAfter p m b r 0 = 0"
| "counterAfter p m b r (Suc n) = raRetryCounter (Evaluate (Some p) (counterAfter p m b r n) m b (r n))"

lemma counterAfter_min: "policyAction p = ActionRetry \<Longrightarrow> 0 < m \<Longrightarrow> counterAfter p m b r n = min (int n) m"
  by (induction n) (auto simp: Evaluate_def Let_def min_def)

lemma counterAfter_unbounded: "policyAction p = ActionRetry \<Longrightarrow> m \<le> 0 \<Longrightarrow> counterAfter p m b r n = int n"
  by (induction n) (auto simp: Evaluate_def Let_def)

text \<open>C24: Under a retry policy with a positive budget, exactly as many failures of a run are retried as the budget
  allows, and every later one gives up with the reason \<open>max_retries_exhausted\<close>; without a budget every failure is retried.\<close>

theorem retry_budget_is_exact:
  assumes "policyAction p = ActionRetry"
  shows "raKind (Evaluate (Some p) (counterAfter p m b r n) m b (r n)) = (if 0 < m \<and> m \<le> int n then ActionGiveUp else ActionRetry) \<and>
    raReason (Evaluate (Some p) (counterAfter p m b r n) m b (r n)) = (if 0 < m \<and> m \<le> int n then ''max_retries_exhausted'' else [])"
  using assms counterAfter_min [OF assms, of m b r n] counterAfter_unbounded [OF assms, of m b r n]
  by (auto simp: Evaluate_def Let_def min_def)

theorem retry_budget_is_exact_witness:
  "raKind (Evaluate (Some \<lparr>policyAction = ActionRetry, policyReason = []\<rparr>) (counterAfter \<lparr>policyAction = ActionRetry, policyReason = []\<rparr> 2 zeroBackoff (\<lambda>_. 0) 2)
     2 zeroBackoff 0) = ActionGiveUp"
  using retry_budget_is_exact [of "\<lparr>policyAction = ActionRetry, policyReason = []\<rparr>" 2 zeroBackoff "\<lambda>_. 0" 2] by simp

subsection \<open>The backoff\<close>

definition delayCap :: "BackoffConfig \<Rightarrow> int" where
  "delayCap cfg = (if bkMaxDelayMs cfg \<le> 0 then maxInt32 else bkMaxDelayMs cfg)"

lemma baseDelay_mono: "0 \<le> bkBaseDelayMs cfg \<Longrightarrow> i \<le> j \<Longrightarrow> baseDelay cfg i \<le> baseDelay cfg j"
  by (auto simp: baseDelay_def intro: mult_left_mono)

lemma baseDelay_nonneg: "0 \<le> bkBaseDelayMs cfg \<Longrightarrow> 0 \<le> baseDelay cfg i"
  by (simp add: baseDelay_def)

lemma jitter_bounds:
  assumes "(0::int) \<le> b" "0 \<le> r" "r < 2 ^ 53"
  shows "b div 2 \<le> b * (2 ^ 52 + r) div 2 ^ 53" and "2 * (b * (2 ^ 52 + r) div 2 ^ 53) \<le> 3 * b"
proof -
  have low: "b * 2 ^ 52 \<le> b * (2 ^ 52 + r)" using assms by (simp add: mult_left_mono)
  have "b div 2 = b * 2 ^ 52 div 2 ^ 53" using div_mult_mult2 [of "2 ^ 52::int" b 2] by simp
  also have "\<dots> \<le> b * (2 ^ 52 + r) div 2 ^ 53" by (rule zdiv_mono1 [OF low]) simp
  finally show "b div 2 \<le> b * (2 ^ 52 + r) div 2 ^ 53" .
  have "b * (2 ^ 52 + r) \<le> b * (3 * 2 ^ 52)" using assms by (intro mult_left_mono) simp_all
  moreover have "b * (2 ^ 52 + r) div 2 ^ 53 * 2 ^ 53 \<le> b * (2 ^ 52 + r)"
    using mult_div_mod_eq [of "2 ^ 53" "b * (2 ^ 52 + r)"] pos_mod_sign [of "2 ^ 53" "b * (2 ^ 52 + r)"] by simp
  ultimately show "2 * (b * (2 ^ 52 + r) div 2 ^ 53) \<le> 3 * b" by simp
qed

text \<open>The delay of a retry lies between zero and the cap. Without jitter it is the capped linear or
  exponential delay and does not decrease from one attempt to the next; with jitter it stays within half and one and a half of that delay.\<close>

theorem retry_delay_is_bounded:
  assumes "0 \<le> bkBaseDelayMs cfg" and "0 \<le> r" and "r < 2 ^ 53"
  shows "0 \<le> ComputeDelay cfg i r \<and> ComputeDelay cfg i r \<le> delayCap cfg \<and>
    (if bkJitter cfg = ''plus_minus''
     then min (baseDelay cfg (nat i) div 2) (delayCap cfg) \<le> ComputeDelay cfg i r \<and> 2 * ComputeDelay cfg i r \<le> 3 * baseDelay cfg (nat i)
     else ComputeDelay cfg i r = min (baseDelay cfg (nat i)) (delayCap cfg) \<and> ComputeDelay cfg i r \<le> ComputeDelay cfg (i + 1) r)"
proof -
  note base = baseDelay_nonneg [OF assms(1)]
  have cap: "0 < delayCap cfg" by (simp add: delayCap_def maxInt32_def)
  then have range: "0 \<le> ComputeDelay cfg i r" "ComputeDelay cfg i r \<le> delayCap cfg"
    by (auto simp: ComputeDelay_def Let_def delayCap_def)
  show ?thesis
  proof (cases "bkJitter cfg = ''plus_minus''")
    case True
    let ?j = "baseDelay cfg (nat i) * (2 ^ 52 + r) div 2 ^ 53"
    have "0 \<le> ?j" using base assms(2) by (simp add: pos_imp_zdiv_nonneg_iff)
    then have "ComputeDelay cfg i r = min ?j (delayCap cfg)" using True by (simp add: ComputeDelay_def Let_def delayCap_def)
    moreover have "baseDelay cfg (nat i) div 2 \<le> ?j" "2 * ?j \<le> 3 * baseDelay cfg (nat i)"
      using jitter_bounds [OF base assms(2,3)] by simp_all
    ultimately show ?thesis using range True by simp linarith
  next
    case False
    then have "ComputeDelay cfg k r = min (baseDelay cfg (nat k)) (delayCap cfg)" for k
      using base [of "nat k"] by (simp add: ComputeDelay_def Let_def delayCap_def)
    moreover have "nat i \<le> nat (i + 1)" by simp
    then have "baseDelay cfg (nat i) \<le> baseDelay cfg (nat (i + 1))" by (rule baseDelay_mono [OF assms(1)])
    ultimately show ?thesis using range False by simp
  qed
qed

lemma retry_delay_example:
  "ComputeDelay \<lparr>bkKind = ''exponential'', bkBaseDelayMs = 100, bkJitter = ''none'', bkMaxDelayMs = 300\<rparr> 1 0 = 200"
  using retry_delay_is_bounded [of "\<lparr>bkKind = ''exponential'', bkBaseDelayMs = 100, bkJitter = ''none'', bkMaxDelayMs = 300\<rparr>" 0 1]
  by (simp add: baseDelay_def delayCap_def)

end
