(* ===== verification/Cascade_Walk.thy ===== *)
theory Cascade_Walk
  imports Gate_Evaluation Error_Policy
begin

text \<open>
  The cascade of a signal to the subscribers of its sender (\<open>lib/runtime/runner_terminal.go\<close>, \<open>cascade_walker.go\<close>,
  \<open>signal_emit.go\<close>, \<open>attribute_cascade.go\<close>, \<open>pure_cascade_settle.go\<close>): a pending run is found or created for each receiver
  and waits for the sender; upstreams a receiver insists on are refreshed; when the sender has settled, its rows of
  the wait set are drained and the gates of the waiting runs are evaluated.

  These functions call gate evaluation, and a gate whose substitution fails settles its run by the error policy
  (\<open>runner_error_policy.go\<close>), which emits a signal and starts over. Each function takes gate evaluation as the
  argument \<open>gate\<close>; \<open>gateAt\<close> ties the knot with a bound on the nesting of such settlements.

  The sets of visited nodes that Go code mutates are returned with the graph.
\<close>

subsection \<open>Receivers\<close>

text \<open>\<open>LockReceiverCascade\<close> is a lock of the transaction; it reads and writes nothing.\<close>

definition ensureCascadePending ::
  "'b Env \<Rightarrow> UUID \<Rightarrow> UUID \<Rightarrow> UUID \<Rightarrow> UUID \<Rightarrow> UUID \<Rightarrow> 'b Graph \<Rightarrow> settle_error + UUID \<times> 'b Graph" where
  "ensureCascadePending env receiver scope frame senderNode senderRun g =
     (case FindLatestCascadePending g receiver scope frame of
        Some latest \<Rightarrow>
          if senderRun \<noteq> zero_uuid \<and> HasRowForSenderRun g frame (NodeRunID latest) senderRun then Inr (NodeRunID latest, g)
          else if senderNode \<notin> set (ListSenderNodesForReceiver g frame (NodeRunID latest)) then Inr (NodeRunID latest, g)
          else CreateCascadePending env receiver scope frame g
      | None \<Rightarrow> CreateCascadePending env receiver scope frame g)"

definition resolveReceiverRunForCascade ::
  "'b Env \<Rightarrow> UUID \<Rightarrow> UUID \<Rightarrow> UUID \<Rightarrow> UUID \<Rightarrow> UUID \<Rightarrow> UUID list \<Rightarrow> 'b Graph \<Rightarrow> settle_error + UUID option \<times> UUID list \<times> 'b Graph" where
  "resolveReceiverRunForCascade env receiver scope frame senderNode senderRun visited g =
     (if receiver \<in> set visited
      then Inr (map_option NodeRunID (FindLatestCascadePending g receiver scope frame), visited, g)
      else case ensureCascadePending env receiver scope frame senderNode senderRun g of
        Inl e \<Rightarrow> if e = ErrRunScopeClosed then Inr (None, visited, g) else Inl e
      | Inr (i, g') \<Rightarrow> Inr (Some i, receiver # visited, g'))"

definition waitSetTopicKindFor :: "TypePath \<Rightarrow> string" where
  "waitSetTopicKindFor pattern =
     (case TopLevel pattern of
        KindTerminal \<Rightarrow> ''terminal'' | KindTransient \<Rightarrow> ''transient'' | KindAttribute \<Rightarrow> ''attribute'' | KindNone \<Rightarrow> ''state'')"

definition probeParkedReceiver :: "'b Graph \<Rightarrow> UUID \<Rightarrow> UUID \<Rightarrow> NodeRunRow option" where
  "probeParkedReceiver g receiver scope = GetParkedByNode g receiver scope"

definition waitRow :: "UUID \<Rightarrow> UUID \<Rightarrow> UUID \<Rightarrow> string \<Rightarrow> WaitSetRow" where
  "waitRow frame receiver sender kind =
     \<lparr>wsFrameID = frame, wsReceiver = receiver, wsSender = sender, wsTopicKind = kind, wsTopicFilter = [], wsDrainedAt = None\<rparr>"

subsection \<open>Upstream refresh\<close>

text \<open>One upstream node: its run in flight, or a new pending run whose gate is evaluated at once, or nothing when it
  already ran in the frame or the run scope is closed.\<close>

definition refreshedUpstream ::
  "'b Env \<Rightarrow> 'b gateFn \<Rightarrow> UUID \<Rightarrow> UUID \<Rightarrow> UUID \<Rightarrow> 'b Graph \<Rightarrow> settle_error + UUID option \<times> 'b Graph" where
  "refreshedUpstream env gate upstream scope frame g =
     (case GetInFlightRunForNode g upstream scope of
        Some run \<Rightarrow> Inr (Some run, g)
      | None \<Rightarrow>
          if HasRunForNodeInFrame g upstream frame then Inr (None, g)
          else (case CreateCascadePending env upstream scope frame g of
              Inl e \<Rightarrow> if e = ErrRunScopeClosed then Inr (None, g) else Inl e
            | Inr (newID, g1) \<Rightarrow> res_bind (gate newID g1) (\<lambda>g2. Inr (Some newID, g2))))"

definition pullUpstream ::
  "'b Env \<Rightarrow> 'b gateFn \<Rightarrow> UUID \<Rightarrow> UUID \<Rightarrow> UUID \<Rightarrow> NodeRow \<Rightarrow> UUID list \<times> 'b Graph \<Rightarrow> settle_error + UUID list \<times> 'b Graph" where
  "pullUpstream env gate receiverRun scope frame upstream vg =
     (case vg of (visited, g) \<Rightarrow>
        if nr_id upstream \<in> set visited then Inr (visited, g)
        else res_bind (refreshedUpstream env gate (nr_id upstream) scope frame g) (\<lambda>(run, g1).
          case run of
            None \<Rightarrow> Inr (nr_id upstream # visited, g1)
          | Some r \<Rightarrow> res_bind (waitSetInsert (waitRow frame receiverRun r ''attribute'') g1) (\<lambda>g2. Inr (nr_id upstream # visited, g2))))"

text \<open>\<open>byType\<close> is the list of the instance's nodes; an index by type is a filter.\<close>

definition pullForceRefreshUpstreams ::
  "'b Env \<Rightarrow> 'b gateFn \<Rightarrow> NodeRow \<Rightarrow> NodeRow list \<Rightarrow> UUID \<Rightarrow> UUID \<Rightarrow> UUID \<Rightarrow> string \<Rightarrow> UUID list \<Rightarrow> 'b Graph \<Rightarrow> settle_error + 'b Graph" where
  "pullForceRefreshUpstreams env gate receiver instNodes receiverRun scope frame hash visited g =
     res_bind (hardDepEdgesForTemplate env hash) (\<lambda>refresh.
     let types = (case map_of refresh (nr_node_type receiver) of None \<Rightarrow> [] | Some ts \<Rightarrow> ts);
         upstreams = concat (map (\<lambda>t. filter (\<lambda>n. nr_node_type n = t) instNodes) types) in
     res_bind (res_foldM (pullUpstream env gate receiverRun scope frame) upstreams (visited, g)) (\<lambda>(_, g'). Inr g'))"

subsection \<open>The walk\<close>

text \<open>What the walk carries of the emission.\<close>

record Walk =
  wkSender :: UUID
  wkSenderRun :: UUID
  wkFrame :: UUID
  wkScope :: UUID
  wkScopeIsMain :: bool
  wkTemplateHash :: string
  wkNodes :: "NodeRow list"

text \<open>A parked run of the receiver is woken; in a nested run scope only receivers with a run in flight are reached.\<close>

definition cascadeReceiver ::
  "'b Env \<Rightarrow> 'b gateFn \<Rightarrow> Walk \<Rightarrow> string \<Rightarrow> NodeRow \<Rightarrow> UUID list \<times> 'b Graph \<Rightarrow> settle_error + UUID list \<times> 'b Graph" where
  "cascadeReceiver env gate wk kind r vg =
     (case vg of (visited, g) \<Rightarrow>
        if \<not> wkScopeIsMain wk \<and> GetInFlightRunForNode g (nr_id r) (wkScope wk) = None then Inr (visited, g)
        else res_bind (case probeParkedReceiver g (nr_id r) (wkScope wk) of
              None \<Rightarrow> Inr g
            | Some parked \<Rightarrow>
                res_bind (resumeParkedRunInTx env (NodeRunID parked) (nr_id r) (nr_instance_id r) WakeUpstreamCascade g) (\<lambda>(_, g'). Inr g'))
          (\<lambda>g1. res_bind (resolveReceiverRunForCascade env (nr_id r) (wkScope wk) (wkFrame wk) (wkSender wk) (wkSenderRun wk) visited g1)
            (\<lambda>(receiverRun, visited', g2). case receiverRun of
               None \<Rightarrow> Inr (visited', g2)
             | Some run \<Rightarrow>
                 res_bind (waitSetInsert (waitRow (wkFrame wk) run (wkSenderRun wk) kind) g2) (\<lambda>g3.
                 res_bind (pullForceRefreshUpstreams env gate r (wkNodes wk) run (wkScope wk) (wkFrame wk) (wkTemplateHash wk) [nr_id r, wkSender wk] g3)
                   (\<lambda>g4. Inr (visited', g4))))))"

text \<open>An edge whose predicate fails or cannot be evaluated, or whose receiver is filtered out, is skipped.\<close>

definition edgeFires :: "'b Env \<Rightarrow> Signal \<Rightarrow> (string \<Rightarrow> bool) \<Rightarrow> SubscriptionEdge \<Rightarrow> bool" where
  "edgeFires env sig flt e \<longleftrightarrow> (WhenExpr e = [] \<or> evalWhen (lib env) (WhenExpr e) sig = Some True) \<and> flt (ReceiverNodeType e)"

definition cascadeEdge ::
  "'b Env \<Rightarrow> 'b gateFn \<Rightarrow> Walk \<Rightarrow> Signal \<Rightarrow> (string \<Rightarrow> bool) \<Rightarrow> SubscriptionEdge \<Rightarrow> UUID list \<times> 'b Graph \<Rightarrow> settle_error + UUID list \<times> 'b Graph" where
  "cascadeEdge env gate wk sig flt e vg =
     (if \<not> edgeFires env sig flt e then Inr vg
      else res_foldM (cascadeReceiver env gate wk (waitSetTopicKindFor (TypePattern e)))
             (filter (\<lambda>n. nr_node_type n = ReceiverNodeType e) (wkNodes wk)) vg)"

definition cascadeSubscribersStaleInTxWithVisited ::
  "'b Env \<Rightarrow> 'b gateFn \<Rightarrow> SignalEmission \<Rightarrow> UUID list \<Rightarrow> 'b Graph \<Rightarrow> settle_error + UUID list \<times> 'b Graph" where
  "cascadeSubscribersStaleInTxWithVisited env gate em visited g =
     (if \<not> ShouldCascade (sigType (emSignal em)) then Inr (visited, g)
      else case instancesGet env (emInstanceID em) of
        None \<Rightarrow> Inr (visited, g)
      | Some inst \<Rightarrow>
          res_bind (subscriptionEdgesForTemplate env (in_template_hash inst)) (\<lambda>es.
          case runGetByID (runs g) (emSenderNodeRunID em) of
            None \<Rightarrow> Inr (visited, g)
          | Some senderRun \<Rightarrow> (case scopeGetByID (runs g) (RunScopeID senderRun) of
                None \<Rightarrow> Inr (visited, g)
              | Some scope \<Rightarrow>
                  res_foldM (cascadeEdge env gate
                      \<lparr>wkSender = emSenderID em, wkSenderRun = emSenderNodeRunID em, wkFrame = emFrameID em, wkScope = RunScopeID senderRun,
                       wkScopeIsMain = (ParentNodeRunID scope = None), wkTemplateHash = in_template_hash inst,
                       wkNodes = ListByInstance env (emInstanceID em)\<rparr> (emSignal em) (emFilter em))
                    (Match es (emSenderNodeType em) (sigType (emSignal em))) (visited, g))))"

subsection \<open>Draining\<close>

definition evaluateGatesAfterDrain :: "'b gateFn \<Rightarrow> UUID \<Rightarrow> UUID \<Rightarrow> 'b Graph \<Rightarrow> settle_error + 'b Graph" where
  "evaluateGatesAfterDrain gate frame sender g = res_foldM gate (ListPendingReceiversForDrainedSender g frame sender) g"

definition reevalDownstreamReceiverGates :: "'b Env \<Rightarrow> 'b gateFn \<Rightarrow> UUID \<Rightarrow> 'b Graph \<Rightarrow> settle_error + 'b Graph" where
  "reevalDownstreamReceiverGates env gate sender g =
     (case runGetByID (runs g) sender of
        None \<Rightarrow> Inr g
      | Some senderRun \<Rightarrow> (case nodesGet env (NodeID senderRun) of
            None \<Rightarrow> Inr g
          | Some senderNode \<Rightarrow> (case instancesGet env (nr_instance_id senderNode) of
                None \<Rightarrow> Inr g
              | Some inst \<Rightarrow>
                  res_bind (subscriptionEdgesForTemplate env (in_template_hash inst)) (\<lambda>es.
                  let receiverTypes = ReceiverNodeTypesForSender es (nr_node_type senderNode);
                      downstream = map nr_id (filter (\<lambda>n. nr_id n \<noteq> nr_id senderNode \<and> nr_node_type n \<in> set receiverTypes)
                        (ListByInstance env (nr_instance_id senderNode))) in
                  res_foldM gate (ListPendingRunsInScopeForNodes g (RunScopeID senderRun) downstream) g))))"

definition drainWaitSetOnSettled :: "'b Env \<Rightarrow> 'b gateFn \<Rightarrow> UUID \<Rightarrow> UUID \<Rightarrow> 'b Graph \<Rightarrow> settle_error + 'b Graph" where
  "drainWaitSetOnSettled env gate frame sender g =
     res_bind (evaluateGatesAfterDrain gate frame sender (MarkDrainedBySender env frame sender g)) (\<lambda>g1.
     res_bind (res_foldM gate (ListPendingSiblingRunsInScope g1 sender) g1) (\<lambda>g2.
     reevalDownstreamReceiverGates env gate sender g2))"

subsection \<open>Emission\<close>

definition EmitSignalEvent :: "UUID \<Rightarrow> UUID \<Rightarrow> Signal \<Rightarrow> time \<Rightarrow> 'b Graph \<Rightarrow> 'b Graph" where
  "EmitSignalEvent inst node sig occurredAt g =
     g\<lparr>audit := audit g @ [SignalEvent inst (if node = zero_uuid then None else Some node) sig (if occurredAt = 0 then None else Some occurredAt)]\<rparr>"

definition cascadeSignalInTxWithFilter ::
  "'b Env \<Rightarrow> 'b gateFn \<Rightarrow> SignalEmission \<Rightarrow> UUID list \<Rightarrow> 'b Graph \<Rightarrow> settle_error + UUID list \<times> 'b Graph" where
  "cascadeSignalInTxWithFilter env gate em visited g =
     (case ValidateTypePath (sigType (emSignal em)) of
        Inl e \<Rightarrow> Inl (InvalidSignal e)
      | Inr _ \<Rightarrow>
          if emSenderNodeRunID em \<noteq> zero_uuid \<and> emFrameID em \<noteq> zero_uuid
          then cascadeSubscribersStaleInTxWithVisited env gate em visited g
          else Inr (visited, g))"

definition emitSignalInTxWithFilter ::
  "'b Env \<Rightarrow> 'b gateFn \<Rightarrow> SignalEmission \<Rightarrow> UUID list \<Rightarrow> 'b Graph \<Rightarrow> settle_error + UUID list \<times> 'b Graph" where
  "emitSignalInTxWithFilter env gate em visited g =
     res_bind (cascadeSignalInTxWithFilter env gate em visited g) (\<lambda>(visited', g1).
     res_bind (clockNow env) (\<lambda>now. Inr (visited', EmitSignalEvent (emInstanceID em) (emSenderID em) (emSignal em) now g1)))"

text \<open>The sender of a signal; an emission without a filter reaches every receiver.\<close>

record Sender =
  sdNodeID :: UUID
  sdNodeType :: string
  sdRunID :: UUID
  sdInstanceID :: UUID
  sdFrameID :: UUID

definition emission :: "Sender \<Rightarrow> Signal \<Rightarrow> (string \<Rightarrow> bool) \<Rightarrow> SignalEmission" where
  "emission sd sig flt =
     \<lparr>emSenderID = sdNodeID sd, emSenderNodeType = sdNodeType sd, emSenderNodeRunID = sdRunID sd, emInstanceID = sdInstanceID sd,
      emFrameID = sdFrameID sd, emSignal = sig, emFilter = flt\<rparr>"

definition emitSignalInTx ::
  "'b Env \<Rightarrow> 'b gateFn \<Rightarrow> Sender \<Rightarrow> Signal \<Rightarrow> UUID list \<Rightarrow> 'b Graph \<Rightarrow> settle_error + UUID list \<times> 'b Graph" where
  "emitSignalInTx env gate sd sig visited g = emitSignalInTxWithFilter env gate (emission sd sig (\<lambda>_. True)) visited g"

definition emitSignalInTxOnce :: "'b Env \<Rightarrow> 'b gateFn \<Rightarrow> Sender \<Rightarrow> Signal \<Rightarrow> 'b Graph \<Rightarrow> settle_error + 'b Graph" where
  "emitSignalInTxOnce env gate sd sig g = res_bind (emitSignalInTx env gate sd sig [] g) (\<lambda>(_, g'). Inr g')"

subsection \<open>Attribute changes\<close>

definition attributesValueEqual :: "JsonCodec \<Rightarrow> jvalue \<Rightarrow> jvalue \<Rightarrow> bool" where
  "attributesValueEqual jc a b \<longleftrightarrow> Marshal jc a = Marshal jc b"

definition diffAttributesData :: "JsonCodec \<Rightarrow> jmap \<Rightarrow> jmap \<Rightarrow> jmap" where
  "diffAttributesData jc prior current =
     filter (\<lambda>(k, v). case map_of prior k of None \<Rightarrow> True | Some pv \<Rightarrow> \<not> attributesValueEqual jc pv v) current @
     map (\<lambda>(k, v). (k, VNull)) (filter (\<lambda>(k, v). map_of current k = None) prior)"

definition firstRunAttributeBaseline :: "'b Env \<Rightarrow> UUID \<Rightarrow> string \<Rightarrow> settle_error + jmap" where
  "firstRunAttributeBaseline env inst nodeType =
     res_bind (templateSpecOf env inst) (\<lambda>t. case LookupNodeDef t nodeType of
        None \<Rightarrow> Inr []
      | Some nodeDef \<Rightarrow>
          (let nodeSchema = nodeSchemaOf (Some nodeDef); execSchema = execSchemaOf env (Executor nodeDef);
               l1Defaults = templateAttributeDefaultsFor t (Executor nodeDef) in
           if execSchema = None \<and> nodeSchema = None then Inr []
           else Inr (mergeSchemaDefaultsForDispatch (Some (MergeAttributeDefaults (codecOf env) execSchema l1Defaults nodeSchema)) [])))"

definition attributeSignal :: "jmap \<Rightarrow> string \<times> jvalue \<Rightarrow> Signal" where
  "attributeSignal prior kv =
     (case kv of (k, v) \<Rightarrow>
        \<lparr>sigType = ''attribute/'' @ k @ ''/changed'',
         sigPayload = AttributeChangedPayload k v (case map_of prior k of None \<Rightarrow> VNull | Some pv \<Rightarrow> pv)\<rparr>)"

definition emitAttributeChangesForRunInTx ::
  "'b Env \<Rightarrow> 'b gateFn \<Rightarrow> Sender \<Rightarrow> UUID list \<Rightarrow> (string \<Rightarrow> bool) \<Rightarrow> 'b Graph \<Rightarrow> settle_error + UUID list \<times> 'b Graph" where
  "emitAttributeChangesForRunInTx env gate sd visited flt g =
     res_bind (bagOfRun env g (sdRunID sd)) (\<lambda>current. case current of
        None \<Rightarrow> Inr (visited, g)
      | Some cur \<Rightarrow>
          res_bind (liftAttrRead (GetPriorRunData (attrConfig env) (node_rows g) (attrs g) (sdRunID sd))) (\<lambda>priorData.
          res_bind (case priorData of Some p \<Rightarrow> Inr p | None \<Rightarrow> firstRunAttributeBaseline env (sdInstanceID sd) (sdNodeType sd)) (\<lambda>prior.
          res_foldM (\<lambda>kv (v, h). emitSignalInTxWithFilter env gate (emission sd (attributeSignal prior kv) flt) v h)
            (diffAttributesData (codecOf env) prior (narData cur)) (visited, g))))"

definition upsertDataFromDispatchInputBagIfEmpty :: "'b Env \<Rightarrow> UUID \<Rightarrow> UUID \<Rightarrow> 'b Graph \<Rightarrow> settle_error + 'b Graph" where
  "upsertDataFromDispatchInputBagIfEmpty env run node g =
     res_bind (bagOfRun env g run) (\<lambda>current.
     if (case current of None \<Rightarrow> False | Some c \<Rightarrow> narData c \<noteq> []) then Inr g
     else res_bind (liftAttrRead (GetDispatchInputBag (attrs g) run)) (\<lambda>bag.
       attrWrite (Upsert (attrConfig env) (dbNow env) run node (Some (case bag of None \<Rightarrow> [] | Some b \<Rightarrow> b))) g))"

definition EmitTerminalSuccessAndDrainInTx :: "'b Env \<Rightarrow> 'b gateFn \<Rightarrow> Sender \<Rightarrow> string \<Rightarrow> 'b Graph \<Rightarrow> settle_error + 'b Graph" where
  "EmitTerminalSuccessAndDrainInTx env gate sd changeSummary g =
     res_bind (emitSignalInTxOnce env gate sd (BuildTerminalSuccessSignal False (Some []) changeSummary []) g) (\<lambda>g1.
     res_bind (upsertDataFromDispatchInputBagIfEmpty env (sdRunID sd) (sdNodeID sd) g1) (\<lambda>g2.
     res_bind (emitAttributeChangesForRunInTx env gate sd [] (\<lambda>_. True) g2) (\<lambda>(_, g3).
     drainWaitSetOnSettled env gate (sdFrameID sd) (sdRunID sd) g3)))"

subsection \<open>Settlement by the error policy\<close>

text \<open>
  \<open>applyErrorPolicy\<close> as gate evaluation calls it. The acquisition of a gate evaluation has no locks and the run
  has not been dispatched, so it has no claim handles: releasing locks, the probe for held claims and the deletion of abandoned
  handles have nothing to do, and the branch for held runs is not taken. There is no scratch and no settle hook, and the
  function the policy returns for after the commit is discarded by the caller.
\<close>

definition settleByPolicy ::
  "'b Env \<Rightarrow> 'b gateFn \<Rightarrow> Sender \<Rightarrow> UUID \<Rightarrow> string \<Rightarrow> Signal \<Rightarrow> 'b Graph \<Rightarrow> settle_error + 'b Graph" where
  "settleByPolicy env gate sd scope kind sig g =
     (let curState = map_option State (GetRunForGate g (sdRunID sd));
          settle = (\<lambda>st reason g. nodesUpdateState (dbNow env) (sdRunID sd) st reason (Some (sigType sig)) g);
          pass = (\<lambda>reason. res_bind (settle NodeStateFresh reason g) (\<lambda>g1.
            case recordRunTreeChanged (sdRunID sd) NodeStateFresh (Some (sigType sig)) False (runs g1) of
              Inl e \<Rightarrow> Inl (RunTreeError e) | Inr rs \<Rightarrow> Inr (g1\<lparr>runs := rs\<rparr>))) in
      res_bind
        (if kind = ActionPass then
           (if curState = Some NodeStateRunning then pass ReasonHandlerPass
            else if curState = Some NodeStateStale then pass ReasonAcquirePass else Inr g)
         else if kind = ActionGiveUp \<and> (curState = Some NodeStateRunning \<or> curState = Some NodeStateStale)
           then settle NodeStateFailed ReasonPolicyGiveUp g
         else Inr g) (\<lambda>g1.
      res_bind (emitSignalInTxOnce env gate sd sig g1) (\<lambda>g2.
      res_bind (emitAttributeChangesForRunInTx env gate sd [] (\<lambda>_. True) g2) (\<lambda>(_, g3).
      res_bind (drainWaitSetOnSettled env gate (sdFrameID sd) (sdRunID sd) g3) (\<lambda>g4.
      Inr (RemoveForNode env (sdNodeID sd) scope (SupervisorID env) g4))))))"

definition applyErrorPolicy ::
  "'b Env \<Rightarrow> 'b gateFn \<Rightarrow> Sender \<Rightarrow> UUID \<Rightarrow> TemplateNodeDef option \<Rightarrow> string \<Rightarrow> jmap \<Rightarrow> 'b Graph \<Rightarrow> settle_error + 'b Graph" where
  "applyErrorPolicy env gate sd scope nodeDef errorClass body g =
     (let policy = lookupPolicyForNodeWithFallback nodeDef errorClass [];
          (maxRetries, backoff) = resolveRetryConfig nodeDef;
          resolved = Evaluate policy (GetRunEvaluatorState g (sdRunID sd)) maxRetries backoff (randFloat (lib env));
          sig = errorPolicySignal errorClass (Some body) None [] (raKind resolved) (raRetryCounter resolved) maxRetries (raDelayMs resolved) in
      res_bind (UpdateRunEvaluatorState (sdRunID sd) (raRetryCounter resolved) g) (\<lambda>g1.
      if raKind resolved = ActionRetry then
        res_bind (emitSignalInTxOnce env gate sd sig g1) (\<lambda>g2. StampPriorDispatch (sdRunID sd) (sdRunID sd) ''retry_after_error'' g2)
      else if raKind resolved = ActionReleaseAndRequeue then emitSignalInTxOnce env gate sd sig g1
      else settleByPolicy env gate sd scope (raKind resolved) sig g1))"

definition ErrorClassTemplateResolutionFailed :: string where
  "ErrorClassTemplateResolutionFailed = ''template_resolution_failed''"

fun extractDirective :: "resolve_error \<Rightarrow> string" where
  "extractDirective (ErrMissingSource d r) = d"
| "extractDirective _ = []"

text \<open>The only errors that reach it are missing sources, which \<open>classifyAttributeFailure\<close> puts in the class of failed resolutions.\<close>

definition routeSubstitutionFailureAtGate :: "'b Env \<Rightarrow> 'b gateFn \<Rightarrow> 'b routeFn" where
  "routeSubstitutionFailureAtGate env gate row failure g =
     (case failure of (name, err) \<Rightarrow> (case nodesGet env (NodeID row) of
        None \<Rightarrow> Inr g
      | Some node \<Rightarrow>
          res_bind (templateSpecOf env (nr_instance_id node)) (\<lambda>t.
          res_bind (clockNow env) (\<lambda>now.
          let g1 = g\<lparr>audit := audit g @ [ResolutionFailed (NodeID row) (nr_instance_id node) ErrorClassTemplateResolutionFailed
                 (extractDirective err) ''attribute'' name err]\<rparr> in
          res_bind (TransitionPendingToStale (NodeRunID row) now g1) (\<lambda>g2.
          applyErrorPolicy env gate
            \<lparr>sdNodeID = NodeID row, sdNodeType = nr_node_type node, sdRunID = NodeRunID row, sdInstanceID = nr_instance_id node, sdFrameID = FrameID row\<rparr>
            (RunScopeID row) (LookupNodeDef t (nr_node_type node)) ErrorClassTemplateResolutionFailed
            [(''error'', VStr (errorText (lib env) name err))] g2)))))"

subsection \<open>The knot\<close>

text \<open>\<open>gateAt n\<close> allows \<open>n\<close> nested settlements by the error policy; running out of them is the error \<open>CascadeUnfinished\<close>.\<close>

fun gateAt :: "nat \<Rightarrow> 'b Env \<Rightarrow> 'b gateFn" where
  "gateAt 0 env run g = Inl CascadeUnfinished"
| "gateAt (Suc n) env run g = evaluateOneGate env (routeSubstitutionFailureAtGate env (gateAt n env)) run g"

subsection \<open>An example\<close>

text \<open>A template in which \<open>report\<close> subscribes to the terminal signals of \<open>load\<close>, and a run of \<open>load\<close> that has just settled.\<close>

definition reportTemplate :: TemplateSpec where
  "reportTemplate = exampleTemplate\<lparr>Nodes := [plainNode ''load'', (plainNode ''report'')\<lparr>Subscribes :=
     [\<lparr>subNode = ''load'', subType = ''terminal/*'', subWhen = [], ForceUpstreamRefresh = Some True, ResolvesViaCallingNode = False\<rparr>]\<rparr>]\<rparr>"

definition reportEnv :: "unit Env" where
  "reportEnv = exampleEnv\<lparr>templates := [(''t'', reportTemplate)],
     nodes := [\<lparr>nr_id = 7, nr_instance_id = 8, nr_node_type = ''load'', nr_executor = [], nr_cascade_mode = []\<rparr>,
               \<lparr>nr_id = 9, nr_instance_id = 8, nr_node_type = ''report'', nr_executor = [], nr_cascade_mode = []\<rparr>]\<rparr>"

definition loadRun :: NodeRunRow where
  "loadRun = baseRow 5 7 3 4 NodeStateFresh CreationReasonCascade 0 (exampleGraph [])"

definition loadGraph :: "unit Graph" where
  "loadGraph = exampleGraph [loadRun]"

definition loadSender :: Sender where
  "loadSender = \<lparr>sdNodeID = 7, sdNodeType = ''load'', sdRunID = 5, sdInstanceID = 8, sdFrameID = 4\<rparr>"

definition loadEmission :: SignalEmission where
  "loadEmission = emission loadSender (BuildTerminalSuccessSignal False (Some []) [] []) (\<lambda>_. True)"

definition runsAndWaits :: "'b Graph \<Rightarrow> (UUID \<times> UUID \<times> NodeState) list \<times> (UUID \<times> UUID \<times> UUID \<times> time option) list" where
  "runsAndWaits g = (map (\<lambda>r. (NodeRunID r, NodeID r, State r)) (node_rows g), map (\<lambda>w. (wsFrameID w, wsReceiver w, wsSender w, wsDrainedAt w)) (wait_set g))"

text \<open>The signal reaches \<open>report\<close>, whose new run waits for the run of \<open>load\<close>; the settlement goes on to drain the wait and to admit the new run.\<close>

lemma loadEmission_cascades:
  "map_sum id (runsAndWaits \<circ> snd) (cascadeSubscribersStaleInTxWithVisited reportEnv (gateAt 1 reportEnv) loadEmission [] loadGraph) =
     Inr ([(5, 7, NodeStateFresh), (10, 9, NodeStatePending)], [(4, 10, 5, None)])"
  by code_simp

lemma load_settles:
  "map_sum id runsAndWaits (EmitTerminalSuccessAndDrainInTx reportEnv (gateAt 1 reportEnv) loadSender [] loadGraph) =
     Inr ([(5, 7, NodeStateFresh), (10, 9, NodeStateStale)], [(4, 10, 5, Some 5)])"
  by code_simp

lemma report_edge:
  "map_sum id (\<lambda>es. map (\<lambda>e. (ReceiverNodeType e, WhenExpr e)) (Match es ''load'' ''terminal/success'')) (subscriptionEdgesForTemplate reportEnv ''t'') =
     Inr [(''report'', [])]"
  by code_simp

text \<open>The graph between the emission and the draining: the run of \<open>report\<close> waits.\<close>

definition waitingGraph :: "unit Graph" where
  "waitingGraph = (case emitSignalInTxOnce reportEnv (gateAt 1 reportEnv) loadSender (BuildTerminalSuccessSignal False (Some []) [] []) loadGraph of
     Inl _ \<Rightarrow> loadGraph | Inr g \<Rightarrow> g)"

lemma waitingGraph_waits: "runsAndWaits waitingGraph = ([(5, 7, NodeStateFresh), (10, 9, NodeStatePending)], [(4, 10, 5, None)])"
  by code_simp

lemma waitingGraph_drains:
  "map_sum id runsAndWaits (drainWaitSetOnSettled reportEnv (gateAt 1 reportEnv) 4 5 waitingGraph) =
     Inr ([(5, 7, NodeStateFresh), (10, 9, NodeStateStale)], [(4, 10, 5, Some 5)])"
  by code_simp

end
