(* ===== verification/Cascade_Steps.thy ===== *)
theory Cascade_Steps
  imports Cascade_Walk Dispatch_Queue_Props
begin

text \<open>
  The cascade as a sequence of steps. \<open>cascade_step\<close> lists what one statement of the cascade, or one admission through a gate,
  may do to the tables, with the conditions under which the code does it; the locale \<open>gate_client\<close> shows that every function of
  the walk is a sequence of such steps if gate evaluation is, and the interpretation closes the recursion. The
  properties of the cascade are then proved once per step.
\<close>

subsection \<open>Steps\<close>

text \<open>The runs a cascade that starts in \<open>g\<close> may settle: those that are pending in \<open>g\<close> and those it creates.\<close>

definition movable :: "'b Graph \<Rightarrow> UUID \<Rightarrow> bool" where
  "movable g d \<longleftrightarrow> next_id g \<le> d \<or> (\<exists>r \<in> set (node_rows g). NodeRunID r = d \<and> State r = NodeStatePending)"

definition inFlight :: "'b Graph \<Rightarrow> UUID \<Rightarrow> bool" where
  "inFlight g d \<longleftrightarrow> (\<exists>r \<in> set (node_rows g). NodeRunID r = d \<and> IsInFlight (State r))"

text \<open>\<open>D\<close> are the runs that may be settled and drained, \<open>W\<close> the runs that new rows of the wait set may name as senders;
  they may also name a run in flight.\<close>

inductive cascade_step :: "'b Env \<Rightarrow> (UUID \<Rightarrow> bool) \<Rightarrow> (UUID \<Rightarrow> bool) \<Rightarrow> 'b Graph \<Rightarrow> 'b Graph \<Rightarrow> bool" for env D W where
  cs_create: "CreateCascadePending env node scope frame g = Inr (i, g') \<Longrightarrow> cascade_step env D W g g'"
| cs_wait: "waitSetInsert w g = Inr g' \<Longrightarrow> W (wsSender w) \<or> inFlight g (wsSender w) \<Longrightarrow> cascade_step env D W g g'"
| cs_drain: "D s \<Longrightarrow> cascade_step env D W g (MarkDrainedBySender env frame s g)"
| cs_resume: "resumeParkedRunInTx env i node inst WakeUpstreamCascade g = Inr (b, g') \<Longrightarrow> cascade_step env D W g g'"
| cs_admit: "GetRunForGate g run = Some row \<Longrightarrow> gateOpen env g row = Inr True \<Longrightarrow> admitResolved env row bag g = Inr g' \<Longrightarrow>
    cascade_step env D W g g'"
| cs_fail: "GetRunForGate g run = Some row \<Longrightarrow> gateOpen env g row = Inr True \<Longrightarrow>
    TransitionPendingToStale (NodeRunID row) now (g\<lparr>audit := a\<rparr>) = Inr g' \<Longrightarrow> cascade_step env D W g g'"
| cs_pass: "D i \<Longrightarrow> GetRunForGate g i = Some r \<Longrightarrow> State r = NodeStateStale \<Longrightarrow>
    nodesUpdateState now i NodeStateFresh ReasonAcquirePass (Some sig) g = Inr g1 \<Longrightarrow>
    recordRunTreeChanged i NodeStateFresh (Some sig) False (runs g1) = Inr rs \<Longrightarrow> cascade_step env D W g (g1\<lparr>runs := rs\<rparr>)"
| cs_giveUp: "D i \<Longrightarrow> GetRunForGate g i = Some r \<Longrightarrow> State r = NodeStateStale \<Longrightarrow>
    nodesUpdateState now i NodeStateFailed ReasonPolicyGiveUp (Some sig) g = Inr g' \<Longrightarrow> cascade_step env D W g g'"
| cs_counter: "D i \<Longrightarrow> UpdateRunEvaluatorState i n g = Inr g' \<Longrightarrow> cascade_step env D W g g'"
| cs_stamp: "D i \<Longrightarrow> StampPriorDispatch i i d g = Inr g' \<Longrightarrow> cascade_step env D W g g'"
| cs_remove: "cascade_step env D W g (RemoveForNode env node scope s g)"
| cs_audit: "cascade_step env D W g (g\<lparr>audit := a\<rparr>)"

lemma cascade_step_mono:
  "cascade_step env D W g g' \<Longrightarrow> (\<And>d. D d \<Longrightarrow> D' d) \<Longrightarrow> (\<And>d. W d \<Longrightarrow> W' d) \<Longrightarrow> cascade_step env D' W' g g'"
  by (induction rule: cascade_step.induct) (blast intro: cascade_step.intros)+

lemma attrWrite_Inr: "attrWrite f g = Inr g' \<Longrightarrow> \<exists>s. g' = g\<lparr>attrs := s\<rparr>"
  by (auto simp: attrWrite_def split: prod.splits option.splits)

text \<open>What an admission does: it drops the run, or leaves it pending behind an advanced sibling, or makes it stale; in mode
  \<open>most-recent\<close> the superseded runs are deleted first.\<close>

lemma admitResolved_cases:
  assumes "admitResolved env row bag g = Inr g'"
  obtains (drop) "DropPendingRun env (NodeRunID row) g = Inr g'"
  | (wait) "g' = g"
  | (wait_superseding) "g' = DeletePriorCascadeStales env (NodeID row) (RunScopeID row) (sequence row) g"
  | (admit) g1 s now where "g1 = g \<or> g1 = DeletePriorCascadeStales env (NodeID row) (RunScopeID row) (sequence row) g"
      and "\<not> HasAdvancedSiblingInScope g1 (NodeID row) (RunScopeID row) (NodeRunID row)"
      and "TransitionPendingToStale (NodeRunID row) now (g1\<lparr>attrs := s\<rparr>) = Inr g'"
proof -
  from assms obtain dr g1 where mode: "applyCascadeModeRule env row bag (GetCascadeMode env (NodeID row)) g = Inr (dr, g1)"
    and rest: "(if dr then DropPendingRun env (NodeRunID row) g1
       else if HasAdvancedSiblingInScope g1 (NodeID row) (RunScopeID row) (NodeRunID row) then Inr g1
       else res_bind (attrWrite (Upsert (attrConfig env) (dbNow env) (NodeRunID row) (NodeID row) (Some bag)) g1) (\<lambda>g2.
         res_bind (attrWrite (SetDispatchInputBag (attrConfig env) (dbNow env) (NodeRunID row) (NodeID row) (Some bag)) g2) (\<lambda>g3.
         res_bind (clockNow env) (\<lambda>now. TransitionPendingToStale (NodeRunID row) now g3)))) = Inr g'"
    by (auto simp: admitResolved_def res_bind_Inr_iff)
  have g1: "g1 = g \<or> \<not> dr \<and> g1 = DeletePriorCascadeStales env (NodeID row) (RunScopeID row) (sequence row) g"
    using mode by (auto simp: applyCascadeModeRule_def res_bind_Inr_iff split: if_splits)
  consider "dr" | "\<not> dr" "HasAdvancedSiblingInScope g1 (NodeID row) (RunScopeID row) (NodeRunID row)"
    | "\<not> dr" "\<not> HasAdvancedSiblingInScope g1 (NodeID row) (RunScopeID row) (NodeRunID row)" by blast
  then show thesis
  proof cases
    case 1
    with rest g1 drop show thesis by simp
  next
    case 2
    with rest g1 wait wait_superseding show thesis by auto
  next
    case 3
    with rest obtain g2 g3 now where w: "attrWrite (Upsert (attrConfig env) (dbNow env) (NodeRunID row) (NodeID row) (Some bag)) g1 = Inr g2"
      "attrWrite (SetDispatchInputBag (attrConfig env) (dbNow env) (NodeRunID row) (NodeID row) (Some bag)) g2 = Inr g3"
      and t: "TransitionPendingToStale (NodeRunID row) now g3 = Inr g'"
      by (auto simp: res_bind_Inr_iff)
    then obtain s where "g3 = g1\<lparr>attrs := s\<rparr>" by (auto dest!: attrWrite_Inr)
    with t have "TransitionPendingToStale (NodeRunID row) now (g1\<lparr>attrs := s\<rparr>) = Inr g'" by simp
    with 3 g1 admit show thesis by blast
  qed
qed

subsection \<open>The rows after a statement\<close>

lemma TransitionPendingToStale_rows:
  assumes "TransitionPendingToStale i now g = Inr g'"
  shows "node_rows g' = update_where (\<lambda>x. NodeRunID x = i \<and> State x = NodeStatePending)
      (\<lambda>x. x\<lparr>State := NodeStateStale, enqueued_at := now\<rparr>) (node_rows g)"
    and "next_id g' = next_id g" and "wait_set g' = wait_set g" and "frames g' = frames g"
    and "run_scopes (runs g') = run_scopes (runs g)"
  using assms by (auto simp: TransitionPendingToStale_def Let_def split: sum.splits if_splits)

lemma nodesUpdateState_rows:
  assumes "nodesUpdateState now i st rs sig g = Inr g'"
  shows "node_rows g' = update_where (\<lambda>x. NodeRunID x = i)
      (\<lambda>x. x\<lparr>State := st, SettlingSignalType := (if sig = None then SettlingSignalType x else sig)\<rparr>) (node_rows g)"
    and "next_id g' = next_id g" and "wait_set g' = wait_set g" and "run_scopes (runs g') = run_scopes (runs g)"
  using assms by (auto simp: nodesUpdateState_def split: option.splits sum.splits if_splits)

lemma CreateCascadePending_rows:
  assumes "CreateCascadePending env node scope frame g = Inr (i, g')"
  obtains row where "node_rows g' = node_rows g @ [row]" "NodeRunID row = next_id g" "i = next_id g" "State row = NodeStatePending"
    "NodeID row = node" "RunScopeID row = scope" "FrameID row = frame" "creation_reason row = CreationReasonCascade" "claimed_by row = None"
    "next_id g' = next_id g + 1" "wait_set g' = wait_set g" "frames g' = frames g" "run_scopes (runs g') = run_scopes (runs g)"
    "sequence row = nextSequence (node_rows g) node scope"
proof (cases "nodesGet env node")
  case (Some n)
  with assms have "i = next_id g" "g' = insertRow ((baseRow (next_id g) node scope frame NodeStatePending CreationReasonCascade (dbNow env) g)
       \<lparr>executor_name := nullableString (nr_executor n)\<rparr>) g"
    by (auto simp: CreateCascadePending_def split: if_splits)
  then show ?thesis by (intro that [OF _ _ _ _ _ _ _ _ _ _ _ _ _ _]) (auto simp: insertRow_def baseRow_def withRows_def)
qed (use assms in \<open>simp add: CreateCascadePending_def\<close>)

text \<open>How a run evolves: pending and parked runs may become stale, stale runs settle, the others stay as they are.\<close>

definition spared :: "NodeState \<Rightarrow> bool" where
  "spared st \<longleftrightarrow> st = NodeStateRunning \<or> st = NodeStateHeld \<or> st = NodeStateFresh \<or> st = NodeStateFailed"

definition becomes :: "NodeState \<Rightarrow> NodeState \<Rightarrow> bool" where
  "becomes a b \<longleftrightarrow> (spared a \<longrightarrow> b = a) \<and> (b = NodeStatePending \<longrightarrow> a = NodeStatePending) \<and> (b = NodeStateParked \<longrightarrow> a = NodeStateParked)"

lemma becomes_refl [simp]: "becomes a a"
  by (simp add: becomes_def)

lemma becomes_trans: "becomes a b \<Longrightarrow> becomes b c \<Longrightarrow> becomes a c"
  unfolding becomes_def by metis

lemma becomes_spared: "becomes a b \<Longrightarrow> spared a \<Longrightarrow> b = a"
  unfolding becomes_def by blast

definition run_evolves :: "NodeRunRow \<Rightarrow> NodeRunRow \<Rightarrow> bool" where
  "run_evolves r r' \<longleftrightarrow> NodeRunID r' = NodeRunID r \<and> NodeID r' = NodeID r \<and> RunScopeID r' = RunScopeID r \<and> FrameID r' = FrameID r \<and>
     sequence r' = sequence r \<and> creation_reason r' = creation_reason r \<and>
     becomes (State r) (State r') \<and>
     (spared (State r) \<longrightarrow> SettlingSignalType r' = SettlingSignalType r \<and> Changed r' = Changed r)"

lemma run_evolves_refl [simp]: "run_evolves r r"
  by (simp add: run_evolves_def)

lemma run_evolves_trans: "run_evolves a b \<Longrightarrow> run_evolves b c \<Longrightarrow> run_evolves a c"
  unfolding run_evolves_def using becomes_trans becomes_spared by metis

definition evolution :: "'b Graph \<Rightarrow> 'b Graph \<Rightarrow> bool" where
  "evolution g g' \<longleftrightarrow> next_id g \<le> next_id g' \<and>
     (\<forall>r' \<in> set (node_rows g'). next_id g \<le> NodeRunID r' \<or> (\<exists>r \<in> set (node_rows g). run_evolves r r')) \<and>
     (\<forall>r \<in> set (node_rows g). spared (State r) \<longrightarrow> (\<exists>r' \<in> set (node_rows g'). run_evolves r r'))"

lemma evolution_same: "node_rows g' = node_rows g \<Longrightarrow> next_id g' = next_id g \<Longrightarrow> evolution g g'"
  unfolding evolution_def by (metis run_evolves_refl order_refl)

lemma evolution_trans:
  assumes "evolution a b" and "evolution b c"
  shows "evolution a c"
  unfolding evolution_def
proof (intro conjI ballI impI)
  show "next_id a \<le> next_id c" using assms by (auto simp: evolution_def)
next
  fix r'' assume "r'' \<in> set (node_rows c)"
  then consider "next_id b \<le> NodeRunID r''" | r' where "r' \<in> set (node_rows b)" "run_evolves r' r''"
    using assms(2) unfolding evolution_def by blast
  then show "next_id a \<le> NodeRunID r'' \<or> (\<exists>r \<in> set (node_rows a). run_evolves r r'')"
  proof cases
    case 1
    with assms(1) show ?thesis by (auto simp: evolution_def)
  next
    case (2 r')
    moreover from this have "NodeRunID r'' = NodeRunID r'" by (simp add: run_evolves_def)
    ultimately show ?thesis using assms(1) unfolding evolution_def by (metis run_evolves_trans)
  qed
next
  fix r assume r: "r \<in> set (node_rows a)" "spared (State r)"
  then obtain r' where r': "r' \<in> set (node_rows b)" "run_evolves r r'" using assms(1) unfolding evolution_def by blast
  moreover from r(2) r'(2) have "spared (State r')" using becomes_spared unfolding run_evolves_def by metis
  ultimately show "\<exists>r'' \<in> set (node_rows c). run_evolves r r''" using assms(2) unfolding evolution_def by (meson run_evolves_trans)
qed

lemma evolution_update:
  assumes "node_rows g' = update_where p f (node_rows g)" and "next_id g' = next_id g"
    and "\<And>x. x \<in> set (node_rows g) \<Longrightarrow> p x \<Longrightarrow> run_evolves x (f x)"
  shows "evolution g g'"
proof -
  have "run_evolves x (if p x then f x else x)" if "x \<in> set (node_rows g)" for x using assms(3) [OF that] by simp
  then show ?thesis unfolding evolution_def assms(1,2) ball_update_where set_update_where by blast
qed

lemma evolution_updateRuns: "(\<And>x. p x \<Longrightarrow> run_evolves x (f x)) \<Longrightarrow> evolution g (updateRuns p f g)"
  by (rule evolution_update [of _ p f]) simp_all

lemma evolution_purge:
  assumes "\<And>x. x \<in> set (node_rows g) \<Longrightarrow> p x \<Longrightarrow> \<not> spared (State x)"
  shows "evolution g (deleteRuns env p g)"
proof -
  let ?S = "map NodeRunID (filter p (node_rows g))"
  have rows: "node_rows (deleteRuns env p g) = map (clearPrior ?S) (filter (\<lambda>r. \<not> p r) (node_rows g))" "next_id (deleteRuns env p g) = next_id g"
    by (simp_all add: deleteRuns_def purgeRuns_rows)
  have "run_evolves x (clearPrior ?S x)" for x
    by (cases "prior_dispatch_id x") (simp_all add: run_evolves_def clearPrior_def)
  with assms show ?thesis unfolding evolution_def rows by auto
qed

lemma evolution_insert: "CreateCascadePending env node scope frame g = Inr (i, g') \<Longrightarrow> evolution g g'"
proof (erule CreateCascadePending_rows)
  fix row assume "node_rows g' = node_rows g @ [row]" "NodeRunID row = next_id g" "next_id g' = next_id g + 1"
  then show "evolution g g'" unfolding evolution_def by (auto intro: run_evolves_refl)
qed

subsection \<open>The invariant and the evolution of the runs\<close>

lemma run_inv_row_eq:
  assumes "run_inv g" and "GetRunForGate g i = Some r" and "x \<in> set (node_rows g)" and "NodeRunID x = i"
  shows "x = r"
  using assms row_of_Some_iff [OF run_invD(1) [OF assms(1)], of i x] by (simp add: GetRunForGate_def runGetByID_def)

lemma GetRunForGate_SomeD: "GetRunForGate g i = Some r \<Longrightarrow> r \<in> set (node_rows g) \<and> NodeRunID r = i"
  unfolding GetRunForGate_def runGetByID_def by (rule row_of_SomeD)

lemma recordRunTreeChanged_rows:
  assumes "recordRunTreeChanged i st (Some v) c s = Inr s'"
  shows "node_runs s' = update_where (\<lambda>r. NodeRunID r = i) (\<lambda>r. r\<lparr>State := st, SettlingSignalType := Some v, Changed := c\<rparr>) (node_runs s)"
    and "run_scopes s' = run_scopes s"
  using assms by (auto simp: recordRunTreeChanged_def UpdateStateAndOutcome_def Let_def split: if_splits)

lemma update_where_twice:
  assumes "\<And>x. p (f x) = p x"
  shows "update_where p h (update_where p f rows) = update_where p (\<lambda>x. h (f x)) rows"
  using assms by (simp add: update_where_def)

lemma queue_step_attrs: "run_inv (g\<lparr>attrs := s\<rparr>) = run_inv g" "run_inv (g\<lparr>audit := a\<rparr>) = run_inv g" "run_inv (g\<lparr>wait_set := w\<rparr>) = run_inv g"
  by (simp_all add: run_inv_def)

lemma admitResolved_inv:
  assumes "admitResolved env row bag g = Inr g'" and "run_inv g"
  shows "run_inv g'"
  using assms(1)
proof (cases rule: admitResolved_cases)
  case drop
  then show ?thesis using assms(2) by (blast intro: queue_step_inv step_DropPendingRun)
next
  case wait_superseding
  then show ?thesis using assms(2) by (blast intro: queue_step_inv step_DeletePriorCascadeStales)
next
  case (admit g1 s now)
  then have "run_inv (g1\<lparr>attrs := s\<rparr>)"
    using assms(2) by (auto simp: queue_step_attrs intro: queue_step_inv step_DeletePriorCascadeStales)
  with admit(3) show ?thesis by (blast intro: queue_step_inv step_TransitionPendingToStale)
qed (use assms(2) in simp)

lemma recordRunTreeChanged_inv:
  assumes "recordRunTreeChanged i st (Some v) c (runs g) = Inr rs" and "run_inv g" and "st \<noteq> NodeStateHeld" and "st \<noteq> NodeStateParked"
  shows "run_inv (g\<lparr>runs := rs\<rparr>)"
proof -
  let ?f = "\<lambda>x. x\<lparr>State := st, SettlingSignalType := Some v, Changed := c\<rparr>"
  have "node_rows (g\<lparr>runs := rs\<rparr>) = node_rows (updateRuns (\<lambda>x. NodeRunID x = i) ?f g)"
    using recordRunTreeChanged_rows(1) [OF assms(1)] by simp
  moreover have "run_inv (updateRuns (\<lambda>x. NodeRunID x = i) ?f g)"
    by (rule updateRuns_shrink [OF assms(2)]) (use assms(3,4) in \<open>auto simp: identity_simps\<close>)
  ultimately show ?thesis by (simp add: run_inv_def)
qed

lemma cascade_step_inv:
  assumes "cascade_step env D W g g'" and "run_inv g"
  shows "run_inv g'"
  using assms
proof (induction rule: cascade_step.induct)
  case (cs_wait w g g')
  then show ?case by (auto simp: waitSetInsert_def queue_step_attrs split: if_splits)
next
  case (cs_admit g run row bag g')
  then show ?case by (blast intro: admitResolved_inv)
next
  case (cs_fail g run row now a g')
  then have "run_inv (g\<lparr>audit := a\<rparr>)" by (simp add: queue_step_attrs)
  with cs_fail(3) show ?case by (blast intro: queue_step_inv step_TransitionPendingToStale)
next
  case (cs_pass i g r now sig g1 rs)
  then show ?case by (auto intro: recordRunTreeChanged_inv nodesUpdateState_inv)
next
  case (cs_resume i node inst g b g')
  then show ?case by (blast intro: resumeParkedRunInTx_inv)
qed (auto simp: queue_step_attrs MarkDrainedBySender_def
      intro: queue_step_inv step_CreateCascadePending step_UpdateState step_UpdateRunEvaluatorState step_StampPriorDispatch step_RemoveForNode)

lemmas evolves_simps = run_evolves_def becomes_def spared_def

lemma TransitionPendingToStale_evolution: "TransitionPendingToStale i now g = Inr g' \<Longrightarrow> evolution g g'"
  by (rule evolution_update [OF TransitionPendingToStale_rows(1,2)]) (auto simp: evolves_simps)

lemma DeletePriorCascadeStales_evolution: "evolution g (DeletePriorCascadeStales env node scope n g)"
  unfolding DeletePriorCascadeStales_def by (rule evolution_purge) (simp add: supersededBy_def spared_def)

lemma admitResolved_evolution:
  assumes "admitResolved env row bag g = Inr g'"
  shows "evolution g g'"
  using assms
proof (cases rule: admitResolved_cases)
  case drop
  then show ?thesis by (auto simp: DropPendingRun_def Let_def spared_def intro!: evolution_purge split: if_splits)
next
  case (admit g1 s now)
  have "evolution g g1" using admit(1) evolution_same DeletePriorCascadeStales_evolution by auto
  moreover have "evolution g1 (g1\<lparr>attrs := s\<rparr>)" by (rule evolution_same) simp_all
  ultimately show ?thesis using TransitionPendingToStale_evolution [OF admit(3)] evolution_trans by blast
qed (simp_all add: evolution_same DeletePriorCascadeStales_evolution)

lemma nodesUpdateState_evolution:
  assumes "nodesUpdateState now i st rs sig g = Inr g'" and "run_inv g" and "GetRunForGate g i = Some r"
    and "\<not> spared (State r)" and "st \<noteq> NodeStatePending" and "st \<noteq> NodeStateParked"
  shows "evolution g g'"
proof (rule evolution_update [OF nodesUpdateState_rows(1,2) [OF assms(1)]])
  fix x assume "x \<in> set (node_rows g)" "NodeRunID x = i"
  then have "x = r" using run_inv_row_eq [OF assms(2,3)] by blast
  then show "run_evolves x (x\<lparr>State := st, SettlingSignalType := (if sig = None then SettlingSignalType x else sig)\<rparr>)"
    using assms(4-6) by (simp add: run_evolves_def becomes_def)
qed

lemma ResumeParked_evolution: "evolution g (snd (ResumeParked i g))"
  unfolding ResumeParked_def updateMatched_def snd_conv
  by (rule evolution_updateRuns) (simp add: run_evolves_def)

lemma resumeParkedRunInTx_evolution:
  assumes "resumeParkedRunInTx env i node inst wr g = Inr (b, g')" and "run_inv g"
  shows "evolution g g'"
proof (cases "ResumeParked i g")
  case (Pair b1 g1)
  then have g1: "evolution g g1" "run_inv g1"
    using ResumeParked_evolution [of g i] assms(2) queue_step_inv [OF step_ResumeParked] by (simp, blast)
  show ?thesis
  proof (cases b1)
    case True
    let ?p = "\<lambda>x. NodeRunID x = i \<and> State x = NodeStateParked"
    let ?f = "\<lambda>x. x\<lparr>claimed_by := None, NodeRunRow.claimed_at := None, parked_at := None, resume_at := None\<rparr>"
    have parked: "affected ?p (node_rows g) = 1" "g1 = updateRuns ?p ?f g"
      using Pair True by (simp_all add: ResumeParked_def updateMatched_def)
    then have "affected ?p (node_rows g) \<noteq> 0" by simp
    then obtain r where r: "r \<in> set (node_rows g)" "?p r" unfolding affected_0_iff by blast
    then have "?f r \<in> set (node_rows g1)" unfolding parked(2) node_rows_simps set_update_where by force
    then have "GetRunForGate g1 i = Some (?f r)"
      using row_of_Some_iff [OF run_invD(1) [OF g1(2)], of i "?f r"] r(2) by (simp add: GetRunForGate_def runGetByID_def)
    then obtain r1 where r1: "GetRunForGate g1 i = Some r1" "State r1 = NodeStateParked" using r(2) by simp
    obtain g2 where g2: "nodesUpdateState (dbNow env) i NodeStateStale (transitionReasonForWake wr) None g1 = Inr g2"
      and g': "node_rows g' = node_rows g2" "next_id g' = next_id g2"
      using assms(1) Pair True by (auto simp: resumeParkedRunInTx_def res_bind_Inr_iff)
    have "evolution g1 g2" by (rule nodesUpdateState_evolution [OF g2 g1(2) r1(1)]) (simp_all add: r1(2) spared_def)
    then show ?thesis using g1(1) evolution_same [OF g'] evolution_trans by blast
  qed (use assms(1) Pair g1 in \<open>simp add: resumeParkedRunInTx_def\<close>)
qed

lemma cs_pass_rows:
  assumes "nodesUpdateState now i NodeStateFresh rs (Some sig) g = Inr g1"
    and "recordRunTreeChanged i NodeStateFresh (Some sig) False (runs g1) = Inr rn"
  shows "node_rows (g1\<lparr>runs := rn\<rparr>) = update_where (\<lambda>x. NodeRunID x = i)
    (\<lambda>x. x\<lparr>State := NodeStateFresh, SettlingSignalType := Some sig, Changed := False\<rparr>) (node_rows g)"
  using recordRunTreeChanged_rows(1) [OF assms(2)] nodesUpdateState_rows(1) [OF assms(1)]
  by (simp add: update_where_twice)

lemma cascade_step_evolution:
  assumes "cascade_step env D W g g'" and "run_inv g"
  shows "evolution g g'"
  using assms
proof (induction rule: cascade_step.induct)
  case (cs_create node scope frame g i g')
  then show ?case by (blast intro: evolution_insert)
next
  case (cs_admit g run row bag g')
  then show ?case by (blast intro: admitResolved_evolution)
next
  case (cs_fail g run row now a g')
  have "evolution g (g\<lparr>audit := a\<rparr>)" by (rule evolution_same) simp_all
  then show ?case using TransitionPendingToStale_evolution [OF cs_fail(3)] evolution_trans by blast
next
  case (cs_pass i g r now sig g1 rs)
  show ?case
  proof (rule evolution_update [OF cs_pass_rows [OF cs_pass(4,5)]])
    fix x assume "x \<in> set (node_rows g)" "NodeRunID x = i"
    then have "x = r" using run_inv_row_eq [OF cs_pass.prems cs_pass(2)] by blast
    then show "run_evolves x (x\<lparr>State := NodeStateFresh, SettlingSignalType := Some sig, Changed := False\<rparr>)"
      using cs_pass(3) by (simp add: evolves_simps)
  qed (simp add: nodesUpdateState_rows(2) [OF cs_pass(4)])
next
  case (cs_giveUp i g r now sig g')
  show ?case by (rule nodesUpdateState_evolution [OF cs_giveUp(4) cs_giveUp.prems cs_giveUp(2)]) (simp_all add: cs_giveUp(3) spared_def)
next
  case (cs_resume i node inst g b g')
  then show ?case by (blast intro: resumeParkedRunInTx_evolution)
next
  case (cs_counter i n g g')
  then show ?case by (auto simp: UpdateRunEvaluatorState_def run_evolves_def intro!: evolution_updateRuns split: if_splits)
next
  case (cs_stamp i d g g')
  then show ?case by (auto simp: StampPriorDispatch_def run_evolves_def intro!: evolution_updateRuns split: if_splits)
next
  case (cs_remove g node scope s)
  then show ?case by (auto simp: RemoveForNode_def run_evolves_def intro!: evolution_updateRuns)
next
  case (cs_wait w g g')
  then show ?case by (auto simp: waitSetInsert_def intro!: evolution_same split: if_splits)
qed (simp_all add: evolution_same MarkDrainedBySender_def)

subsection \<open>Sequences of steps\<close>

text \<open>\<open>after env g0 S g\<close>: the cascade reaches \<open>g\<close> from \<open>g0\<close>. It drains and settles only runs that are movable in \<open>g0\<close>;
  new rows of the wait set name these runs, runs in flight and the runs of \<open>S\<close> as senders.\<close>

definition after :: "'b Env \<Rightarrow> 'b Graph \<Rightarrow> UUID set \<Rightarrow> 'b Graph \<Rightarrow> bool" where
  "after env g0 S g \<longleftrightarrow> run_inv g0 \<and> (cascade_step env (movable g0) (\<lambda>d. movable g0 d \<or> d \<in> S))\<^sup>*\<^sup>* g0 g"

lemma after_refl: "run_inv g0 \<Longrightarrow> after env g0 S g0"
  by (simp add: after_def)

lemma after_step:
  "after env g0 S g \<Longrightarrow> cascade_step env (movable g0) (\<lambda>d. movable g0 d \<or> d \<in> S) g g' \<Longrightarrow> after env g0 S g'"
  unfolding after_def by (blast intro: rtranclp.rtrancl_into_rtrancl)

text \<open>An invariant of the steps holds after the cascade.\<close>

lemma after_induct [consumes 1, case_names start step]:
  assumes "after env g0 S g" and "P g0"
    and "\<And>g g'. run_inv g \<Longrightarrow> after env g0 S g \<Longrightarrow> P g \<Longrightarrow> cascade_step env (movable g0) (\<lambda>d. movable g0 d \<or> d \<in> S) g g' \<Longrightarrow> P g'"
  shows "P g"
proof -
  have "run_inv g0" and "(cascade_step env (movable g0) (\<lambda>d. movable g0 d \<or> d \<in> S))\<^sup>*\<^sup>* g0 g" using assms(1) by (simp_all add: after_def)
  from this(2) have "run_inv g \<and> P g"
  proof (induction rule: rtranclp_induct)
    case (step y z)
    have "after env g0 S y" using step(1) \<open>run_inv g0\<close> by (simp add: after_def)
    then show ?case using step assms(3) cascade_step_inv by blast
  qed (simp add: assms(2) \<open>run_inv g0\<close>)
  then show ?thesis by simp
qed

lemma after_start: "after env g0 S g \<Longrightarrow> run_inv g0"
  by (simp add: after_def)

lemma after_inv:
  assumes "after env g0 S g"
  shows "run_inv g"
  using assms by (rule after_induct) (blast intro: after_start [OF assms] cascade_step_inv)+

lemma after_evolution: "after env g0 S g \<Longrightarrow> evolution g0 g"
  by (induction rule: after_induct) (blast intro: evolution_same evolution_trans cascade_step_evolution)+

lemma movable_evolution: "evolution g g' \<Longrightarrow> movable g' d \<Longrightarrow> movable g d"
  unfolding movable_def evolution_def run_evolves_def becomes_def by (metis order_trans)

lemma GetInFlightRunForNode_inFlight:
  assumes "GetInFlightRunForNode g n scope = Some i"
  shows "inFlight g i"
proof (cases "sort_key sequence (filter (\<lambda>r. NodeID r = n \<and> RunScopeID r = scope \<and> IsInFlight (State r)) (node_rows g))")
  case (Cons r rs)
  then have "r \<in> set (filter (\<lambda>r. NodeID r = n \<and> RunScopeID r = scope \<and> IsInFlight (State r)) (node_rows g))"
    by (metis list.set_intros(1) set_sort)
  then show ?thesis using assms Cons by (auto simp: GetInFlightRunForNode_def inFlight_def)
qed (use assms in \<open>simp add: GetInFlightRunForNode_def\<close>)

lemma res_foldM_pair:
  assumes "res_foldM F xs (v, g) = Inr (v', g')" and "P g"
    and "\<And>x v g v' g'. x \<in> set xs \<Longrightarrow> P g \<Longrightarrow> F x (v, g) = Inr (v', g') \<Longrightarrow> P g'"
  shows "P g'"
proof -
  have "P (snd (v', g'))"
    by (rule res_foldM_invariant [where P = "\<lambda>s. P (snd s)", OF assms(1)]) (use assms(2,3) in \<open>auto simp: split_paired_all\<close>)
  then show ?thesis by simp
qed

text \<open>The stages of the walk to one receiver.\<close>

definition wakeReceiver :: "'b Env \<Rightarrow> UUID \<Rightarrow> NodeRow \<Rightarrow> 'b Graph \<Rightarrow> settle_error + 'b Graph" where
  "wakeReceiver env scope r g = (case probeParkedReceiver g (nr_id r) scope of
      None \<Rightarrow> Inr g
    | Some parked \<Rightarrow>
        res_bind (resumeParkedRunInTx env (NodeRunID parked) (nr_id r) (nr_instance_id r) WakeUpstreamCascade g) (\<lambda>(_, g'). Inr g'))"

lemma cascadeReceiver_stages:
  assumes "cascadeReceiver env gate wk kind r (v, g) = Inr (v', g')"
  obtains (skipped) "\<not> wkScopeIsMain wk" "GetInFlightRunForNode g (nr_id r) (wkScope wk) = None" "v' = v" "g' = g"
  | (unreached) g1 where "wakeReceiver env (wkScope wk) r g = Inr g1"
      "resolveReceiverRunForCascade env (nr_id r) (wkScope wk) (wkFrame wk) (wkSender wk) (wkSenderRun wk) v g1 = Inr (None, v', g')"
  | (reached) g1 i g2 g3 where "wakeReceiver env (wkScope wk) r g = Inr g1"
      "resolveReceiverRunForCascade env (nr_id r) (wkScope wk) (wkFrame wk) (wkSender wk) (wkSenderRun wk) v g1 = Inr (Some i, v', g2)"
      "waitSetInsert (waitRow (wkFrame wk) i (wkSenderRun wk) kind) g2 = Inr g3"
      "pullForceRefreshUpstreams env gate r (wkNodes wk) i (wkScope wk) (wkFrame wk) (wkTemplateHash wk) [nr_id r, wkSender wk] g3 = Inr g'"
proof (cases "\<not> wkScopeIsMain wk \<and> GetInFlightRunForNode g (nr_id r) (wkScope wk) = None")
  case False
  let ?K = "\<lambda>(receiverRun, visited', g2). case receiverRun of
               None \<Rightarrow> Inr (visited', g2)
             | Some run \<Rightarrow>
                 res_bind (waitSetInsert (waitRow (wkFrame wk) run (wkSenderRun wk) kind) g2) (\<lambda>g3.
                 res_bind (pullForceRefreshUpstreams env gate r (wkNodes wk) run (wkScope wk) (wkFrame wk) (wkTemplateHash wk) [nr_id r, wkSender wk] g3)
                   (\<lambda>g4. Inr (visited', g4)))"
  let ?R = "resolveReceiverRunForCascade env (nr_id r) (wkScope wk) (wkFrame wk) (wkSender wk) (wkSenderRun wk) v"
  have "res_bind (wakeReceiver env (wkScope wk) r g) (\<lambda>g1. res_bind (?R g1) ?K) = Inr (v', g')"
    using assms unfolding cascadeReceiver_def prod.case wakeReceiver_def if_not_P [OF False] .
  from res_bind_Inr_iff [THEN iffD1, OF this] obtain g1 where
    wake: "wakeReceiver env (wkScope wk) r g = Inr g1" and k: "res_bind (?R g1) ?K = Inr (v', g')" by blast
  from res_bind_Inr_iff [THEN iffD1, OF k] obtain t where t: "?R g1 = Inr t" "?K t = Inr (v', g')" by blast
  obtain run v1 g2 where "t = (run, v1, g2)" by (rule prod_cases3)
  with wake t have st: "wakeReceiver env (wkScope wk) r g = Inr g1" "?R g1 = Inr (run, v1, g2)" "?K (run, v1, g2) = Inr (v', g')"
    by simp_all
  show thesis
  proof (cases run)
    case None
    with st(3) have "v1 = v'" "g2 = g'" by simp_all
    with st(2) None have "?R g1 = Inr (None, v', g')" by simp
    then show thesis by (rule unreached [OF st(1)])
  next
    case (Some i)
    with st(3) obtain g3 where "waitSetInsert (waitRow (wkFrame wk) i (wkSenderRun wk) kind) g2 = Inr g3" "v1 = v'"
      "pullForceRefreshUpstreams env gate r (wkNodes wk) i (wkScope wk) (wkFrame wk) (wkTemplateHash wk) [nr_id r, wkSender wk] g3 = Inr g'"
      by (auto simp: res_bind_Inr_iff)
    moreover from this st(2) Some have "?R g1 = Inr (Some i, v', g2)" by simp
    ultimately show thesis using reached [OF st(1)] by blast
  qed
next
  case True
  with assms have "v' = v" "g' = g" by (simp_all add: cascadeReceiver_def)
  with True skipped show thesis by blast
qed

lemma wakeReceiver_after: "after env g0 S g \<Longrightarrow> wakeReceiver env scope r g = Inr g' \<Longrightarrow> after env g0 S g'"
  by (auto simp: wakeReceiver_def res_bind_Inr_iff split: option.splits intro: after_step cs_resume)

lemma resolveReceiver_after:
  "after env g0 S g \<Longrightarrow> resolveReceiverRunForCascade env node scope frame sender s v g = Inr (run, v', g') \<Longrightarrow> after env g0 S g'"
  by (auto simp: resolveReceiverRunForCascade_def ensureCascadePending_def intro: after_step cs_create split: if_splits sum.splits option.splits)

text \<open>The senders that new rows of the wait set may name.\<close>

definition allowed :: "'b Graph \<Rightarrow> UUID set \<Rightarrow> UUID \<Rightarrow> bool" where
  "allowed g0 S s \<longleftrightarrow> movable g0 s \<or> s \<in> S"

locale gate_client =
  fixes env :: "'b Env" and gate :: "'b gateFn" and g0 :: "'b Graph" and S :: "UUID set"
  assumes gate_after: "after env g0 S g \<Longrightarrow> gate run g = Inr g' \<Longrightarrow> after env g0 S g'"
begin

lemma gates_after: "after env g0 S g \<Longrightarrow> res_foldM gate xs g = Inr g' \<Longrightarrow> after env g0 S g'"
  by (rule res_foldM_invariant [where P = "after env g0 S"]) (blast intro: gate_after)+

lemma refreshedUpstream_after:
  assumes "after env g0 S g" and "refreshedUpstream env gate upstream scope frame g = Inr (run, g')"
  shows "after env g0 S g'" and "run = Some r \<Longrightarrow> movable g0 r \<or> inFlight g' r"
proof -
  consider (flight) i where "GetInFlightRunForNode g upstream scope = Some i" "run = Some i" "g' = g"
    | (none) "run = None" "g' = g"
    | (new) i g1 where "CreateCascadePending env upstream scope frame g = Inr (i, g1)" "gate i g1 = Inr g'" "run = Some i"
    using assms(2) by (auto simp: refreshedUpstream_def res_bind_Inr_iff split: option.splits if_splits sum.splits prod.splits)
  then have "after env g0 S g' \<and> (run = Some r \<longrightarrow> movable g0 r \<or> inFlight g' r)"
  proof cases
    case (flight i)
    with assms(1) GetInFlightRunForNode_inFlight show ?thesis by auto
  next
    case (new i g1)
    have "after env g0 S g1" by (rule after_step [OF assms(1) cs_create [OF new(1)]])
    then have "after env g0 S g'" using gate_after new(2) by blast
    moreover have "i = next_id g" using new(1) by (rule CreateCascadePending_rows)
    then have "movable g0 i" using after_evolution [OF assms(1)] by (simp add: movable_def evolution_def)
    ultimately show ?thesis using new(3) by auto
  qed (use assms(1) in simp)
  then show "after env g0 S g'" and "run = Some r \<Longrightarrow> movable g0 r \<or> inFlight g' r" by simp_all
qed

lemma pullUpstream_after:
  assumes "after env g0 S g" and "pullUpstream env gate receiverRun scope frame upstream (v, g) = Inr (v', g')"
  shows "after env g0 S g'"
proof (cases "nr_id upstream \<in> set v")
  case False
  with assms(2) obtain run g1 where up: "refreshedUpstream env gate (nr_id upstream) scope frame g = Inr (run, g1)"
    and rest: "(case run of None \<Rightarrow> Inr (nr_id upstream # v, g1)
          | Some r \<Rightarrow> res_bind (waitSetInsert (waitRow frame receiverRun r ''attribute'') g1) (\<lambda>g2. Inr (nr_id upstream # v, g2))) = Inr (v', g')"
    by (auto simp: pullUpstream_def res_bind_Inr_iff)
  note up' = refreshedUpstream_after [OF assms(1) up]
  show ?thesis
  proof (cases run)
    case (Some r)
    with rest have "waitSetInsert (waitRow frame receiverRun r ''attribute'') g1 = Inr g'" by (auto simp: res_bind_Inr_iff)
    then show ?thesis by (rule after_step [OF up'(1) cs_wait]) (use up'(2) [OF Some] in \<open>auto simp: waitRow_def\<close>)
  qed (use rest up' in simp)
qed (use assms in \<open>simp add: pullUpstream_def\<close>)

lemma pullForceRefreshUpstreams_after:
  assumes "after env g0 S g" and "pullForceRefreshUpstreams env gate receiver ns receiverRun scope frame hash v g = Inr g'"
  shows "after env g0 S g'"
proof -
  obtain xs v' where "res_foldM (pullUpstream env gate receiverRun scope frame) xs (v, g) = Inr (v', g')"
    using assms(2) by (auto simp: pullForceRefreshUpstreams_def res_bind_Inr_iff Let_def)
  then show ?thesis by (rule res_foldM_pair) (blast intro: assms(1) pullUpstream_after)+
qed

lemma cascadeReceiver_after:
  assumes "after env g0 S g" and "allowed g0 S (wkSenderRun wk)" and "cascadeReceiver env gate wk kind r (v, g) = Inr (v', g')"
  shows "after env g0 S g'"
proof -
  from assms(3) show ?thesis
  proof (cases rule: cascadeReceiver_stages)
    case (unreached g1)
    with assms(1) show ?thesis by (blast intro: wakeReceiver_after resolveReceiver_after)
  next
    case (reached g1 i g2 g3)
    with assms(1) have "after env g0 S g2" by (blast intro: wakeReceiver_after resolveReceiver_after)
    then have "after env g0 S g3"
      by (rule after_step [OF _ cs_wait [OF reached(3)]]) (use assms(2) in \<open>simp add: waitRow_def allowed_def\<close>)
    with reached(4) pullForceRefreshUpstreams_after show ?thesis by blast
  qed (use assms(1) in simp)
qed

lemma cascadeEdge_after:
  assumes "after env g0 S g" and "allowed g0 S (wkSenderRun wk)" and "cascadeEdge env gate wk sig flt e (v, g) = Inr (v', g')"
  shows "after env g0 S g'"
proof (cases "edgeFires env sig flt e")
  case True
  with assms(3) have "res_foldM (cascadeReceiver env gate wk (waitSetTopicKindFor (TypePattern e)))
             (filter (\<lambda>n. nr_node_type n = ReceiverNodeType e) (wkNodes wk)) (v, g) = Inr (v', g')" by (simp add: cascadeEdge_def)
  then show ?thesis by (rule res_foldM_pair) (blast intro: assms(1,2) cascadeReceiver_after)+
qed (use assms in \<open>simp add: cascadeEdge_def\<close>)

lemma cascadeSubscribers_after:
  assumes "after env g0 S g" and "allowed g0 S (emSenderNodeRunID em)" and "cascadeSubscribersStaleInTxWithVisited env gate em v g = Inr (v', g')"
  shows "after env g0 S g'"
proof -
  have "g' = g \<or> (\<exists>wk es. wkSenderRun wk = emSenderNodeRunID em \<and> res_foldM (cascadeEdge env gate wk (emSignal em) (emFilter em)) es (v, g) = Inr (v', g'))"
    using assms(3) by (auto simp: cascadeSubscribersStaleInTxWithVisited_def res_bind_Inr_iff split: if_splits option.splits)
  then show ?thesis
  proof (elim disjE exE conjE)
    fix wk es assume wk: "wkSenderRun wk = emSenderNodeRunID em"
      and "res_foldM (cascadeEdge env gate wk (emSignal em) (emFilter em)) es (v, g) = Inr (v', g')"
    have "allowed g0 S (wkSenderRun wk)" using wk assms(2) by simp
    with \<open>res_foldM _ _ _ = _\<close> show ?thesis by (auto intro: assms(1) cascadeEdge_after elim!: res_foldM_pair)
  qed (use assms(1) in simp)
qed

lemma cascadeSignal_after:
  "after env g0 S g \<Longrightarrow> allowed g0 S (emSenderNodeRunID em) \<Longrightarrow> cascadeSignalInTxWithFilter env gate em v g = Inr (v', g') \<Longrightarrow> after env g0 S g'"
  by (auto simp: cascadeSignalInTxWithFilter_def dest: cascadeSubscribers_after split: sum.splits if_splits)

lemma emitSignal_after:
  assumes "after env g0 S g" and "allowed g0 S (emSenderNodeRunID em)" and "emitSignalInTxWithFilter env gate em v g = Inr (v', g')"
  shows "after env g0 S g'"
proof -
  obtain g1 now where "cascadeSignalInTxWithFilter env gate em v g = Inr (v', g1)"
    and g': "g' = EmitSignalEvent (emInstanceID em) (emSenderID em) (emSignal em) now g1"
    using assms(3) by (auto simp: emitSignalInTxWithFilter_def res_bind_Inr_iff)
  then have "after env g0 S g1" using cascadeSignal_after assms(1,2) by blast
  then show ?thesis unfolding g' EmitSignalEvent_def by (rule after_step [OF _ cs_audit])
qed

lemma emitSignalInTxOnce_after:
  assumes "after env g0 S g" and "allowed g0 S (sdRunID sd)" and "emitSignalInTxOnce env gate sd sig g = Inr g'"
  shows "after env g0 S g'"
proof -
  obtain v' where "emitSignalInTxWithFilter env gate (emission sd sig (\<lambda>_. True)) [] g = Inr (v', g')"
    using assms(3) by (auto simp: emitSignalInTxOnce_def emitSignalInTx_def res_bind_Inr_iff)
  then show ?thesis by (rule emitSignal_after [OF assms(1), rotated]) (simp add: emission_def assms(2))
qed

lemma emitAttributeChanges_after:
  assumes "after env g0 S g" and "allowed g0 S (sdRunID sd)" and "emitAttributeChangesForRunInTx env gate sd v flt g = Inr (v', g')"
  shows "after env g0 S g'"
proof -
  have "g' = g \<or> (\<exists>prior xs. res_foldM (\<lambda>kv (v, h). emitSignalInTxWithFilter env gate (emission sd (attributeSignal prior kv) flt) v h) xs (v, g) = Inr (v', g'))"
    using assms(3) by (auto simp: emitAttributeChangesForRunInTx_def res_bind_Inr_iff split: option.splits)
  then show ?thesis
  proof (elim disjE exE)
    fix prior xs assume "res_foldM (\<lambda>kv (v, h). emitSignalInTxWithFilter env gate (emission sd (attributeSignal prior kv) flt) v h) xs (v, g) = Inr (v', g')"
    then show ?thesis
    proof (rule res_foldM_pair)
      fix x v1 h v2 h' assume "after env g0 S h"
        and "(\<lambda>(v, h). emitSignalInTxWithFilter env gate (emission sd (attributeSignal prior x) flt) v h) (v1, h) = Inr (v2, h')"
      then show "after env g0 S h'"
        using emitSignal_after [of h "emission sd (attributeSignal prior x) flt" v1 v2 h'] assms(2) by (simp add: emission_def)
    qed (rule assms(1))
  qed (use assms(1) in simp)
qed

end

end
