(* ===== verification/Cascade_Gates.thy ===== *)
theory Cascade_Gates
  imports Cascade_Steps
begin

text \<open>
  The gate evaluator closes the recursion of the cascade: an evaluated gate may settle its run,
  the settlement cascades and drains, and the drain evaluates gates.  The first half shows that
  draining, settling by policy, routing a failed substitution and evaluating one gate only make
  \<^const>\<open>cascade_step\<close>s when the gates they evaluate do; the induction on the depth of
  \<^const>\<open>gateAt\<close> then gives it for the evaluator itself.
\<close>

text \<open>Evaluating a gate does nothing, or the gate is open and the run is admitted with its resolved bag or routed to the error policy.\<close>

lemma evaluateOneGate_cases:
  assumes "evaluateOneGate env route run g = Inr g'"
  shows "g' = g \<or>
    (\<exists>row bag. GetRunForGate g run = Some row \<and> gateOpen env g row = Inr True \<and> admitResolved env row bag g = Inr g') \<or>
    (\<exists>row f. GetRunForGate g run = Some row \<and> gateOpen env g row = Inr True \<and> route row f g = Inr g')"
proof (cases "GetRunForGate g run")
  case (Some row)
  show ?thesis
  proof (cases "gateOpen env g row = Inr True")
    case True
    obtain carry where c: "(case buildResolvedBagAtGateEvalCarry env g row carry of
              Inr bag \<Rightarrow> admitResolved env row bag g
            | Inl e \<Rightarrow>
                (case e of
                   Unresolved name err \<Rightarrow> if isSubstitutionClassifiableError e then route row (name, err) g else Inl e
                 | _ \<Rightarrow> Inl e)) = Inr g'"
      using assms unfolding evaluateOneGate_def Some option.case True by (simp add: res_bind_Inr_iff) blast
    then have "(\<exists>bag. admitResolved env row bag g = Inr g') \<or> (\<exists>f. route row f g = Inr g')"
      by (simp split: sum.splits settle_error.splits if_splits) blast+
    with Some True show ?thesis by blast
  next
    case False
    then have "gateOpen env g row = Inr False \<or> (\<exists>e. gateOpen env g row = Inl e)" by (metis sum.exhaust)
    then show ?thesis using assms Some by (auto simp: evaluateOneGate_def)
  qed
qed (use assms in \<open>simp add: evaluateOneGate_def\<close>)

context gate_client
begin

text \<open>After the rows of the settled sender are marked, draining only evaluates gates.\<close>

lemma drain_rest_after:
  assumes "after env g0 S (MarkDrainedBySender env frame s g)" and "drainWaitSetOnSettled env gate frame s g = Inr g'"
  shows "after env g0 S g'"
proof -
  obtain g1 g2 where e: "evaluateGatesAfterDrain gate frame s (MarkDrainedBySender env frame s g) = Inr g1"
    and sib: "res_foldM gate (ListPendingSiblingRunsInScope g1 s) g1 = Inr g2"
    and re: "reevalDownstreamReceiverGates env gate s g2 = Inr g'"
    using assms(2) unfolding drainWaitSetOnSettled_def res_bind_Inr_iff by blast
  have "after env g0 S g1" using e unfolding evaluateGatesAfterDrain_def by (rule gates_after [OF assms(1)])
  then have g2: "after env g0 S g2" using sib by (rule gates_after)
  have "g' = g2 \<or> (\<exists>xs. res_foldM gate xs g2 = Inr g')"
    using re by (auto simp: reevalDownstreamReceiverGates_def res_bind_Inr_iff Let_def split: option.splits)
  with g2 gates_after show ?thesis by blast
qed

lemma drain_after:
  "after env g0 S g \<Longrightarrow> movable g0 s \<Longrightarrow> drainWaitSetOnSettled env gate frame s g = Inr g' \<Longrightarrow> after env g0 S g'"
  by (erule drain_rest_after [rotated]) (blast intro: after_step cs_drain)

lemma settleByPolicy_after:
  assumes "after env g0 S g" and "movable g0 (sdRunID sd)" and "GetRunForGate g (sdRunID sd) = Some r" and "State r = NodeStateStale"
    and "settleByPolicy env gate sd scope kind sig g = Inr g'"
  shows "after env g0 S g'"
proof -
  let ?settle = "\<lambda>st reason. nodesUpdateState (dbNow env) (sdRunID sd) st reason (Some (sigType sig)) g"
  have cur: "map_option State (GetRunForGate g (sdRunID sd)) = Some NodeStateStale" using assms(3,4) by simp
  have stale: "(Some NodeStateStale = Some NodeStateRunning) = False" by simp
  obtain g1 where g1: "(if kind = ActionPass then res_bind (?settle NodeStateFresh ReasonAcquirePass) (\<lambda>g1.
            case recordRunTreeChanged (sdRunID sd) NodeStateFresh (Some (sigType sig)) False (runs g1) of
              Inl e \<Rightarrow> Inl (RunTreeError e) | Inr rs \<Rightarrow> Inr (g1\<lparr>runs := rs\<rparr>))
         else if kind = ActionGiveUp then ?settle NodeStateFailed ReasonPolicyGiveUp else Inr g) = Inr g1"
    and rest: "res_bind (emitSignalInTxOnce env gate sd sig g1) (\<lambda>g2.
      res_bind (emitAttributeChangesForRunInTx env gate sd [] (\<lambda>_. True) g2) (\<lambda>(_, g3).
      res_bind (drainWaitSetOnSettled env gate (sdFrameID sd) (sdRunID sd) g3) (\<lambda>g4.
      Inr (RemoveForNode env (sdNodeID sd) scope (SupervisorID env) g4)))) = Inr g'"
    using res_bind_Inr_iff [THEN iffD1, OF assms(5) [unfolded settleByPolicy_def Let_def cur stale if_True if_False simp_thms]] by blast
  obtain g2 v g3 g4 where em: "emitSignalInTxOnce env gate sd sig g1 = Inr g2"
    and at: "emitAttributeChangesForRunInTx env gate sd [] (\<lambda>_. True) g2 = Inr (v, g3)"
    and dr: "drainWaitSetOnSettled env gate (sdFrameID sd) (sdRunID sd) g3 = Inr g4"
    and g': "g' = RemoveForNode env (sdNodeID sd) scope (SupervisorID env) g4"
    using rest by (elim res_bind_Inr_iff [THEN iffD1, elim_format] exE conjE) (clarsimp simp: res_bind_Inr_iff)
  have ok: "allowed g0 S (sdRunID sd)" using assms(2) by (simp add: allowed_def)
  have "after env g0 S g1"
  proof -
    consider (pass) "kind = ActionPass" | (give_up) "kind \<noteq> ActionPass" "kind = ActionGiveUp" | (same) "kind \<noteq> ActionPass" "kind \<noteq> ActionGiveUp"
      by blast
    then show ?thesis
    proof cases
      case pass
      then obtain h where h: "?settle NodeStateFresh ReasonAcquirePass = Inr h"
        and r: "(case recordRunTreeChanged (sdRunID sd) NodeStateFresh (Some (sigType sig)) False (runs h) of
              Inl e \<Rightarrow> Inl (RunTreeError e) | Inr rs \<Rightarrow> Inr (h\<lparr>runs := rs\<rparr>)) = Inr g1"
        using g1 by (simp only: simp_thms if_True res_bind_Inr_iff) blast
      from r obtain rs where rs: "recordRunTreeChanged (sdRunID sd) NodeStateFresh (Some (sigType sig)) False (runs h) = Inr rs" "g1 = h\<lparr>runs := rs\<rparr>"
        by (simp split: sum.splits)
      show ?thesis unfolding rs(2) by (rule after_step [OF assms(1) cs_pass]) (rule assms(2-4) h rs(1))+
    next
      case give_up
      show ?thesis by (rule after_step [OF assms(1) cs_giveUp]) ((rule assms(2-4))+, use g1 give_up in simp)
    qed (use g1 assms(1) in simp)
  qed
  from emitSignalInTxOnce_after [OF this ok em] have "after env g0 S g3" using at by (rule emitAttributeChanges_after [OF _ ok])
  then have "after env g0 S g4" using dr by (rule drain_after [OF _ assms(2)])
  then show ?thesis unfolding g' by (rule after_step [OF _ cs_remove])
qed

lemma applyErrorPolicy_after:
  assumes "after env g0 S g" and "movable g0 (sdRunID sd)" and "GetRunForGate g (sdRunID sd) = Some r" and "State r = NodeStateStale"
    and "applyErrorPolicy env gate sd scope nodeDef cls body g = Inr g'"
  shows "after env g0 S g'"
proof -
  obtain maxRetries backoff where c: "resolveRetryConfig nodeDef = (maxRetries, backoff)" by fastforce
  define ra where "ra = Evaluate (lookupPolicyForNodeWithFallback nodeDef cls []) (GetRunEvaluatorState g (sdRunID sd)) maxRetries backoff (randFloat (lib env))"
  define sig where "sig = errorPolicySignal cls (Some body) None [] (raKind ra) (raRetryCounter ra) maxRetries (raDelayMs ra)"
  obtain g1 where u: "UpdateRunEvaluatorState (sdRunID sd) (raRetryCounter ra) g = Inr g1"
    and rest: "(if raKind ra = ActionRetry then
        res_bind (emitSignalInTxOnce env gate sd sig g1) (\<lambda>g2. StampPriorDispatch (sdRunID sd) (sdRunID sd) ''retry_after_error'' g2)
      else if raKind ra = ActionReleaseAndRequeue then emitSignalInTxOnce env gate sd sig g1
      else settleByPolicy env gate sd scope (raKind ra) sig g1) = Inr g'"
    using assms(5) unfolding applyErrorPolicy_def Let_def c prod.case ra_def [symmetric] sig_def [symmetric] res_bind_Inr_iff by blast
  have g1: "after env g0 S g1" by (rule after_step [OF assms(1) cs_counter]) (rule assms(2), rule u)
  have ok: "allowed g0 S (sdRunID sd)" using assms(2) by (simp add: allowed_def)
  have rows: "node_rows g1 = update_where (\<lambda>x. NodeRunID x = sdRunID sd) (\<lambda>x. x\<lparr>retry_counter := raRetryCounter ra\<rparr>) (node_rows g)"
    using u by (auto simp: UpdateRunEvaluatorState_def split: if_splits)
  have "r\<lparr>retry_counter := raRetryCounter ra\<rparr> \<in> set (node_rows g1)"
    using GetRunForGate_SomeD [OF assms(3)] unfolding rows set_update_where by force
  then have r1: "GetRunForGate g1 (sdRunID sd) = Some (r\<lparr>retry_counter := raRetryCounter ra\<rparr>)"
    using row_of_Some_iff [OF run_invD(1) [OF after_inv [OF g1]], of "sdRunID sd" "r\<lparr>retry_counter := raRetryCounter ra\<rparr>"]
      GetRunForGate_SomeD [OF assms(3)] by (simp add: GetRunForGate_def runGetByID_def)
  consider (retry) g2 where "emitSignalInTxOnce env gate sd sig g1 = Inr g2" "StampPriorDispatch (sdRunID sd) (sdRunID sd) ''retry_after_error'' g2 = Inr g'"
    | (requeue) "emitSignalInTxOnce env gate sd sig g1 = Inr g'" | (settle) "settleByPolicy env gate sd scope (raKind ra) sig g1 = Inr g'"
    using rest by (auto simp: res_bind_Inr_iff split: if_splits)
  then show ?thesis
  proof cases
    case (retry g2)
    show ?thesis by (rule after_step [OF emitSignalInTxOnce_after [OF g1 ok retry(1)] cs_stamp]) (rule assms(2), rule retry(2))
  next
    case requeue
    then show ?thesis by (rule emitSignalInTxOnce_after [OF g1 ok])
  next
    case settle
    show ?thesis by (rule settleByPolicy_after [OF g1 assms(2) r1 _ settle]) (simp add: assms(4))
  qed
qed

lemma route_after:
  assumes "after env g0 S g" and "GetRunForGate g run = Some row" and "gateOpen env g row = Inr True"
    and "routeSubstitutionFailureAtGate env gate row failure g = Inr g'"
  shows "after env g0 S g'"
proof (cases "nodesGet env (NodeID row)")
  case (Some node)
  obtain name err where f: "failure = (name, err)" by fastforce
  obtain t now a g2 where tr: "TransitionPendingToStale (NodeRunID row) now (g\<lparr>audit := a\<rparr>) = Inr g2"
    and pol: "applyErrorPolicy env gate
            \<lparr>sdNodeID = NodeID row, sdNodeType = nr_node_type node, sdRunID = NodeRunID row, sdInstanceID = nr_instance_id node, sdFrameID = FrameID row\<rparr>
            (RunScopeID row) (LookupNodeDef t (nr_node_type node)) ErrorClassTemplateResolutionFailed
            [(''error'', VStr (errorText (lib env) name err))] g2 = Inr g'"
    using assms(4) Some f unfolding routeSubstitutionFailureAtGate_def Let_def by (auto simp: res_bind_Inr_iff)
  have row: "row \<in> set (node_rows g)" "NodeRunID row = run" using GetRunForGate_SomeD [OF assms(2)] by simp_all
  have pending: "State row = NodeStatePending" using assms(3) by (simp add: gateOpen_def split: if_splits)
  have g2: "after env g0 S g2" by (rule after_step [OF assms(1) cs_fail [OF assms(2,3) tr]])
  have mv: "movable g0 (NodeRunID row)"
    by (rule movable_evolution [OF after_evolution [OF assms(1)]]) (use row pending in \<open>auto simp: movable_def\<close>)
  let ?r = "row\<lparr>State := NodeStateStale, enqueued_at := now\<rparr>"
  have "?r \<in> set (node_rows g2)" unfolding TransitionPendingToStale_rows(1) [OF tr] set_update_where using row pending by force
  then have r2: "GetRunForGate g2 (NodeRunID row) = Some ?r"
    using row_of_Some_iff [OF run_invD(1) [OF after_inv [OF g2]], of "NodeRunID row" ?r] by (simp add: GetRunForGate_def runGetByID_def)
  show ?thesis by (rule applyErrorPolicy_after [OF g2 _ _ _ pol, where r = ?r]) (simp_all add: mv r2)
qed (use assms in \<open>simp add: routeSubstitutionFailureAtGate_def split: prod.splits\<close>)

lemma evaluateOneGate_after:
  assumes "after env g0 S g" and "evaluateOneGate env (routeSubstitutionFailureAtGate env gate) run g = Inr g'"
  shows "after env g0 S g'"
  using evaluateOneGate_cases [OF assms(2)]
proof (elim disjE exE conjE)
  fix row bag assume "GetRunForGate g run = Some row" "gateOpen env g row = Inr True" "admitResolved env row bag g = Inr g'"
  then show ?thesis by (rule after_step [OF assms(1) cs_admit])
next
  fix row f assume "GetRunForGate g run = Some row" "gateOpen env g row = Inr True" "routeSubstitutionFailureAtGate env gate row f g = Inr g'"
  then show ?thesis by (rule route_after [OF assms(1)])
qed (simp add: assms(1))

end

subsection \<open>Closing the recursion\<close>

lemma gateAt_after: "after env g0 S g \<Longrightarrow> gateAt n env run g = Inr g' \<Longrightarrow> after env g0 S g'"
proof (induction n arbitrary: run g g')
  case (Suc n)
  have "gate_client env (gateAt n env) g0 S" by unfold_locales (rule Suc.IH)
  then show ?case by (rule gate_client.evaluateOneGate_after [OF _ Suc.prems(1)]) (use Suc.prems(2) in simp)
qed simp

interpretation evaluator: gate_client env "gateAt n env" g0 S for env :: "'b Env" and n g0 S
  by unfold_locales (rule gateAt_after)

end
