(* ===== verification/Cascade_Depth.thy ===== *)
theory Cascade_Depth
  imports Cascade_Walk
begin

text \<open>
  The bound on the nesting of settlements by the error policy does not influence results: an evaluation that does not exhaust it has
  the same result under every larger bound. Each function of the cascade is monotone in the gate evaluation it is given,
  with respect to the order in which the exhausted bound is below every result.
\<close>

named_theorems deepens "functions of the cascade are monotone in the gate evaluation"

definition below :: "settle_error + 'a \<Rightarrow> settle_error + 'a \<Rightarrow> bool" where
  "below a b \<longleftrightarrow> a = Inl CascadeUnfinished \<or> a = b"

lemma below_refl [deepens]: "below a a"
  by (simp add: below_def)

lemma below_bind [deepens]: "below a b \<Longrightarrow> (\<And>x. below (f x) (h x)) \<Longrightarrow> below (res_bind a f) (res_bind b h)"
proof (cases a)
  case (Inr x)
  assume "below a b" and f: "\<And>x. below (f x) (h x)"
  with Inr have "b = Inr x" by (auto simp: below_def)
  with Inr f [of x] show ?thesis by simp
qed (auto simp: below_def)

lemma below_foldM [deepens]:
  assumes "\<And>x s. below (F x s) (H x s)"
  shows "below (res_foldM F xs s) (res_foldM H xs s)"
proof (induction xs arbitrary: s)
  case (Cons x xs)
  have "below (res_bind (F x s) (res_foldM F xs)) (res_bind (H x s) (res_foldM H xs))" by (rule below_bind [OF assms Cons.IH])
  then show ?case by (cases "F x s"; cases "H x s") simp_all
qed (simp add: below_refl)

lemma below_if [deepens]: "below a b \<Longrightarrow> below a' b' \<Longrightarrow> below (if c then a else a') (if c then b else b')"
  by simp

lemma below_option [deepens]: "below a b \<Longrightarrow> (\<And>x. below (f x) (h x)) \<Longrightarrow> below (case_option a f x) (case_option b h x)"
  by (cases x) auto

lemma below_sum [deepens]: "(\<And>x. below (f x) (h x)) \<Longrightarrow> (\<And>x. below (f' x) (h' x)) \<Longrightarrow> below (case_sum f f' x) (case_sum h h' x)"
  by (cases x) auto

lemma below_prod [deepens]: "(\<And>x y. below (f x y) (h x y)) \<Longrightarrow> below (case_prod f x) (case_prod h x)"
  by (cases x) auto

lemma below_Let [deepens]: "(\<And>x. below (f x) (h x)) \<Longrightarrow> below (Let x f) (Let x h)"
  by simp

text \<open>Two gate evaluations, the second with at least the depth of the first.\<close>

locale deeper_gate =
  fixes env :: "'b Env" and gate gate' :: "'b gateFn"
  assumes deeper [deepens]: "below (gate run g) (gate' run g)"
begin

lemma deepen_refreshedUpstream [deepens]:
  "below (refreshedUpstream env gate upstream scope frame g) (refreshedUpstream env gate' upstream scope frame g)"
  unfolding refreshedUpstream_def by (intro deepens)

lemma deepen_pullUpstream [deepens]:
  "below (pullUpstream env gate run scope frame upstream vg) (pullUpstream env gate' run scope frame upstream vg)"
  unfolding pullUpstream_def by (intro deepens)

lemma deepen_pullForceRefreshUpstreams [deepens]:
  "below (pullForceRefreshUpstreams env gate receiver ns run scope frame hash v g) (pullForceRefreshUpstreams env gate' receiver ns run scope frame hash v g)"
  unfolding pullForceRefreshUpstreams_def by (intro deepens)

lemma deepen_cascadeReceiver [deepens]: "below (cascadeReceiver env gate wk kind r vg) (cascadeReceiver env gate' wk kind r vg)"
  unfolding cascadeReceiver_def by (intro deepens)

lemma deepen_cascadeEdge [deepens]: "below (cascadeEdge env gate wk sig flt e vg) (cascadeEdge env gate' wk sig flt e vg)"
  unfolding cascadeEdge_def by (intro deepens)

lemma deepen_cascadeSubscribers [deepens]:
  "below (cascadeSubscribersStaleInTxWithVisited env gate em v g) (cascadeSubscribersStaleInTxWithVisited env gate' em v g)"
  unfolding cascadeSubscribersStaleInTxWithVisited_def by (intro deepens)

lemma deepen_evaluateGatesAfterDrain [deepens]: "below (evaluateGatesAfterDrain gate frame s g) (evaluateGatesAfterDrain gate' frame s g)"
  unfolding evaluateGatesAfterDrain_def by (intro deepens)

lemma deepen_reevalDownstreamReceiverGates [deepens]:
  "below (reevalDownstreamReceiverGates env gate s g) (reevalDownstreamReceiverGates env gate' s g)"
  unfolding reevalDownstreamReceiverGates_def by (intro deepens)

lemma deepen_drainWaitSetOnSettled [deepens]: "below (drainWaitSetOnSettled env gate frame s g) (drainWaitSetOnSettled env gate' frame s g)"
  unfolding drainWaitSetOnSettled_def by (intro deepens)

lemma deepen_cascadeSignal [deepens]: "below (cascadeSignalInTxWithFilter env gate em v g) (cascadeSignalInTxWithFilter env gate' em v g)"
  unfolding cascadeSignalInTxWithFilter_def by (intro deepens)

lemma deepen_emitSignal [deepens]: "below (emitSignalInTxWithFilter env gate em v g) (emitSignalInTxWithFilter env gate' em v g)"
  unfolding emitSignalInTxWithFilter_def by (intro deepens)

lemma deepen_emitSignalInTxOnce [deepens]: "below (emitSignalInTxOnce env gate sd sig g) (emitSignalInTxOnce env gate' sd sig g)"
  unfolding emitSignalInTxOnce_def emitSignalInTx_def by (intro deepens)

lemma deepen_emitAttributeChanges [deepens]:
  "below (emitAttributeChangesForRunInTx env gate sd v flt g) (emitAttributeChangesForRunInTx env gate' sd v flt g)"
  unfolding emitAttributeChangesForRunInTx_def by (intro deepens)

lemma deepen_EmitTerminalSuccess [deepens]:
  "below (EmitTerminalSuccessAndDrainInTx env gate sd summary g) (EmitTerminalSuccessAndDrainInTx env gate' sd summary g)"
  unfolding EmitTerminalSuccessAndDrainInTx_def by (intro deepens)

lemma deepen_settleByPolicy [deepens]: "below (settleByPolicy env gate sd scope kind sig g) (settleByPolicy env gate' sd scope kind sig g)"
  unfolding settleByPolicy_def by (intro deepens)

lemma deepen_applyErrorPolicy [deepens]:
  "below (applyErrorPolicy env gate sd scope nodeDef cls body g) (applyErrorPolicy env gate' sd scope nodeDef cls body g)"
  unfolding applyErrorPolicy_def by (intro deepens)

lemma deepen_route [deepens]: "below (routeSubstitutionFailureAtGate env gate row f g) (routeSubstitutionFailureAtGate env gate' row f g)"
  unfolding routeSubstitutionFailureAtGate_def by (intro deepens)

lemma deepen_evaluateOneGate:
  "below (evaluateOneGate env (routeSubstitutionFailureAtGate env gate) run g) (evaluateOneGate env (routeSubstitutionFailureAtGate env gate') run g)"
proof -
  have "below (case e of Unresolved name err \<Rightarrow> if c then routeSubstitutionFailureAtGate env gate row (name, err) g else Inl e | _ \<Rightarrow> Inl e)
      (case e of Unresolved name err \<Rightarrow> if c then routeSubstitutionFailureAtGate env gate' row (name, err) g else Inl e | _ \<Rightarrow> Inl e)" for e c row
    by (cases e) (auto intro: deepens)
  then show ?thesis unfolding evaluateOneGate_def by (intro deepens)
qed

end

lemma gateAt_deeper: "below (gateAt n env run g) (gateAt (n + k) env run g)"
proof (induction n arbitrary: run g)
  case (Suc n)
  then have "deeper_gate (gateAt n env) (gateAt (n + k) env)" by unfold_locales
  then show ?case by (simp add: deeper_gate.deepen_evaluateOneGate)
qed (simp add: below_def)

interpretation depth: deeper_gate env "gateAt n env" "gateAt (n + k) env" for env :: "'b Env" and n k
  by unfold_locales (rule gateAt_deeper)



subsection \<open>When one level is enough\<close>

named_theorems finishing "functions that never exhaust the bound"

definition finishes :: "settle_error + 'a \<Rightarrow> bool" where
  "finishes a \<longleftrightarrow> a \<noteq> Inl CascadeUnfinished"

lemma finishesD: "finishes a \<Longrightarrow> a = Inl e \<Longrightarrow> e \<noteq> CascadeUnfinished"
  by (simp add: finishes_def)

lemma finishes_Inr [finishing]: "finishes (Inr a)"
  by (simp add: finishes_def)

lemma finishes_Inl [finishing]: "e \<noteq> CascadeUnfinished \<Longrightarrow> finishes (Inl e)"
  by (simp add: finishes_def)

lemma finishes_bind [finishing]: "finishes a \<Longrightarrow> (\<And>x. a = Inr x \<Longrightarrow> finishes (f x)) \<Longrightarrow> finishes (res_bind a f)"
  by (cases a) (auto simp: finishes_def)

lemma finishes_foldM [finishing]: "(\<And>x s. finishes (F x s)) \<Longrightarrow> finishes (res_foldM F xs s)"
  by (induction xs arbitrary: s) (auto simp: finishes_def split: sum.splits)

lemma finishes_if [finishing]: "(c \<Longrightarrow> finishes a) \<Longrightarrow> (\<not> c \<Longrightarrow> finishes b) \<Longrightarrow> finishes (if c then a else b)"
  by simp

lemma finishes_option [finishing]: "finishes a \<Longrightarrow> (\<And>y. finishes (f y)) \<Longrightarrow> finishes (case_option a f x)"
  by (cases x) auto

lemma finishes_sum [finishing]: "(\<And>y. x = Inl y \<Longrightarrow> finishes (f y)) \<Longrightarrow> (\<And>y. finishes (h y)) \<Longrightarrow> finishes (case_sum f h x)"
  by (cases x) auto

lemma finishes_prod [finishing]: "(\<And>y z. finishes (f y z)) \<Longrightarrow> finishes (case_prod f x)"
  by (cases x) auto

lemma finishes_Let [finishing]: "(\<And>x. finishes (f x)) \<Longrightarrow> finishes (Let x f)"
  by simp

lemma finishes_templateSpecOf [finishing]: "finishes (templateSpecOf env inst)"
  by (auto simp: templateSpecOf_def loadTemplateSpec_def finishes_def split: option.splits outcome.splits)

lemma finishes_statements [finishing]:
  "finishes (nodesUpdateState now i st rs sig g)" "finishes (UpdateRunEvaluatorState i k g)" "finishes (TransitionPendingToStale i now g)"
  "finishes (CreateCascadePending env node scope frame g)" "finishes (DropPendingRun env i g)" "finishes (StampPriorDispatch i j d g)"
  "finishes (waitSetInsert w g)" "finishes (subscriptionEdgesForTemplate env hash)" "finishes (hardDepEdgesForTemplate env hash)"
  "finishes (bagOfRun env g i)" "finishes (attrWrite f g)" "finishes (clockNow env)" "finishes (canonicalEqual env a b)"
  by (auto simp: finishes_def nodesUpdateState_def UpdateRunEvaluatorState_def TransitionPendingToStale_def CreateCascadePending_def
      scopeFailure_def DropPendingRun_def StampPriorDispatch_def waitSetInsert_def subscriptionEdgesForTemplate_def hardDepEdgesForTemplate_def
      bagOfRun_def attrWrite_def clockNow_def canonicalEqual_def Let_def split: option.splits sum.splits prod.splits if_splits)

lemma finishes_resumeParkedRunInTx [finishing]: "finishes (resumeParkedRunInTx env i node inst wr g)"
  unfolding resumeParkedRunInTx_def by (cases "ResumeParked i g") (auto intro!: finishing split: bool.splits)

text \<open>No attribute of any run can fail to resolve.\<close>

definition resolvable :: "'b Env \<Rightarrow> bool" where
  "resolvable env \<longleftrightarrow> (\<forall>g row carry name err. buildResolvedBagAtGateEvalCarry env g row carry \<noteq> Inl (Unresolved name err))"

text \<open>The probes and the admission of a gate.\<close>

lemma finishes_anySubscribedUpstreamInFlight [finishing]: "finishes (anySubscribedUpstreamInFlight env g row)"
  unfolding anySubscribedUpstreamInFlight_def by (intro finishing; simp?)

lemma finishes_gateOpen [finishing]: "finishes (gateOpen env g row)"
  unfolding gateOpen_def by (intro finishing; simp?)

lemma finishes_loadReceiverCarryForward [finishing]: "finishes (loadReceiverCarryForward env g row)"
  unfolding loadReceiverCarryForward_def by (intro finishing; simp?)

text \<open>Everything that is given a gate evaluation which finishes.\<close>

lemma finishes_refreshedUpstream [finishing]: "(\<And>run g. finishes (gate run g)) \<Longrightarrow> finishes (refreshedUpstream env gate upstream scope frame g)"
  unfolding refreshedUpstream_def by (intro finishing; assumption?; simp?) (rule finishesD [OF finishes_statements(4)])

lemma finishes_pullUpstream [finishing]: "(\<And>run g. finishes (gate run g)) \<Longrightarrow> finishes (pullUpstream env gate run scope frame upstream vg)"
  unfolding pullUpstream_def by (intro finishing; assumption?; simp?)

lemma finishes_pullForceRefreshUpstreams [finishing]: "(\<And>run g. finishes (gate run g)) \<Longrightarrow> finishes (pullForceRefreshUpstreams env gate receiver ns run scope frame hash v g)"
  unfolding pullForceRefreshUpstreams_def by (intro finishing; assumption?; simp?)

lemma finishes_ensureCascadePending [finishing]: "finishes (ensureCascadePending env receiver scope frame senderNode s g)"
  unfolding ensureCascadePending_def by (intro finishing; simp?)

lemma finishes_resolveReceiverRunForCascade [finishing]: "finishes (resolveReceiverRunForCascade env receiver scope frame senderNode s v g)"
  unfolding resolveReceiverRunForCascade_def by (intro finishing; simp?) (rule finishesD [OF finishes_ensureCascadePending])

lemma finishes_cascadeReceiver [finishing]: "(\<And>run g. finishes (gate run g)) \<Longrightarrow> finishes (cascadeReceiver env gate wk kind r vg)"
  unfolding cascadeReceiver_def by (intro finishing; assumption?; simp?)

lemma finishes_cascadeEdge [finishing]: "(\<And>run g. finishes (gate run g)) \<Longrightarrow> finishes (cascadeEdge env gate wk sig flt e vg)"
  unfolding cascadeEdge_def by (intro finishing; assumption?; simp?)

lemma finishes_cascadeSubscribersStaleInTxWithVisited [finishing]: "(\<And>run g. finishes (gate run g)) \<Longrightarrow> finishes (cascadeSubscribersStaleInTxWithVisited env gate em v g)"
  unfolding cascadeSubscribersStaleInTxWithVisited_def by (intro finishing; assumption?; simp?)

lemma finishes_evaluateGatesAfterDrain [finishing]: "(\<And>run g. finishes (gate run g)) \<Longrightarrow> finishes (evaluateGatesAfterDrain gate frame s g)"
  unfolding evaluateGatesAfterDrain_def by (intro finishing; assumption?; simp?)

lemma finishes_reevalDownstreamReceiverGates [finishing]: "(\<And>run g. finishes (gate run g)) \<Longrightarrow> finishes (reevalDownstreamReceiverGates env gate s g)"
  unfolding reevalDownstreamReceiverGates_def by (intro finishing; assumption?; simp?)

lemma finishes_drainWaitSetOnSettled [finishing]: "(\<And>run g. finishes (gate run g)) \<Longrightarrow> finishes (drainWaitSetOnSettled env gate frame s g)"
  unfolding drainWaitSetOnSettled_def by (intro finishing; assumption?; simp?)

lemma finishes_cascadeSignalInTxWithFilter [finishing]: "(\<And>run g. finishes (gate run g)) \<Longrightarrow> finishes (cascadeSignalInTxWithFilter env gate em v g)"
  unfolding cascadeSignalInTxWithFilter_def by (intro finishing; assumption?; simp?)

lemma finishes_emitSignalInTxWithFilter [finishing]: "(\<And>run g. finishes (gate run g)) \<Longrightarrow> finishes (emitSignalInTxWithFilter env gate em v g)"
  unfolding emitSignalInTxWithFilter_def by (intro finishing; assumption?; simp?)

lemma finishes_emitSignalInTxOnce [finishing]: "(\<And>run g. finishes (gate run g)) \<Longrightarrow> finishes (emitSignalInTxOnce env gate sd sig g)"
  unfolding emitSignalInTxOnce_def emitSignalInTx_def by (intro finishing; assumption?; simp?)

lemma finishes_firstRunAttributeBaseline [finishing]: "finishes (firstRunAttributeBaseline env inst nodeType)"
  unfolding firstRunAttributeBaseline_def by (intro finishing; simp?)

lemma finishes_emitAttributeChangesForRunInTx [finishing]: "(\<And>run g. finishes (gate run g)) \<Longrightarrow> finishes (emitAttributeChangesForRunInTx env gate sd v flt g)"
  unfolding emitAttributeChangesForRunInTx_def by (intro finishing; assumption?; simp?)

lemma finishes_upsertDataFromDispatchInputBagIfEmpty [finishing]: "finishes (upsertDataFromDispatchInputBagIfEmpty env run node g)"
  unfolding upsertDataFromDispatchInputBagIfEmpty_def by (intro finishing; simp?)

lemma finishes_EmitTerminalSuccessAndDrainInTx [finishing]: "(\<And>run g. finishes (gate run g)) \<Longrightarrow> finishes (EmitTerminalSuccessAndDrainInTx env gate sd summary g)"
  unfolding EmitTerminalSuccessAndDrainInTx_def by (intro finishing; assumption?; simp?)

lemma finishes_senderAttrsRaw [finishing]: "finishes (senderAttrsRaw env g run)"
  unfolding senderAttrsRaw_def by (intro finishing; simp?)

lemma finishes_populateEntryAliasDepsViaCallingNode [finishing]: "finishes (populateEntryAliasDepsViaCallingNode env g rec em t out)"
  unfolding populateEntryAliasDepsViaCallingNode_def by (intro finishing; simp?)

lemma finishes_senderDep [finishing]: "finishes (senderDep env g rec ts pinned n out)"
  unfolding senderDep_def by (intro finishing; simp?)

lemma finishes_populateSubscribedSenderDeps [finishing]: "finishes (populateSubscribedSenderDeps env g run out)"
  unfolding populateSubscribedSenderDeps_def by (intro finishing; simp?)

lemma finishes_BuildAttributeDeps [finishing]: "finishes (BuildAttributeDeps env g run frame)"
  unfolding BuildAttributeDeps_def by (intro finishing; simp?)

lemma finishes_buildResolvedBagAtGateEvalCarry [finishing]: "finishes (buildResolvedBagAtGateEvalCarry env g row carry)"
  unfolding buildResolvedBagAtGateEvalCarry_def by (intro finishing; simp?)

lemma finishes_priorInputBag [finishing]: "finishes (priorInputBag env g run)"
  unfolding priorInputBag_def by (intro finishing; simp?)

lemma finishes_bagsEqual [finishing]: "finishes (bagsEqual env g run bag)"
  unfolding bagsEqual_def by (intro finishing; simp?)

lemma finishes_modeDropIfPriorEqual [finishing]: "finishes (modeDropIfPriorEqual env g row bag c)"
  unfolding modeDropIfPriorEqual_def by (intro finishing; simp?)

lemma finishes_applyCascadeModeRule [finishing]: "finishes (applyCascadeModeRule env row bag mode g)"
  unfolding applyCascadeModeRule_def by (intro finishing; simp?)

lemma finishes_admitResolved [finishing]: "finishes (admitResolved env row bag g)"
  unfolding admitResolved_def by (intro finishing; simp?)

text \<open>If no attribute can fail to resolve, a gate never settles its run and one level is enough.\<close>

lemma finishes_gateAt:
  assumes "resolvable env"
  shows "finishes (gateAt (Suc n) env run g)"
proof -
  have failed: "finishes (case e of Unresolved name err \<Rightarrow> if isSubstitutionClassifiableError e
      then routeSubstitutionFailureAtGate env (gateAt n env) row (name, err) g else Inl e | _ \<Rightarrow> Inl e)"
    if e: "buildResolvedBagAtGateEvalCarry env g row carry = Inl e" for row carry e
  proof -
    have "e \<noteq> Unresolved name err" for name err using assms e by (auto simp: resolvable_def)
    moreover have "e \<noteq> CascadeUnfinished" by (rule finishesD [OF finishes_buildResolvedBagAtGateEvalCarry e])
    ultimately show ?thesis by (cases e) (auto intro: finishing)
  qed
  show ?thesis unfolding gateAt.simps evaluateOneGate_def by (intro finishing failed)
qed


lemma reportEnv_resolvable: "resolvable reportEnv"
proof -
  have exec: "execSchemaOf reportEnv e = None" for e
    by (simp add: execSchemaOf_def reportEnv_def exampleEnv_def exampleCascadeLib_def)
  have spec: "templateSpecOf reportEnv i = Inr reportTemplate \<or> (\<exists>e. templateSpecOf reportEnv i = Inl e \<and> (\<forall>name err. e \<noteq> Unresolved name err))" for i
    by (auto simp: templateSpecOf_def loadTemplateSpec_def templatesGetByHash_def reportEnv_def exampleEnv_def split: option.splits)
  have schema: "nodeSchemaOf (LookupNodeDef reportTemplate n) = None" for n
    by (auto simp: nodeSchemaOf_def LookupNodeDef_def reportTemplate_def plainNode_def)
  have "buildResolvedBagAtGateEvalCarry reportEnv g row carry \<noteq> Inl (Unresolved name err)" for g row carry name err
  proof (cases "nodesGet reportEnv (NodeID row)")
    case (Some node)
    with spec [of "nr_instance_id node"] exec schema show ?thesis
      by (auto simp: buildResolvedBagAtGateEvalCarry_def schemaForGateEval_def Let_def)
  qed (simp add: buildResolvedBagAtGateEvalCarry_def)
  then show ?thesis by (simp add: resolvable_def)
qed


end
