(* ===== verification/Cascade_Props.thy ===== *)
theory Cascade_Props
  imports Cascade_Gates Cascade_Depth
begin

text \<open>
  What the cascade guarantees: it is a sequence of steps that keep the invariant of the run table and spare running, held and
  settled runs; every subscriber of a signal ends up with a pending run that waits for the sender; a pending run is admitted only
  through an open gate; and draining a settled sender leaves no run waiting for it.
\<close>

subsection \<open>Definitions\<close>

text \<open>The run \<open>i\<close> of a node is pending, was created by the cascade and waits for the sender \<open>s\<close>.\<close>

definition waitsAs :: "'b Graph \<Rightarrow> UUID \<Rightarrow> UUID \<Rightarrow> UUID \<Rightarrow> UUID \<Rightarrow> UUID \<Rightarrow> NodeRunRow \<Rightarrow> bool" where
  "waitsAs g node scope frame s i p \<longleftrightarrow> NodeRunID p = i \<and> NodeID p = node \<and> RunScopeID p = scope \<and> FrameID p = frame \<and> State p = NodeStatePending \<and>
     creation_reason p = CreationReasonCascade \<and>
     (\<exists>w \<in> set (wait_set g). wsFrameID w = frame \<and> wsReceiver w = i \<and> wsSender w = s \<and> wsDrainedAt w = None)"

definition waiting :: "'b Graph \<Rightarrow> UUID \<Rightarrow> UUID \<Rightarrow> UUID \<Rightarrow> UUID \<Rightarrow> UUID \<Rightarrow> bool" where
  "waiting g node scope frame s i \<longleftrightarrow> (\<exists>p \<in> set (node_rows g). waitsAs g node scope frame s i p)"

text \<open>No row of the wait set that names the sender has been drained.\<close>

definition undrained :: "'b Graph \<Rightarrow> UUID \<Rightarrow> UUID \<Rightarrow> bool" where
  "undrained g frame s \<longleftrightarrow> (\<forall>w \<in> set (wait_set g). wsFrameID w = frame \<longrightarrow> wsSender w = s \<longrightarrow> wsDrainedAt w = None)"

definition sparedRun :: "'b Graph \<Rightarrow> UUID \<Rightarrow> bool" where
  "sparedRun g s \<longleftrightarrow> (\<exists>r \<in> set (node_rows g). NodeRunID r = s \<and> spared (State r))"

lemma run_inv_same:
  assumes "run_inv g" and "x \<in> set (node_rows g)" and "y \<in> set (node_rows g)" and "NodeRunID x = NodeRunID y"
  shows "x = y"
  using row_of_Some_iff [OF run_invD(1) [OF assms(1)], of "NodeRunID y" x] row_of_Some_iff [OF run_invD(1) [OF assms(1)], of "NodeRunID y" y] assms(2-4)
  by simp

lemma sparedRun_not_movable:
  assumes "run_inv g" and "sparedRun g s"
  shows "\<not> movable g s"
proof -
  obtain r where r: "r \<in> set (node_rows g)" "NodeRunID r = s" "spared (State r)" using assms(2) by (auto simp: sparedRun_def)
  have "State x \<noteq> NodeStatePending" if "x \<in> set (node_rows g)" "NodeRunID x = s" for x
    using run_inv_same [OF assms(1) that(1) r(1)] that r(2,3) by (auto simp: spared_def)
  moreover have "s < next_id g" using run_invD(4) [OF assms(1) r(1)] r(2) by simp
  ultimately show ?thesis by (auto simp: movable_def)
qed

lemma sparedRun_evolution:
  assumes "evolution g g'" and "sparedRun g s"
  shows "sparedRun g' s"
proof -
  obtain r where r: "r \<in> set (node_rows g)" "NodeRunID r = s" "spared (State r)" using assms(2) by (auto simp: sparedRun_def)
  then obtain r' where "r' \<in> set (node_rows g')" "run_evolves r r'" using assms(1) unfolding evolution_def by blast
  moreover from this(2) r(3) have "State r' = State r" "NodeRunID r' = NodeRunID r"
    unfolding run_evolves_def by (blast intro: becomes_spared)+
  ultimately show ?thesis using r(2,3) unfolding sparedRun_def by metis
qed

lemma run_evolves_identity:
  assumes "run_evolves r r'"
  shows "NodeRunID r' = NodeRunID r" "NodeID r' = NodeID r" "RunScopeID r' = RunScopeID r" "FrameID r' = FrameID r"
    "creation_reason r' = creation_reason r"
  using assms unfolding run_evolves_def by blast+

subsection \<open>Pending runs\<close>

definition pendingRun :: "'b Graph \<Rightarrow> UUID \<Rightarrow> bool" where
  "pendingRun g i \<longleftrightarrow> (\<exists>p \<in> set (node_rows g). NodeRunID p = i \<and> State p = NodeStatePending)"

lemma pending_same: "pendingRun g i \<Longrightarrow> node_rows g' = node_rows g \<Longrightarrow> pendingRun g' i"
  by (simp add: pendingRun_def)

lemma pending_update:
  assumes "node_rows g' = update_where q f (node_rows g)" and "pendingRun g i"
    and "\<And>x. x \<in> set (node_rows g) \<Longrightarrow> q x \<Longrightarrow> NodeRunID x = i \<Longrightarrow> State x = NodeStatePending \<Longrightarrow> NodeRunID (f x) = i \<and> State (f x) = NodeStatePending"
  shows "pendingRun g' i"
proof -
  obtain p where p: "p \<in> set (node_rows g)" "NodeRunID p = i" "State p = NodeStatePending" using assms(2) by (auto simp: pendingRun_def)
  have "(if q p then f p else p) \<in> set (node_rows g')" using p(1) by (auto simp: assms(1) set_update_where)
  then show ?thesis unfolding pendingRun_def using assms(3) [OF p(1) _ p(2,3)] p(2,3) by (cases "q p") auto
qed

lemma pending_updateRuns:
  "pendingRun g i \<Longrightarrow> (\<And>x. NodeRunID (f x) = NodeRunID x \<and> State (f x) = State x) \<Longrightarrow> pendingRun (updateRuns q f g) i"
  by (rule pending_update [of _ q f]) simp_all

lemma pending_purge:
  assumes "pendingRun g i" and "\<And>x. x \<in> set (node_rows g) \<Longrightarrow> q x \<Longrightarrow> State x = NodeStatePending \<Longrightarrow> NodeRunID x \<noteq> i"
  shows "pendingRun (deleteRuns env q g) i"
proof -
  obtain p where p: "p \<in> set (node_rows g)" "NodeRunID p = i" "State p = NodeStatePending" using assms(1) by (auto simp: pendingRun_def)
  then have "\<not> q p" using assms(2) by blast
  with p show ?thesis unfolding pendingRun_def deleteRuns_def enroll_rows purgeRuns_rows by force
qed

lemma pending_resume:
  assumes "resumeParkedRunInTx env j node inst wr g = Inr (b, g')" and "run_inv g" and "pendingRun g i"
  shows "pendingRun g' i"
proof -
  let ?p = "\<lambda>x. NodeRunID x = j \<and> State x = NodeStateParked"
  let ?f = "\<lambda>x. x\<lparr>claimed_by := None, NodeRunRow.claimed_at := None, parked_at := None, resume_at := None\<rparr>"
  let ?g1 = "updateRuns ?p ?f g"
  have p1: "pendingRun ?g1 i" by (rule pending_updateRuns [OF assms(3)]) simp
  show ?thesis
  proof (cases "affected ?p (node_rows g) = 1")
    case True
    then have "affected ?p (node_rows g) \<noteq> 0" by simp
    then obtain r where r: "r \<in> set (node_rows g)" "?p r" unfolding affected_0_iff by blast
    have "i \<noteq> j" using assms(3) run_inv_same [OF assms(2) _ r(1)] r(2) unfolding pendingRun_def by force
    moreover obtain g2 where g2: "nodesUpdateState (dbNow env) j NodeStateStale (transitionReasonForWake wr) None ?g1 = Inr g2"
      and g': "node_rows g' = node_rows g2"
      using assms(1) True by (auto simp: resumeParkedRunInTx_def ResumeParked_def updateMatched_def res_bind_Inr_iff)
    ultimately have "pendingRun g2 i" by (intro pending_update [OF nodesUpdateState_rows(1) [OF g2] p1]) simp
    with g' show ?thesis by (simp add: pendingRun_def)
  next
    case False
    then show ?thesis using assms(1) p1 by (simp add: resumeParkedRunInTx_def ResumeParked_def updateMatched_def)
  qed
qed

lemma pending_admit:
  assumes "admitResolved env row bag g = Inr g'" and "pendingRun g i" and "i \<noteq> NodeRunID row"
  shows "pendingRun g' i"
proof -
  have purge: "pendingRun (DeletePriorCascadeStales env (NodeID row) (RunScopeID row) (sequence row) g) i"
    unfolding DeletePriorCascadeStales_def by (rule pending_purge [OF assms(2)]) (simp add: supersededBy_def)
  from assms(1) show ?thesis
  proof (cases rule: admitResolved_cases)
    case drop
    then have g': "g' = deleteRuns env (\<lambda>r. NodeRunID r = NodeRunID row \<and> State r = NodeStatePending) g"
      by (simp add: DropPendingRun_def Let_def split: if_splits)
    show ?thesis unfolding g' by (rule pending_purge [OF assms(2)]) (use assms(3) in auto)
  next
    case (admit g1 a now)
    then have "pendingRun (g1\<lparr>attrs := a\<rparr>) i" using purge assms(2) by (auto simp: pendingRun_def)
    then show ?thesis by (rule pending_update [OF TransitionPendingToStale_rows(1) [OF admit(3)]]) (use assms(3) in auto)
  qed (use purge assms(2) in simp_all)
qed

text \<open>A run leaves the state pending only through an open gate.\<close>

lemma cascade_step_pending:
  assumes "cascade_step env D W g g'" and "run_inv g" and p: "p \<in> set (node_rows g)" "State p = NodeStatePending" "gateOpen env g p \<noteq> Inr True"
  shows "pendingRun g' (NodeRunID p)"
proof -
  have pend: "pendingRun g (NodeRunID p)" using p(1,2) by (auto simp: pendingRun_def)
  have other: "NodeRunID p \<noteq> NodeRunID row" if "GetRunForGate g run = Some row" "gateOpen env g row = Inr True" for run row
    using run_inv_same [OF assms(2) p(1)] GetRunForGate_SomeD [OF that(1)] that(2) p(3) by metis
  have stale: "x \<noteq> p" if "GetRunForGate g j = Some r" "State r = NodeStateStale" "x \<in> set (node_rows g)" "NodeRunID x = j" for j r x
    using run_inv_row_eq [OF assms(2) that(1,3,4)] that(2) p(2) by auto
  from assms(1) show ?thesis
  proof cases
    case (cs_create node' scope' frame' j)
    then show ?thesis using pend by (elim CreateCascadePending_rows) (auto simp: pendingRun_def)
  next
    case (cs_wait x)
    then show ?thesis using pend by (auto simp: waitSetInsert_def pendingRun_def split: if_splits)
  next
    case (cs_resume j node' inst b)
    then show ?thesis by (rule pending_resume [OF _ assms(2) pend])
  next
    case (cs_admit run row bag)
    then show ?thesis using pending_admit pend other by blast
  next
    case (cs_fail run row now a)
    have "pendingRun (g\<lparr>audit := a\<rparr>) (NodeRunID p)" using pend by (simp add: pendingRun_def)
    then show ?thesis by (rule pending_update [OF TransitionPendingToStale_rows(1) [OF cs_fail(3)]]) (use other [OF cs_fail(1,2)] in auto)
  next
    case (cs_pass j r now sig g1 rs)
    have "NodeRunID p \<noteq> j" using stale [OF cs_pass(3,4) p(1)] by blast
    then show ?thesis unfolding cs_pass(1) by (intro pending_update [OF cs_pass_rows [OF cs_pass(5,6)] pend]) simp
  next
    case (cs_giveUp j r now sig)
    have "NodeRunID p \<noteq> j" using stale [OF cs_giveUp(2,3) p(1)] by blast
    then show ?thesis by (intro pending_update [OF nodesUpdateState_rows(1) [OF cs_giveUp(4)] pend]) simp
  qed (use pend in \<open>auto simp: MarkDrainedBySender_def UpdateRunEvaluatorState_def StampPriorDispatch_def RemoveForNode_def
        intro: pending_updateRuns pending_same split: if_splits\<close>)
qed

subsection \<open>Waiting runs\<close>

lemma purge_wait_set: "wait_set (deleteRuns env q g) =
    filter (\<lambda>w. wsReceiver w \<notin> NodeRunID ` {r \<in> set (node_rows g). q r} \<and> wsSender w \<notin> NodeRunID ` {r \<in> set (node_rows g). q r}) (wait_set g)"
  by (simp add: deleteRuns_def purgeRuns_def delete_where_def Let_def)

lemma resumeParkedRunInTx_rest:
  assumes "resumeParkedRunInTx env j node inst wr g = Inr (b, g')"
  shows "wait_set g' = wait_set g" and "run_scopes (runs g') = run_scopes (runs g)"
proof -
  obtain b1 g1 where g1: "ResumeParked j g = (b1, g1)" by fastforce
  then have same: "wait_set g1 = wait_set g" "run_scopes (runs g1) = run_scopes (runs g)"
    by (auto simp: ResumeParked_def updateMatched_def)
  show "wait_set g' = wait_set g" and "run_scopes (runs g') = run_scopes (runs g)"
    using assms g1 same by (cases b1; auto simp: resumeParkedRunInTx_def res_bind_Inr_iff dest: nodesUpdateState_rows(3,4))+
qed

text \<open>What the steps do to the wait set: rows are added undrained, drained, or deleted with their runs.\<close>

lemma admitResolved_rest:
  assumes "admitResolved env row bag g = Inr g'"
  shows "set (wait_set g') \<subseteq> set (wait_set g)" and "run_scopes (runs g') = run_scopes (runs g)"
proof -
  have del: "set (wait_set (deleteRuns env q g)) \<subseteq> set (wait_set g)" "run_scopes (runs (deleteRuns env q g)) = run_scopes (runs g)" for q
    by (auto simp: purge_wait_set) (simp add: deleteRuns_def purgeRuns_def Let_def)
  from assms have "set (wait_set g') \<subseteq> set (wait_set g) \<and> run_scopes (runs g') = run_scopes (runs g)"
  proof (cases rule: admitResolved_cases)
    case drop
    then show ?thesis using del by (auto simp: DropPendingRun_def Let_def split: if_splits)
  next
    case (admit g1 a now)
    then show ?thesis using del TransitionPendingToStale_rows(3,5) [OF admit(3)] by (auto simp: DeletePriorCascadeStales_def)
  qed (use del in \<open>auto simp: DeletePriorCascadeStales_def\<close>)
  then show "set (wait_set g') \<subseteq> set (wait_set g)" and "run_scopes (runs g') = run_scopes (runs g)" by blast+
qed

lemma cascade_step_rows_of_wait_set:
  assumes "cascade_step env D W g g'" and "x \<in> set (wait_set g')"
  obtains (old) "x \<in> set (wait_set g)"
  | (new) "wsDrainedAt x = None" "W (wsSender x) \<or> inFlight g (wsSender x)"
  | (drained) "D (wsSender x)" "wsDrainedAt x \<noteq> None"
  using assms(1)
proof cases
  case (cs_create node scope frame j)
  then show ?thesis using assms(2) old by (elim CreateCascadePending_rows) simp
next
  case (cs_wait w)
  then have "x \<in> set (wait_set g) \<or> x = w\<lparr>wsDrainedAt := None\<rparr>" using assms(2) by (auto simp: waitSetInsert_def split: if_splits)
  then show ?thesis using old new cs_wait(2) by auto
next
  case (cs_drain s frame)
  have "x \<in> set (wait_set g) \<or> wsSender x = s \<and> wsDrainedAt x \<noteq> None"
    using assms(2) unfolding cs_drain(1) by (auto simp: MarkDrainedBySender_def set_update_where)
  then show ?thesis using old drained cs_drain(2) by blast
next
  case (cs_resume j node inst b)
  then show ?thesis using resumeParkedRunInTx_rest(1) assms(2) old by metis
next
  case (cs_admit run row bag)
  then show ?thesis using admitResolved_rest(1) assms(2) old by blast
next
  case (cs_fail run row now a)
  then show ?thesis using TransitionPendingToStale_rows(3) assms(2) old by fastforce
next
  case (cs_pass j r now sig g1 rs)
  then show ?thesis using nodesUpdateState_rows(3) [OF cs_pass(5)] assms(2) old by simp
next
  case (cs_giveUp j r now sig)
  then show ?thesis using nodesUpdateState_rows(3) assms(2) old by metis
qed (use assms(2) old in \<open>auto simp: UpdateRunEvaluatorState_def StampPriorDispatch_def RemoveForNode_def split: if_splits\<close>)

lemma cascade_step_scopes: "cascade_step env D W g g' \<Longrightarrow> run_scopes (runs g') = run_scopes (runs g)"
proof (induction rule: cascade_step.induct)
  case (cs_create node scope frame g i g')
  then show ?case by (elim CreateCascadePending_rows) simp
next
  case (cs_resume i node inst g b g')
  then show ?case by (rule resumeParkedRunInTx_rest)
next
  case (cs_admit g run row bag g')
  then show ?case using admitResolved_rest(2) by blast
next
  case (cs_fail g run row now a g')
  then show ?case using TransitionPendingToStale_rows(5) by fastforce
next
  case (cs_pass i g r now sig g1 rs)
  then show ?case using nodesUpdateState_rows(4) recordRunTreeChanged_rows(2) by simp
next
  case (cs_giveUp i g r now sig g')
  then show ?case using nodesUpdateState_rows(4) by blast
qed (auto simp: waitSetInsert_def MarkDrainedBySender_def UpdateRunEvaluatorState_def StampPriorDispatch_def RemoveForNode_def split: if_splits)

text \<open>A row of the wait set stays as long as both of its runs exist and the sender is not drained.\<close>

lemma purge_keeps_wait:
  assumes "run_inv g" and "w \<in> set (wait_set g)"
    and "\<exists>x \<in> set (node_rows (deleteRuns env q g)). NodeRunID x = wsReceiver w" and "\<exists>x \<in> set (node_rows (deleteRuns env q g)). NodeRunID x = wsSender w"
  shows "w \<in> set (wait_set (deleteRuns env q g))"
proof -
  have "i \<notin> NodeRunID ` {r \<in> set (node_rows g). q r}" if "\<exists>x \<in> set (node_rows (deleteRuns env q g)). NodeRunID x = i" for i
    using that run_inv_same [OF assms(1)] by (auto simp: deleteRuns_def purgeRuns_rows)
  with assms(2-4) show ?thesis by (simp add: purge_wait_set)
qed

lemma cascade_step_wait_row:
  assumes "cascade_step env D W g g'" and "run_inv g" and w: "w \<in> set (wait_set g)" and "\<not> D (wsSender w)"
    and ex: "\<exists>x \<in> set (node_rows g'). NodeRunID x = wsReceiver w" "\<exists>x \<in> set (node_rows g'). NodeRunID x = wsSender w"
  shows "w \<in> set (wait_set g')"
  using assms(1)
proof cases
  case (cs_create node scope frame j)
  then show ?thesis using w by (elim CreateCascadePending_rows) simp
next
  case (cs_drain s frame)
  then have "wsSender w \<noteq> s" using assms(4) by blast
  then show ?thesis unfolding cs_drain(1) using w by (force simp: MarkDrainedBySender_def set_update_where)
next
  case (cs_resume j node inst b)
  then show ?thesis using resumeParkedRunInTx_rest(1) w by metis
next
  case (cs_admit run row bag)
  have prior: "w \<in> set (wait_set (DeletePriorCascadeStales env (NodeID row) (RunScopeID row) (sequence row) g))"
    if "\<forall>i. (\<exists>x \<in> set (node_rows g'). NodeRunID x = i) \<longrightarrow>
      (\<exists>x \<in> set (node_rows (DeletePriorCascadeStales env (NodeID row) (RunScopeID row) (sequence row) g)). NodeRunID x = i)"
    using that ex unfolding DeletePriorCascadeStales_def by (intro purge_keeps_wait [OF assms(2) w]) blast+
  from cs_admit(3) show ?thesis
  proof (cases rule: admitResolved_cases)
    case drop
    then have "g' = deleteRuns env (\<lambda>r. NodeRunID r = NodeRunID row \<and> State r = NodeStatePending) g"
      by (simp add: DropPendingRun_def Let_def split: if_splits)
    with purge_keeps_wait [OF assms(2) w] ex show ?thesis by simp
  next
    case (admit g1 a now)
    have ids: "(\<exists>x \<in> set (node_rows g'). NodeRunID x = i) \<Longrightarrow> (\<exists>x \<in> set (node_rows g1). NodeRunID x = i)" for i
      unfolding TransitionPendingToStale_rows(1) [OF admit(3)] set_update_where by (auto split: if_splits)
    have "wait_set g' = wait_set g1" using TransitionPendingToStale_rows(3) [OF admit(3)] by simp
    then show ?thesis using admit(1) w prior ids by auto
  qed (use w prior in auto)
next
  case (cs_fail run row now a)
  then show ?thesis using TransitionPendingToStale_rows(3) w by fastforce
next
  case (cs_pass j r now sig g1 rs)
  then show ?thesis using nodesUpdateState_rows(3) [OF cs_pass(5)] w by simp
next
  case (cs_giveUp j r now sig)
  then show ?thesis using nodesUpdateState_rows(3) w by metis
qed (use w in \<open>auto simp: waitSetInsert_def UpdateRunEvaluatorState_def StampPriorDispatch_def RemoveForNode_def split: if_splits\<close>)

lemma waitsAs_closed: "waitsAs g node scope frame s i p \<Longrightarrow> gateOpen env g p \<noteq> Inr True"
  by (auto simp: waitsAs_def gateOpen_def HasUndrainedRowsForReceiver_def undrainedFor_def list_ex_iff)

text \<open>No step takes a run that waits for a running, held or settled sender out of its wait.\<close>

lemma cascade_step_waiting:
  assumes "cascade_step env D W g g'" and "run_inv g" and "sparedRun g s" and "\<not> D s" and "waiting g node scope frame s i"
  shows "waiting g' node scope frame s i"
proof -
  obtain p where p: "p \<in> set (node_rows g)" "waitsAs g node scope frame s i p" using assms(5) by (auto simp: waiting_def)
  then obtain w where w: "w \<in> set (wait_set g)" "wsFrameID w = frame" "wsReceiver w = i" "wsSender w = s" "wsDrainedAt w = None"
    by (auto simp: waitsAs_def)
  have ev: "evolution g g'" by (rule cascade_step_evolution [OF assms(1,2)])
  have "pendingRun g' i" using cascade_step_pending [OF assms(1,2) p(1) _ waitsAs_closed [OF p(2)]] p(2) by (auto simp: waitsAs_def)
  then obtain p' where p': "p' \<in> set (node_rows g')" "NodeRunID p' = i" "State p' = NodeStatePending" by (auto simp: pendingRun_def)
  have "NodeRunID p < next_id g" by (rule run_invD(4) [OF assms(2) p(1)])
  moreover have "NodeRunID p = NodeRunID p'" using p'(2) p(2) by (simp add: waitsAs_def)
  ultimately have "\<not> next_id g \<le> NodeRunID p'" by simp
  then obtain r where r: "r \<in> set (node_rows g)" "run_evolves r p'" using ev p'(1) unfolding evolution_def by blast
  note id = run_evolves_identity [OF r(2)]
  have "r = p" by (rule run_inv_same [OF assms(2) r(1) p(1)]) (use id(1) p'(2) p(2) in \<open>simp add: waitsAs_def\<close>)
  then have same: "NodeID p' = node" "RunScopeID p' = scope" "FrameID p' = frame" "creation_reason p' = CreationReasonCascade"
    using id p(2) by (simp_all add: waitsAs_def)
  have "w \<in> set (wait_set g')"
    by (rule cascade_step_wait_row [OF assms(1,2) w(1)])
      (use p' sparedRun_evolution [OF ev assms(3)] assms(4) w(3,4) in \<open>auto simp: sparedRun_def\<close>)
  with w(2-5) have "waitsAs g' node scope frame s i p'" unfolding waitsAs_def using p'(2,3) same by blast
  with p'(1) show ?thesis unfolding waiting_def by blast
qed

subsection \<open>What survives a cascade\<close>

lemma after_sparedRun: "after env g0 S g \<Longrightarrow> sparedRun g0 s \<Longrightarrow> sparedRun g s"
  by (rule sparedRun_evolution [OF after_evolution])

lemma after_waiting:
  assumes "after env g0 S g" and "sparedRun g0 s" and "waiting g0 node scope frame s i"
  shows "waiting g node scope frame s i"
  using assms(1)
proof (induction rule: after_induct)
  case (step g g')
  then show ?case
    using cascade_step_waiting after_sparedRun [OF step(2) assms(2)] sparedRun_not_movable [OF after_start [OF assms(1)] assms(2)] by blast
qed (rule assms(3))

lemma after_undrained:
  assumes "after env g0 S g" and "sparedRun g0 s" and "undrained g0 frame s"
  shows "undrained g frame s"
  using assms(1)
proof (induction rule: after_induct)
  case (step g g')
  have "wsDrainedAt x = None" if "x \<in> set (wait_set g')" "wsFrameID x = frame" "wsSender x = s" for x
    using step(3) that(1)
  proof (cases rule: cascade_step_rows_of_wait_set)
    case drained
    then show ?thesis using that sparedRun_not_movable [OF after_start [OF assms(1)] assms(2)] by simp
  qed (use step(4) that in \<open>auto simp: undrained_def\<close>)
  then show ?case by (simp add: undrained_def)
qed (rule assms(3))

lemma after_scopes: "after env g0 S g \<Longrightarrow> run_scopes (runs g) = run_scopes (runs g0)"
  by (induction rule: after_induct) (simp_all add: cascade_step_scopes)

subsection \<open>Every subscriber is reached\<close>

lemma latestRun_Some:
  assumes "latestRun q g = Some r"
  shows "r \<in> set (node_rows g) \<and> q r"
proof -
  obtain rs where "sort_key (\<lambda>x. - sequence x) (filter q (node_rows g)) = r # rs"
    using assms by (auto simp: latestRun_def firstDesc_def split: list.splits)
  then have "r \<in> set (filter q (node_rows g))" by (metis list.set_intros(1) set_sort)
  then show ?thesis by simp
qed

lemma latestRun_None:
  assumes "latestRun q g = None" and "r \<in> set (node_rows g)"
  shows "\<not> q r"
proof -
  have "sort_key (\<lambda>x. - sequence x) (filter q (node_rows g)) = []"
    using assms(1) by (auto simp: latestRun_def firstDesc_def split: list.splits)
  then have "filter q (node_rows g) = []" by (metis set_empty set_sort)
  with assms(2) show ?thesis by (simp add: filter_empty_conv)
qed

lemma FindLatestCascadePending_Some:
  assumes "FindLatestCascadePending g node scope frame = Some p"
  shows "p \<in> set (node_rows g)" "NodeID p = node" "RunScopeID p = scope" "FrameID p = frame" "State p = NodeStatePending"
    "creation_reason p = CreationReasonCascade"
  using latestRun_Some [OF assms [unfolded FindLatestCascadePending_def]] by simp_all

text \<open>The state in which the walk for a sender runs.\<close>

definition openScope :: "'b Graph \<Rightarrow> UUID \<Rightarrow> bool" where
  "openScope g scope \<longleftrightarrow> (\<exists>rs. scopeGetByID (runs g) scope = Some rs \<and> ClosedAt rs = None)"

definition walkable :: "'b Graph \<Rightarrow> UUID \<Rightarrow> UUID \<Rightarrow> UUID \<Rightarrow> bool" where
  "walkable g scope frame s \<longleftrightarrow> run_inv g \<and> sparedRun g s \<and> openScope g scope \<and> undrained g frame s"

lemma walkable_after: "walkable g scope frame s \<Longrightarrow> after env g S g' \<Longrightarrow> walkable g' scope frame s"
  using after_inv after_sparedRun after_undrained after_scopes [of env g S g'] unfolding walkable_def openScope_def scopeGetByID_def by metis

text \<open>A node that has been visited, or is reached now, has a run that waits for the sender.\<close>

definition reached :: "'b Graph \<Rightarrow> UUID \<Rightarrow> UUID \<Rightarrow> UUID \<Rightarrow> UUID \<Rightarrow> bool" where
  "reached g scope frame s node \<longleftrightarrow> (\<exists>i. waiting g node scope frame s i)"

lemma reached_after: "walkable g scope frame s \<Longrightarrow> after env g S g' \<Longrightarrow> reached g scope frame s node \<Longrightarrow> reached g' scope frame s node"
  unfolding reached_def walkable_def using after_waiting by blast

lemma waitSetInsert_waiting:
  assumes "waitSetInsert (waitRow frame i s kind) g = Inr g'" and "undrained g frame s"
    and "p \<in> set (node_rows g)" "NodeRunID p = i" "NodeID p = node" "RunScopeID p = scope" "FrameID p = frame" "State p = NodeStatePending"
    "creation_reason p = CreationReasonCascade"
  shows "waiting g' node scope frame s i"
proof -
  have rows: "node_rows g' = node_rows g" using assms(1) by (auto simp: waitSetInsert_def split: if_splits)
  have "\<exists>w \<in> set (wait_set g'). wsFrameID w = frame \<and> wsReceiver w = i \<and> wsSender w = s \<and> wsDrainedAt w = None"
  proof (cases "list_ex (sameWait (waitRow frame i s kind)) (wait_set g)")
    case True
    then obtain w where "w \<in> set (wait_set g)" "sameWait (waitRow frame i s kind) w" by (auto simp: list_ex_iff)
    moreover have "g' = g" using assms(1) True by (simp add: waitSetInsert_def)
    ultimately show ?thesis using assms(2) by (auto simp: sameWait_def waitRow_def undrained_def)
  next
    case False
    then have "waitRow frame i s kind \<in> set (wait_set g')" using assms(1) by (auto simp: waitSetInsert_def waitRow_def split: if_splits)
    then show ?thesis by (force simp: waitRow_def)
  qed
  with assms(3-9) rows show ?thesis unfolding waiting_def waitsAs_def by metis
qed

text \<open>The receiver's run that is found or created is a pending run of the cascade.\<close>

lemma resolveReceiverRunForCascade_pending:
  assumes "resolveReceiverRunForCascade env node scope frame sender s v g = Inr (Some i, v', g')"
  obtains p where "p \<in> set (node_rows g')" "NodeRunID p = i" "NodeID p = node" "RunScopeID p = scope" "FrameID p = frame"
    "State p = NodeStatePending" "creation_reason p = CreationReasonCascade"
proof -
  have "(\<exists>p. FindLatestCascadePending g node scope frame = Some p \<and> i = NodeRunID p \<and> g' = g) \<or>
      CreateCascadePending env node scope frame g = Inr (i, g')"
    using assms by (auto simp: resolveReceiverRunForCascade_def ensureCascadePending_def split: if_splits option.splits sum.splits)
  then consider (found) p where "FindLatestCascadePending g node scope frame = Some p" "i = NodeRunID p" "g' = g"
    | (new) "CreateCascadePending env node scope frame g = Inr (i, g')" by blast
  then show thesis
  proof cases
    case (found p)
    with FindLatestCascadePending_Some [OF found(1)] show thesis by (intro that [of p]) simp_all
  next
    case new
    then show thesis by (elim CreateCascadePending_rows) (rule that, auto)
  qed
qed

lemma resolveReceiverRunForCascade_reaches:
  assumes "resolveReceiverRunForCascade env node scope frame sender s v g = Inr (None, v', g')"
    and "openScope g scope" and "node \<in> set v \<Longrightarrow> reached g scope frame s node"
  shows False
proof (cases "node \<in> set v")
  case True
  then obtain p i where "p \<in> set (node_rows g)" "waitsAs g node scope frame s i p" using assms(3) unfolding reached_def waiting_def by blast
  moreover have "FindLatestCascadePending g node scope frame = None" using assms(1) True unfolding resolveReceiverRunForCascade_def by auto
  ultimately show False using latestRun_None unfolding FindLatestCascadePending_def waitsAs_def by blast
next
  case False
  then have "ensureCascadePending env node scope frame sender s g = Inl ErrRunScopeClosed"
    using assms(1) by (auto simp: resolveReceiverRunForCascade_def split: sum.splits if_splits)
  then have "CreateCascadePending env node scope frame g = Inl ErrRunScopeClosed"
    by (auto simp: ensureCascadePending_def split: option.splits if_splits)
  then show False using assms(2) by (auto simp: CreateCascadePending_def scopeFailure_def openScope_def split: option.splits if_splits)
qed

lemma waitSetInsert_after: "run_inv g \<Longrightarrow> waitSetInsert w g = Inr g' \<Longrightarrow> after env g {wsSender w} g'"
  by (rule after_step [OF after_refl]) (auto intro: cs_wait)

text \<open>One receiver of the main run scope: the walk keeps its state, the receiver is reached, and so are the nodes it has visited.\<close>

lemma cascadeReceiver_reaches:
  assumes "cascadeReceiver env (gateAt n env) wk kind r (v, g) = Inr (v', g')" and "wkScopeIsMain wk"
    and w: "walkable g (wkScope wk) (wkFrame wk) (wkSenderRun wk)"
    and v: "\<And>x. x \<in> set v \<Longrightarrow> reached g (wkScope wk) (wkFrame wk) (wkSenderRun wk) x"
  shows "after env g {wkSenderRun wk} g'" and "reached g' (wkScope wk) (wkFrame wk) (wkSenderRun wk) (nr_id r)"
    and "set v' \<subseteq> insert (nr_id r) (set v)"
proof -
  let ?s = "wkSenderRun wk"
  show "after env g {?s} g'"
    using evaluator.cascadeReceiver_after [OF after_refl _ assms(1), of "{?s}"] w by (simp add: walkable_def allowed_def)
  have "reached g' (wkScope wk) (wkFrame wk) ?s (nr_id r) \<and> set v' \<subseteq> insert (nr_id r) (set v)"
    using assms(1)
  proof (cases rule: cascadeReceiver_stages)
    case (unreached g1)
    have "after env g {?s} g1" by (rule wakeReceiver_after [OF after_refl unreached(1)]) (use w in \<open>simp add: walkable_def\<close>)
    then have "openScope g1 (wkScope wk)" "nr_id r \<in> set v \<Longrightarrow> reached g1 (wkScope wk) (wkFrame wk) ?s (nr_id r)"
      using walkable_after [OF w] reached_after [OF w] v by (auto simp: walkable_def)
    with resolveReceiverRunForCascade_reaches [OF unreached(2)] show ?thesis by blast
  next
    case (reached g1 i g2 g3)
    have "after env g {?s} g2"
      by (rule resolveReceiver_after [OF wakeReceiver_after [OF after_refl reached(1)] reached(2)]) (use w in \<open>simp add: walkable_def\<close>)
    then have w2: "walkable g2 (wkScope wk) (wkFrame wk) ?s" by (rule walkable_after [OF w])
    obtain p where "p \<in> set (node_rows g2)" "NodeRunID p = i" "NodeID p = nr_id r" "RunScopeID p = wkScope wk" "FrameID p = wkFrame wk"
      "State p = NodeStatePending" "creation_reason p = CreationReasonCascade"
      by (rule resolveReceiverRunForCascade_pending [OF reached(2)])
    with waitSetInsert_waiting [OF reached(3)] w2 have "Cascade_Props.reached g3 (wkScope wk) (wkFrame wk) ?s (nr_id r)"
      unfolding walkable_def reached_def by blast
    moreover have a3: "after env g2 {?s} g3"
      using waitSetInsert_after [OF _ reached(3)] w2 by (simp add: walkable_def waitRow_def)
    then have w3: "walkable g3 (wkScope wk) (wkFrame wk) ?s" by (rule walkable_after [OF w2])
    moreover have "after env g3 {?s} g'"
      by (rule evaluator.pullForceRefreshUpstreams_after [OF after_refl reached(4)]) (use w3 in \<open>simp add: walkable_def\<close>)
    ultimately have "Cascade_Props.reached g' (wkScope wk) (wkFrame wk) ?s (nr_id r)" using reached_after by blast
    moreover have "set v' \<subseteq> insert (nr_id r) (set v)"
      using reached(2) by (auto simp: resolveReceiverRunForCascade_def split: if_splits sum.splits)
    ultimately show ?thesis by blast
  qed (use assms(2) in simp)
  then show "reached g' (wkScope wk) (wkFrame wk) ?s (nr_id r)" and "set v' \<subseteq> insert (nr_id r) (set v)" by blast+
qed

text \<open>The invariant of the walk over edges and receivers.\<close>

definition walks :: "Walk \<Rightarrow> UUID list \<times> 'b Graph \<Rightarrow> bool" where
  "walks wk vg \<longleftrightarrow> walkable (snd vg) (wkScope wk) (wkFrame wk) (wkSenderRun wk) \<and>
     (\<forall>x \<in> set (fst vg). reached (snd vg) (wkScope wk) (wkFrame wk) (wkSenderRun wk) x)"

lemma cascadeReceiver_walks:
  assumes "walks wk (v, g)" and "wkScopeIsMain wk" and "cascadeReceiver env (gateAt n env) wk kind r (v, g) = Inr (v', g')"
  shows "walks wk (v', g')" and "reached g' (wkScope wk) (wkFrame wk) (wkSenderRun wk) (nr_id r)"
    and "reached g (wkScope wk) (wkFrame wk) (wkSenderRun wk) x \<Longrightarrow> reached g' (wkScope wk) (wkFrame wk) (wkSenderRun wk) x"
proof -
  have w: "walkable g (wkScope wk) (wkFrame wk) (wkSenderRun wk)" using assms(1) by (simp add: walks_def)
  have v: "x \<in> set v \<Longrightarrow> reached g (wkScope wk) (wkFrame wk) (wkSenderRun wk) x" for x using assms(1) by (simp add: walks_def)
  note r = cascadeReceiver_reaches [OF assms(3,2) w v]
  then show "reached g' (wkScope wk) (wkFrame wk) (wkSenderRun wk) (nr_id r)" by blast
  show keep: "reached g (wkScope wk) (wkFrame wk) (wkSenderRun wk) x \<Longrightarrow> reached g' (wkScope wk) (wkFrame wk) (wkSenderRun wk) x" for x
    using r(1) reached_after [OF w] by blast
  show "walks wk (v', g')" using r walkable_after [OF w] keep v unfolding walks_def fst_conv snd_conv by blast
qed

text \<open>A fold that keeps an invariant, establishes \<open>Q x\<close> at each element and never loses it.\<close>

lemma res_foldM_establishes:
  assumes "res_foldM F xs st = Inr st'" and "I st"
    and "\<And>x st st'. x \<in> set xs \<Longrightarrow> I st \<Longrightarrow> F x st = Inr st' \<Longrightarrow> I st' \<and> Q x st' \<and> (\<forall>y. Q y st \<longrightarrow> Q y st')"
  shows "I st' \<and> (\<forall>x \<in> set xs. Q x st') \<and> (\<forall>y. Q y st \<longrightarrow> Q y st')"
  using assms
proof (induction xs arbitrary: st)
  case (Cons x xs)
  obtain s1 where s1: "F x st = Inr s1" "res_foldM F xs s1 = Inr st'" using Cons.prems(1) by (auto split: sum.splits)
  have 1: "I s1" "Q x s1" "\<forall>y. Q y st \<longrightarrow> Q y s1" using Cons.prems(3) [of x st s1] Cons.prems(2) s1(1) by simp_all
  have "I st' \<and> (\<forall>x \<in> set xs. Q x st') \<and> (\<forall>y. Q y s1 \<longrightarrow> Q y st')"
    by (rule Cons.IH [OF s1(2) 1(1)]) (rule Cons.prems(3), simp_all)
  with 1 show ?case by simp
qed simp

text \<open>What an edge has to achieve when it fires.\<close>

definition served :: "'b Env \<Rightarrow> Walk \<Rightarrow> Signal \<Rightarrow> (string \<Rightarrow> bool) \<Rightarrow> SubscriptionEdge \<Rightarrow> UUID list \<times> 'b Graph \<Rightarrow> bool" where
  "served env wk sig flt e vg \<longleftrightarrow> (edgeFires env sig flt e \<longrightarrow>
     (\<forall>r \<in> set (wkNodes wk). nr_node_type r = ReceiverNodeType e \<longrightarrow> reached (snd vg) (wkScope wk) (wkFrame wk) (wkSenderRun wk) (nr_id r)))"

lemma cascadeEdge_serves:
  assumes "walks wk vg" and "wkScopeIsMain wk" and "cascadeEdge env (gateAt n env) wk sig flt e vg = Inr vg'"
  shows "walks wk vg' \<and> served env wk sig flt e vg' \<and> (\<forall>y. served env wk sig flt y vg \<longrightarrow> served env wk sig flt y vg')"
proof (cases "edgeFires env sig flt e")
  case True
  let ?Q = "\<lambda>(r :: NodeRow) vg. reached (snd vg) (wkScope wk) (wkFrame wk) (wkSenderRun wk) (nr_id r)"
  let ?F = "cascadeReceiver env (gateAt n env) wk (waitSetTopicKindFor (TypePattern e))"
  have step: "walks wk st' \<and> ?Q r st' \<and> (\<forall>y. ?Q y st \<longrightarrow> ?Q y st')" if "walks wk st" "?F r st = Inr st'" for r st st'
    using cascadeReceiver_walks [OF _ assms(2), of "fst st" "snd st" env n _ r "fst st'" "snd st'"] that by simp
  have fold: "res_foldM ?F (filter (\<lambda>n. nr_node_type n = ReceiverNodeType e) (wkNodes wk)) vg = Inr vg'"
    using assms(3) True by (simp add: cascadeEdge_def)
  have "walks wk vg' \<and> (\<forall>r \<in> set (filter (\<lambda>n. nr_node_type n = ReceiverNodeType e) (wkNodes wk)). ?Q r vg') \<and> (\<forall>y. ?Q y vg \<longrightarrow> ?Q y vg')"
    by (rule res_foldM_establishes [OF fold, where I = "walks wk" and Q = ?Q]) (use step assms(1) in blast)+
  then show ?thesis unfolding served_def set_filter by blast
qed (use assms in \<open>simp add: cascadeEdge_def served_def\<close>)

lemma cascadeEdges_serve:
  assumes "res_foldM (cascadeEdge env (gateAt n env) wk sig flt) es vg = Inr vg'" and "walks wk vg" and "wkScopeIsMain wk" and "e \<in> set es"
  shows "served env wk sig flt e vg'"
  using res_foldM_establishes [OF assms(1), where I = "walks wk" and Q = "served env wk sig flt"] cascadeEdge_serves assms(2-4) by blast


subsection \<open>Settlement\<close>

lemma upsertDataFromDispatchInputBagIfEmpty_attrs:
  "upsertDataFromDispatchInputBagIfEmpty env run node g = Inr g' \<Longrightarrow> \<exists>a. g' = g\<lparr>attrs := a\<rparr>"
proof -
  assume "upsertDataFromDispatchInputBagIfEmpty env run node g = Inr g'"
  then have "g' = g \<or> (\<exists>f. attrWrite f g = Inr g')"
    by (auto simp: upsertDataFromDispatchInputBagIfEmpty_def res_bind_Inr_iff split: if_splits)
  then show ?thesis by (auto dest: attrWrite_Inr intro: exI [of _ "attrs g"])
qed

text \<open>The settlement of a run up to the draining of its wait set.\<close>

lemma EmitTerminalSuccessAndDrainInTx_stages:
  assumes "EmitTerminalSuccessAndDrainInTx env (gateAt n env) sd summary g = Inr g'" and "run_inv g"
  obtains g3 where "run_inv g3" "evolution g g3" "drainWaitSetOnSettled env (gateAt n env) (sdFrameID sd) (sdRunID sd) g3 = Inr g'"
proof -
  obtain g1 g2 v g3 where em: "emitSignalInTxOnce env (gateAt n env) sd (BuildTerminalSuccessSignal False (Some []) summary []) g = Inr g1"
    and up: "upsertDataFromDispatchInputBagIfEmpty env (sdRunID sd) (sdNodeID sd) g1 = Inr g2"
    and at: "emitAttributeChangesForRunInTx env (gateAt n env) sd [] (\<lambda>_. True) g2 = Inr (v, g3)"
    and dr: "drainWaitSetOnSettled env (gateAt n env) (sdFrameID sd) (sdRunID sd) g3 = Inr g'"
    using assms(1) by (auto simp: EmitTerminalSuccessAndDrainInTx_def res_bind_Inr_iff)
  have ok: "allowed h {sdRunID sd} (sdRunID sd)" for h :: "'a Graph" by (simp add: allowed_def)
  have a1: "after env g {sdRunID sd} g1" by (rule evaluator.emitSignalInTxOnce_after [OF after_refl [OF assms(2)] ok em])
  obtain a where g2: "g2 = g1\<lparr>attrs := a\<rparr>" using upsertDataFromDispatchInputBagIfEmpty_attrs [OF up] by blast
  have inv2: "run_inv g2" using after_inv [OF a1] by (simp add: g2 queue_step_attrs)
  have a3: "after env g2 {sdRunID sd} g3" by (rule evaluator.emitAttributeChanges_after [OF after_refl [OF inv2] ok at])
  have "evolution g1 g2" unfolding g2 by (rule evolution_same) simp_all
  then have "evolution g g3" using after_evolution [OF a1] after_evolution [OF a3] evolution_trans by blast
  then show thesis by (rule that [OF after_inv [OF a3] _ dr])
qed

lemma drain_after_mark:
  assumes "drainWaitSetOnSettled env (gateAt n env) frame s g = Inr g'" and "run_inv g"
  shows "after env (MarkDrainedBySender env frame s g) {} g'"
proof -
  have "run_inv (MarkDrainedBySender env frame s g)" using assms(2) by (simp add: MarkDrainedBySender_def queue_step_attrs)
  then show ?thesis by (rule evaluator.drain_rest_after [OF after_refl assms(1)])
qed

lemma mark_evolution: "evolution g (MarkDrainedBySender env frame s g)"
  by (rule evolution_same) (simp_all add: MarkDrainedBySender_def)

lemma run_evolves_spared: "run_evolves r r' \<Longrightarrow> spared (State r) \<Longrightarrow> State r' = State r \<and> SettlingSignalType r' = SettlingSignalType r \<and> Changed r' = Changed r"
  unfolding run_evolves_def using becomes_spared by blast


lemma loadGraph_inv: "run_inv loadGraph"
  by (simp add: run_inv_def keyed_def serialized_def sequenced_def loadGraph_def exampleGraph_def loadRun_def baseRow_def siblings_def)

lemma loadRun_in_loadGraph: "loadRun \<in> set (node_rows loadGraph)" "State loadRun = NodeStateFresh" "NodeRunID loadRun = 5"
  by (simp_all add: loadGraph_def exampleGraph_def loadRun_def baseRow_def)

lemma load_settled:
  obtains g where "EmitTerminalSuccessAndDrainInTx reportEnv (gateAt 1 reportEnv) loadSender [] loadGraph = Inr g"
    and "runsAndWaits g = ([(5, 7, NodeStateFresh), (10, 9, NodeStateStale)], [(4, 10, 5, Some 5)])"
  using load_settles by (cases "EmitTerminalSuccessAndDrainInTx reportEnv (gateAt 1 reportEnv) loadSender [] loadGraph") auto


text \<open>Only runs in flight, and runs the drain itself settles, become senders that runs wait for.\<close>

lemma after_settled:
  assumes "after env g0 S g" and "r \<in> set (node_rows g0)" and "State r \<in> {NodeStateFresh, NodeStateFailed}"
  shows "\<not> inFlight g (NodeRunID r)"
proof
  assume "inFlight g (NodeRunID r)"
  then obtain x where x: "x \<in> set (node_rows g)" "NodeRunID x = NodeRunID r" "IsInFlight (State x)" by (auto simp: inFlight_def)
  have sp: "spared (State r)" using assms(3) by (auto simp: spared_def)
  then obtain r' where r': "r' \<in> set (node_rows g)" "run_evolves r r'" using after_evolution [OF assms(1)] assms(2) unfolding evolution_def by blast
  then have "x = r'" using run_inv_same [OF after_inv [OF assms(1)] x(1) r'(1)] x(2) by (simp add: run_evolves_def)
  with run_evolves_spared [OF r'(2) sp] x(3) assms(3) show False by auto
qed

lemma drain_leaves_nobody:
  assumes "drainWaitSetOnSettled env (gateAt n env) frame s g = Inr g'" and "run_inv g"
    and "r \<in> set (node_rows g)" and "NodeRunID r = s" and "State r \<in> {NodeStateFresh, NodeStateFailed}"
    and "w \<in> set (wait_set g')" and "wsFrameID w = frame" and "wsSender w = s"
  shows "wsDrainedAt w \<noteq> None"
proof -
  let ?g = "MarkDrainedBySender env frame s g"
  have a: "after env ?g {} g'" by (rule drain_after_mark [OF assms(1,2)])
  have rows: "node_rows ?g = node_rows g" by (simp add: MarkDrainedBySender_def)
  have "sparedRun ?g s" using assms(3-5) unfolding sparedRun_def rows spared_def by blast
  then have fixed: "\<not> movable ?g s" by (rule sparedRun_not_movable [OF after_start [OF a]])
  have "\<forall>w \<in> set (wait_set g'). wsFrameID w = frame \<longrightarrow> wsSender w = s \<longrightarrow> wsDrainedAt w \<noteq> None"
    using a
  proof (induction rule: after_induct)
    case start
    show ?case by (auto simp: MarkDrainedBySender_def ball_update_where)
  next
    case (step g1 g2)
    have idle: "\<not> inFlight g1 s" using after_settled [OF step(2), of r] assms(3-5) rows by simp
    show ?case
    proof (intro ballI impI)
      fix x assume x: "x \<in> set (wait_set g2)" "wsFrameID x = frame" "wsSender x = s"
      from step(3) x(1) show "wsDrainedAt x \<noteq> None"
        by (cases rule: cascade_step_rows_of_wait_set) (use step(4) x(2,3) idle fixed in auto)
    qed
  qed
  with assms(6-8) show ?thesis by blast
qed



subsection \<open>Gates\<close>

lemma gateOpen_True:
  "gateOpen env g p = Inr True \<longleftrightarrow> State p = NodeStatePending \<and> \<not> undrainedFor g (FrameID p) (NodeRunID p) \<and> anySubscribedUpstreamInFlight env g p = Inr False"
  by (auto simp: gateOpen_def HasUndrainedRowsForReceiver_def res_bind_Inr_iff)

lemma after_pending:
  assumes "after env g0 S g" and "pendingRun g0 i"
  shows "pendingRun g i \<or> (\<exists>h p. after env g0 S h \<and> p \<in> set (node_rows h) \<and> NodeRunID p = i \<and> gateOpen env h p = Inr True)"
  using assms(1)
proof (induction rule: after_induct)
  case (step h h')
  show ?case
  proof (cases "pendingRun h i")
    case True
    then obtain p where p: "p \<in> set (node_rows h)" "NodeRunID p = i" "State p = NodeStatePending" by (auto simp: pendingRun_def)
    with cascade_step_pending [OF step(3,1) p(1,3)] step(2) show ?thesis by blast
  qed (use step(4) in blast)
qed (use assms(2) in blast)


lemma waitingGraph_emission: "emitSignalInTxOnce reportEnv (gateAt 1 reportEnv) loadSender (BuildTerminalSuccessSignal False (Some []) [] []) loadGraph = Inr waitingGraph"
proof (cases "emitSignalInTxOnce reportEnv (gateAt 1 reportEnv) loadSender (BuildTerminalSuccessSignal False (Some []) [] []) loadGraph")
  case (Inl e)
  then have "waitingGraph = loadGraph" by (simp add: waitingGraph_def)
  with waitingGraph_waits show ?thesis by (simp add: runsAndWaits_def loadGraph_def exampleGraph_def)
qed (simp add: waitingGraph_def)

lemma waitingGraph_inv: "run_inv waitingGraph"
  by (rule after_inv [OF evaluator.emitSignalInTxOnce_after [OF after_refl [OF loadGraph_inv] _ waitingGraph_emission, where S = "{5}"]])
    (simp add: allowed_def loadSender_def)



end
