(* ===== verification/Cascade_Settlement.thy ===== *)
theory Cascade_Settlement
  imports Cascade_Props Claim_Settlement
begin

text \<open>
  Claim settlement and the cascade together. \<open>withCascade\<close> gives claim settlement the cascade it calls for a held run whose claims
  are resolved (\<open>lib/runtime/held_cascade_defer.go\<close>): the emission starts with no visited nodes, and draining evaluates the gates.
\<close>

definition withCascade :: "nat \<Rightarrow> 'b Env \<Rightarrow> 'b Env" where
  "withCascade n env = env
     \<lparr>emitSignal := (\<lambda>em g. res_bind (emitSignalInTxWithFilter env (gateAt n env) em [] g) (\<lambda>(visited, g'). Inr g')),
      drainWaitSet := drainWaitSetOnSettled env (gateAt n env)\<rparr>"

lemma withCascade_simps [simp]:
  "dbNow (withCascade n env) = dbNow env" "nodesGet (withCascade n env) = nodesGet env"
  "emitSignal (withCascade n env) em g = res_bind (emitSignalInTxWithFilter env (gateAt n env) em [] g) (\<lambda>(visited, g'). Inr g')"
  "drainWaitSet (withCascade n env) = drainWaitSetOnSettled env (gateAt n env)"
  by (simp_all add: withCascade_def nodesGet_def fun_eq_iff)

lemma out_bind_Done_iff: "out_bind m f = Done b \<longleftrightarrow> (\<exists>a. m = Done a \<and> f a = Done b)"
  by (cases m) auto

lemma out_lift_Done_iff: "out_lift k m = Done a \<longleftrightarrow> m = Inr a"
  by (cases m) auto

text \<open>What settling a held run does to the graph: nothing, or its row is settled and nothing follows because its node is gone, or the signal is emitted
  and the wait set is drained.\<close>

definition settledRows :: "UUID \<Rightarrow> NodeState \<Rightarrow> string \<Rightarrow> 'b Graph \<Rightarrow> 'b Graph \<Rightarrow> bool" where
  "settledRows i st sig g g2 \<longleftrightarrow> run_inv g2 \<and> next_id g2 = next_id g \<and>
     node_rows g2 = update_where (\<lambda>x. NodeRunID x = i) (\<lambda>x. x\<lparr>State := st, SettlingSignalType := Some sig, Changed := False\<rparr>) (node_rows g)"

lemma settled_rows:
  assumes "nodesUpdateState now i st rs (Some sig) g = Inr g1" and "recordRunTreeChanged i st (Some sig) False (runs g1) = Inr rn"
    and "run_inv g" and "st \<noteq> NodeStateHeld" and "st \<noteq> NodeStateParked"
  shows "settledRows i st sig g (g1\<lparr>runs := rn\<rparr>)"
  unfolding settledRows_def
proof (intro conjI)
  show "run_inv (g1\<lparr>runs := rn\<rparr>)" by (rule recordRunTreeChanged_inv [OF assms(2) nodesUpdateState_inv [OF assms(1,3)] assms(4,5)])
  show "node_rows (g1\<lparr>runs := rn\<rparr>) = update_where (\<lambda>x. NodeRunID x = i) (\<lambda>x. x\<lparr>State := st, SettlingSignalType := Some sig, Changed := False\<rparr>) (node_rows g)"
    using recordRunTreeChanged_rows(1) [OF assms(2)] nodesUpdateState_rows(1) [OF assms(1)] by (simp add: update_where_twice)
qed (simp add: nodesUpdateState_rows(2) [OF assms(1)])

lemma settleHolder_stages:
  assumes "settleHolder (withCascade n env) h poisoned g = Done (post, g')" and "run_inv g"
  obtains (raced) "post = []" "g' = g"
  | (gone) st sig where "post = []" "settledRows (NodeRunID h) st sig g g'"
  | (settled) st sig g2 em v g3 where "st \<in> {NodeStateFresh, NodeStateFailed}" "settledRows (NodeRunID h) st sig g g2"
      "emSenderNodeRunID em = NodeRunID h" "emitSignalInTxWithFilter env (gateAt n env) em [] g2 = Inr (v, g3)"
      "drainWaitSetOnSettled env (gateAt n env) (FrameID h) (NodeRunID h) g3 = Inr g'"
proof -
  let ?st = "if poisoned then NodeStateFailed else NodeStateFresh"
  let ?reason = "if poisoned then ReasonAutoTerminalAbandon else ReasonAutoTerminalCommit"
  let ?type = "if poisoned then ''terminal/error/abandoned'' else ''terminal/success''"
  let ?em = "\<lambda>node t sig. \<lparr>emSenderID = NodeID h, emSenderNodeType = nr_node_type node, emSenderNodeRunID = NodeRunID h,
      emInstanceID = nr_instance_id node, emFrameID = FrameID h, emSignal = sig, emFilter = subgraphNonMemberFilter t (nr_node_type node)\<rparr>"
  let ?upd = "nodesUpdateState (dbNow env) (NodeRunID h) ?st ?reason (Some ?type) g"
  let ?rest = "\<lambda>sig g1. out_bind (out_lift RunTreeError (recordRunTreeChanged (NodeRunID h) ?st (Some ?type) False (runs g1))) (\<lambda>rs.
            let g2 = g1\<lparr>runs := rs\<rparr> in
            case nodesGet env (NodeID h) of
              None \<Rightarrow> Done ([], g2)
            | Some node \<Rightarrow>
                out_bind (loadTemplateSpec (withCascade n env) (nr_instance_id node)) (\<lambda>t.
                out_bind (out_lift id (emitSignal (withCascade n env) (?em node t sig) g2)) (\<lambda>g3.
                out_bind (out_lift id (drainWaitSet (withCascade n env) (FrameID h) (NodeRunID h) g3)) (\<lambda>g4.
                Done ([PropagateIfChild (NodeRunID h)], g4)))))"
  obtain sig where k: "(case ?upd of Inl (StateError (ErrIllegalTransition st rs)) \<Rightarrow> Done ([], g) | Inl e \<Rightarrow> Fail e | Inr g1 \<Rightarrow> ?rest sig g1) = Done (post, g')"
    using assms(1) unfolding settleHolder_def Let_def out_bind_Done_iff [of "if poisoned then _ else _"] withCascade_simps by blast
  show thesis
  proof (cases ?upd)
    case (Inl e)
    with k have "post = []" "g' = g" by (auto split: settle_error.splits cascade_error.splits)
    then show thesis by (rule raced)
  next
    case (Inr g1)
    with k have "?rest sig g1 = Done (post, g')" by simp
    then obtain rs where rs: "recordRunTreeChanged (NodeRunID h) ?st (Some ?type) False (runs g1) = Inr rs"
      and k2: "(case nodesGet env (NodeID h) of
              None \<Rightarrow> Done ([], g1\<lparr>runs := rs\<rparr>)
            | Some node \<Rightarrow>
                out_bind (loadTemplateSpec (withCascade n env) (nr_instance_id node)) (\<lambda>t.
                out_bind (out_lift id (emitSignal (withCascade n env) (?em node t sig) (g1\<lparr>runs := rs\<rparr>))) (\<lambda>g3.
                out_bind (out_lift id (drainWaitSet (withCascade n env) (FrameID h) (NodeRunID h) g3)) (\<lambda>g4.
                Done ([PropagateIfChild (NodeRunID h)], g4))))) = Done (post, g')"
      unfolding Let_def out_bind_Done_iff [of "out_lift RunTreeError _"] out_lift_Done_iff by blast
    have rows: "settledRows (NodeRunID h) ?st ?type g (g1\<lparr>runs := rs\<rparr>)" by (rule settled_rows [OF Inr rs assms(2)]) simp_all
    show thesis
    proof (cases "nodesGet env (NodeID h)")
      case None
      with k2 have "post = []" "g' = g1\<lparr>runs := rs\<rparr>" by simp_all
      with gone rows show thesis by blast
    next
      case (Some node)
      with k2 obtain t v g3 where "emitSignalInTxWithFilter env (gateAt n env) (?em node t sig) [] (g1\<lparr>runs := rs\<rparr>) = Inr (v, g3)"
        "drainWaitSetOnSettled env (gateAt n env) (FrameID h) (NodeRunID h) g3 = Inr g'"
        by (auto simp: out_bind_Done_iff out_lift_Done_iff res_bind_Inr_iff)
      then show thesis by (rule settled [OF _ rows, rotated 2]) simp_all
    qed
  qed
qed

definition sparesOthers :: "UUID \<Rightarrow> 'b Graph \<Rightarrow> 'b Graph \<Rightarrow> bool" where
  "sparesOthers i g g' \<longleftrightarrow> (\<forall>r \<in> set (node_rows g). NodeRunID r \<noteq> i \<longrightarrow> spared (State r) \<longrightarrow> (\<exists>r' \<in> set (node_rows g'). run_evolves r r'))"

lemma sparesOthers_refl: "sparesOthers i g g"
  unfolding sparesOthers_def using run_evolves_refl by blast

lemma settledRows_others:
  assumes "settledRows i st sig g g2" and "evolution g2 g'"
  shows "sparesOthers i g g'"
  unfolding sparesOthers_def
proof (intro ballI impI)
  fix r assume r: "r \<in> set (node_rows g)" "NodeRunID r \<noteq> i" "spared (State r)"
  then have "r \<in> set (node_rows g2)" using assms(1) by (force simp: settledRows_def set_update_where)
  with r(3) assms(2) show "\<exists>r' \<in> set (node_rows g'). run_evolves r r'" unfolding evolution_def by blast
qed

lemma settleHolder_cascades:
  assumes "settleHolder (withCascade n env) h poisoned g = Done (post, g')" and "run_inv g" and h: "h \<in> set (node_rows g)"
  shows "run_inv g' \<and> sparesOthers (NodeRunID h) g g' \<and>
    (post \<noteq> [] \<longrightarrow> (\<forall>x \<in> set (wait_set g'). wsFrameID x = FrameID h \<longrightarrow> wsSender x = NodeRunID h \<longrightarrow> wsDrainedAt x \<noteq> None))"
  using assms(1,2)
proof (cases rule: settleHolder_stages)
  case raced
  then show ?thesis using assms(2) sparesOthers_refl by simp
next
  case (gone st sig)
  then show ?thesis using settledRows_others [OF gone(2) evolution_same] by (simp add: settledRows_def)
next
  case (settled st sig g2 em v g3)
  have inv2: "run_inv g2" using settled(2) by (simp add: settledRows_def)
  have a3: "after env g2 {NodeRunID h} g3"
    by (rule evaluator.emitSignal_after [OF after_refl [OF inv2] _ settled(4)]) (simp add: allowed_def settled(3))
  have a4: "after env (MarkDrainedBySender env (FrameID h) (NodeRunID h) g3) {} g'" by (rule drain_after_mark [OF settled(5) after_inv [OF a3]])
  have ev: "evolution g2 g'" using after_evolution [OF a3] mark_evolution after_evolution [OF a4] evolution_trans by blast
  let ?h = "h\<lparr>State := st, SettlingSignalType := Some sig, Changed := False\<rparr>"
  have "?h \<in> set (node_rows g2)" using settled(2) h by (force simp: settledRows_def set_update_where)
  moreover have sp: "spared (State ?h)" using settled(1) by (auto simp: spared_def)
  ultimately obtain r where r: "r \<in> set (node_rows g3)" "run_evolves ?h r" using after_evolution [OF a3] unfolding evolution_def by blast
  have "State r \<in> {NodeStateFresh, NodeStateFailed}" "NodeRunID r = NodeRunID h"
    using run_evolves_spared [OF r(2) sp] run_evolves_identity(1) [OF r(2)] settled(1) by simp_all
  then have "\<forall>x \<in> set (wait_set g'). wsFrameID x = FrameID h \<longrightarrow> wsSender x = NodeRunID h \<longrightarrow> wsDrainedAt x \<noteq> None"
    using drain_leaves_nobody [OF settled(5) after_inv [OF a3] r(1)] by blast
  then show ?thesis using after_inv [OF a4] settledRows_others [OF settled(2) ev] by blast
qed


subsection \<open>An example\<close>

text \<open>The run of \<open>load\<close> is held and all its claims are resolved.\<close>

definition heldWorld :: "unit World" where
  "heldWorld = \<lparr>claims = \<lparr>claim_handles = [], claim_holders = [], verb_outbox = [], last_seq = 0\<rparr>,
     graph = exampleGraph [loadRun\<lparr>State := NodeStateHeld\<rparr>], lineage = [], events = [], effects = []\<rparr>"

lemma held_settles:
  "map_outcome (\<lambda>(post, w). (length post, runsAndWaits (graph w))) (transitionHolderIfFullyResolved (withCascade 1 reportEnv) 5 heldWorld) =
     Done (1, [(5, 7, NodeStateFresh), (10, 9, NodeStateStale)], [(4, 10, 5, Some 5)])"
  by code_simp

lemma heldWorld_inv: "run_inv (graph heldWorld)"
  by (simp add: run_inv_def keyed_def serialized_def sequenced_def heldWorld_def exampleGraph_def loadRun_def baseRow_def siblings_def)


end
