(* ===== verification/Spec2Isabelle.thy ===== *)
theory Spec2Isabelle
  imports Cascade_State Signal_Taxonomy Auth_Grants Run_Tree_Store Claim_Store_Props Template_Validator_Props Attribute_Bags_Props Producer_Verb_Dispatch
    Claim_Acquisition_Props Sub_Claims_Props Dispatch_Queue_Props Cascade_Settlement
begin

text \<open>
  A model of the core of rimsky, an engine that runs graphs of nodes. A template describes a graph; an instance
  of it has nodes; a node is executed by a run, which a supervisor claims, dispatches and settles. While it
  executes, a run holds claims: handles on resources that claim producers (external services) open for it,
  and that are committed or abandoned when the run settles. Runs and claims both form trees, because a node can
  fan out into partitions. Runs settle with a signal, and signals trigger the nodes that subscribe to them.

  \<^bold>\<open>Vocabulary.\<close> \<open>Prelude\<close> has the types and library fragments the components share: identifiers and times, Go's
  string functions, tables as lists of rows with a key, guarded updates, int64 wrap-around.

  \<^bold>\<open>States and signals.\<close> \<open>Cascade_State\<close> is the state machine of a run (lib/foundation/cascade/state.go): settled
  states are final, claims and parks of a history balance. \<open>Signal_Taxonomy\<close> has the type-paths, the closed set of
  paths that can be emitted and the validation of subscriptions (lib/foundation/signal): the taxonomy accepts
  exactly the emittable paths, and concrete subscriptions match exactly what is emitted.

  \<^bold>\<open>Authorisation.\<close> \<open>Auth_Grants\<close> has actions, scopes and grants (lib/foundation/auth): the check decides by the
  most specific entry, and grant entries survive their JSON codec.

  \<^bold>\<open>Runs.\<close> \<open>Run_Tree\<close> has the aggregation policies (lib/runtime/run\_tree.go, lib/foundation/spec/aggregation\_policy.go):
  they refine a declarative rule, decide once and decide when all children have settled. \<open>Run_Tree_Store\<close> has the run
  and run-scope tables (lib/foundation/persistence/sqlite/run\_tree.go, run\_scopes.go) and the upward propagation
  (lib/runtime/state\_propagation.go). The walk up the tree has as much fuel as there are runs: each step goes to a
  run with a smaller position, so it terminates, and it leaves the ancestors in agreement with their children.

  \<^bold>\<open>Attributes.\<close> \<open>Attribute_Bags\<close> has the attribute table with its spill of large values to a blob backend, the
  orphan queue and its sweeper; \<open>Attribute_Bags_Props\<close> proves over the interface \<open>blob_backend\<close> that sweeping never
  deletes a bag in use. The memory backend interprets the interface.

  \<^bold>\<open>Templates.\<close> \<open>Template_Model\<close> has the template records, the kind sugar and the holding subgraphs
  (lib/foundation/spec, lib/graph/node/kind\_resolver.go, holding\_subgraph.go). \<open>Json_Values\<close> has decoded JSON documents and
  their merge (lib/foundation/shared/jsonmerge.go).

  \<^bold>\<open>Directives.\<close> \<open>Directives\<close> has the substitution of \<open>{{...}}\<close> in attribute sources at dispatch
  (lib/graph/attribute/substitution.go), \<open>Directive_Checks\<close> their checks at registration
  (lib/graph/node/template\_validator\_directives.go), and \<open>Directive_Soundness\<close> proves that what registration accepts
  fails at dispatch only for missing values. The regular expressions are written as scanners.

  \<^bold>\<open>Edges.\<close> \<open>Cycle_Search\<close> has the depth-first searches for cycles and proves them exact; they take the depth they may
  still reach, and the number of nodes plus one is enough because a path repeats no node. \<open>Subscription_Edges\<close> has the
  trie of subscriptions, the references in directives and the hard dependencies (lib/graph/node/subscription\_edges.go,
  hard\_dep\_edges.go); \<open>Subscription_Matching\<close> proves that the trie refines a comparison of path segments.

  \<^bold>\<open>Validation of templates.\<close> A check is a function to a report, the list of its findings in the order the code appends
  them (\<open>Validation_Report\<close>, with the predicate compiler of lib/foundation/signal/cel.go). \<open>Holds_Checks\<close>,
  \<open>Graph_Canonical\<close>, \<open>Message_Checks\<close> and \<open>Attribute_Schema_Checks\<close> have the files
  lib/graph/node/template\_validator\_holds.go, \_graphs.go, \_messages.go and \_attrschema.go, and \<open>Template_Validator\<close> has
  template\_validator.go with \<open>ValidateTemplate\<close>, which canonicalises the graphs of a template and runs all checks.
  \<open>Graph_Canonical_Props\<close> proves that the breadth-first searches compute reachability, and \<open>Template_Validator_Props\<close> that an accepted
  template is well formed: all references resolve and the edges the runtime needs can be built. JSON, JSON Schema, the CEL
  compiler and duration parsing are the parameters \<open>JsonCodec\<close> and \<open>Libraries\<close>; the theorems assume nothing of them.

  \<^bold>\<open>Claim tables.\<close> \<open>Claim_Store\<close> has every statement of the tables of handles, holders and queued verbs
  (lib/foundation/persistence/sqlite/claim\_handles.go, claim\_holders.go, producer\_verb\_outbox.go).
  \<open>Claim_Store_Props\<close> states what claimant-guarded writes promise as the locale \<open>claimant_write\<close>, interprets it for each
  of them and proves the table invariants over all step sequences.

  \<^bold>\<open>Dispatch queue.\<close> \<open>Run_Rows\<close> has the run methods of the node table (lib/foundation/persistence/sqlite/nodes.go) and
  \<open>Dispatch_Queue\<close> the statements of the queue and of parking (queue.go, queue\_park.go) with the wake-up of parked
  runs (lib/runtime/wake\_parked.go, sweep\_parked.go). The unique index that admits one claimed, held or parked run per node
  and run scope is written out where a statement may run into it. \<open>Dispatch_Queue_Props\<close> collects the statements in the
  step relation \<open>queue_step\<close> and proves mutual exclusion over all its sequences, that a claim excludes the
  other supervisors, and that the pages of candidates are contiguous.

  \<^bold>\<open>Gates.\<close> \<open>Wait_Set\<close> has the table that says which run waits for which sender
  (lib/foundation/persistence/sqlite/wait\_set.go). \<open>Attribute_Resolution\<close> has the loaders of template edges, the
  attribute documents of the senders of a run and the substitution of a schema (lib/runtime/subscription\_loaders.go,
  substitution\_context.go, runner\_dispatch.go). \<open>Gate_Evaluation\<close> has the evaluation of the gate of a pending run
  (lib/runtime/gate\_evaluator.go): its probes, the resolution of its bag, the cascade modes and its admission. \<open>Error_Policy\<close> has the
  evaluation of error policies with retry counter and backoff (lib/graph/node/policy.go, backoff.go, and the lookups of
  lib/runtime/runner\_error\_policy.go) and proves that the retry budget is exact.

  \<^bold>\<open>Cascade.\<close> \<open>Cascade_Walk\<close> has the cascade of a signal (lib/runtime/runner\_terminal.go, cascade\_walker.go,
  signal\_emit.go, attribute\_cascade.go, pure\_cascade\_settle.go): the walk to the subscribers, the refresh of upstreams, the
  draining of the wait set, and the settlement by the error policy of a run whose attributes cannot be resolved. Draining evaluates gates,
  and a gate may settle its run, which cascades again; every function takes gate evaluation as an argument, and \<open>gateAt\<close>
  closes the recursion with a bound on the nesting. \<open>Cascade_Depth\<close> proves that the bound does not influence results that do not
  exhaust it (the locale \<open>deeper_gate\<close>), and that a bound of one is enough where no attribute can fail to resolve.
  \<open>Cascade_Steps\<close> lists the statements of a cascade as the relation \<open>cascade_step\<close>, with the invariant of the run table and the
  evolution of the runs; the locale \<open>gate_client\<close> shows that each function of the walk is a sequence of such steps if
  gate evaluation is, and \<open>Cascade_Gates\<close> closes the induction and interprets the locale on \<open>gateAt\<close>. On this basis
  \<open>Cascade_Props\<close> proves that every subscriber is reached, that pending runs are admitted only through open gates, that a settled run
  blocks nobody, and that running, held and settled runs are spared.

  \<^bold>\<open>Settlement.\<close> \<open>Signals\<close>, \<open>Settlement_World\<close> and \<open>Claim_Settlement\<close> have the resolution of a handle, the cancellation of
  descendants and siblings, the settlement of a fan-out parent, the held-run transition and the automatic terminal
  (lib/runtime/terminal\_decision*.go, child\_execution.go, held\_cascade\_defer.go, auto\_terminal.go). These functions
  call each other; the model takes fuel. \<open>Settlement_Evolution\<close> describes their effect on the tables as a relation and
  \<open>Claim_Settlement_Props\<close> proves, by one induction in the locale \<open>claim_resolver\<close>, that the number of handles plus the
  number of active handles plus one is enough fuel, that each resolved claim gets one verb, and how outcomes are decided. The cascade that a held run sets off
  when its claims are resolved is a parameter of these theories; \<open>Cascade_Settlement\<close> instantiates it with the model of the
  cascade and proves that the two fit together.

  \<^bold>\<open>Delivery.\<close> \<open>Producer_Verb_Dispatch\<close> has the dispatcher that delivers the queued verbs and the barrier that
  flushes conflicting ones (lib/runtime/producer\_verb\_outbox.go): verbs of one scope are delivered in order, and the
  backoff is bounded.

  \<^bold>\<open>Acquisition.\<close> \<open>Claim_Acquisition\<close> has the acquisition of one named lock or claim (lib/runtime/runner\_acquire*.go,
  lib/foundation/locks/conflict.go); \<open>Claim_Acquisition_Props\<close> proves that writers exclude each other and that named locks
  respect their limits. \<open>Sub_Claims\<close> and \<open>Sub_Claims_Props\<close> have the partition of a held claim (lib/runtime/runner\_subclaim.go).

  \<^bold>\<open>Conventions.\<close> A Go function that returns an error is a function into a sum whose left side is the error. Database
  errors other than violated constraints, cancelled contexts, logs and metrics are left out. A transaction that fails is rolled
  back by its caller, so states next to an error matter only where the source has effects outside the database; such
  effects are recorded in order. Services, clocks, hashes and random identifiers are parameters.

  \<^bold>\<open>Not modelled.\<close> The Postgres backend (the same contracts as the SQLite one), generated gRPC code, HTTP handlers,
  process supervision, configuration loading and the bundled services are input and output around the core. The frame
  engine, the dispatch loop of the runner with its calls to executors, the terminal events of executors, the scheduler and the
  tables for instances, messages and events are not modelled. The error policy is modelled for runs that fail at their gate,
  which hold no locks, claims or scratch.
\<close>

end
